(* ===== verification/Prelude.thy ===== *)
theory Prelude
  imports Main "HOL-Library.Word"
begin

unbundle bit_operations_syntax

text \<open>
  Shared vocabulary of the development: names for the machine integers of the
  kernel, the idioms its Rust code uses again and again (a bounded search over
  a table, a saturating increment, a slice copy into an array, big and little
  endian fields), and the generic facts about them.  \<open>usize\<close> values that index
  kernel tables are \<^typ>\<open>nat\<close>; integers whose width matters keep it as words;
  the \<open>i64\<close> result of a system call is an \<^typ>\<open>int\<close>.
\<close>

type_synonym u8 = "8 word"
type_synonym u16 = "16 word"
type_synonym u32 = "32 word"
type_synonym u64 = "64 word"
type_synonym bytes = "8 word list"

text \<open>The value of an \<open>i64\<close> sum or product, which wraps around.\<close>

definition i64 :: "int \<Rightarrow> int" where
  "i64 x = signed_take_bit 63 x"

text \<open>A byte-string literal \<open>b"..."\<close>.\<close>

definition bstr :: "string \<Rightarrow> bytes" where
  "bstr s = map of_char s"

lemma length_bstr [simp]: "length (bstr s) = length s"
  by (simp add: bstr_def)

text \<open>The characters of a byte string, \<open>core::str::from_utf8\<close> where the bytes are known to be valid.\<close>

definition bytes_str :: "bytes \<Rightarrow> string" where
  "bytes_str bs = map (\<lambda>b. char_of (unat b)) bs"

lemma length_bytes_str [simp]: "length (bytes_str bs) = length bs"
  by (simp add: bytes_str_def)

lemma unat_of_char [simp]: "unat (of_char c :: u8) = of_char c"
proof -
  have "(of_char c :: u8) = of_nat (of_char c)" by (simp only: of_nat_of_char)
  moreover have "(of_char c :: nat) < 2 ^ LENGTH(8)" using nat_of_char_less_256 [of c] by simp
  ultimately show ?thesis by (simp only: unat_of_nat take_bit_nat_eq_self_iff) (simp add: take_bit_nat_eq_self)
qed

lemma of_char_unat [simp]: "of_char (char_of (unat (b :: u8))) = b"
proof -
  have "(of_char (char_of (unat b)) :: nat) = unat b"
    using unsigned_less [of b, where ?'a = nat] by (simp add: of_char_of)
  then have "(of_nat (of_char (char_of (unat b))) :: u8) = of_nat (unat b)" by (simp only:)
  then show ?thesis by (simp only: of_nat_of_char of_nat_unat ucast_id)
qed

lemma bytes_str_bstr [simp]: "bytes_str (bstr s) = s"
  by (simp add: bytes_str_def bstr_def comp_def)

lemma bstr_bytes_str [simp]: "bstr (bytes_str bs) = bs"
  by (simp add: bytes_str_def bstr_def comp_def)

named_theorems kdefs \<open>constants of the kernel sources\<close>
named_theorems kinv \<open>preservation of component invariants\<close>

section \<open>Bounded table searches\<close>

text \<open>A loop \<open>for i in 0..N { if P(table[i]) { return i } }\<close>.\<close>

fun first_index :: "('a \<Rightarrow> bool) \<Rightarrow> 'a list \<Rightarrow> nat option" where
  "first_index P [] = None"
| "first_index P (x # xs) = (if P x then Some 0 else map_option Suc (first_index P xs))"

lemma first_index_None: "first_index P xs = None \<longleftrightarrow> (\<forall>x \<in> set xs. \<not> P x)"
  by (induction xs) auto

lemma first_index_SomeD:
  "first_index P xs = Some i \<Longrightarrow> i < length xs \<and> P (xs ! i) \<and> (\<forall>j < i. \<not> P (xs ! j))"
proof (induction xs arbitrary: i)
  case (Cons x xs)
  then show ?case
    by (auto split: if_splits simp: nth_Cons split: nat.splits)
qed simp

lemma first_index_bound: "first_index P xs = Some i \<Longrightarrow> i < length xs"
  and first_index_sat: "first_index P xs = Some i \<Longrightarrow> P (xs ! i)"
  and first_index_least: "first_index P xs = Some i \<Longrightarrow> j < i \<Longrightarrow> \<not> P (xs ! j)"
  using first_index_SomeD by blast+

lemma first_index_SomeI:
  "\<lbrakk>i < length xs; P (xs ! i); \<forall>j < i. \<not> P (xs ! j)\<rbrakk> \<Longrightarrow> first_index P xs = Some i"
proof (induction xs arbitrary: i)
  case (Cons x xs)
  show ?case
  proof (cases i)
    case (Suc k)
    then have "\<not> P x" using Cons.prems(3) by force
    moreover have "first_index P xs = Some k"
      using Cons.prems Suc by (intro Cons.IH) force+
    ultimately show ?thesis using Suc by simp
  qed (use Cons.prems in simp)
qed simp

lemma first_index_Some_iff:
  "first_index P xs = Some i \<longleftrightarrow> i < length xs \<and> P (xs ! i) \<and> (\<forall>j < i. \<not> P (xs ! j))"
  by (rule iffI, rule first_index_SomeD, assumption) (simp add: first_index_SomeI)

lemma first_index_ex: "i < length xs \<Longrightarrow> P (xs ! i) \<Longrightarrow> \<exists>j. first_index P xs = Some j"
  by (metis first_index_None [of P xs] not_Some_eq nth_mem)

text \<open>When at most one entry of the table satisfies the test, the search returns that entry.\<close>

lemma first_index_unique:
  assumes "i < length xs" "P (xs ! i)"
    and "\<And>j. j < length xs \<Longrightarrow> P (xs ! j) \<Longrightarrow> j = i"
  shows "first_index P xs = Some i"
proof -
  have "\<not> P (xs ! j)" if "j < i" for j
    using that assms(1) assms(3) [of j] by auto
  then show ?thesis using assms(1,2) by (simp add: first_index_Some_iff)
qed

lemma first_index_update_other:
  "\<lbrakk>i < length xs; \<not> P (xs ! i); \<not> P v\<rbrakk> \<Longrightarrow> first_index P (xs[i := v]) = first_index P xs"
proof (induction xs arbitrary: i)
  case (Cons x xs)
  then show ?case by (cases i) auto
qed simp

lemma first_index_update_same:
  "\<lbrakk>i < length xs; P (xs ! i); P v\<rbrakk> \<Longrightarrow> first_index P (xs[i := v]) = first_index P xs"
proof (induction xs arbitrary: i)
  case (Cons x xs)
  then show ?case by (cases i) auto
qed simp

lemma first_index_cong:
  "(\<And>x. x \<in> set xs \<Longrightarrow> P x = Q x) \<Longrightarrow> first_index P xs = first_index Q xs"
  by (induction xs) auto

lemma first_index_map: "first_index P (map f xs) = first_index (\<lambda>x. P (f x)) xs"
  by (induction xs) auto

lemma first_index_upt: "first_index (\<lambda>i. P (xs ! i)) [0..<length xs] = first_index P xs"
  using first_index_map [of P "(!) xs" "[0..<length xs]"] by (simp add: map_nth)

text \<open>The element found, instead of its position.\<close>

lemma first_index_upt_nth: "map_option ((!) [0..<n]) (first_index P [0..<n]) = first_index P [0..<n]"
proof (cases "first_index P [0..<n]")
  case (Some i)
  then show ?thesis using first_index_bound [OF Some] by simp
qed simp

lemma first_index_append:
  "first_index P (xs @ ys) =
    (case first_index P xs of Some i \<Rightarrow> Some i
     | None \<Rightarrow> map_option (\<lambda>j. length xs + j) (first_index P ys))"
  by (induction xs; cases "first_index P ys") (auto split: option.split)

section \<open>Blocks of equal length\<close>

lemma length_concat_uniform: "\<forall>x \<in> set xs. length x = w \<Longrightarrow> length (concat xs) = w * length xs"
  by (induction xs) auto

lemma nth_concat_uniform:
  "\<lbrakk>\<forall>x \<in> set xs. length x = w; i < length xs; k < w\<rbrakk> \<Longrightarrow> concat xs ! (i * w + k) = xs ! i ! k"
proof (induction xs arbitrary: i)
  case (Cons x xs)
  show ?case
  proof (cases i)
    case 0
    then show ?thesis using Cons.prems by (simp add: nth_append)
  next
    case (Suc j)
    have "concat (x # xs) ! (i * w + k) = concat xs ! (j * w + k)"
      using nth_append_length_plus [of x "concat xs" "j * w + k"] Cons.prems Suc by (simp add: add.assoc)
    then show ?thesis using Cons Suc by simp
  qed
qed simp

text \<open>A slice that stays within one block is a slice of that block.\<close>

lemma slice_concat_uniform:
  assumes "\<forall>x \<in> set xs. length x = w" "0 < w" "o' < w * length xs" "o' mod w + n \<le> w"
  shows "take n (drop o' (concat xs)) = take n (drop (o' mod w) (xs ! (o' div w)))"
proof -
  let ?i = "o' div w" and ?k = "o' mod w"
  have i: "?i < length xs" using assms(2,3) by (simp add: less_mult_imp_div_less mult.commute)
  then have len: "length (xs ! ?i) = w" using assms(1) by simp
  have off: "o' = ?i * w + ?k" by simp
  have "w * Suc ?i \<le> w * length xs" using i by (intro mult_le_mono2) simp
  moreover have "o' + n \<le> w * ?i + w" using assms(4) mult_div_mod_eq [of w o'] by linarith
  ultimately have fit: "o' + n \<le> length (concat xs)"
    using length_concat_uniform [OF assms(1)] by simp
  show ?thesis
  proof (rule nth_equalityI)
    show "length (take n (drop o' (concat xs))) = length (take n (drop ?k (xs ! ?i)))"
      using fit len assms(4) by simp
    fix j assume "j < length (take n (drop o' (concat xs)))"
    then have j: "j < n" using fit by simp
    have "concat xs ! (?i * w + (?k + j)) = xs ! ?i ! (?k + j)"
      by (rule nth_concat_uniform [OF assms(1) i]) (use j assms(4) in simp)
    then show "take n (drop o' (concat xs)) ! j = take n (drop ?k (xs ! ?i)) ! j"
      using j fit len assms(4) off by (simp add: add.assoc)
  qed
qed

section \<open>Saturating arithmetic\<close>

text \<open>\<open>x.saturating_add(1)\<close> and \<open>x.saturating_sub(1)\<close> on an unsigned word.\<close>

definition sat_inc :: "'a::len word \<Rightarrow> 'a word" where
  "sat_inc x = (if x = - 1 then x else x + 1)"

definition sat_dec :: "'a::len word \<Rightarrow> 'a word" where
  "sat_dec x = (if x = 0 then 0 else x - 1)"

lemma word_add_one_eq_0: "x + 1 = 0 \<longleftrightarrow> x = (- 1 :: 'a::len word)"
  by (metis add.right_inverse add_diff_cancel_right' diff_0)

lemma sat_inc_nonzero [simp]: "sat_inc x \<noteq> (0 :: 'a::len word)"
  by (auto simp: sat_inc_def word_add_one_eq_0)

lemma sat_dec_inc: "x \<noteq> - 1 \<Longrightarrow> sat_dec (sat_inc x) = (x :: 'a::len word)"
  by (auto simp: sat_inc_def sat_dec_def word_add_one_eq_0)

lemma unat_of_nat_small: "n < 2 ^ LENGTH('a) \<Longrightarrow> unat (of_nat n :: 'a::len word) = n"
  by (simp add: unat_of_nat)

lemma unat_ucast_up:
  "LENGTH('a) \<le> LENGTH('b) \<Longrightarrow> unat (ucast (w :: 'a::len word) :: 'b::len word) = unat w"
proof -
  assume "LENGTH('a) \<le> LENGTH('b)"
  then have "unat w < 2 ^ LENGTH('b)"
    using unsigned_less [of w, where ?'a = nat] power_increasing [of "LENGTH('a)" "LENGTH('b)" "2 :: nat"] by linarith
  then show ?thesis by (simp add: unsigned_ucast_eq take_bit_eq_mod)
qed

section \<open>Slice copies\<close>

text \<open>\<open>dst[off..off + src.len()].copy_from_slice(src)\<close>; the source slice fits.\<close>

definition blit :: "nat \<Rightarrow> 'a list \<Rightarrow> 'a list \<Rightarrow> 'a list" where
  "blit off src dst = take off dst @ src @ drop (off + length src) dst"

lemma length_blit [simp]:
  "off + length src \<le> length dst \<Longrightarrow> length (blit off src dst) = length dst"
  by (simp add: blit_def)

lemma take_blit [simp]:
  "off + length src \<le> length dst \<Longrightarrow> take (length src) (drop off (blit off src dst)) = src"
  by (simp add: blit_def)

lemma take_blit_0 [simp]:
  "length src \<le> length dst \<Longrightarrow> take (length src) (blit 0 src dst) = src"
  by (simp add: blit_def)

lemma nth_blit:
  "\<lbrakk>off + length src \<le> length dst; i < length dst\<rbrakk> \<Longrightarrow>
    blit off src dst ! i = (if off \<le> i \<and> i < off + length src then src ! (i - off) else dst ! i)"
  by (auto simp: blit_def nth_append min_def)

lemma nth_blit_outside:
  "\<lbrakk>off + length src \<le> length dst; i < length dst; i < off \<or> off + length src \<le> i\<rbrakk>
    \<Longrightarrow> blit off src dst ! i = dst ! i"
  by (auto simp: nth_blit)

text \<open>Changing a piece of one block changes that piece of the concatenation.\<close>

lemma concat_update_blit:
  assumes "\<forall>x \<in> set xs. length x = w" "i < length xs" "k + length src \<le> w"
  shows "concat (xs[i := blit k src (xs ! i)]) = blit (i * w + k) src (concat xs)"
proof -
  let ?a = "concat (take i xs)" and ?x = "xs ! i" and ?b = "concat (drop (Suc i) xs)"
  have split: "concat xs = ?a @ ?x @ ?b" using arg_cong [OF id_take_nth_drop [OF assms(2)], of concat] by simp
  have "\<forall>x \<in> set (take i xs). length x = w" using assms(1) by (auto dest: in_set_takeD)
  then have a: "length ?a = i * w" using length_concat_uniform [of "take i xs" w] assms(2) by simp
  have x: "length ?x = w" using assms(1,2) by simp
  have "concat (xs[i := blit k src ?x]) = ?a @ blit k src ?x @ ?b"
    using assms(2) by (simp add: upd_conv_take_nth_drop)
  also have "\<dots> = blit (i * w + k) src (?a @ ?x @ ?b)"
    using a x assms(3) by (simp add: blit_def)
  finally show ?thesis using split by simp
qed

section \<open>Lists\<close>

lemma find_cong: "(\<And>x. x \<in> set xs \<Longrightarrow> P x = Q x) \<Longrightarrow> find P xs = find Q xs"
  by (induction xs) auto

lemma find_upt_Some: "find P [0..<n] = Some i \<Longrightarrow> i < n \<and> P i \<and> (\<forall>j < i. \<not> P j)"
  by (auto simp: find_Some_iff)

lemma find_upt_None: "find P [0..<n] = None \<Longrightarrow> \<forall>j < n. \<not> P j"
  by (auto simp: find_None_iff)

lemma nth_list_update_if:
  "i < length xs \<Longrightarrow> xs[i := v] ! j = (if j = i then v else xs ! j)"
  by (cases "j = i") auto

lemma list_all_update:
  "list_all P xs \<Longrightarrow> P v \<Longrightarrow> list_all P (xs[i := v])"
  by (auto simp: list_all_iff dest: set_update_subset_insert [THEN subsetD])

lemma list_all_nth: "list_all P xs \<Longrightarrow> i < length xs \<Longrightarrow> P (xs ! i)"
  by (simp add: list_all_length)

lemma list_all_True [simp]: "list_all (\<lambda>_. True) xs"
  by (simp add: list_all_iff)

lemma list_all_replicate [simp]: "list_all P (replicate n x) \<longleftrightarrow> n = 0 \<or> P x"
  by (auto simp: list_all_iff)

section \<open>Loops with an early return\<close>

text \<open>A \<open>for\<close> loop whose body may leave the function: it stops at the first round that says so.\<close>

fun for_each :: "('i \<Rightarrow> 's \<Rightarrow> bool \<times> 's) \<Rightarrow> 'i list \<Rightarrow> 's \<Rightarrow> bool \<times> 's" where
  "for_each body [] s = (True, s)"
| "for_each body (i # is) s =
    (case body i s of (False, s') \<Rightarrow> (False, s') | (True, s') \<Rightarrow> for_each body is s')"

section \<open>Sequences of operations and simulation\<close>

text \<open>
  A component is used through a sequence of operations.  When every single
  operation refines its specification under an invariant, so does every
  sequence: the results are those of the specification, the invariant holds at
  the end, and the final states correspond.
\<close>

fun run_ops :: "('op \<Rightarrow> 's \<Rightarrow> 'r \<times> 's) \<Rightarrow> 'op list \<Rightarrow> 's \<Rightarrow> 'r list \<times> 's" where
  "run_ops step [] s = ([], s)"
| "run_ops step (a # as) s =
    (let (r, s') = step a s; (rs, s'') = run_ops step as s' in (r # rs, s''))"

text \<open>
  The invariant may depend on the number of operations still to come: a
  component whose storage grows with every call keeps its invariant for as
  many calls as there is room for.
\<close>

locale budget_simulation =
  fixes step :: "'op \<Rightarrow> 's \<Rightarrow> 'r \<times> 's"
    and spec :: "'op \<Rightarrow> 'a \<Rightarrow> 'r \<times> 'a"
    and inv :: "nat \<Rightarrow> 's \<Rightarrow> bool"
    and abs :: "'s \<Rightarrow> 'a"
    and ok :: "'op \<Rightarrow> bool"
  assumes budget_inv: "\<lbrakk>inv (Suc n) s; ok a; step a s = (r, s')\<rbrakk> \<Longrightarrow> inv n s'"
    and budget_spec: "\<lbrakk>inv (Suc n) s; ok a; step a s = (r, s')\<rbrakk> \<Longrightarrow> spec a (abs s) = (r, abs s')"
begin

lemma run_within:
  "\<lbrakk>inv (length as + n) s; list_all ok as; run_ops step as s = (rs, s')\<rbrakk>
    \<Longrightarrow> inv n s' \<and> run_ops spec as (abs s) = (rs, abs s')"
proof (induction as arbitrary: s rs)
  case (Cons a as)
  obtain r s1 where s1: "step a s = (r, s1)" by (rule prod.exhaust)
  obtain rs1 s2 where s2: "run_ops step as s1 = (rs1, s2)" by (rule prod.exhaust)
  have eqs: "rs = r # rs1" "s2 = s'" using Cons.prems(3) s1 s2 by simp_all
  have oks: "ok a" "list_all ok as" using Cons.prems by simp_all
  have i: "inv (Suc (length as + n)) s" using Cons.prems(1) by simp
  have "inv n s' \<and> run_ops spec as (abs s1) = (rs1, abs s')"
    by (rule Cons.IH [OF budget_inv [OF i oks(1) s1] oks(2)]) (use s2 eqs in simp)
  then show ?case using budget_spec [OF i oks(1) s1] eqs by simp
qed simp

end

locale simulation =
  fixes step :: "'op \<Rightarrow> 's \<Rightarrow> 'r \<times> 's"
    and spec :: "'op \<Rightarrow> 'a \<Rightarrow> 'r \<times> 'a"
    and inv :: "'s \<Rightarrow> bool"
    and abs :: "'s \<Rightarrow> 'a"
    and ok :: "'op \<Rightarrow> bool"
  assumes step_inv: "\<lbrakk>inv s; ok a; step a s = (r, s')\<rbrakk> \<Longrightarrow> inv s'"
    and step_spec: "\<lbrakk>inv s; ok a; step a s = (r, s')\<rbrakk> \<Longrightarrow> spec a (abs s) = (r, abs s')"

sublocale simulation \<subseteq> unlimited: budget_simulation step spec "\<lambda>_. inv" abs ok
  by unfold_locales (fact step_inv step_spec)+

context simulation
begin

lemma run_refines:
  "\<lbrakk>inv s; list_all ok as; run_ops step as s = (rs, s')\<rbrakk>
    \<Longrightarrow> inv s' \<and> run_ops spec as (abs s) = (rs, abs s')"
  by (rule unlimited.run_within)

end

end
