(* ===== verification/Fifo.thy ===== *)
theory Fifo
  imports Prelude
begin

text \<open>
  The kernel keeps five circular buffers (standard input, pipes, message
  queues and their like), each an array with a read index and a write index
  that wrap around.  This theory holds the contract of a bounded
  first-in-first-out buffer as a locale, what its clients derive from the
  contract alone, and the arithmetic of the array representation that every
  provider uses to discharge it.
\<close>

section \<open>The contract\<close>

datatype 'a fifo_op = Put 'a | Get

text \<open>The reference behaviour on a plain list: a put to a full buffer is dropped.\<close>

fun spec_run :: "nat \<Rightarrow> 'a fifo_op list \<Rightarrow> 'a list \<Rightarrow> 'a list \<times> 'a list" where
  "spec_run cap [] xs = ([], xs)"
| "spec_run cap (Put x # ops) xs =
    spec_run cap ops (if length xs < cap then xs @ [x] else xs)"
| "spec_run cap (Get # ops) [] = spec_run cap ops []"
| "spec_run cap (Get # ops) (x # xs) =
    (let (out, ys) = spec_run cap ops xs in (x # out, ys))"

text \<open>The same operations on an implementation, given its \<open>put\<close> and \<open>get\<close>.\<close>

fun fifo_run ::
  "('a \<Rightarrow> 'q \<Rightarrow> 'q) \<Rightarrow> ('q \<Rightarrow> ('a \<times> 'q) option) \<Rightarrow> 'a fifo_op list \<Rightarrow> 'q \<Rightarrow> 'a list \<times> 'q"
where
  "fifo_run put get [] q = ([], q)"
| "fifo_run put get (Put x # ops) q = fifo_run put get ops (put x q)"
| "fifo_run put get (Get # ops) q =
    (case get q of
       None \<Rightarrow> fifo_run put get ops q
     | Some (x, q') \<Rightarrow> (let (out, q'') = fifo_run put get ops q' in (x # out, q'')))"

fun fifo_ok_op :: "('a \<Rightarrow> bool) \<Rightarrow> 'a fifo_op \<Rightarrow> bool" where
  "fifo_ok_op P (Put x) = P x"
| "fifo_ok_op P Get = True"

fun fifo_drain :: "('q \<Rightarrow> ('a \<times> 'q) option) \<Rightarrow> nat \<Rightarrow> 'q \<Rightarrow> 'a list \<times> 'q" where
  "fifo_drain get 0 q = ([], q)"
| "fifo_drain get (Suc n) q =
    (case get q of
       None \<Rightarrow> ([], q)
     | Some (x, q') \<Rightarrow> (let (out, q'') = fifo_drain get n q' in (x # out, q'')))"

locale bounded_fifo =
  fixes invar :: "'q \<Rightarrow> bool"
    and contents :: "'q \<Rightarrow> 'a list"
    and cap :: nat
    and ok :: "'a \<Rightarrow> bool"
    and put :: "'a \<Rightarrow> 'q \<Rightarrow> 'q"
    and get :: "'q \<Rightarrow> ('a \<times> 'q) option"
  assumes bounded: "invar q \<Longrightarrow> length (contents q) \<le> cap"
    and put_invar: "invar q \<Longrightarrow> ok x \<Longrightarrow> invar (put x q)"
    and put_contents: "invar q \<Longrightarrow> ok x \<Longrightarrow>
      contents (put x q) = (if length (contents q) < cap then contents q @ [x] else contents q)"
    and get_None: "invar q \<Longrightarrow> contents q = [] \<Longrightarrow> get q = None"
    and get_Some: "invar q \<Longrightarrow> contents q = x # xs \<Longrightarrow>
      \<exists>q'. get q = Some (x, q') \<and> invar q' \<and> contents q' = xs"
begin

lemma puts_invar: "invar q \<Longrightarrow> list_all ok xs \<Longrightarrow> invar (fold put xs q)"
  by (induction xs arbitrary: q) (auto intro: put_invar)

lemma puts_contents:
  "invar q \<Longrightarrow> list_all ok xs \<Longrightarrow> contents (fold put xs q) = take cap (contents q @ xs)"
proof (induction xs arbitrary: q)
  case Nil
  then show ?case by (simp add: bounded)
next
  case (Cons x xs)
  then have "contents (fold put (x # xs) q) = take cap (contents (put x q) @ xs)"
    by (simp add: put_invar)
  also have "\<dots> = take cap (contents q @ x # xs)"
    using Cons.prems bounded [of q] by (auto simp: put_contents take_Cons' Suc_diff_le)
  finally show ?case .
qed

lemma drain_spec:
  "invar q \<Longrightarrow> \<exists>q'. fifo_drain get n q = (take n (contents q), q') \<and> invar q'
      \<and> contents q' = drop n (contents q)"
proof (induction n arbitrary: q)
  case (Suc n)
  show ?case
  proof (cases "contents q")
    case Nil
    then show ?thesis using Suc.prems by (simp add: get_None)
  next
    case (Cons x xs)
    then obtain q' where q': "get q = Some (x, q')" "invar q'" "contents q' = xs"
      using get_Some Suc.prems by blast
    with Suc.IH [OF q'(2)] show ?thesis by (auto simp: Cons)
  qed
qed simp

lemma run_refines:
  "\<lbrakk>invar q; list_all (fifo_ok_op ok) ops\<rbrakk> \<Longrightarrow>
    invar (snd (fifo_run put get ops q)) \<and>
    (fst (fifo_run put get ops q), contents (snd (fifo_run put get ops q)))
      = spec_run cap ops (contents q)"
proof (induction ops arbitrary: q)
  case (Cons a ops)
  show ?case
  proof (cases a)
    case (Put x)
    with Cons have inv: "invar (put x q)" by (auto intro: put_invar)
    have "contents (put x q) = (if length (contents q) < cap then contents q @ [x] else contents q)"
      using Cons.prems Put by (simp add: put_contents)
    then show ?thesis using Cons.IH [OF inv] Cons.prems Put by simp
  next
    case Get
    show ?thesis
    proof (cases "contents q")
      case Nil
      then show ?thesis using Cons Get by (simp add: get_None)
    next
      fix x xs assume eq: "contents q = x # xs"
      then obtain q' where q': "get q = Some (x, q')" "invar q'" "contents q' = xs"
        using get_Some Cons.prems by blast
      from Cons.IH [OF q'(2)] Cons.prems q' eq Get show ?thesis
        by (auto simp: split_beta Let_def prod_eq_iff)
    qed
  qed
qed simp

end

section \<open>Array representation\<close>

definition ring_len :: "nat \<Rightarrow> nat \<Rightarrow> nat \<Rightarrow> nat" where
  "ring_len n h t = (t + n - h) mod n"

definition ring_list :: "'a list \<Rightarrow> nat \<Rightarrow> nat \<Rightarrow> 'a list" where
  "ring_list b h t = map (\<lambda>k. b ! ((h + k) mod length b)) [0..<ring_len (length b) h t]"

lemma length_ring_list [simp]: "length (ring_list b h t) = ring_len (length b) h t"
  by (simp add: ring_list_def)

lemma ring_len_cases:
  "h < n \<Longrightarrow> t < n \<Longrightarrow> ring_len n h t = (if h \<le> t then t - h else t + n - h)"
  by (simp add: ring_len_def mod_if)

lemma ring_len_less: "h < n \<Longrightarrow> t < n \<Longrightarrow> ring_len n h t < n"
  by (simp add: ring_len_def)

lemma ring_len_0: "h < n \<Longrightarrow> t < n \<Longrightarrow> ring_len n h t = 0 \<longleftrightarrow> h = t"
  by (auto simp: ring_len_cases)

lemma ring_list_Nil [simp]: "h < length b \<Longrightarrow> t < length b \<Longrightarrow> ring_list b h t = [] \<longleftrightarrow> h = t"
  by (metis length_0_conv length_ring_list ring_len_0)

lemma Suc_mod_cases: "t < n \<Longrightarrow> Suc t mod n = (if Suc t = n then 0 else Suc t)"
  by auto

lemma ring_full_iff:
  "h < n \<Longrightarrow> t < n \<Longrightarrow> Suc t mod n = h \<longleftrightarrow> ring_len n h t = n - 1"
  by (auto simp: ring_len_cases Suc_mod_cases split: if_splits)

lemma ring_len_push:
  "\<lbrakk>h < n; t < n; Suc t mod n \<noteq> h\<rbrakk> \<Longrightarrow> ring_len n h (Suc t mod n) = Suc (ring_len n h t)"
  by (auto simp: ring_len_cases Suc_mod_cases split: if_splits)

lemma ring_len_pop:
  "\<lbrakk>h < n; t < n; h \<noteq> t\<rbrakk> \<Longrightarrow> ring_len n h t = Suc (ring_len n (Suc h mod n) t)"
  by (auto simp: ring_len_cases Suc_mod_cases split: if_splits)

lemma ring_slot_tail:
  "h < n \<Longrightarrow> t < n \<Longrightarrow> k \<le> ring_len n h t \<Longrightarrow> (h + k) mod n = t \<longleftrightarrow> k = ring_len n h t"
proof -
  assume a: "h < n" "t < n" "k \<le> ring_len n h t"
  then have "k < n" using ring_len_less [of h n t] by simp
  then have "(h + k) mod n = (if h + k < n then h + k else h + k - n)"
    using a(1) by (simp add: mod_if [of "h + k"])
  then show ?thesis using a ring_len_cases [OF a(1,2)] by (auto split: if_splits)
qed

lemma ring_list_push:
  assumes "h < length b" "t < length b" "Suc t mod length b \<noteq> h"
  shows "ring_list (b[t := x]) h (Suc t mod length b) = ring_list b h t @ [x]"
proof -
  let ?n = "length b" and ?l = "ring_len (length b) h t"
  have old: "b[t := x] ! ((h + k) mod ?n) = b ! ((h + k) mod ?n)" if "k < ?l" for k
    using that ring_slot_tail [of h ?n t k] assms by simp
  have new: "b[t := x] ! ((h + ?l) mod ?n) = x"
    using ring_slot_tail [of h ?n t ?l] assms by simp
  show ?thesis
    using old new by (simp add: ring_list_def ring_len_push assms)
qed

lemma ring_list_pop:
  assumes "h < length b" "t < length b" "h \<noteq> t"
  shows "ring_list b h t = b ! h # ring_list b (Suc h mod length b) t"
proof -
  let ?n = "length b" and ?m = "ring_len (length b) (Suc h mod length b) t"
  have "ring_list b h t = map (\<lambda>k. b ! ((h + k) mod ?n)) (0 # map Suc [0..<?m])"
    by (simp add: ring_list_def ring_len_pop assms map_Suc_upt upt_conv_Cons del: upt_Suc)
  also have "\<dots> = b ! h # ring_list b (Suc h mod ?n) t"
    using assms by (simp add: ring_list_def mod_simps)
  finally show ?thesis .
qed

lemmas ring_facts = ring_list_push ring_list_pop ring_full_iff ring_len_less

end
