(* ===== verification/Stdin_Ring.thy ===== *)
theory Stdin_Ring
  imports Fifo
begin

text \<open>
  The standard-input ring of \<open>ipc/stdin.rs\<close>: the keyboard interrupt pushes
  bytes, system calls pop them.  The three statics of the module form the
  record; the theory ends with the interpretation of the FIFO contract.
\<close>

definition BUF_SIZE :: nat where [kdefs]: "BUF_SIZE = 256"

record stdin_ring =
  BUF :: bytes
  HEAD :: nat
  TAIL :: nat

definition stdin_init :: stdin_ring where
  "stdin_init = \<lparr>BUF = replicate BUF_SIZE 0, HEAD = 0, TAIL = 0\<rparr>"

definition stdin_push :: "u8 \<Rightarrow> stdin_ring \<Rightarrow> stdin_ring" where
  "stdin_push ch s =
    (let nxt = (TAIL s + 1) mod BUF_SIZE in
     if nxt \<noteq> HEAD s then s\<lparr>BUF := (BUF s)[TAIL s := ch], TAIL := nxt\<rparr> else s)"

definition stdin_pop :: "stdin_ring \<Rightarrow> (u8 \<times> stdin_ring) option" where
  "stdin_pop s =
    (if HEAD s = TAIL s then None
     else Some (BUF s ! HEAD s, s\<lparr>HEAD := (HEAD s + 1) mod BUF_SIZE\<rparr>))"

definition stdin_available :: "stdin_ring \<Rightarrow> nat" where
  "stdin_available s = (TAIL s + BUF_SIZE - HEAD s) mod BUF_SIZE"

definition stdin_invar :: "stdin_ring \<Rightarrow> bool" where
  "stdin_invar s \<longleftrightarrow> length (BUF s) = BUF_SIZE \<and> HEAD s < BUF_SIZE \<and> TAIL s < BUF_SIZE"

definition stdin_contents :: "stdin_ring \<Rightarrow> bytes" where
  "stdin_contents s = ring_list (BUF s) (HEAD s) (TAIL s)"

lemma BUF_SIZE_pos [simp]: "0 < BUF_SIZE" "Suc 0 < BUF_SIZE"
  by (simp_all add: BUF_SIZE_def)

lemma stdin_init_ok [simp]: "stdin_invar stdin_init" "stdin_contents stdin_init = []"
  by (simp_all add: stdin_invar_def stdin_init_def stdin_contents_def)

interpretation sq: bounded_fifo
  stdin_invar stdin_contents "BUF_SIZE - 1" "\<lambda>_. True" stdin_push stdin_pop
proof unfold_locales
  fix s :: stdin_ring and x :: u8 and xs :: bytes
  assume inv: "stdin_invar s"
  then have le: "HEAD s < length (BUF s)" "TAIL s < length (BUF s)" "length (BUF s) = BUF_SIZE"
    by (auto simp: stdin_invar_def)
  have full: "Suc (TAIL s) mod BUF_SIZE = HEAD s \<longleftrightarrow> length (stdin_contents s) = BUF_SIZE - 1"
    using le by (simp add: ring_full_iff stdin_contents_def)
  show bd: "length (stdin_contents s) \<le> BUF_SIZE - 1"
    using ring_len_less [of "HEAD s" BUF_SIZE "TAIL s"] le by (simp add: stdin_contents_def)
  show "stdin_invar (stdin_push x s)"
    using inv by (simp add: stdin_invar_def stdin_push_def Let_def)
  show "stdin_contents (stdin_push x s) =
      (if length (stdin_contents s) < BUF_SIZE - 1 then stdin_contents s @ [x] else stdin_contents s)"
  proof (cases "Suc (TAIL s) mod BUF_SIZE = HEAD s")
    case True
    then show ?thesis using full by (simp add: stdin_push_def Let_def)
  next
    case False
    then have "stdin_contents (stdin_push x s) = stdin_contents s @ [x]"
      using ring_list_push [of "HEAD s" "BUF s" "TAIL s" x] le
      by (simp add: stdin_push_def stdin_contents_def Let_def)
    moreover have "length (stdin_contents s) < BUF_SIZE - 1"
      using False full bd by linarith
    ultimately show ?thesis by simp
  qed
  show "stdin_pop s = None" if "stdin_contents s = []"
    using that le by (simp add: stdin_contents_def stdin_pop_def)
  show "\<exists>q'. stdin_pop s = Some (x, q') \<and> stdin_invar q' \<and> stdin_contents q' = xs"
    if eq: "stdin_contents s = x # xs"
  proof -
    have ne: "HEAD s \<noteq> TAIL s"
      using eq le ring_list_Nil [of "HEAD s" "BUF s" "TAIL s"] by (auto simp: stdin_contents_def)
    show ?thesis
      using eq inv ne le ring_list_pop [OF le(1,2) ne]
      by (simp add: stdin_pop_def stdin_contents_def stdin_invar_def)
  qed
qed

lemma stdin_available_contents:
  "stdin_invar s \<Longrightarrow> stdin_available s = length (stdin_contents s)"
  by (simp add: stdin_available_def stdin_contents_def ring_len_def stdin_invar_def)

text \<open>
  C17. For every interleaving of key presses and reads from boot on, the reader
  obtains the accepted bytes exactly once and in order, a key is dropped only
  when 255 bytes are waiting, and \<open>available\<close> reports the number waiting.
\<close>

theorem stdin_fifo:
  "let (out, s) = fifo_run stdin_push stdin_pop ops stdin_init in
    (out, stdin_contents s) = spec_run (BUF_SIZE - 1) ops []
    \<and> stdin_available s = length (stdin_contents s)"
proof -
  have "list_all (fifo_ok_op (\<lambda>_. True)) ops"
    by (simp add: list_all_iff) (metis fifo_ok_op.elims(3))
  then show ?thesis
    using sq.run_refines [of stdin_init ops] stdin_available_contents
    by (simp add: split_beta)
qed

end
