(* ===== verification/Pipes.thy ===== *)
theory Pipes
  imports Fifo
begin

text \<open>
  Anonymous pipes, \<open>ipc/pipe.rs\<close>.  The table \<open>PIPES\<close> is a list of eight
  pipes; a raw descriptor 80 + 2 N is the read end of pipe N and 81 + 2 N its
  write end.  Every public operation is one definition on the table; results
  are the \<open>i64\<close> codes of the source (-5 bad descriptor, -6 try again).  The
  theory proves the FIFO contract of a single pipe, the invariant of the table
  over all sequences of operations, and the refinement of each operation to a
  byte sequence with reference counts and open ends.
\<close>

definition PIPE_FD_BASE :: int where [kdefs]: "PIPE_FD_BASE = 80"
definition PIPE_COUNT :: nat where [kdefs]: "PIPE_COUNT = 8"
definition PIPE_BUF :: nat where [kdefs]: "PIPE_BUF = 4096"

record Pipe =
  pbuf :: bytes
  head :: nat
  tail :: nat
  read_open :: bool
  write_open :: bool
  write_refs :: u8
  read_refs :: u8

type_synonym pipes = "Pipe list"

definition pipe_new :: Pipe where
  "pipe_new = \<lparr>pbuf = replicate PIPE_BUF 0, head = 0, tail = 0, read_open = False,
    write_open = False, write_refs = 0, read_refs = 0\<rparr>"

definition pipe_is_empty :: "Pipe \<Rightarrow> bool" where
  "pipe_is_empty p \<longleftrightarrow> head p = tail p"

definition pipe_len :: "Pipe \<Rightarrow> nat" where
  "pipe_len p = (tail p + PIPE_BUF - head p) mod PIPE_BUF"

definition available_write :: "Pipe \<Rightarrow> nat" where
  "available_write p = PIPE_BUF - 1 - pipe_len p"

definition PIPES_init :: pipes where
  "PIPES_init = replicate PIPE_COUNT pipe_new"

definition is_pipe_fd :: "int \<Rightarrow> bool" where
  "is_pipe_fd fd \<longleftrightarrow> PIPE_FD_BASE \<le> fd \<and> fd < PIPE_FD_BASE + int PIPE_COUNT * 2"

definition pipe_index :: "int \<Rightarrow> nat" where
  "pipe_index fd = nat ((fd - PIPE_FD_BASE) div 2)"

definition is_read_fd :: "int \<Rightarrow> bool" where
  "is_read_fd fd \<longleftrightarrow> (fd - PIPE_FD_BASE) mod 2 = 0"

definition pipe_read_ready :: "pipes \<Rightarrow> int \<Rightarrow> bool" where
  "pipe_read_ready ps fd \<longleftrightarrow>
    is_pipe_fd fd \<and> is_read_fd fd \<and> \<not> pipe_is_empty (ps ! pipe_index fd)"

definition pipe_alloc :: "pipes \<Rightarrow> (int \<times> int) option \<times> pipes" where
  "pipe_alloc ps =
    (case first_index (\<lambda>p. \<not> read_open p \<and> \<not> write_open p) ps of
       None \<Rightarrow> (None, ps)
     | Some i \<Rightarrow>
         (let read_fd = PIPE_FD_BASE + int i * 2 in
          (Some (read_fd, read_fd + 1),
           ps[i := (ps ! i)\<lparr>head := 0, tail := 0, read_open := True, write_open := True,
                            read_refs := 1, write_refs := 1\<rparr>])))"

definition pipe_addref :: "int \<Rightarrow> pipes \<Rightarrow> pipes" where
  "pipe_addref fd ps =
    (if \<not> is_pipe_fd fd then ps
     else (let i = pipe_index fd; p = ps ! i in
       if is_read_fd fd then ps[i := p\<lparr>read_refs := sat_inc (read_refs p)\<rparr>]
       else ps[i := p\<lparr>write_refs := sat_inc (write_refs p)\<rparr>]))"

fun pipe_write_loop :: "bytes \<Rightarrow> Pipe \<Rightarrow> nat \<Rightarrow> Pipe \<times> nat" where
  "pipe_write_loop [] p written = (p, written)"
| "pipe_write_loop (byte # data) p written =
    (if available_write p = 0 then (p, written)
     else (let nxt = (tail p + 1) mod PIPE_BUF in
       pipe_write_loop data (p\<lparr>pbuf := (pbuf p)[tail p := byte], tail := nxt\<rparr>) (written + 1)))"

definition pipe_write :: "int \<Rightarrow> bytes \<Rightarrow> pipes \<Rightarrow> int \<times> pipes" where
  "pipe_write fd data ps =
    (if \<not> is_pipe_fd fd \<or> is_read_fd fd then (- 5, ps)
     else (let i = pipe_index fd; p = ps ! i in
       if \<not> write_open p then (- 5, ps)
       else (let (p', written) = pipe_write_loop data p 0 in (int written, ps[i := p']))))"

function pipe_read_loop :: "nat \<Rightarrow> bytes \<Rightarrow> Pipe \<Rightarrow> nat \<times> bytes \<times> Pipe" where
  "pipe_read_loop rd buf p =
    (if rd < length buf \<and> \<not> pipe_is_empty p
     then pipe_read_loop (rd + 1) (buf[rd := pbuf p ! head p])
            (p\<lparr>head := (head p + 1) mod PIPE_BUF\<rparr>)
     else (rd, buf, p))"
  by pat_completeness auto
termination
  by (relation "measure (\<lambda>(rd, buf, p). length buf - rd)") auto

declare pipe_read_loop.simps [simp del]

text \<open>The result, the caller's buffer after the call, and the table after it.\<close>

definition pipe_read :: "int \<Rightarrow> bytes \<Rightarrow> pipes \<Rightarrow> int \<times> bytes \<times> pipes" where
  "pipe_read fd buf ps =
    (if \<not> is_pipe_fd fd \<or> \<not> is_read_fd fd then (- 5, buf, ps)
     else (let i = pipe_index fd; p = ps ! i in
       if \<not> read_open p then (- 5, buf, ps)
       else if pipe_is_empty p then (if write_refs p = 0 then (0, buf, ps) else (- 6, buf, ps))
       else (let (rd, buf', p') = pipe_read_loop 0 buf p in (int rd, buf', ps[i := p']))))"

definition pipe_close :: "int \<Rightarrow> pipes \<Rightarrow> int \<times> pipes" where
  "pipe_close fd ps =
    (if \<not> is_pipe_fd fd then (- 5, ps)
     else (let i = pipe_index fd; p = ps ! i in
       if is_read_fd fd then
         (let refs = (if read_refs p > 0 then read_refs p - 1 else read_refs p) in
          (0, ps[i := p\<lparr>read_refs := refs, read_open := (if refs = 0 then False else read_open p)\<rparr>]))
       else
         (let refs = (if write_refs p > 0 then write_refs p - 1 else write_refs p) in
          (0, ps[i := p\<lparr>write_refs := refs,
                        write_open := (if refs = 0 then False else write_open p)\<rparr>]))))"

section \<open>One pipe as a FIFO\<close>

definition pipe_invar :: "Pipe \<Rightarrow> bool" where
  "pipe_invar p \<longleftrightarrow> length (pbuf p) = PIPE_BUF \<and> head p < PIPE_BUF \<and> tail p < PIPE_BUF"

definition pipe_contents :: "Pipe \<Rightarrow> bytes" where
  "pipe_contents p = ring_list (pbuf p) (head p) (tail p)"

definition pipe_put :: "u8 \<Rightarrow> Pipe \<Rightarrow> Pipe" where
  "pipe_put byte p =
    (if available_write p = 0 then p
     else p\<lparr>pbuf := (pbuf p)[tail p := byte], tail := (tail p + 1) mod PIPE_BUF\<rparr>)"

definition pipe_get :: "Pipe \<Rightarrow> (u8 \<times> Pipe) option" where
  "pipe_get p =
    (if pipe_is_empty p then None
     else Some (pbuf p ! head p, p\<lparr>head := (head p + 1) mod PIPE_BUF\<rparr>))"

lemma PIPE_BUF_pos [simp]: "0 < PIPE_BUF" "Suc 0 < PIPE_BUF"
  by (simp_all add: PIPE_BUF_def)

lemma pipe_len_contents: "pipe_invar p \<Longrightarrow> pipe_len p = length (pipe_contents p)"
  by (simp add: pipe_len_def pipe_contents_def ring_len_def pipe_invar_def)

lemma pipe_empty_contents [simp]: "pipe_invar p \<Longrightarrow> pipe_is_empty p \<longleftrightarrow> pipe_contents p = []"
  by (simp add: pipe_is_empty_def pipe_contents_def pipe_invar_def)

lemma pipe_length_bound: "pipe_invar p \<Longrightarrow> length (pipe_contents p) \<le> PIPE_BUF - 1"
  using ring_len_less [of "head p" PIPE_BUF "tail p"] by (simp add: pipe_contents_def pipe_invar_def)

lemma available_0_iff:
  "pipe_invar p \<Longrightarrow> available_write p = 0 \<longleftrightarrow> length (pipe_contents p) = PIPE_BUF - 1"
  using pipe_length_bound [of p] by (auto simp: available_write_def pipe_len_contents)

interpretation pq: bounded_fifo
  pipe_invar pipe_contents "PIPE_BUF - 1" "\<lambda>_. True" pipe_put pipe_get
proof unfold_locales
  fix p :: Pipe and x :: u8 and xs :: bytes
  assume inv: "pipe_invar p"
  then have le: "head p < length (pbuf p)" "tail p < length (pbuf p)" "length (pbuf p) = PIPE_BUF"
    by (auto simp: pipe_invar_def)
  show bd: "length (pipe_contents p) \<le> PIPE_BUF - 1"
    by (rule pipe_length_bound [OF inv])
  show "pipe_invar (pipe_put x p)"
    using inv by (simp add: pipe_invar_def pipe_put_def)
  show "pipe_contents (pipe_put x p) =
      (if length (pipe_contents p) < PIPE_BUF - 1 then pipe_contents p @ [x] else pipe_contents p)"
  proof (cases "available_write p = 0")
    case True
    then show ?thesis using available_0_iff [OF inv] by (simp add: pipe_put_def)
  next
    case False
    then have "Suc (tail p) mod length (pbuf p) \<noteq> head p"
      using available_0_iff [OF inv] le ring_full_iff [of "head p" PIPE_BUF "tail p"]
      by (auto simp: pipe_contents_def)
    then have "pipe_contents (pipe_put x p) = pipe_contents p @ [x]"
      using False le ring_list_push [of "head p" "pbuf p" "tail p" x]
      by (simp add: pipe_put_def pipe_contents_def)
    moreover have "length (pipe_contents p) < PIPE_BUF - 1"
      using False available_0_iff [OF inv] bd by linarith
    ultimately show ?thesis by simp
  qed
  show "pipe_get p = None" if "pipe_contents p = []"
    using that inv by (simp add: pipe_get_def)
  show "\<exists>q'. pipe_get p = Some (x, q') \<and> pipe_invar q' \<and> pipe_contents q' = xs"
    if eq: "pipe_contents p = x # xs"
  proof -
    have ne: "head p \<noteq> tail p"
      using eq inv pipe_empty_contents [of p] by (auto simp: pipe_is_empty_def)
    show ?thesis
      using eq inv ne le ring_list_pop [OF le(1,2) ne]
      by (simp add: pipe_get_def pipe_is_empty_def pipe_contents_def pipe_invar_def)
  qed
qed

section \<open>The transfer loops\<close>

lemma pipe_write_loop_puts:
  "pipe_invar p \<Longrightarrow> pipe_write_loop data p w =
    (fold pipe_put data p, w + min (length data) (PIPE_BUF - 1 - length (pipe_contents p)))"
proof (induction data arbitrary: p w)
  case (Cons b data)
  show ?case
  proof (cases "available_write p = 0")
    case True
    then have full: "pipe_put b' p = p" for b' by (simp add: pipe_put_def)
    then have "fold pipe_put (b # data) p = p"
      by (induction data) auto
    then show ?thesis using True available_0_iff [OF Cons.prems] by (simp only: pipe_write_loop.simps) simp
  next
    case False
    have inv: "pipe_invar (pipe_put b p)" using Cons.prems pq.put_invar by simp
    have lt: "length (pipe_contents p) < PIPE_BUF - 1"
      using False available_0_iff [OF Cons.prems] pipe_length_bound [OF Cons.prems] by linarith
    have eq: "pipe_write_loop (b # data) p w = pipe_write_loop data (pipe_put b p) (w + 1)"
      using False by (simp add: pipe_put_def Let_def)
    have "length (pipe_contents (pipe_put b p)) = Suc (length (pipe_contents p))"
      using lt by (simp add: pq.put_contents Cons.prems)
    then show ?thesis unfolding eq Cons.IH [OF inv] using lt by simp
  qed
qed simp

lemma pipe_read_loop_drain:
  "rd \<le> length buf \<Longrightarrow> fifo_drain pipe_get (length buf - rd) p = (out, p') \<Longrightarrow>
    pipe_read_loop rd buf p = (rd + length out, blit rd out buf, p')"
proof (induction rd buf p arbitrary: out rule: pipe_read_loop.induct)
  case (1 rd buf p)
  show ?case
  proof (cases "rd < length buf \<and> \<not> pipe_is_empty p")
    case False
    have "fifo_drain pipe_get (length buf - rd) p = ([], p)"
    proof (cases "length buf - rd")
      case (Suc n)
      then have "pipe_get p = None" using False by (simp add: pipe_get_def)
      then show ?thesis using Suc by simp
    qed simp
    then have "out = []" "p' = p" using 1(3) by simp_all
    moreover have "pipe_read_loop rd buf p = (rd, buf, p)"
      using False by (subst pipe_read_loop.simps) (simp only: if_False)
    ultimately show ?thesis by (simp add: blit_def)
  next
    case True
    then obtain n where n: "length buf - rd = Suc n" "n = length buf - Suc rd"
      by (metis Suc_diff_Suc)
    let ?p = "p\<lparr>head := (head p + 1) mod PIPE_BUF\<rparr>"
    have get: "pipe_get p = Some (pbuf p ! head p, ?p)" using True by (simp add: pipe_get_def)
    obtain out' q where dr: "fifo_drain pipe_get n ?p = (out', q)" by (rule prod.exhaust)
    have out: "fifo_drain pipe_get n ?p = (out', p')" "out = pbuf p ! head p # out'"
      using 1(3) n(1) get dr by simp_all
    have "pipe_read_loop rd buf p = pipe_read_loop (rd + 1) (buf[rd := pbuf p ! head p]) ?p"
      using True by (subst pipe_read_loop.simps) (simp only: simp_thms if_True)
    also have "\<dots> = (rd + 1 + length out', blit (rd + 1) out' (buf[rd := pbuf p ! head p]), p')"
      by (rule 1(1) [OF True]) (use True out n in auto)
    finally show ?thesis
      using True out by (simp add: blit_def take_Suc_conv_app_nth)
  qed
qed

text \<open>What a transfer changes of a pipe: the ends stay as they are.\<close>

definition same_ends :: "Pipe \<Rightarrow> Pipe \<Rightarrow> bool" where
  "same_ends p q \<longleftrightarrow> read_open q = read_open p \<and> write_open q = write_open p
    \<and> read_refs q = read_refs p \<and> write_refs q = write_refs p"

lemma same_ends_puts: "same_ends p (fold pipe_put bs p)"
proof -
  have step: "same_ends q (pipe_put b q)" for q b
    by (simp add: same_ends_def pipe_put_def)
  have "same_ends p q \<Longrightarrow> same_ends p (fold pipe_put bs q)" for q
    by (induction bs arbitrary: q) (use step in \<open>auto simp: same_ends_def\<close>)
  then show ?thesis by (simp add: same_ends_def)
qed

lemma same_ends_drain: "fifo_drain pipe_get n p = (out, p') \<Longrightarrow> same_ends p p'"
proof (induction n arbitrary: p out)
  case (Suc n)
  show ?case
  proof (cases "pipe_is_empty p")
    case False
    let ?p = "p\<lparr>head := (head p + 1) mod PIPE_BUF\<rparr>"
    have get: "pipe_get p = Some (pbuf p ! head p, ?p)" using False by (simp add: pipe_get_def)
    obtain o' q where dr: "fifo_drain pipe_get n ?p = (o', q)" by (rule prod.exhaust)
    then have "p' = q" using Suc.prems get by simp
    with dr have "same_ends ?p p'" using Suc.IH by blast
    then show ?thesis by (simp add: same_ends_def)
  next
    case True
    then have "pipe_get p = None" by (simp add: pipe_get_def)
    then show ?thesis using Suc.prems by (simp add: same_ends_def)
  qed
qed (simp add: same_ends_def)

section \<open>The table and its abstract specification\<close>

text \<open>
  An open end is counted.  The converse does not hold: \<open>addref\<close> counts a reference to
  an end whether or not it is open.
\<close>

definition pipe_ok :: "Pipe \<Rightarrow> bool" where
  "pipe_ok p \<longleftrightarrow> pipe_invar p \<and> (read_open p \<longrightarrow> read_refs p \<noteq> 0)
    \<and> (write_open p \<longrightarrow> write_refs p \<noteq> 0)"

definition pipes_inv :: "pipes \<Rightarrow> bool" where
  "pipes_inv ps \<longleftrightarrow> length ps = PIPE_COUNT \<and> list_all pipe_ok ps"

text \<open>A pipe as its users see it.\<close>

record apipe =
  stored :: bytes
  readers :: nat
  writers :: nat
  ropen :: bool
  wopen :: bool

definition abs_pipe :: "Pipe \<Rightarrow> apipe" where
  "abs_pipe p = \<lparr>stored = pipe_contents p, readers = unat (read_refs p),
    writers = unat (write_refs p), ropen = read_open p, wopen = write_open p\<rparr>"

abbreviation abs_pipes :: "pipes \<Rightarrow> apipe list" where
  "abs_pipes ps \<equiv> map abs_pipe ps"

abbreviation read_end :: "nat \<Rightarrow> int" where
  "read_end i \<equiv> PIPE_FD_BASE + int i * 2"

abbreviation write_end :: "nat \<Rightarrow> int" where
  "write_end i \<equiv> PIPE_FD_BASE + int i * 2 + 1"

lemma end_fds [simp]:
  "is_pipe_fd (read_end i) \<longleftrightarrow> i < PIPE_COUNT" "is_pipe_fd (write_end i) \<longleftrightarrow> i < PIPE_COUNT"
  "is_read_fd (read_end i)" "\<not> is_read_fd (write_end i)"
  "pipe_index (read_end i) = i" "pipe_index (write_end i) = i"
  by (auto simp: is_pipe_fd_def is_read_fd_def pipe_index_def PIPE_FD_BASE_def)

lemma is_pipe_fd_index: "is_pipe_fd fd \<Longrightarrow> pipe_index fd < PIPE_COUNT"
  by (auto simp: is_pipe_fd_def pipe_index_def PIPE_COUNT_def)

lemma pipe_new_ok [simp]: "pipe_ok pipe_new"
  by (simp add: pipe_ok_def pipe_new_def pipe_invar_def)

lemma pipes_init_inv: "pipes_inv PIPES_init"
  by (simp add: pipes_inv_def PIPES_init_def)

lemma pipes_inv_nth: "pipes_inv ps \<Longrightarrow> i < PIPE_COUNT \<Longrightarrow> pipe_ok (ps ! i)"
  by (simp add: pipes_inv_def list_all_nth)

lemma pipes_inv_update: "pipes_inv ps \<Longrightarrow> pipe_ok p \<Longrightarrow> pipes_inv (ps[i := p])"
  by (simp add: pipes_inv_def list_all_update)

lemma pipe_ok_same_ends: "pipe_ok p \<Longrightarrow> same_ends p q \<Longrightarrow> pipe_invar q \<Longrightarrow> pipe_ok q"
  by (auto simp: pipe_ok_def same_ends_def)

lemma pipe_alloc_inv [kinv]: "pipes_inv ps \<Longrightarrow> pipes_inv (snd (pipe_alloc ps))"
proof (cases "first_index (\<lambda>p. \<not> read_open p \<and> \<not> write_open p) ps")
  case (Some i)
  moreover assume inv: "pipes_inv ps"
  moreover have "pipe_ok (ps ! i)"
    using pipes_inv_nth [OF inv] first_index_bound [OF Some] inv by (simp add: pipes_inv_def)
  ultimately show ?thesis
    by (simp add: pipe_alloc_def Let_def pipe_ok_def pipe_invar_def pipes_inv_update)
qed (simp add: pipe_alloc_def)

lemma pipe_write_inv [kinv]: "pipes_inv ps \<Longrightarrow> pipes_inv (snd (pipe_write fd bs ps))"
proof -
  assume inv: "pipes_inv ps"
  let ?p = "ps ! pipe_index fd"
  have "pipe_ok (fold pipe_put bs ?p)" if "is_pipe_fd fd"
    using pipes_inv_nth [OF inv is_pipe_fd_index [OF that]]
    by (intro pipe_ok_same_ends [OF _ same_ends_puts]) (auto simp: pipe_ok_def intro: pq.puts_invar)
  then show ?thesis
    using inv pipes_inv_nth [OF inv is_pipe_fd_index [of fd]]
    by (auto simp: pipe_write_def Let_def pipe_write_loop_puts pipe_ok_def intro: pipes_inv_update)
qed

lemma pipe_read_inv [kinv]: "pipes_inv ps \<Longrightarrow> pipes_inv (snd (snd (pipe_read fd buf ps)))"
proof -
  assume inv: "pipes_inv ps"
  let ?p = "ps ! pipe_index fd"
  obtain out p' where dr: "fifo_drain pipe_get (length buf) ?p = (out, p')" by (rule prod.exhaust)
  have "pipe_ok p'" if "is_pipe_fd fd"
  proof -
    have "pipe_ok ?p" by (rule pipes_inv_nth [OF inv is_pipe_fd_index [OF that]])
    then show ?thesis
      using pq.drain_spec [of ?p "length buf"] dr same_ends_drain [OF dr]
      by (auto simp: pipe_ok_def same_ends_def)
  qed
  then have upd: "pipes_inv (ps[pipe_index fd := p'])" if "is_pipe_fd fd"
    using inv that by (simp add: pipes_inv_update)
  have "pipe_read_loop 0 buf ?p = (length out, blit 0 out buf, p')"
    using pipe_read_loop_drain [of 0 buf ?p out p'] dr by simp
  then show ?thesis
    using inv upd by (simp add: pipe_read_def Let_def)
qed

lemma pipe_close_inv [kinv]: "pipes_inv ps \<Longrightarrow> pipes_inv (snd (pipe_close fd ps))"
proof (cases "is_pipe_fd fd")
  case True
  assume inv: "pipes_inv ps"
  have "pipe_ok (ps ! pipe_index fd)" by (rule pipes_inv_nth [OF inv is_pipe_fd_index [OF True]])
  then have "pipe_ok (snd (pipe_close fd ps) ! pipe_index fd)"
    using True inv is_pipe_fd_index [OF True]
    by (cases "is_read_fd fd") (simp_all add: pipe_close_def Let_def pipe_ok_def pipe_invar_def pipes_inv_def)
  moreover have "snd (pipe_close fd ps) = ps[pipe_index fd := snd (pipe_close fd ps) ! pipe_index fd]"
    using True inv is_pipe_fd_index [OF True] by (simp add: pipe_close_def Let_def pipes_inv_def)
  ultimately show ?thesis using pipes_inv_update [OF inv] by metis
qed (simp add: pipe_close_def)

lemma pipe_addref_inv [kinv]: "pipes_inv ps \<Longrightarrow> pipes_inv (pipe_addref fd ps)"
proof (cases "is_pipe_fd fd")
  case True
  assume inv: "pipes_inv ps"
  have "pipe_ok (ps ! pipe_index fd)" by (rule pipes_inv_nth [OF inv is_pipe_fd_index [OF True]])
  then show ?thesis
    using True inv by (auto simp: pipe_addref_def Let_def pipe_ok_def pipe_invar_def intro!: pipes_inv_update)
qed (simp add: pipe_addref_def)

text \<open>Every operation may be called at any time, with any argument.\<close>

inductive pipe_step :: "pipes \<Rightarrow> pipes \<Rightarrow> bool" where
  step_alloc: "pipe_step ps (snd (pipe_alloc ps))"
| step_addref: "pipe_step ps (pipe_addref fd ps)"
| step_write: "pipe_step ps (snd (pipe_write fd data ps))"
| step_read: "pipe_step ps (snd (snd (pipe_read fd buf ps)))"
| step_close: "pipe_step ps (snd (pipe_close fd ps))"

inductive pipe_reach :: "pipes \<Rightarrow> bool" where
  reach_init: "pipe_reach PIPES_init"
| reach_step: "pipe_reach ps \<Longrightarrow> pipe_step ps ps' \<Longrightarrow> pipe_reach ps'"

inductive_cases pipe_stepE: "pipe_step ps ps'"

lemma pipe_step_inv: "pipe_step ps ps' \<Longrightarrow> pipes_inv ps \<Longrightarrow> pipes_inv ps'"
  by (erule pipe_stepE) (simp_all add: kinv)

lemma pipe_reach_inv: "pipe_reach ps \<Longrightarrow> pipes_inv ps"
  by (induction rule: pipe_reach.induct) (auto intro: pipes_init_inv pipe_step_inv)

section \<open>Refinement of the operations\<close>

text \<open>What a transfer does to the pipe it names, in terms of the stored bytes.\<close>

lemma pipe_write_loop_abs:
  assumes "pipe_ok p"
  shows "abs_pipe (fst (pipe_write_loop bs p 0)) =
      (abs_pipe p)\<lparr>stored := take (PIPE_BUF - 1) (stored (abs_pipe p) @ bs)\<rparr>"
    and "snd (pipe_write_loop bs p 0) = min (length bs) (PIPE_BUF - 1 - length (stored (abs_pipe p)))"
  using assms same_ends_puts [of p bs]
  by (auto simp: pipe_write_loop_puts pipe_ok_def abs_pipe_def same_ends_def pq.puts_contents)

lemma pipe_read_loop_abs:
  assumes "pipe_ok p"
  shows "\<exists>p'. pipe_read_loop 0 buf p =
        (min (length buf) (length (stored (abs_pipe p))),
         blit 0 (take (length buf) (stored (abs_pipe p))) buf, p')
      \<and> abs_pipe p' = (abs_pipe p)\<lparr>stored := drop (length buf) (stored (abs_pipe p))\<rparr>"
proof -
  obtain p' where p': "fifo_drain pipe_get (length buf) p = (take (length buf) (pipe_contents p), p')"
      "pipe_invar p'" "pipe_contents p' = drop (length buf) (pipe_contents p)"
    using pq.drain_spec [of p "length buf"] assms by (auto simp: pipe_ok_def)
  moreover have "same_ends p p'" by (rule same_ends_drain [OF p'(1)])
  ultimately show ?thesis
    using pipe_read_loop_drain [of 0 buf p] by (auto simp: abs_pipe_def same_ends_def min.commute)
qed

lemma unat_dec: "unat (if 0 < x then x - 1 else x) = unat (x :: u8) - 1"
  by (simp add: unat_minus_one word_gt_0)

lemma unat_sat_inc: "unat (sat_inc x) = min 255 (unat (x :: u8) + 1)"
proof (cases "x = - 1")
  case True
  have "unat (- 1 :: u8) = 255" by (simp add: unsigned_minus_1_eq_mask mask_eq_exp_minus_1)
  then show ?thesis using True by (simp add: sat_inc_def)
next
  case False
  then have "1 + x \<noteq> 0" using word_add_one_eq_0 [of x] by (simp add: add.commute)
  then have "unat (x + 1) = unat x + 1" using unatSuc [of x] by (simp add: add.commute)
  moreover have "unat (x + 1) < 256" using unsigned_less [of "x + 1"] by simp
  ultimately show ?thesis using False by (simp add: sat_inc_def)
qed

lemma last_holder: "(if 0 < x then x - 1 else x) = 0 \<longleftrightarrow> \<not> 1 < unat (x :: u8)"
  by (auto simp: word_gt_0 unat_eq_0 [symmetric] unat_minus_one)

lemma pipe_close_abs:
  assumes "pipes_inv ps" "i < PIPE_COUNT"
  shows "abs_pipes (snd (pipe_close (write_end i) ps)) = (abs_pipes ps)[i := (abs_pipes ps ! i)
      \<lparr>writers := writers (abs_pipes ps ! i) - 1, wopen := wopen (abs_pipes ps ! i) \<and> 1 < writers (abs_pipes ps ! i)\<rparr>]"
    and "abs_pipes (snd (pipe_close (read_end i) ps)) = (abs_pipes ps)[i := (abs_pipes ps ! i)
      \<lparr>readers := readers (abs_pipes ps ! i) - 1, ropen := ropen (abs_pipes ps ! i) \<and> 1 < readers (abs_pipes ps ! i)\<rparr>]"
  using assms unat_dec [of "write_refs (ps ! i)"] unat_dec [of "read_refs (ps ! i)"]
    last_holder [of "write_refs (ps ! i)"] last_holder [of "read_refs (ps ! i)"]
  by (simp_all add: pipe_close_def Let_def abs_pipe_def map_update pipe_contents_def pipes_inv_def)

lemma pipe_addref_abs:
  assumes "pipes_inv ps" "i < PIPE_COUNT"
  shows "abs_pipes (pipe_addref (write_end i) ps) =
      (abs_pipes ps)[i := (abs_pipes ps ! i)\<lparr>writers := min 255 (writers (abs_pipes ps ! i) + 1)\<rparr>]"
    and "abs_pipes (pipe_addref (read_end i) ps) =
      (abs_pipes ps)[i := (abs_pipes ps ! i)\<lparr>readers := min 255 (readers (abs_pipes ps ! i) + 1)\<rparr>]"
  using assms unat_sat_inc [of "write_refs (ps ! i)"] unat_sat_inc [of "read_refs (ps ! i)"]
  by (simp_all add: pipe_addref_def Let_def abs_pipe_def map_update pipe_contents_def pipes_inv_def)

lemma pipe_open_abs:
  assumes "pipes_inv ps" "i < PIPE_COUNT"
  shows "ropen (abs_pipes ps ! i) \<Longrightarrow> 0 < readers (abs_pipes ps ! i)"
    and "wopen (abs_pipes ps ! i) \<Longrightarrow> 0 < writers (abs_pipes ps ! i)"
  using pipes_inv_nth [OF assms] assms
  by (simp_all add: pipe_ok_def abs_pipe_def unat_gt_0 pipes_inv_def)

lemma pipe_closed_end:
  assumes "pipes_inv ps" "i < PIPE_COUNT"
  shows "\<not> wopen (abs_pipes ps ! i) \<Longrightarrow> pipe_write (write_end i) bs ps = (- 5, ps)"
    and "\<not> ropen (abs_pipes ps ! i) \<Longrightarrow> pipe_read (read_end i) buf ps = (- 5, buf, ps)"
  using assms by (simp_all add: pipe_write_def pipe_read_def Let_def abs_pipe_def pipes_inv_def)

lemma pipe_alloc_abs:
  assumes inv: "pipes_inv ps"
  shows "case pipe_alloc ps of
      (None, ps') \<Rightarrow> ps' = ps \<and> (\<forall>i < PIPE_COUNT. ropen (abs_pipes ps ! i) \<or> wopen (abs_pipes ps ! i))
    | (Some (r, w), ps') \<Rightarrow> \<exists>i < PIPE_COUNT. r = read_end i \<and> w = write_end i
        \<and> \<not> ropen (abs_pipes ps ! i) \<and> \<not> wopen (abs_pipes ps ! i)
        \<and> abs_pipes ps' = (abs_pipes ps)[i := \<lparr>stored = [], readers = 1, writers = 1, ropen = True, wopen = True\<rparr>]"
proof (cases "first_index (\<lambda>p. \<not> read_open p \<and> \<not> write_open p) ps")
  case None
  then show ?thesis using None [unfolded first_index_None] inv by (auto simp: pipe_alloc_def abs_pipe_def pipes_inv_def)
next
  case (Some i)
  have bd: "i < PIPE_COUNT" and closed: "\<not> read_open (ps ! i)" "\<not> write_open (ps ! i)" and len: "length ps = PIPE_COUNT"
    using first_index_SomeD [OF Some] inv by (auto simp: pipes_inv_def)
  have "pipe_invar (ps ! i)" using pipes_inv_nth [OF inv bd] by (simp add: pipe_ok_def)
  then have "ring_list (pbuf (ps ! i)) 0 0 = []" by (simp add: pipe_invar_def)
  then show ?thesis
    using Some bd closed len
    by (auto simp: pipe_alloc_def Let_def abs_pipe_def map_update pipe_contents_def intro!: exI [of _ i])
qed

text \<open>The table after the first allocation, the concrete state of the examples below.\<close>

definition pipes1 :: pipes where
  "pipes1 = snd (pipe_alloc PIPES_init)"

lemma pipes1_facts:
  "pipe_reach pipes1" "0 < PIPE_COUNT" "write_open (pipes1 ! 0)" "read_open (pipes1 ! 0)"
  "abs_pipes pipes1 ! 0 = \<lparr>stored = [], readers = 1, writers = 1, ropen = True, wopen = True\<rparr>"
  "pipe_alloc PIPES_init = (Some (80, 81), pipes1)" "length pipes1 = PIPE_COUNT"
proof -
  have al: "pipe_alloc PIPES_init = (Some (80, 81), pipes1)"
    by (simp add: pipes1_def pipe_alloc_def PIPES_init_def PIPE_COUNT_def pipe_new_def
        PIPE_FD_BASE_def Let_def numeral_eq_Suc)
  show "pipe_reach pipes1"
    unfolding pipes1_def by (rule reach_step [OF reach_init step_alloc])
  show "write_open (pipes1 ! 0)" "read_open (pipes1 ! 0)"
    "abs_pipes pipes1 ! 0 = \<lparr>stored = [], readers = 1, writers = 1, ropen = True, wopen = True\<rparr>"
    "length pipes1 = PIPE_COUNT"
    by (simp_all add: pipes1_def pipe_alloc_def PIPES_init_def PIPE_COUNT_def pipe_new_def Let_def
        numeral_eq_Suc abs_pipe_def pipe_contents_def)
qed (simp_all add: PIPE_COUNT_def, simp add: pipes1_def pipe_alloc_def PIPES_init_def PIPE_COUNT_def
    pipe_new_def PIPE_FD_BASE_def Let_def numeral_eq_Suc)

text \<open>
  C13. Writing to an open write end of any reachable pipe table stores the
  longest prefix of the data that fits into the 4095 bytes a pipe can hold,
  returns its length, and leaves every other pipe, and the ends of this one,
  as they are.
\<close>

theorem pipe_write_refines:
  assumes "pipe_reach ps" "i < PIPE_COUNT" "write_open (ps ! i)"
  shows "pipe_write (write_end i) data ps =
      (int (min (length data) (PIPE_BUF - 1 - length (stored (abs_pipes ps ! i)))),
       snd (pipe_write (write_end i) data ps))
    \<and> abs_pipes (snd (pipe_write (write_end i) data ps)) =
      (abs_pipes ps)[i := (abs_pipes ps ! i)
        \<lparr>stored := take (PIPE_BUF - 1) (stored (abs_pipes ps ! i) @ data)\<rparr>]"
proof -
  have inv: "pipes_inv ps" by (rule pipe_reach_inv [OF assms(1)])
  have ok: "pipe_ok (ps ! i)" and len: "i < length ps"
    using inv assms(2) pipes_inv_nth by (auto simp: pipes_inv_def)
  then show ?thesis
    using assms(2,3) pipe_write_loop_abs [OF ok, of data]
    by (simp add: pipe_write_def Let_def split_beta map_update)
qed

lemma pipe_write_refines_witness:
  "fst (pipe_write (write_end 0) [7, 8, 9] pipes1) = 3
   \<and> stored (abs_pipes (snd (pipe_write (write_end 0) [7, 8, 9] pipes1)) ! 0) = [7, 8, 9]"
  using pipe_write_refines [of pipes1 0 "[7, 8, 9]"] pipes1_facts
  by (simp add: PIPE_BUF_def prod_eq_iff)

text \<open>
  C14. Reading an open read end returns end-of-file (0) exactly when the pipe
  is empty and no writer is left, -6 when it is empty and a writer is left,
  and otherwise hands out the oldest bytes in order: as many as the buffer
  takes, stored at its front, removed from the pipe, no other pipe touched.
\<close>

theorem pipe_read_refines:
  assumes "pipe_reach ps" "i < PIPE_COUNT" "read_open (ps ! i)"
  shows "let a = abs_pipes ps ! i; n = length buf in
     (stored a = [] \<longrightarrow>
        pipe_read (read_end i) buf ps = (if writers a = 0 then 0 else - 6, buf, ps))
   \<and> (stored a \<noteq> [] \<longrightarrow>
        (\<exists>ps'. pipe_read (read_end i) buf ps =
           (int (min n (length (stored a))), blit 0 (take n (stored a)) buf, ps')
         \<and> abs_pipes ps' = (abs_pipes ps)[i := a\<lparr>stored := drop n (stored a)\<rparr>]))"
proof -
  have inv: "pipes_inv ps" by (rule pipe_reach_inv [OF assms(1)])
  have ok: "pipe_ok (ps ! i)" and len: "i < length ps"
    using inv assms(2) pipes_inv_nth by (auto simp: pipes_inv_def)
  have emp: "pipe_is_empty (ps ! i) \<longleftrightarrow> stored (abs_pipe (ps ! i)) = []"
    using ok by (simp add: pipe_ok_def abs_pipe_def)
  have wr: "writers (abs_pipe (ps ! i)) = 0 \<longleftrightarrow> write_refs (ps ! i) = 0"
    by (simp add: abs_pipe_def unat_eq_0)
  obtain p' where p': "pipe_read_loop 0 buf (ps ! i) =
        (min (length buf) (length (stored (abs_pipe (ps ! i)))),
         blit 0 (take (length buf) (stored (abs_pipe (ps ! i)))) buf, p')"
      "abs_pipe p' = (abs_pipe (ps ! i))\<lparr>stored := drop (length buf) (stored (abs_pipe (ps ! i)))\<rparr>"
    using pipe_read_loop_abs [OF ok, of buf] by blast
  show ?thesis
    using assms(2,3) len emp wr p' by (simp add: pipe_read_def Let_def map_update)
qed

lemma pipe_read_refines_witness:
  "pipe_reach pipes1 \<and> 0 < PIPE_COUNT \<and> read_open (pipes1 ! 0)
   \<and> pipe_read (read_end 0) [0, 0] pipes1 = (- 6, [0, 0], pipes1)"
  using pipe_read_refines [of pipes1 0 "[0, 0]"] pipes1_facts by (simp add: Let_def)

text \<open>
  C15. The life cycle of the two ends, in every table that any sequence of calls can
  produce.  An open end has a reference count of at least one.  Closing lowers the
  count and closes the end when the count reaches zero; adding a reference raises it,
  up to 255, but never opens an end, so an end that was closed rejects every transfer
  with -5 however many references are added.  Allocation takes a pipe whose ends are
  both closed, whatever its counts, and hands it out empty with one reference per end;
  it fails only if every pipe has an open end.
\<close>

theorem pipe_life_cycle:
  assumes "pipe_reach ps" "i < PIPE_COUNT" "abs_pipes ps ! i = a"
  shows "(ropen a \<longrightarrow> 0 < readers a) \<and> (wopen a \<longrightarrow> 0 < writers a)
   \<and> abs_pipes (snd (pipe_close (write_end i) ps)) =
        (abs_pipes ps)[i := a\<lparr>writers := writers a - 1, wopen := wopen a \<and> 1 < writers a\<rparr>]
   \<and> abs_pipes (snd (pipe_close (read_end i) ps)) =
        (abs_pipes ps)[i := a\<lparr>readers := readers a - 1, ropen := ropen a \<and> 1 < readers a\<rparr>]
   \<and> abs_pipes (pipe_addref (write_end i) ps) = (abs_pipes ps)[i := a\<lparr>writers := min 255 (writers a + 1)\<rparr>]
   \<and> abs_pipes (pipe_addref (read_end i) ps) = (abs_pipes ps)[i := a\<lparr>readers := min 255 (readers a + 1)\<rparr>]
   \<and> (\<not> wopen a \<longrightarrow> pipe_write (write_end i) bs ps = (- 5, ps))
   \<and> (\<not> ropen a \<longrightarrow> pipe_read (read_end i) buf ps = (- 5, buf, ps))
   \<and> (case pipe_alloc ps of
        (None, ps') \<Rightarrow> ps' = ps \<and> (\<forall>j < PIPE_COUNT. ropen (abs_pipes ps ! j) \<or> wopen (abs_pipes ps ! j))
      | (Some (r, w), ps') \<Rightarrow> \<exists>j < PIPE_COUNT. r = read_end j \<and> w = write_end j
          \<and> \<not> ropen (abs_pipes ps ! j) \<and> \<not> wopen (abs_pipes ps ! j)
          \<and> abs_pipes ps' = (abs_pipes ps)[j := \<lparr>stored = [], readers = 1, writers = 1, ropen = True, wopen = True\<rparr>])"
proof -
  have inv: "pipes_inv ps" by (rule pipe_reach_inv [OF assms(1)])
  note facts = pipe_open_abs [OF inv assms(2)] pipe_close_abs [OF inv assms(2)] pipe_addref_abs [OF inv assms(2)]
    pipe_closed_end [OF inv assms(2)]
  show ?thesis
    using facts [unfolded assms(3)] pipe_alloc_abs [OF inv] by (intro conjI impI) blast+
qed

text \<open>A writer that is counted again after the last close holds an end that stays closed.\<close>

lemma pipe_life_cycle_witness:
  "let ps = pipe_addref (write_end 0) (snd (pipe_close (write_end 0) pipes1)) in
     writers (abs_pipes ps ! 0) = 1 \<and> pipe_write (write_end 0) [7] ps = (- 5, ps)"
proof -
  let ?c = "snd (pipe_close (write_end 0) pipes1)"
  let ?ps = "pipe_addref (write_end 0) ?c"
  have r: "pipe_reach ?c" by (rule reach_step [OF pipes1_facts(1) step_close])
  have r': "pipe_reach ?ps" by (rule reach_step [OF r step_addref])
  have len: "length ?c = PIPE_COUNT" using pipe_reach_inv [OF r] by (simp add: pipes_inv_def)
  have c: "abs_pipes ?c ! 0 = \<lparr>stored = [], readers = 1, writers = 0, ropen = True, wopen = False\<rparr>"
    using pipe_life_cycle [OF pipes1_facts(1,2,5)] pipes1_facts(2,7) by (simp del: nth_map end_fds)
  then have "abs_pipes ?ps ! 0 = \<lparr>stored = [], readers = 1, writers = 1, ropen = True, wopen = False\<rparr>"
    using pipe_life_cycle [OF r pipes1_facts(2) c] len pipes1_facts(2) by (simp del: nth_map)
  from this and pipe_life_cycle [OF r' pipes1_facts(2) this, of "[7]"] show ?thesis by (simp add: Let_def del: nth_map)
qed

end
