(* ===== verification/Keyed_Table.thy ===== *)
theory Keyed_Table
  imports Prelude
begin

text \<open>
  The kernel's fixed-size tables (message queues, environment, shared
  segments) are arrays of entries that are either free or carry a key.  An
  operation searches for the first entry with its key.  When no key occurs
  twice, such a table is a partial map, and replacing one entry updates that
  map at one key.  \<open>key\<close> gives the key of an entry, \<^term>\<open>None\<close> for a free one,
  and \<open>view\<close> what the table stores under it.
\<close>

definition uniq :: "('e \<Rightarrow> 'k option) \<Rightarrow> 'e list \<Rightarrow> bool" where
  "uniq key xs \<longleftrightarrow> (\<forall>i < length xs. \<forall>j < length xs.
     key (xs ! i) = key (xs ! j) \<and> key (xs ! i) \<noteq> None \<longrightarrow> i = j)"

definition tab_find :: "('e \<Rightarrow> 'k option) \<Rightarrow> 'k \<Rightarrow> 'e list \<Rightarrow> nat option" where
  "tab_find key k xs = first_index (\<lambda>e. key e = Some k) xs"

definition tab_map :: "('e \<Rightarrow> 'k option) \<Rightarrow> ('e \<Rightarrow> 'v) \<Rightarrow> 'e list \<Rightarrow> 'k \<Rightarrow> 'v option" where
  "tab_map key view xs k = map_option (\<lambda>i. view (xs ! i)) (tab_find key k xs)"

lemma uniqD:
  "\<lbrakk>uniq key xs; i < length xs; j < length xs; key (xs ! i) = Some k; key (xs ! j) = Some k\<rbrakk> \<Longrightarrow> i = j"
  unfolding uniq_def by (metis option.discI)

lemma uniqI:
  "(\<And>i j k. \<lbrakk>i < length xs; j < length xs; key (xs ! i) = Some k; key (xs ! j) = Some k\<rbrakk> \<Longrightarrow> i = j)
    \<Longrightarrow> uniq key xs"
  unfolding uniq_def by (metis not_Some_eq)

lemma tab_find_Some:
  "\<lbrakk>uniq key xs; i < length xs; key (xs ! i) = Some k\<rbrakk> \<Longrightarrow> tab_find key k xs = Some i"
  unfolding tab_find_def by (rule first_index_unique) (auto dest: uniqD)

lemma tab_find_SomeD: "tab_find key k xs = Some i \<Longrightarrow> i < length xs \<and> key (xs ! i) = Some k"
  unfolding tab_find_def using first_index_SomeD by fastforce

lemma tab_find_None: "tab_find key k xs = None \<longleftrightarrow> (\<forall>i < length xs. key (xs ! i) \<noteq> Some k)"
  by (simp add: tab_find_def first_index_None all_set_conv_all_nth)

lemma tab_map_at:
  "\<lbrakk>uniq key xs; i < length xs; key (xs ! i) = Some k\<rbrakk> \<Longrightarrow> tab_map key view xs k = Some (view (xs ! i))"
  by (simp add: tab_map_def tab_find_Some)

lemma tab_map_None: "tab_map key view xs k = None \<longleftrightarrow> tab_find key k xs = None"
  by (simp add: tab_map_def)

lemma tab_cases [case_names absent present]:
  assumes "uniq key xs"
  obtains "tab_find key k xs = None" "tab_map key view xs k = None"
  | i where "tab_find key k xs = Some i" "i < length xs" "key (xs ! i) = Some k"
      "tab_map key view xs k = Some (view (xs ! i))"
proof (cases "tab_find key k xs")
  case None
  then show ?thesis using that(1) by (simp add: tab_map_def)
next
  case (Some i)
  then show ?thesis using that(2) [OF Some] tab_find_SomeD [OF Some] by (simp add: tab_map_def)
qed

lemma tab_map_other:
  assumes "i < length xs" "key (xs ! i) \<noteq> Some k" "key v \<noteq> Some k"
  shows "tab_map key view (xs[i := v]) k = tab_map key view xs k"
proof -
  have eq: "tab_find key k (xs[i := v]) = tab_find key k xs"
    unfolding tab_find_def using assms by (simp add: first_index_update_other)
  have "view (xs[i := v] ! j) = view (xs ! j)" if "tab_find key k xs = Some j" for j
    using tab_find_SomeD [OF that] assms by (cases "j = i") auto
  then show ?thesis using eq by (cases "tab_find key k xs") (simp_all add: tab_map_def)
qed

section \<open>Replacing an entry\<close>

lemma uniq_set:
  assumes u: "uniq key xs" and i: "i < length xs" and k: "key v = Some k"
    and fresh: "\<forall>j < length xs. key (xs ! j) = Some k \<longrightarrow> j = i"
  shows "uniq key (xs[i := v])"
  using assms by (intro uniqI) (auto simp: nth_list_update split: if_splits dest: uniqD)

lemma uniq_del: "uniq key xs \<Longrightarrow> key v = None \<Longrightarrow> uniq key (xs[i := v])"
  by (cases "i < length xs")
    (auto intro!: uniqI simp: nth_list_update list_update_beyond split: if_splits dest: uniqD)

lemma tab_map_set:
  assumes u: "uniq key xs" and i: "i < length xs" and k: "key v = Some k"
    and old: "key (xs ! i) = Some k \<or> key (xs ! i) = None \<and> tab_find key k xs = None"
  shows "uniq key (xs[i := v])" "tab_map key view (xs[i := v]) = (tab_map key view xs)(k \<mapsto> view v)"
proof -
  have "\<forall>j < length xs. key (xs ! j) = Some k \<longrightarrow> j = i"
    using u i old uniqD [of key xs] by (auto simp: tab_find_None)
  from uniq_set [OF u i k this] show u': "uniq key (xs[i := v])" .
  show "tab_map key view (xs[i := v]) = (tab_map key view xs)(k \<mapsto> view v)"
  proof
    fix k'
    show "tab_map key view (xs[i := v]) k' = ((tab_map key view xs)(k \<mapsto> view v)) k'"
    proof (cases "k' = k")
      case True
      then show ?thesis using tab_map_at [OF u', of i k view] i k by simp
    next
      case False
      then show ?thesis using tab_map_other [of i xs key k' v view] i k old by auto
    qed
  qed
qed

lemma tab_map_del:
  assumes u: "uniq key xs" and i: "i < length xs" and k: "key (xs ! i) = Some k" and v: "key v = None"
  shows "uniq key (xs[i := v])" "tab_map key view (xs[i := v]) = (tab_map key view xs)(k := None)"
proof -
  show "uniq key (xs[i := v])" by (rule uniq_del [OF u v])
  have gone: "tab_map key view (xs[i := v]) k = None"
    using u i k v by (auto simp: tab_map_None tab_find_None nth_list_update dest: uniqD)
  show "tab_map key view (xs[i := v]) = (tab_map key view xs)(k := None)"
  proof
    fix k'
    show "tab_map key view (xs[i := v]) k' = ((tab_map key view xs)(k := None)) k'"
      using gone tab_map_other [of i xs key k' v view] i k v by (cases "k' = k") auto
  qed
qed

section \<open>Capacity\<close>

lemma card_dom_tab:
  assumes u: "uniq key xs"
  shows "card (dom (tab_map key view xs)) = card {i. i < length xs \<and> key (xs ! i) \<noteq> None}"
proof -
  let ?S = "{i. i < length xs \<and> key (xs ! i) \<noteq> None}"
  have "dom (tab_map key view xs) = (\<lambda>i. the (key (xs ! i))) ` ?S"
  proof (intro equalityI subsetI)
    fix k assume "k \<in> dom (tab_map key view xs)"
    then obtain i where "tab_find key k xs = Some i" by (auto simp: tab_map_def)
    from tab_find_SomeD [OF this] show "k \<in> (\<lambda>i. the (key (xs ! i))) ` ?S" by force
  next
    fix k assume "k \<in> (\<lambda>i. the (key (xs ! i))) ` ?S"
    then obtain i where "i < length xs" "key (xs ! i) = Some k" by auto
    from tab_map_at [OF u this, of view] show "k \<in> dom (tab_map key view xs)" by (simp add: domI)
  qed
  moreover have "inj_on (\<lambda>i. the (key (xs ! i))) ?S"
    using u by (intro inj_onI) (auto intro: uniqD)
  ultimately show ?thesis by (simp add: card_image)
qed

lemma table_full_iff:
  assumes u: "uniq key xs"
  shows "first_index (\<lambda>e. key e = None) xs = None \<longleftrightarrow> card (dom (tab_map key view xs)) = length xs"
proof -
  let ?S = "{i. i < length xs \<and> key (xs ! i) \<noteq> None}"
  have "first_index (\<lambda>e. key e = None) xs = None \<longleftrightarrow> ?S = {..<length xs}"
    by (auto simp: first_index_None all_set_conv_all_nth)
  also have "\<dots> \<longleftrightarrow> card ?S = length xs"
  proof
    have "?S \<subseteq> {..<length xs}" by blast
    moreover assume "card ?S = length xs"
    ultimately show "?S = {..<length xs}" by (intro card_subset_eq) simp_all
  qed (metis card_lessThan)
  finally show ?thesis using card_dom_tab [OF u, of view] by simp
qed

end
