(* ===== verification/Msg_Queues.thy ===== *)
theory Msg_Queues
  imports Fifo Keyed_Table
begin

text \<open>
  Message queues, \<open>ipc/ipc.rs\<close>: sixteen slots, each a ring of sixty-four
  fixed-size messages named by a 32-bit id.  The operations search the table
  for the id, as the source does, and return its codes (-2 no such queue, -4
  table full, -6 full or empty queue, -22 message too long).  The theory shows
  that together they implement a partial map from ids to sequences of
  messages.
\<close>

definition MAX_QUEUES :: nat where [kdefs]: "MAX_QUEUES = 16"
definition MAX_MSG_SIZE :: nat where [kdefs]: "MAX_MSG_SIZE = 256"
definition MSG_QUEUE_DEPTH :: nat where [kdefs]: "MSG_QUEUE_DEPTH = 64"

record Message =
  type_id :: u32
  msize :: u32
  mdata :: bytes

definition message_empty :: Message where
  "message_empty = \<lparr>type_id = 0, msize = 0, mdata = replicate MAX_MSG_SIZE 0\<rparr>"

record MessageQueue =
  qid :: u32
  in_use :: bool
  messages :: "Message list"
  qhead :: nat
  qtail :: nat

type_synonym queues = "MessageQueue list"

definition message_queue_new :: MessageQueue where
  "message_queue_new = \<lparr>qid = 0, in_use = False,
    messages = replicate MSG_QUEUE_DEPTH message_empty, qhead = 0, qtail = 0\<rparr>"

definition mq_is_empty :: "MessageQueue \<Rightarrow> bool" where
  "mq_is_empty q \<longleftrightarrow> qhead q = qtail q"

definition mq_is_full :: "MessageQueue \<Rightarrow> bool" where
  "mq_is_full q \<longleftrightarrow> (qtail q + 1) mod MSG_QUEUE_DEPTH = qhead q"

definition QUEUES_init :: queues where
  "QUEUES_init = replicate MAX_QUEUES message_queue_new"

text \<open>The test every operation searches the table with.\<close>

definition mq_matches :: "u32 \<Rightarrow> MessageQueue \<Rightarrow> bool" where
  "mq_matches ident q \<longleftrightarrow> in_use q \<and> qid q = ident"

definition msgq_create :: "u32 \<Rightarrow> queues \<Rightarrow> int \<times> queues" where
  "msgq_create ident qs =
    (case first_index (mq_matches ident) qs of
       Some _ \<Rightarrow> (uint ident, qs)
     | None \<Rightarrow>
        (case first_index (\<lambda>q. \<not> in_use q) qs of
           Some i \<Rightarrow> (uint ident, qs[i := (qs ! i)\<lparr>in_use := True, qid := ident, qhead := 0, qtail := 0\<rparr>])
         | None \<Rightarrow> (- 4, qs)))"

text \<open>The body of a successful send: the fields of the slot at the tail, then the index.\<close>

definition mq_store :: "u32 \<Rightarrow> bytes \<Rightarrow> MessageQueue \<Rightarrow> MessageQueue" where
  "mq_store ty data q =
    (let t = qtail q; m = messages q ! t in
     q\<lparr>messages := (messages q)[t := m\<lparr>type_id := ty, msize := of_nat (length data),
                                        mdata := blit 0 data (mdata m)\<rparr>],
       qtail := (t + 1) mod MSG_QUEUE_DEPTH\<rparr>)"

definition msgsnd :: "u32 \<Rightarrow> u32 \<Rightarrow> bytes \<Rightarrow> queues \<Rightarrow> int \<times> queues" where
  "msgsnd ident ty data qs =
    (if length data > MAX_MSG_SIZE then (- 22, qs)
     else case first_index (mq_matches ident) qs of
       None \<Rightarrow> (- 2, qs)
     | Some i \<Rightarrow> if mq_is_full (qs ! i) then (- 6, qs)
                 else (0, qs[i := mq_store ty data (qs ! i)]))"

text \<open>The result, the caller's message after the call, and the table after it.\<close>

definition msgrcv :: "u32 \<Rightarrow> Message \<Rightarrow> queues \<Rightarrow> int \<times> Message \<times> queues" where
  "msgrcv ident msg_out qs =
    (case first_index (mq_matches ident) qs of
       None \<Rightarrow> (- 2, msg_out, qs)
     | Some i \<Rightarrow>
        (let q = qs ! i in
         if mq_is_empty q then (- 6, msg_out, qs)
         else (0, messages q ! qhead q, qs[i := q\<lparr>qhead := (qhead q + 1) mod MSG_QUEUE_DEPTH\<rparr>])))"

definition msgq_destroy :: "u32 \<Rightarrow> queues \<Rightarrow> int \<times> queues" where
  "msgq_destroy ident qs =
    (case first_index (mq_matches ident) qs of
       None \<Rightarrow> (- 2, qs)
     | Some i \<Rightarrow> (0, qs[i := (qs ! i)\<lparr>in_use := False, qhead := 0, qtail := 0\<rparr>]))"

definition msgq_len :: "u32 \<Rightarrow> queues \<Rightarrow> int" where
  "msgq_len ident qs =
    (case first_index (mq_matches ident) qs of
       None \<Rightarrow> - 2
     | Some i \<Rightarrow> int ((qtail (qs ! i) + MSG_QUEUE_DEPTH - qhead (qs ! i)) mod MSG_QUEUE_DEPTH))"

section \<open>One queue as a FIFO\<close>

type_synonym msg = "u32 \<times> bytes"

text \<open>What a receiver can use of a message: the type and the first \<open>size\<close> bytes.\<close>

definition msg_view :: "Message \<Rightarrow> msg" where
  "msg_view m = (type_id m, take (unat (msize m)) (mdata m))"

definition mq_invar :: "MessageQueue \<Rightarrow> bool" where
  "mq_invar q \<longleftrightarrow> length (messages q) = MSG_QUEUE_DEPTH \<and> qhead q < MSG_QUEUE_DEPTH
    \<and> qtail q < MSG_QUEUE_DEPTH \<and> list_all (\<lambda>m. length (mdata m) = MAX_MSG_SIZE) (messages q)"

definition mq_contents :: "MessageQueue \<Rightarrow> msg list" where
  "mq_contents q = map msg_view (ring_list (messages q) (qhead q) (qtail q))"

definition msg_ok :: "msg \<Rightarrow> bool" where
  "msg_ok m \<longleftrightarrow> length (snd m) \<le> MAX_MSG_SIZE"

definition mq_put :: "msg \<Rightarrow> MessageQueue \<Rightarrow> MessageQueue" where
  "mq_put m q = (if mq_is_full q then q else mq_store (fst m) (snd m) q)"

definition mq_get :: "MessageQueue \<Rightarrow> (msg \<times> MessageQueue) option" where
  "mq_get q = (if mq_is_empty q then None
    else Some (msg_view (messages q ! qhead q), q\<lparr>qhead := (qhead q + 1) mod MSG_QUEUE_DEPTH\<rparr>))"

lemma MSG_QUEUE_DEPTH_pos [simp]: "0 < MSG_QUEUE_DEPTH" "Suc 0 < MSG_QUEUE_DEPTH"
  by (simp_all add: MSG_QUEUE_DEPTH_def)

lemma mq_invarD:
  assumes "mq_invar q"
  shows "qhead q < length (messages q)" "qtail q < length (messages q)"
    "length (messages q) = MSG_QUEUE_DEPTH" "length (mdata (messages q ! qtail q)) = MAX_MSG_SIZE"
  using assms by (auto simp: mq_invar_def list_all_length)

lemma mq_full_iff: "mq_invar q \<Longrightarrow> mq_is_full q \<longleftrightarrow> length (mq_contents q) = MSG_QUEUE_DEPTH - 1"
  using ring_full_iff [of "qhead q" MSG_QUEUE_DEPTH "qtail q"]
  by (simp add: mq_is_full_def mq_contents_def mq_invar_def)

lemma mq_empty_iff: "mq_invar q \<Longrightarrow> mq_is_empty q \<longleftrightarrow> mq_contents q = []"
  using mq_invarD [of q] by (simp add: mq_is_empty_def mq_contents_def)

lemma mq_bounded: "mq_invar q \<Longrightarrow> length (mq_contents q) \<le> MSG_QUEUE_DEPTH - 1"
  using ring_len_less [of "qhead q" MSG_QUEUE_DEPTH "qtail q"] by (simp add: mq_contents_def mq_invar_def)

lemma msg_view_stored:
  assumes "length data \<le> MAX_MSG_SIZE" "length (mdata m) = MAX_MSG_SIZE"
  shows "msg_view (m\<lparr>type_id := ty, msize := of_nat (length data), mdata := blit 0 data (mdata m)\<rparr>)
    = (ty, data)"
proof -
  have "unat (of_nat (length data) :: u32) = length data"
    using assms(1) by (intro unat_of_nat_small) (simp add: MAX_MSG_SIZE_def)
  then show ?thesis using assms by (simp add: msg_view_def)
qed

lemma mq_store_invar: "mq_invar q \<Longrightarrow> length data \<le> MAX_MSG_SIZE \<Longrightarrow> mq_invar (mq_store ty data q)"
  using mq_invarD [of q] by (simp add: mq_invar_def mq_store_def Let_def list_all_update)

lemma mq_store_contents:
  assumes inv: "mq_invar q" and len: "length data \<le> MAX_MSG_SIZE" and nf: "\<not> mq_is_full q"
  shows "mq_contents (mq_store ty data q) = mq_contents q @ [(ty, data)]"
proof -
  note le = mq_invarD [OF inv]
  have "Suc (qtail q) mod length (messages q) \<noteq> qhead q"
    using nf le by (simp add: mq_is_full_def)
  from ring_list_push [OF le(1,2) this] show ?thesis
    using le msg_view_stored [OF len le(4)] by (simp add: mq_contents_def mq_store_def Let_def)
qed

interpretation mq: bounded_fifo mq_invar mq_contents "MSG_QUEUE_DEPTH - 1" msg_ok mq_put mq_get
proof unfold_locales
  fix q :: MessageQueue and x :: msg and xs :: "msg list"
  assume inv: "mq_invar q"
  show bd: "length (mq_contents q) \<le> MSG_QUEUE_DEPTH - 1" by (rule mq_bounded [OF inv])
  show "mq_invar (mq_put x q)" if "msg_ok x"
    using that inv by (simp add: mq_put_def msg_ok_def mq_store_invar)
  show "mq_contents (mq_put x q) =
      (if length (mq_contents q) < MSG_QUEUE_DEPTH - 1 then mq_contents q @ [x] else mq_contents q)"
    if "msg_ok x"
    using that mq_store_contents [OF inv, of "snd x" "fst x"] mq_full_iff [OF inv] bd
    by (auto simp: mq_put_def msg_ok_def)
  show "mq_get q = None" if "mq_contents q = []"
    using that inv by (simp add: mq_get_def mq_empty_iff)
  show "\<exists>q'. mq_get q = Some (x, q') \<and> mq_invar q' \<and> mq_contents q' = xs"
    if eq: "mq_contents q = x # xs"
  proof -
    note le = mq_invarD [OF inv]
    have ne: "qhead q \<noteq> qtail q"
      using eq inv mq_empty_iff [of q] by (auto simp: mq_is_empty_def)
    show ?thesis
      using eq inv ne le ring_list_pop [OF le(1,2) ne]
      by (simp add: mq_get_def mq_is_empty_def mq_contents_def mq_invar_def)
  qed
qed

section \<open>The table as a partial map\<close>

definition mq_key :: "MessageQueue \<Rightarrow> u32 option" where
  "mq_key q = (if in_use q then Some (qid q) else None)"

lemma mq_search: "first_index (mq_matches x) qs = tab_find mq_key x qs"
  "first_index (\<lambda>q. \<not> in_use q) qs = first_index (\<lambda>q. mq_key q = None) qs"
proof -
  have "mq_matches x = (\<lambda>q. mq_key q = Some x)" "(\<lambda>q. \<not> in_use q) = (\<lambda>q. mq_key q = None)"
    by (auto simp: mq_matches_def mq_key_def fun_eq_iff)
  then show "first_index (mq_matches x) qs = tab_find mq_key x qs"
    "first_index (\<lambda>q. \<not> in_use q) qs = first_index (\<lambda>q. mq_key q = None) qs"
    by (simp_all add: tab_find_def)
qed

definition queues_inv :: "queues \<Rightarrow> bool" where
  "queues_inv qs \<longleftrightarrow> length qs = MAX_QUEUES \<and> list_all mq_invar qs \<and> uniq mq_key qs"

definition abs_queues :: "queues \<Rightarrow> u32 \<Rightarrow> msg list option" where
  "abs_queues qs = tab_map mq_key mq_contents qs"

lemma queues_init_inv: "queues_inv QUEUES_init" "abs_queues QUEUES_init = Map.empty"
proof -
  have "mq_invar message_queue_new" "mq_key message_queue_new = None"
    by (simp_all add: mq_invar_def message_queue_new_def message_empty_def mq_key_def)
  then show "queues_inv QUEUES_init" "abs_queues QUEUES_init = Map.empty"
    by (auto simp: queues_inv_def QUEUES_init_def abs_queues_def tab_map_None tab_find_None uniq_def)
qed

lemma mq_search_cases:
  assumes "queues_inv qs"
  obtains (absent) "tab_find mq_key x qs = None" "abs_queues qs x = None"
  | (present) i where "tab_find mq_key x qs = Some i" "i < length qs"
      "mq_key (qs ! i) = Some x" "mq_invar (qs ! i)" "abs_queues qs x = Some (mq_contents (qs ! i))"
proof -
  have "uniq mq_key qs" "list_all mq_invar qs" using assms by (simp_all add: queues_inv_def)
  then show ?thesis
    using absent present
    by (cases rule: tab_cases [of mq_key qs x mq_contents]) (auto simp: abs_queues_def list_all_nth)
qed

text \<open>Replacing, filling and freeing a slot, for the table as a whole.\<close>

lemma queues_set:
  assumes "queues_inv qs" "i < length qs" "mq_invar q" "mq_key q = Some x"
    and "mq_key (qs ! i) = Some x \<or> mq_key (qs ! i) = None \<and> tab_find mq_key x qs = None"
  shows "queues_inv (qs[i := q]) \<and> abs_queues (qs[i := q]) = (abs_queues qs)(x \<mapsto> mq_contents q)"
  using assms tab_map_set [of mq_key qs i q x]
  by (simp add: queues_inv_def abs_queues_def list_all_update)

lemma queues_del:
  assumes "queues_inv qs" "i < length qs" "mq_invar q" "mq_key (qs ! i) = Some x" "mq_key q = None"
  shows "queues_inv (qs[i := q]) \<and> abs_queues (qs[i := q]) = (abs_queues qs)(x := None)"
  using assms tab_map_del [of mq_key qs i x q]
  by (simp add: queues_inv_def abs_queues_def list_all_update)

section \<open>Refinement of the operations\<close>

text \<open>
  The specification: a partial map from ids to message sequences, one
  transition per operation, with the result the operation returns.
\<close>

type_synonym mqspec = "u32 \<Rightarrow> msg list option"

definition spec_create :: "u32 \<Rightarrow> mqspec \<Rightarrow> int \<times> mqspec" where
  "spec_create x m =
    (if m x \<noteq> None then (uint x, m)
     else if card (dom m) = MAX_QUEUES then (- 4, m) else (uint x, m(x \<mapsto> [])))"

definition spec_send :: "u32 \<Rightarrow> u32 \<Rightarrow> bytes \<Rightarrow> mqspec \<Rightarrow> int \<times> mqspec" where
  "spec_send x ty data m =
    (if length data > MAX_MSG_SIZE then (- 22, m)
     else case m x of
       None \<Rightarrow> (- 2, m)
     | Some ms \<Rightarrow> if length ms = MSG_QUEUE_DEPTH - 1 then (- 6, m)
                  else (0, m(x \<mapsto> ms @ [(ty, data)])))"

definition spec_recv :: "u32 \<Rightarrow> mqspec \<Rightarrow> int \<times> msg option \<times> mqspec" where
  "spec_recv x m =
    (case m x of
       None \<Rightarrow> (- 2, None, m)
     | Some [] \<Rightarrow> (- 6, None, m)
     | Some (a # ms) \<Rightarrow> (0, Some a, m(x \<mapsto> ms)))"

definition spec_destroy :: "u32 \<Rightarrow> mqspec \<Rightarrow> int \<times> mqspec" where
  "spec_destroy x m = (if m x = None then (- 2, m) else (0, m(x := None)))"

lemma msgq_create_refines:
  assumes inv: "queues_inv qs" and step: "msgq_create x qs = (r, qs')"
  shows "queues_inv qs' \<and> spec_create x (abs_queues qs) = (r, abs_queues qs')"
proof (cases rule: mq_search_cases [OF inv, of x, case_names absent present])
  case (present i)
  then show ?thesis using step inv by (simp add: msgq_create_def spec_create_def mq_search)
next
  case absent
  have full: "first_index (\<lambda>q. mq_key q = None) qs = None \<longleftrightarrow> card (dom (abs_queues qs)) = MAX_QUEUES"
    using table_full_iff [of mq_key qs mq_contents] inv by (simp add: queues_inv_def abs_queues_def)
  show ?thesis
  proof (cases "first_index (\<lambda>q. mq_key q = None) qs")
    case None
    then show ?thesis
      using absent step inv full by (simp add: msgq_create_def spec_create_def mq_search)
  next
    case (Some i)
    let ?q = "(qs ! i)\<lparr>in_use := True, qid := x, qhead := 0, qtail := 0\<rparr>"
    have i: "i < length qs" "mq_key (qs ! i) = None" using first_index_SomeD [OF Some] by auto
    have "mq_invar (qs ! i)" using inv i by (simp add: queues_inv_def list_all_nth)
    then have q: "mq_invar ?q" "mq_contents ?q = []" "mq_key ?q = Some x"
      by (auto simp: mq_invar_def mq_contents_def mq_key_def)
    show ?thesis
      using absent step Some full queues_set [OF inv i(1) q(1,3)] i q
      by (simp add: msgq_create_def spec_create_def mq_search)
  qed
qed

lemma msgsnd_refines:
  assumes inv: "queues_inv qs" and step: "msgsnd x ty data qs = (r, qs')"
  shows "queues_inv qs' \<and> spec_send x ty data (abs_queues qs) = (r, abs_queues qs')"
proof (cases rule: mq_search_cases [OF inv, of x, case_names absent present])
  case absent
  then show ?thesis
    using step inv by (auto simp: msgsnd_def spec_send_def mq_search split: if_splits)
next
  case (present i)
  have "mq_key (mq_store ty data (qs ! i)) = Some x"
    using present(3) by (simp add: mq_key_def mq_store_def Let_def split: if_splits)
  note upd = queues_set [OF inv present(2) mq_store_invar [OF present(4)] this]
    and full = mq_full_iff [OF present(4)] and cont = mq_store_contents [OF present(4)]
  show ?thesis
    using present step inv upd full cont
    by (auto simp: msgsnd_def spec_send_def mq_search split: if_splits)
qed

lemma msgrcv_refines:
  assumes inv: "queues_inv qs" and step: "msgrcv x out qs = (r, out', qs')"
  shows "queues_inv qs' \<and> spec_recv x (abs_queues qs) =
      (r, if r = 0 then Some (msg_view out') else None, abs_queues qs')"
proof (cases rule: mq_search_cases [OF inv, of x, case_names absent present])
  case absent
  then show ?thesis using step inv by (auto simp: msgrcv_def spec_recv_def mq_search)
next
  case (present i)
  let ?q = "qs ! i" and ?q' = "(qs ! i)\<lparr>qhead := (qhead (qs ! i) + 1) mod MSG_QUEUE_DEPTH\<rparr>"
  show ?thesis
  proof (cases "mq_contents ?q")
    case Nil
    then show ?thesis
      using present step inv mq_empty_iff [OF present(4)]
      by (auto simp: msgrcv_def spec_recv_def Let_def mq_search)
  next
    case (Cons a ms)
    then have ne: "\<not> mq_is_empty ?q" using mq_empty_iff [OF present(4)] by simp
    from mq.get_Some [OF present(4) Cons] ne
    have a: "msg_view (messages ?q ! qhead ?q) = a" "mq_invar ?q'" "mq_contents ?q' = ms"
      by (auto simp: mq_get_def)
    have "mq_key ?q' = Some x" using present(3) by (simp add: mq_key_def split: if_splits)
    note upd = queues_set [OF inv present(2) a(2) this]
    show ?thesis
      using present step ne Cons a upd by (auto simp: msgrcv_def spec_recv_def Let_def mq_search)
  qed
qed

lemma msgq_destroy_refines:
  assumes inv: "queues_inv qs" and step: "msgq_destroy x qs = (r, qs')"
  shows "queues_inv qs' \<and> spec_destroy x (abs_queues qs) = (r, abs_queues qs')"
proof (cases rule: mq_search_cases [OF inv, of x, case_names absent present])
  case absent
  then show ?thesis using step inv by (auto simp: msgq_destroy_def spec_destroy_def mq_search)
next
  case (present i)
  let ?q = "(qs ! i)\<lparr>in_use := False, qhead := 0, qtail := 0\<rparr>"
  have q: "mq_invar ?q" "mq_key ?q = None"
    using present(4) by (auto simp: mq_invar_def mq_key_def)
  show ?thesis
    using present step queues_del [OF inv present(2) q(1) present(3) q(2)]
    by (auto simp: msgq_destroy_def spec_destroy_def mq_search)
qed

section \<open>All uses of the queues\<close>

datatype mq_op =
    MCreate u32
  | MSend u32 u32 bytes
  | MRecv u32
  | MDestroy u32
  | MLen u32

text \<open>
  One operation, with its \<open>i64\<close> result and, for a receive, the message the
  caller finds in its buffer (the system call passes an empty one).
\<close>

fun mq_exec :: "mq_op \<Rightarrow> queues \<Rightarrow> (int \<times> msg option) \<times> queues" where
  "mq_exec (MCreate x) qs = (let (r, qs') = msgq_create x qs in ((r, None), qs'))"
| "mq_exec (MSend x ty data) qs = (let (r, qs') = msgsnd x ty data qs in ((r, None), qs'))"
| "mq_exec (MRecv x) qs = (let (r, m, qs') = msgrcv x message_empty qs in
      ((r, if r = 0 then Some (msg_view m) else None), qs'))"
| "mq_exec (MDestroy x) qs = (let (r, qs') = msgq_destroy x qs in ((r, None), qs'))"
| "mq_exec (MLen x) qs = ((msgq_len x qs, None), qs)"

fun mq_spec :: "mq_op \<Rightarrow> mqspec \<Rightarrow> (int \<times> msg option) \<times> mqspec" where
  "mq_spec (MCreate x) m = (let (r, m') = spec_create x m in ((r, None), m'))"
| "mq_spec (MSend x ty data) m = (let (r, m') = spec_send x ty data m in ((r, None), m'))"
| "mq_spec (MRecv x) m = (let (r, a, m') = spec_recv x m in ((r, a), m'))"
| "mq_spec (MDestroy x) m = (let (r, m') = spec_destroy x m in ((r, None), m'))"
| "mq_spec (MLen x) m = ((case m x of None \<Rightarrow> - 2 | Some ms \<Rightarrow> int (length ms), None), m)"

lemma msgq_len_refines:
  assumes "queues_inv qs"
  shows "msgq_len x qs = (case abs_queues qs x of None \<Rightarrow> - 2 | Some ms \<Rightarrow> int (length ms))"
proof (cases rule: mq_search_cases [OF assms, of x, case_names absent present])
  case (present i)
  then show ?thesis
    by (simp add: msgq_len_def mq_contents_def ring_len_def mq_invar_def mq_search)
qed (simp add: msgq_len_def mq_search)

lemma surj_triple: "p = (fst p, fst (snd p), snd (snd p))"
  by simp

interpretation mqs: simulation mq_exec mq_spec queues_inv abs_queues "\<lambda>_. True"
proof unfold_locales
  fix qs qs' :: queues and a :: mq_op and r :: "int \<times> msg option"
  assume inv: "queues_inv qs" and step: "mq_exec a qs = (r, qs')"
  note refs = msgrcv_refines [of qs _ message_empty, OF inv surj_triple]
      msgq_create_refines [OF inv surjective_pairing] msgsnd_refines [OF inv surjective_pairing]
      msgq_destroy_refines [OF inv surjective_pairing]
  show "queues_inv qs'"
    using step inv refs by (cases a) (auto simp: split_beta Let_def)
  show "mq_spec a (abs_queues qs) = (r, abs_queues qs')"
    using step refs by (cases a) (auto simp: split_beta Let_def msgq_len_refines [OF inv])
qed

text \<open>
  C16. However the queues are used from boot on, every call returns what a
  partial map from ids to message sequences would return (existence, capacity
  of 63 messages, at most 16 queues, length limit of 256 bytes, messages
  delivered whole and in order, no queue affected by calls on another), and
  the table stays well formed.
\<close>

theorem msgq_trace_refines:
  "let (rs, qs) = run_ops mq_exec ops QUEUES_init in
    queues_inv qs \<and> run_ops mq_spec ops Map.empty = (rs, abs_queues qs)"
proof -
  obtain rs qs where run: "run_ops mq_exec ops QUEUES_init = (rs, qs)" by (rule prod.exhaust)
  show ?thesis using mqs.run_refines [OF queues_init_inv(1) _ run] queues_init_inv(2) run by simp
qed

end
