(* ===== verification/Environment.thy ===== *)
theory Environment
  imports Keyed_Table
begin

text \<open>
  The environment-variable store, \<open>proc/env.rs\<close>: thirty-two entries with a
  key of at most 32 and a value of at most 256 bytes in fixed arrays, their
  lengths kept in a \<open>u8\<close> and a \<open>u16\<close>.  The theory shows that \<open>setenv\<close> and
  \<open>getenv\<close> implement a bounded partial map, and what \<open>write_env_strings\<close>
  exports of it.
\<close>

definition MAX_VARS :: nat where [kdefs]: "MAX_VARS = 32"
definition MAX_KEY :: nat where [kdefs]: "MAX_KEY = 32"
definition MAX_VAL :: nat where [kdefs]: "MAX_VAL = 256"

record EnvEntry =
  ekey :: bytes
  key_len :: u8
  eval :: bytes
  val_len :: u16
  used :: bool

definition env_entry_empty :: EnvEntry where
  "env_entry_empty = \<lparr>ekey = replicate MAX_KEY 0, key_len = 0, eval = replicate MAX_VAL 0,
    val_len = 0, used = False\<rparr>"

type_synonym env = "EnvEntry list"

definition ENV_TABLE_init :: env where
  "ENV_TABLE_init = replicate MAX_VARS env_entry_empty"

definition bytes_eq :: "bytes \<Rightarrow> bytes \<Rightarrow> bool" where
  "bytes_eq a b = list_all (\<lambda>i. a ! i = b ! i) [0..<length b]"

definition bytes_copy :: "bytes \<Rightarrow> bytes \<Rightarrow> bytes" where
  "bytes_copy dst src = blit 0 src dst"

definition env_matches :: "bytes \<Rightarrow> EnvEntry \<Rightarrow> bool" where
  "env_matches k e \<longleftrightarrow> used e \<and> unat (key_len e) = length k \<and> bytes_eq (ekey e) k"

definition getenv :: "bytes \<Rightarrow> env \<Rightarrow> bytes option" where
  "getenv k es =
    (if k = [] \<or> length k > MAX_KEY then None
     else case first_index (env_matches k) es of
       None \<Rightarrow> None
     | Some i \<Rightarrow> Some (take (unat (val_len (es ! i))) (eval (es ! i))))"

definition setenv :: "bytes \<Rightarrow> bytes \<Rightarrow> env \<Rightarrow> bool \<times> env" where
  "setenv k v es =
    (if k = [] \<or> length k > MAX_KEY \<or> length v > MAX_VAL then (False, es)
     else case first_index (env_matches k) es of
       Some i \<Rightarrow>
         (True, if v = [] then es[i := (es ! i)\<lparr>used := False\<rparr>]
                else es[i := (es ! i)\<lparr>eval := bytes_copy (eval (es ! i)) v,
                                       val_len := of_nat (length v)\<rparr>])
     | None \<Rightarrow>
         if v = [] then (True, es)
         else case first_index (\<lambda>e. \<not> used e) es of
           Some i \<Rightarrow>
             (True, es[i := (es ! i)\<lparr>ekey := bytes_copy (ekey (es ! i)) k,
                                      key_len := of_nat (length k),
                                      eval := bytes_copy (eval (es ! i)) v,
                                      val_len := of_nat (length v), used := True\<rparr>])
         | None \<Rightarrow> (False, es))"

text \<open>One round of the export loop; the state is the count, the offset and the buffer.\<close>

fun env_emit :: "EnvEntry \<Rightarrow> nat \<times> nat \<times> bytes \<Rightarrow> nat \<times> nat \<times> bytes" where
  "env_emit e (count, offset, buf) =
    (if \<not> used e then (count, offset, buf)
     else (let kl = unat (key_len e); vl = unat (val_len e); needed = kl + 1 + vl + 1 in
       if offset + needed > length buf then (count, offset, buf)
       else (let buf1 = blit offset (take kl (ekey e)) buf;
                 buf2 = buf1[offset + kl := 61];
                 buf3 = blit (offset + kl + 1) (take vl (eval e)) buf2;
                 buf4 = buf3[offset + kl + 1 + vl := 0] in
             (count + 1, offset + kl + 1 + vl + 1, buf4))))"

definition write_env_strings :: "bytes \<Rightarrow> env \<Rightarrow> nat \<times> nat \<times> bytes" where
  "write_env_strings out_buf es = fold env_emit es (0, 0, out_buf)"

definition init_defaults :: "env \<Rightarrow> env" where
  "init_defaults es =
    fold (\<lambda>(k, v) es. snd (setenv (bstr k) (bstr v) es))
      [(''PATH'', ''/bin''), (''HOME'', ''/''), (''TERM'', ''vt100''), (''USER'', ''oxide''),
       (''SHELL'', ''/bin/sh''), (''HOSTNAME'', ''oxideos'')] es"

section \<open>The table as a partial map\<close>

definition entry_ok :: "EnvEntry \<Rightarrow> bool" where
  "entry_ok e \<longleftrightarrow> length (ekey e) = MAX_KEY \<and> length (eval e) = MAX_VAL
    \<and> unat (val_len e) \<le> MAX_VAL \<and> unat (key_len e) \<le> MAX_KEY
    \<and> (used e \<longrightarrow> 0 < unat (key_len e) \<and> 0 < unat (val_len e))"

definition env_key :: "EnvEntry \<Rightarrow> bytes option" where
  "env_key e = (if used e then Some (take (unat (key_len e)) (ekey e)) else None)"

definition env_val :: "EnvEntry \<Rightarrow> bytes" where
  "env_val e = take (unat (val_len e)) (eval e)"

definition env_inv :: "env \<Rightarrow> bool" where
  "env_inv es \<longleftrightarrow> length es = MAX_VARS \<and> list_all entry_ok es \<and> uniq env_key es"

definition abs_env :: "env \<Rightarrow> bytes \<Rightarrow> bytes option" where
  "abs_env es = tab_map env_key env_val es"

lemma bytes_eq_take: "length b \<le> length a \<Longrightarrow> bytes_eq a b \<longleftrightarrow> take (length b) a = b"
  by (simp add: bytes_eq_def list_all_iff list_eq_iff_nth_eq [of "take (length b) a" b] min_absorb2 Ball_def)

lemma env_matches_key:
  "entry_ok e \<Longrightarrow> length k \<le> MAX_KEY \<Longrightarrow> env_matches k e \<longleftrightarrow> env_key e = Some k"
  by (auto simp: env_matches_def env_key_def entry_ok_def bytes_eq_take)

lemma env_search:
  assumes "env_inv es" "length k \<le> MAX_KEY"
  shows "first_index (env_matches k) es = tab_find env_key k es"
    and "first_index (\<lambda>e. \<not> used e) es = first_index (\<lambda>e. env_key e = None) es"
  using assms
  by (auto simp: tab_find_def env_inv_def list_all_iff env_matches_key env_key_def
      intro!: first_index_cong split: if_splits)

lemma env_search_cases:
  assumes "env_inv es"
  obtains (absent) "tab_find env_key k es = None" "abs_env es k = None"
  | (present) i where "tab_find env_key k es = Some i" "i < length es"
      "env_key (es ! i) = Some k" "entry_ok (es ! i)" "abs_env es k = Some (env_val (es ! i))"
proof -
  have "uniq env_key es" "list_all entry_ok es" using assms by (simp_all add: env_inv_def)
  then show ?thesis
    using absent present
    by (cases rule: tab_cases [of env_key es k env_val]) (auto simp: abs_env_def list_all_nth)
qed

lemma env_init_inv: "env_inv ENV_TABLE_init" "abs_env ENV_TABLE_init = Map.empty"
proof -
  have "entry_ok env_entry_empty" "env_key env_entry_empty = None"
    by (simp_all add: entry_ok_def env_entry_empty_def env_key_def)
  then show "env_inv ENV_TABLE_init" "abs_env ENV_TABLE_init = Map.empty"
    by (auto simp: env_inv_def ENV_TABLE_init_def abs_env_def tab_map_None tab_find_None uniq_def)
qed

lemma env_set:
  assumes "env_inv es" "i < length es" "entry_ok e" "env_key e = Some k"
    and "env_key (es ! i) = Some k \<or> env_key (es ! i) = None \<and> tab_find env_key k es = None"
  shows "env_inv (es[i := e]) \<and> abs_env (es[i := e]) = (abs_env es)(k \<mapsto> env_val e)"
  using assms tab_map_set [of env_key es i e k]
  by (simp add: env_inv_def abs_env_def list_all_update)

lemma env_del:
  assumes "env_inv es" "i < length es" "entry_ok e" "env_key (es ! i) = Some k" "env_key e = None"
  shows "env_inv (es[i := e]) \<and> abs_env (es[i := e]) = (abs_env es)(k := None)"
  using assms tab_map_del [of env_key es i k e]
  by (simp add: env_inv_def abs_env_def list_all_update)

text \<open>The lengths stored in the \<open>u8\<close> and \<open>u16\<close> fields are not truncated.\<close>

lemma len_fields [simp]:
  "length k \<le> MAX_KEY \<Longrightarrow> unat (of_nat (length k) :: u8) = length k"
  "length v \<le> MAX_VAL \<Longrightarrow> unat (of_nat (length v) :: u16) = length v"
  by (auto intro!: unat_of_nat_small simp: MAX_KEY_def MAX_VAL_def)

section \<open>Refinement\<close>

type_synonym envspec = "bytes \<Rightarrow> bytes option"

definition spec_setenv :: "bytes \<Rightarrow> bytes \<Rightarrow> envspec \<Rightarrow> bool \<times> envspec" where
  "spec_setenv k v m =
    (if k = [] \<or> length k > MAX_KEY \<or> length v > MAX_VAL then (False, m)
     else if v = [] then (True, m(k := None))
     else if m k = None \<and> card (dom m) = MAX_VARS then (False, m)
     else (True, m(k \<mapsto> v)))"

lemma getenv_refines:
  assumes inv: "env_inv es"
  shows "getenv k es = abs_env es k"
proof (cases rule: env_search_cases [OF inv, of k, case_names absent present])
  case absent
  then show ?thesis using env_search(1) [OF inv, of k] by (auto simp: getenv_def split: option.split)
next
  case (present i)
  then have "length k \<le> MAX_KEY" "k \<noteq> []"
    by (auto simp: env_key_def entry_ok_def split: if_splits)
  then show ?thesis
    using present env_search(1) [OF inv, of k] by (simp add: getenv_def env_val_def)
qed

lemma setenv_refines:
  assumes inv: "env_inv es"
  shows "env_inv (snd (setenv k v es))
    \<and> spec_setenv k v (abs_env es) = (fst (setenv k v es), abs_env (snd (setenv k v es)))"
proof (cases "k = [] \<or> length k > MAX_KEY \<or> length v > MAX_VAL")
  case True
  then show ?thesis using inv by (simp add: setenv_def spec_setenv_def)
next
  case False
  then have lens: "k \<noteq> []" "length k \<le> MAX_KEY" "length v \<le> MAX_VAL" by auto
  note search = env_search [OF inv lens(2)]
  have full: "first_index (\<lambda>e. env_key e = None) es = None \<longleftrightarrow> card (dom (abs_env es)) = MAX_VARS"
    using table_full_iff [of env_key es env_val] inv by (simp add: env_inv_def abs_env_def)
  show ?thesis
  proof (cases rule: env_search_cases [OF inv, of k, case_names absent present])
    case (present i)
    let ?d = "(es ! i)\<lparr>used := False\<rparr>"
      and ?e = "(es ! i)\<lparr>eval := bytes_copy (eval (es ! i)) v, val_len := of_nat (length v)\<rparr>"
    have d: "entry_ok ?d" "env_key ?d = None" using present(4) by (auto simp: entry_ok_def env_key_def)
    have e: "entry_ok ?e" "env_key ?e = Some k" "env_val ?e = v" if "v \<noteq> []"
      using present(3,4) lens that
      by (auto simp: entry_ok_def env_key_def env_val_def bytes_copy_def split: if_splits)
    show ?thesis
      using False present search env_del [OF inv present(2) d(1) present(3) d(2)]
        env_set [OF inv present(2), of ?e k] e
      by (cases "v = []") (simp_all add: setenv_def spec_setenv_def)
  next
    case absent
    show ?thesis
    proof (cases "v = []")
      case True
      then show ?thesis using False absent search inv
        by (simp add: setenv_def spec_setenv_def fun_upd_idem)
    next
      case ne: False
      show ?thesis
      proof (cases "first_index (\<lambda>e. env_key e = None) es")
        case None
        then show ?thesis
          using False ne absent search inv full by (simp add: setenv_def spec_setenv_def)
      next
        case (Some i)
        let ?e = "(es ! i)\<lparr>ekey := bytes_copy (ekey (es ! i)) k, key_len := of_nat (length k),
            eval := bytes_copy (eval (es ! i)) v, val_len := of_nat (length v), used := True\<rparr>"
        have i: "i < length es" "env_key (es ! i) = None" using first_index_SomeD [OF Some] by auto
        have "entry_ok (es ! i)" using inv i by (simp add: env_inv_def list_all_nth)
        then have e: "entry_ok ?e" "env_key ?e = Some k" "env_val ?e = v"
          using lens ne by (auto simp: entry_ok_def env_key_def env_val_def bytes_copy_def)
        show ?thesis
          using False ne absent search Some full env_set [OF inv i(1) e(1,2)] i e(3)
          by (simp add: setenv_def spec_setenv_def)
      qed
    qed
  qed
qed

datatype env_op = SetEnv bytes bytes | GetEnv bytes

fun env_exec :: "env_op \<Rightarrow> env \<Rightarrow> (bool + bytes option) \<times> env" where
  "env_exec (SetEnv k v) es = (let (b, es') = setenv k v es in (Inl b, es'))"
| "env_exec (GetEnv k) es = (Inr (getenv k es), es)"

fun env_spec :: "env_op \<Rightarrow> envspec \<Rightarrow> (bool + bytes option) \<times> envspec" where
  "env_spec (SetEnv k v) m = (let (b, m') = spec_setenv k v m in (Inl b, m'))"
| "env_spec (GetEnv k) m = (Inr (m k), m)"

interpretation envs: simulation env_exec env_spec env_inv abs_env "\<lambda>_. True"
proof unfold_locales
  fix es es' :: env and a :: env_op and r :: "bool + bytes option"
  assume inv: "env_inv es" and step: "env_exec a es = (r, es')"
  show "env_inv es'"
    using step inv setenv_refines [OF inv] by (cases a) (auto simp: split_beta Let_def)
  show "env_spec a (abs_env es) = (r, abs_env es')"
    using step setenv_refines [OF inv] getenv_refines [OF inv] by (cases a) (auto simp: split_beta Let_def)
qed

lemma init_defaults_inv: "env_inv es \<Longrightarrow> env_inv (init_defaults es)"
  unfolding init_defaults_def by (simp add: setenv_refines)

text \<open>
  C18. Whatever sequence of \<open>setenv\<close> and \<open>getenv\<close> calls follows the boot-time
  defaults, the results are those of a partial map of at most 32 variables:
  a lookup returns the value last set, an empty value deletes, over-long keys
  and values and a thirty-third variable are refused and change nothing.
\<close>

theorem env_trace_refines:
  "let (rs, es) = run_ops env_exec ops (init_defaults ENV_TABLE_init) in
    env_inv es \<and> run_ops env_spec ops (abs_env (init_defaults ENV_TABLE_init)) = (rs, abs_env es)"
proof -
  have inv: "env_inv (init_defaults ENV_TABLE_init)" by (rule init_defaults_inv [OF env_init_inv(1)])
  obtain rs es where run: "run_ops env_exec ops (init_defaults ENV_TABLE_init) = (rs, es)"
    by (rule prod.exhaust)
  show ?thesis using envs.run_refines [OF inv _ run] run by simp
qed

section \<open>Export to a new process image\<close>

text \<open>One exported string, \<open>KEY=VALUE\<close> with its terminator.\<close>

definition env_string :: "EnvEntry \<Rightarrow> bytes" where
  "env_string e = take (unat (key_len e)) (ekey e) @ [61] @ env_val e @ [0]"

lemma blit_append:
  assumes "off + length xs + length ys \<le> length buf"
  shows "blit (off + length xs) ys (blit off xs buf) = blit off (xs @ ys) buf"
  using assms by (simp add: blit_def ac_simps)

lemma update_blit: "i < length buf \<Longrightarrow> buf[i := x] = blit i [x] buf"
  by (simp add: blit_def upd_conv_take_nth_drop)

lemma blit_blit:
  assumes "off2 = off + length xs" "off + length xs + length ys \<le> length buf"
  shows "blit off2 ys (blit off xs buf) = blit off (xs @ ys) buf"
  using assms blit_append by metis

lemma env_emit_blit:
  assumes ok: "entry_ok e" and u: "used e"
    and fits: "offset + length (env_string e) \<le> length buf"
  shows "env_emit e (count, offset, buf)
    = (count + 1, offset + length (env_string e), blit offset (env_string e) buf)"
proof -
  let ?k = "take (unat (key_len e)) (ekey e)" and ?v = "env_val e"
  have lens: "length ?k = unat (key_len e)" "length ?v = unat (val_len e)"
    using ok by (auto simp: entry_ok_def env_val_def)
  have fits': "offset + length ?k + 1 + length ?v + 1 \<le> length buf"
    using fits unfolding env_string_def by (simp only: length_append list.size)
  let ?b1 = "blit offset ?k buf"
  have b2: "?b1[offset + length ?k := 61] = blit offset (?k @ [61]) buf"
    using fits' by (subst update_blit) (auto simp: blit_blit)
  have b3: "blit (offset + length ?k + 1) ?v (blit offset (?k @ [61]) buf)
      = blit offset ((?k @ [61]) @ ?v) buf"
    using fits' by (intro blit_blit) auto
  have b4: "(blit offset ((?k @ [61]) @ ?v) buf)[offset + length ?k + 1 + length ?v := 0]
      = blit offset (((?k @ [61]) @ ?v) @ [0]) buf"
    using fits' update_blit [of "offset + length ?k + 1 + length ?v"
        "blit offset ((?k @ [61]) @ ?v) buf" 0]
      blit_blit [of "offset + length ?k + 1 + length ?v" offset "(?k @ [61]) @ ?v" "[0]" buf]
    by simp
  have "min (length (ekey e)) (unat (key_len e)) = unat (key_len e)"
    using lens(1) by simp
  then show ?thesis
    using u fits' b2 b3 b4 unfolding lens
    by (simp add: env_string_def Let_def lens env_val_def [symmetric])
qed

lemma write_env_fold:
  assumes "list_all entry_ok es" "offset + length (concat (map env_string (filter used es))) \<le> length buf"
  shows "fold env_emit es (count, offset, buf) =
    (count + length (filter used es),
     offset + length (concat (map env_string (filter used es))),
     blit offset (concat (map env_string (filter used es))) buf)"
  using assms
proof (induction es arbitrary: count offset buf)
  case Nil
  then show ?case by (simp add: blit_def)
next
  case (Cons e es)
  show ?case
  proof (cases "used e")
    case True
    have emit: "env_emit e (count, offset, buf)
        = (count + 1, offset + length (env_string e), blit offset (env_string e) buf)"
      using Cons.prems True by (intro env_emit_blit) auto
    show ?thesis
      using Cons.prems True emit
      by (simp add: Cons.IH blit_append del: env_emit.simps)
  qed (use Cons in simp)
qed

text \<open>
  C34. When the buffer is large enough for all of them, \<open>write_env_strings\<close>
  stores every variable, in table order, as \<open>KEY=VALUE\<close> with a terminating
  zero byte at the front of the buffer, reports their number and total size,
  and leaves the rest of the buffer as it was.
\<close>

theorem write_env_strings_complete:
  assumes "env_inv es" "length (concat (map env_string (filter used es))) \<le> length out_buf"
  shows "write_env_strings out_buf es =
    (length (filter used es), length (concat (map env_string (filter used es))),
     concat (map env_string (filter used es))
       @ drop (length (concat (map env_string (filter used es)))) out_buf)"
  using write_env_fold [of es 0 out_buf 0] assms
  by (simp add: write_env_strings_def env_inv_def blit_def)

text \<open>A table with two variables.\<close>

definition two_vars :: env where
  "two_vars = snd (setenv (bstr ''B'') (bstr ''20'') (snd (setenv (bstr ''A'') (bstr ''1'') ENV_TABLE_init)))"

lemma two_vars_strings: "map env_string (filter used two_vars) = [bstr ''A=1'' @ [0], bstr ''B=20'' @ [0]]"
proof -
  have init: "ENV_TABLE_init = env_entry_empty # env_entry_empty # replicate 30 env_entry_empty"
    by (simp add: ENV_TABLE_init_def MAX_VARS_def numeral_eq_Suc)
  have empty: "\<not> used env_entry_empty" "ekey env_entry_empty = replicate MAX_KEY 0" "eval env_entry_empty = replicate MAX_VAL 0"
    by (simp_all add: env_entry_empty_def)
  have none: "first_index (env_matches k) (replicate n env_entry_empty) = None" for k n
    using empty(1) by (auto simp: first_index_None env_matches_def)
  have "two_vars = (env_entry_empty\<lparr>ekey := blit 0 (bstr ''A'') (replicate MAX_KEY 0), key_len := 1,
          eval := blit 0 (bstr ''1'') (replicate MAX_VAL 0), val_len := 1, used := True\<rparr>)
      # (env_entry_empty\<lparr>ekey := blit 0 (bstr ''B'') (replicate MAX_KEY 0), key_len := 1,
          eval := blit 0 (bstr ''20'') (replicate MAX_VAL 0), val_len := 2, used := True\<rparr>)
      # replicate 30 env_entry_empty"
    unfolding two_vars_def init
    by (simp add: setenv_def none empty env_matches_def bytes_copy_def bytes_eq_def bstr_def blit_def MAX_KEY_def MAX_VAL_def)
  then show ?thesis
    unfolding \<open>two_vars = _\<close> by (simp add: env_string_def env_val_def blit_def bstr_def empty filter_replicate)
qed

lemma write_env_strings_complete_witness:
  "write_env_strings (replicate 12 9) two_vars = (2, 9, bstr ''A=1'' @ [0] @ bstr ''B=20'' @ [0, 9, 9, 9])"
proof -
  have "env_inv two_vars" unfolding two_vars_def by (simp add: setenv_refines env_init_inv)
  then show ?thesis
    using write_env_strings_complete [of two_vars "replicate 12 9"] two_vars_strings
      map_eq_imp_length_eq [of env_string "filter used two_vars" id "[_, _]"] by (simp add: numeral_eq_Suc)
qed

end
