(* ===== verification/Frame_Alloc.thy ===== *)
theory Frame_Alloc
  imports Prelude "HOL-Library.Multiset"
begin

text \<open>
  The physical frame allocator of \<open>mem/paging_allocator.rs\<close>: a bitmap of
  65536 frames of 4096 bytes, a reference count per frame, and a rotating
  search position.  The two arrays are functions of the index; every access in
  the source is guarded by the index bound, and so is every access here.  The
  boot loader's memory map is a list of regions, and the page tables it leaves
  behind are read through \<open>mem\<close>, the entry of a table frame at an index.
\<close>

definition FRAMES :: nat where [kdefs]: "FRAMES = 65536"

record PhysicalFrameAllocator =
  bitmap :: "nat \<Rightarrow> u64"
  refcount :: "nat \<Rightarrow> u16"
  next_frame :: nat
  total_frames :: nat
  allocated_frames :: u64

record memory_region =
  mr_base :: u64
  mr_length :: u64
  mr_usable :: bool

definition frame_allocator_new :: PhysicalFrameAllocator where
  "frame_allocator_new = \<lparr>bitmap = (\<lambda>_. 0), refcount = (\<lambda>_. 0), next_frame = 0,
    total_frames = 0, allocated_frames = 0\<rparr>"

definition mark_free :: "nat \<Rightarrow> PhysicalFrameAllocator \<Rightarrow> PhysicalFrameAllocator" where
  "mark_free frame a =
    (if frame < FRAMES
     then a\<lparr>bitmap := (bitmap a)(frame div 64 :=
              bitmap a (frame div 64) AND NOT (push_bit (frame mod 64) 1))\<rparr>
     else a)"

definition mark_used :: "nat \<Rightarrow> PhysicalFrameAllocator \<Rightarrow> PhysicalFrameAllocator" where
  "mark_used frame a =
    (if frame < FRAMES
     then a\<lparr>bitmap := (bitmap a)(frame div 64 :=
              bitmap a (frame div 64) OR push_bit (frame mod 64) 1)\<rparr>
     else a)"

definition is_free :: "nat \<Rightarrow> PhysicalFrameAllocator \<Rightarrow> bool" where
  "is_free frame a \<longleftrightarrow>
    frame < FRAMES \<and> bitmap a (frame div 64) AND push_bit (frame mod 64) 1 = 0"

definition mark_frame_used :: "u64 \<Rightarrow> PhysicalFrameAllocator \<Rightarrow> PhysicalFrameAllocator" where
  "mark_frame_used phys a =
    (let frame = unat (phys div 4096) in
     if frame < FRAMES
     then mark_used frame (if is_free frame a then a\<lparr>total_frames := total_frames a - 1\<rparr> else a)
     else a)"

definition ADDR_MASK :: u64 where [kdefs]: "ADDR_MASK = 0x000FFFFFFFFFF000"

text \<open>The entries of a table that lead to a lower table: present and not a huge page.\<close>

definition table_children :: "(u64 \<Rightarrow> nat \<Rightarrow> u64) \<Rightarrow> u64 \<Rightarrow> u64 list" where
  "table_children mem t =
    map (\<lambda>e. e AND ADDR_MASK)
      (filter (\<lambda>e. \<not> (e AND 1 = 0 \<or> e AND 0x80 \<noteq> 0)) (map (mem t) [0..<512]))"

definition protect_page_table_frames ::
  "(u64 \<Rightarrow> nat \<Rightarrow> u64) \<Rightarrow> u64 \<Rightarrow> PhysicalFrameAllocator \<Rightarrow> PhysicalFrameAllocator" where
  "protect_page_table_frames mem cr3 a =
    (let l4 = cr3 AND ADDR_MASK; a4 = mark_frame_used l4 a in
     fold (\<lambda>l3 a. fold (\<lambda>l2 a. fold mark_frame_used (table_children mem l2) (mark_frame_used l2 a))
                    (table_children mem l3) (mark_frame_used l3 a))
       (table_children mem l4) a4)"

definition track_frame :: "nat \<Rightarrow> PhysicalFrameAllocator \<Rightarrow> PhysicalFrameAllocator" where
  "track_frame frame a = (mark_free frame a)\<lparr>total_frames := total_frames a + 1\<rparr>"

definition frame_init_entry :: "memory_region \<Rightarrow> PhysicalFrameAllocator \<Rightarrow> PhysicalFrameAllocator" where
  "frame_init_entry e a =
    (if mr_usable e then
       (let start = unat (mr_base e) div 4096; count = unat (mr_length e) div 4096;
            safe = max start 8192 in
        if safe < FRAMES then
          (let end' = min (start + count) FRAMES in
           fold track_frame [safe..<end'] a)
        else a)
     else a)"

definition frame_allocator_init ::
  "memory_region list option \<Rightarrow> (u64 \<Rightarrow> nat \<Rightarrow> u64) \<Rightarrow> u64 \<Rightarrow> PhysicalFrameAllocator
     \<Rightarrow> PhysicalFrameAllocator" where
  "frame_allocator_init memory_map mem cr3 a =
    (case memory_map of
       None \<Rightarrow> a
     | Some entries \<Rightarrow>
         protect_page_table_frames mem cr3
           (fold frame_init_entry entries
             (a\<lparr>bitmap := (\<lambda>i. if i < 1024 then - 1 else bitmap a i)\<rparr>)))"

definition allocate_frame :: "PhysicalFrameAllocator \<Rightarrow> u64 option \<times> PhysicalFrameAllocator" where
  "allocate_frame a =
    (case find (\<lambda>off. is_free ((next_frame a + off) mod FRAMES) a) [0..<total_frames a] of
       None \<Rightarrow> (None, a)
     | Some off \<Rightarrow>
         (let frame = (next_frame a + off) mod FRAMES; a1 = mark_used frame a in
          (Some (of_nat (frame * 4096)),
           a1\<lparr>refcount := (refcount a1)(frame := 1), next_frame := (frame + 1) mod FRAMES,
              allocated_frames := allocated_frames a1 + 1\<rparr>)))"

definition free_frame :: "u64 \<Rightarrow> PhysicalFrameAllocator \<Rightarrow> PhysicalFrameAllocator" where
  "free_frame addr a =
    (let frame = unat (addr div 4096) in
     if frame < FRAMES then
       (let a1 = a\<lparr>refcount := (refcount a)(frame := sat_dec (refcount a frame))\<rparr> in
        if refcount a1 frame = 0
        then (mark_free frame a1)\<lparr>allocated_frames := allocated_frames a1 - 1\<rparr>
        else a1)
     else a)"

definition inc_refcount :: "u64 \<Rightarrow> PhysicalFrameAllocator \<Rightarrow> PhysicalFrameAllocator" where
  "inc_refcount addr a =
    (let frame = unat (addr div 4096) in
     if frame < FRAMES
     then a\<lparr>refcount := (refcount a)(frame := sat_inc (refcount a frame))\<rparr> else a)"

definition get_refcount :: "u64 \<Rightarrow> PhysicalFrameAllocator \<Rightarrow> u16" where
  "get_refcount addr a =
    (let frame = unat (addr div 4096) in if frame < FRAMES then refcount a frame else 0)"

section \<open>The bitmap\<close>

lemma is_free_bit: "is_free f a \<longleftrightarrow> f < FRAMES \<and> \<not> bit (bitmap a (f div 64)) (f mod 64)"
  by (simp add: is_free_def and_exp_eq_0_iff_not_bit)

lemma is_free_bound: "is_free f a \<Longrightarrow> f < FRAMES"
  by (simp add: is_free_def)

lemma div_mod_64_eq: "(f::nat) div 64 = g div 64 \<Longrightarrow> f mod 64 = g mod 64 \<Longrightarrow> f = g"
  by (metis div_mult_mod_eq)

lemma is_free_mark_free [simp]:
  "is_free g (mark_free f a) \<longleftrightarrow> (g = f \<and> f < FRAMES) \<or> is_free g a"
  by (auto simp: is_free_bit mark_free_def bit_simps dest: div_mod_64_eq)

lemma is_free_mark_used [simp]:
  "is_free g (mark_used f a) \<longleftrightarrow> g \<noteq> f \<and> is_free g a"
  by (auto simp: is_free_bit mark_used_def bit_simps dest: div_mod_64_eq)

lemma mark_fields [simp]:
  "refcount (mark_free f a) = refcount a" "next_frame (mark_free f a) = next_frame a"
  "total_frames (mark_free f a) = total_frames a" "allocated_frames (mark_free f a) = allocated_frames a"
  "refcount (mark_used f a) = refcount a" "next_frame (mark_used f a) = next_frame a"
  "total_frames (mark_used f a) = total_frames a" "allocated_frames (mark_used f a) = allocated_frames a"
  by (simp_all add: mark_free_def mark_used_def)

lemma is_free_updates [simp]:
  "is_free g (a\<lparr>refcount := r\<rparr>) = is_free g a" "is_free g (a\<lparr>next_frame := n\<rparr>) = is_free g a"
  "is_free g (a\<lparr>total_frames := t\<rparr>) = is_free g a" "is_free g (a\<lparr>allocated_frames := c\<rparr>) = is_free g a"
  by (simp_all add: is_free_def)

section \<open>Addresses of frames\<close>

definition frame_addr :: "nat \<Rightarrow> u64" where
  "frame_addr f = of_nat (f * 4096)"

lemma FRAMES_pos [simp]: "0 < FRAMES" by (simp add: FRAMES_def)

lemma frame_of_addr [simp]: "f < FRAMES \<Longrightarrow> unat (frame_addr f div 4096) = f"
  by (simp add: frame_addr_def unat_div unat_of_nat FRAMES_def del: of_nat_mult)

lemma frame_addr_inj: "f < FRAMES \<Longrightarrow> g < FRAMES \<Longrightarrow> frame_addr f = frame_addr g \<longleftrightarrow> f = g"
  by (metis frame_of_addr)

section \<open>The contract\<close>

text \<open>
  What the paging code relies on: a count of holders per frame address, an
  allocation that returns an address nobody holds, sharing that adds a holder
  and a release that removes one.
\<close>

locale frame_provider =
  fixes inv :: "'s \<Rightarrow> bool"
    and holders :: "'s \<Rightarrow> u64 \<Rightarrow> nat"
    and limit :: nat
    and alloc :: "'s \<Rightarrow> u64 option \<times> 's"
    and share :: "u64 \<Rightarrow> 's \<Rightarrow> 's"
    and release :: "u64 \<Rightarrow> 's \<Rightarrow> 's"
  assumes alloc_ok: "inv s \<Longrightarrow> alloc s = (Some p, s') \<Longrightarrow>
      inv s' \<and> holders s p = 0 \<and> holders s' = (holders s)(p := 1)"
    and alloc_fail: "inv s \<Longrightarrow> alloc s = (None, s') \<Longrightarrow> s' = s"
    and share_ok: "inv s \<Longrightarrow> 0 < holders s p \<Longrightarrow> holders s p < limit \<Longrightarrow>
      inv (share p s) \<and> holders (share p s) = (holders s)(p := holders s p + 1)"
    and release_ok: "inv s \<Longrightarrow> 0 < holders s p \<Longrightarrow>
      inv (release p s) \<and> holders (release p s) = (holders s)(p := holders s p - 1)"
begin

text \<open>Runs of the clients, with the multiset of the references they hold.\<close>

inductive run :: "'s \<Rightarrow> u64 multiset \<Rightarrow> 's \<Rightarrow> u64 multiset \<Rightarrow> bool" where
  run_refl: "run s H s H"
| run_alloc: "run s0 H0 s H \<Longrightarrow> alloc s = (Some p, s') \<Longrightarrow> run s0 H0 s' (add_mset p H)"
| run_fail: "run s0 H0 s H \<Longrightarrow> alloc s = (None, s') \<Longrightarrow> run s0 H0 s' H"
| run_share: "run s0 H0 s H \<Longrightarrow> p \<in># H \<Longrightarrow> count H p < limit \<Longrightarrow>
    run s0 H0 (share p s) (add_mset p H)"
| run_release: "run s0 H0 s H \<Longrightarrow> p \<in># H \<Longrightarrow> run s0 H0 (release p s) (H - {#p#})"

lemma run_accounts:
  "run s0 H0 s H \<Longrightarrow> inv s0 \<Longrightarrow> holders s0 = count H0 \<Longrightarrow> inv s \<and> holders s = count H"
proof (induction rule: run.induct)
  case (run_alloc s0 H0 s H p s')
  then have "inv s'" "holders s p = 0" "holders s' = (holders s)(p := 1)" "holders s = count H"
    using alloc_ok [of s p s'] by auto
  then show ?case by (auto simp: fun_eq_iff)
next
  case (run_fail s0 H0 s H s')
  then show ?case using alloc_fail by blast
next
  case (run_share s0 H0 s H p)
  then have "0 < holders s p" "holders s p < limit" by auto
  then show ?case using share_ok [of s p] run_share by (auto simp: fun_eq_iff)
next
  case (run_release s0 H0 s H p)
  then have "0 < holders s p" by auto
  then show ?case using release_ok [of s p] run_release by (auto simp: fun_eq_iff)
qed simp

lemma run_alloc_fresh:
  assumes "run s0 H0 s H" "inv s0" "holders s0 = count H0" "alloc s = (Some p, s')"
  shows "p \<notin># H"
proof -
  have "inv s" "holders s = count H" using run_accounts [OF assms(1-3)] by auto
  then show ?thesis using alloc_ok [of s p s'] assms(4) by (auto simp: not_in_iff)
qed

end

section \<open>The allocator meets the contract\<close>

definition used_frames :: "PhysicalFrameAllocator \<Rightarrow> nat set" where
  "used_frames a = {f. f < FRAMES \<and> refcount a f \<noteq> 0}"

definition fa_inv :: "PhysicalFrameAllocator \<Rightarrow> bool" where
  "fa_inv a \<longleftrightarrow> next_frame a < FRAMES \<and> (\<forall>f. is_free f a \<longrightarrow> refcount a f = 0)
    \<and> allocated_frames a = of_nat (card (used_frames a))"

definition fa_holders :: "PhysicalFrameAllocator \<Rightarrow> u64 \<Rightarrow> nat" where
  "fa_holders a p =
    (if \<exists>f < FRAMES. p = frame_addr f then unat (refcount a (unat (p div 4096))) else 0)"

lemma fa_holders_frame [simp]: "f < FRAMES \<Longrightarrow> fa_holders a (frame_addr f) = unat (refcount a f)"
  by (auto simp: fa_holders_def)

lemma fa_holders_update:
  assumes f: "f < FRAMES" and r: "refcount a' = (refcount a)(f := r)"
  shows "fa_holders a' = (fa_holders a)(frame_addr f := unat r)"
proof
  fix p
  show "fa_holders a' p = ((fa_holders a)(frame_addr f := unat r)) p"
  proof (cases "\<exists>g < FRAMES. p = frame_addr g")
    case True
    then obtain g where "g < FRAMES" "p = frame_addr g" by blast
    then show ?thesis using f r by (simp add: frame_addr_inj)
  next
    case False
    then show ?thesis using f by (auto simp: fa_holders_def)
  qed
qed

lemma fa_held_frame: "0 < fa_holders a p \<Longrightarrow> \<exists>f < FRAMES. p = frame_addr f \<and> refcount a f \<noteq> 0"
  by (auto simp: fa_holders_def unat_gt_0 split: if_splits)

lemma finite_used [simp]: "finite (used_frames a)"
  by (simp add: used_frames_def)

lemma allocate_frame_cases:
  obtains (fail) "allocate_frame a = (None, a)"
      "\<forall>off < total_frames a. \<not> is_free ((next_frame a + off) mod FRAMES) a"
  | (ok) f where "is_free f a" "f < FRAMES" "fst (allocate_frame a) = Some (frame_addr f)"
      "snd (allocate_frame a) = (mark_used f a)\<lparr>refcount := (refcount a)(f := 1),
         next_frame := (f + 1) mod FRAMES, allocated_frames := allocated_frames a + 1\<rparr>"
proof (cases "find (\<lambda>off. is_free ((next_frame a + off) mod FRAMES) a) [0..<total_frames a]")
  case None
  then show ?thesis
    by (intro fail, simp add: allocate_frame_def) (auto simp: find_None_iff)
next
  case (Some off)
  then have "is_free ((next_frame a + off) mod FRAMES) a" using find_upt_Some by fast
  then show ?thesis
    using Some by (intro ok [of "(next_frame a + off) mod FRAMES"])
      (auto simp: allocate_frame_def Let_def frame_addr_def)
qed

lemma allocate_frame_ok:
  assumes inv: "fa_inv a" and al: "allocate_frame a = (Some p, a')"
  shows "fa_inv a' \<and> fa_holders a p = 0 \<and> fa_holders a' = (fa_holders a)(p := 1)"
proof (cases rule: allocate_frame_cases [of a])
  case fail
  then show ?thesis using al by simp
next
  case (ok f)
  let ?a = "(mark_used f a)\<lparr>refcount := (refcount a)(f := 1),
         next_frame := (f + 1) mod FRAMES, allocated_frames := allocated_frames a + 1\<rparr>"
  have p: "p = frame_addr f" and a': "a' = ?a" using al ok by auto
  have rc: "refcount a f = 0" using inv ok by (simp add: fa_inv_def)
  have "used_frames ?a = insert f (used_frames a)" using ok by (auto simp: used_frames_def)
  moreover have "f \<notin> used_frames a" using rc by (simp add: used_frames_def)
  ultimately have "fa_inv ?a" using inv by (auto simp: fa_inv_def)
  moreover have "fa_holders ?a = (fa_holders a)(frame_addr f := unat (1 :: u16))"
    by (rule fa_holders_update [OF ok(2)]) simp
  ultimately show ?thesis using p a' rc ok(2) by simp
qed

lemma inc_refcount_ok:
  assumes inv: "fa_inv a" and h: "0 < fa_holders a p" and lim: "fa_holders a p < 65535"
  shows "fa_inv (inc_refcount p a)
    \<and> fa_holders (inc_refcount p a) = (fa_holders a)(p := fa_holders a p + 1)"
proof -
  obtain f where f: "f < FRAMES" "p = frame_addr f" "refcount a f \<noteq> 0"
    using fa_held_frame [OF h] by blast
  have eq: "inc_refcount p a = a\<lparr>refcount := (refcount a)(f := sat_inc (refcount a f))\<rparr>"
    using f by (simp add: inc_refcount_def Let_def)
  have "used_frames (inc_refcount p a) = used_frames a"
    unfolding eq using f by (auto simp: used_frames_def)
  then have "fa_inv (inc_refcount p a)" unfolding eq using inv f by (auto simp: fa_inv_def)
  moreover have "unat (sat_inc (refcount a f)) = unat (refcount a f) + 1"
  proof -
    have "unat (- 1 :: u16) = 65535" by (simp add: unsigned_minus_1_eq_mask mask_eq_exp_minus_1)
    then have "refcount a f \<noteq> - 1" using lim f by auto
    moreover from this have "1 + refcount a f \<noteq> 0"
      using word_add_one_eq_0 [of "refcount a f"] by (simp add: add.commute)
    ultimately show ?thesis
      using unatSuc [of "refcount a f"] by (simp add: sat_inc_def add.commute)
  qed
  ultimately show ?thesis
    using fa_holders_update [OF f(1), of "inc_refcount p a" a "sat_inc (refcount a f)"] f eq by simp
qed

lemma free_frame_ok:
  assumes inv: "fa_inv a" and h: "0 < fa_holders a p"
  shows "fa_inv (free_frame p a)
    \<and> fa_holders (free_frame p a) = (fa_holders a)(p := fa_holders a p - 1)"
proof -
  obtain f where f: "f < FRAMES" "p = frame_addr f" "refcount a f \<noteq> 0"
    using fa_held_frame [OF h] by blast
  have dec: "unat (sat_dec (refcount a f)) = unat (refcount a f) - 1" "sat_dec (refcount a f) = refcount a f - 1"
    using f(3) by (auto simp: sat_dec_def unat_minus_one)
  have rc: "refcount (free_frame p a) = (refcount a)(f := sat_dec (refcount a f))"
    using f by (simp add: free_frame_def Let_def)
  have "fa_inv (free_frame p a)"
  proof (cases "sat_dec (refcount a f) = 0")
    case True
    have "used_frames (free_frame p a) = used_frames a - {f}"
      using rc True by (auto simp: used_frames_def)
    moreover have "f \<in> used_frames a" using f by (simp add: used_frames_def)
    ultimately have "card (used_frames a) = Suc (card (used_frames (free_frame p a)))"
      by (metis card_Suc_Diff1 finite_used)
    moreover have "allocated_frames (free_frame p a) = allocated_frames a - 1"
      using f True by (simp add: free_frame_def Let_def)
    ultimately have "allocated_frames (free_frame p a) = of_nat (card (used_frames (free_frame p a)))"
      using inv by (simp add: fa_inv_def)
    moreover have "\<forall>g. is_free g (free_frame p a) \<longrightarrow> refcount (free_frame p a) g = 0"
      "next_frame (free_frame p a) < FRAMES"
      using inv f True by (auto simp: fa_inv_def free_frame_def Let_def)
    ultimately show ?thesis by (simp add: fa_inv_def)
  next
    case False
    have "used_frames (free_frame p a) = used_frames a"
      using rc False f by (auto simp: used_frames_def)
    then show ?thesis using inv f False by (auto simp: fa_inv_def free_frame_def Let_def)
  qed
  then show ?thesis using fa_holders_update [OF f(1) rc] dec f by simp
qed

interpretation fp: frame_provider fa_inv fa_holders 65535 allocate_frame inc_refcount free_frame
proof unfold_locales
  show "s' = s" if "allocate_frame s = (None, s')" for s s'
    using that by (cases rule: allocate_frame_cases [of s]) auto
qed (use allocate_frame_ok inc_refcount_ok free_frame_ok in blast)+

section \<open>The state after initialisation\<close>

text \<open>The table frames the walk visits, in its order.\<close>

definition pt_frames :: "(u64 \<Rightarrow> nat \<Rightarrow> u64) \<Rightarrow> u64 \<Rightarrow> u64 list" where
  "pt_frames mem cr3 =
    (let l4 = cr3 AND ADDR_MASK in
     l4 # concat (map (\<lambda>l3. l3 # concat (map (\<lambda>l2. l2 # table_children mem l2) (table_children mem l3)))
            (table_children mem l4)))"

lemma fold_concat_map: "fold f (concat (map g xs)) a = fold (\<lambda>x. fold f (g x)) xs a"
  by (induction xs arbitrary: a) auto

lemma protect_fold: "protect_page_table_frames mem cr3 a = fold mark_frame_used (pt_frames mem cr3) a"
  by (simp add: protect_page_table_frames_def pt_frames_def Let_def fold_concat_map comp_def)

definition same_counts :: "PhysicalFrameAllocator \<Rightarrow> PhysicalFrameAllocator \<Rightarrow> bool" where
  "same_counts a b \<longleftrightarrow> refcount b = refcount a \<and> next_frame b = next_frame a
    \<and> allocated_frames b = allocated_frames a"

lemma mark_frame_used_free [simp]:
  "is_free g (mark_frame_used p a) \<longleftrightarrow> g \<noteq> unat (p div 4096) \<and> is_free g a"
  by (cases "unat (p div 4096) < FRAMES")
    (auto simp: mark_frame_used_def Let_def dest: is_free_bound)

lemma mark_frame_used_counts: "same_counts a (mark_frame_used p a)"
  by (simp add: same_counts_def mark_frame_used_def Let_def)

lemma protect_free:
  "is_free g (fold mark_frame_used ps a) \<longleftrightarrow> g \<notin> (\<lambda>p. unat (p div 4096)) ` set ps \<and> is_free g a"
  by (induction ps arbitrary: a) auto

lemma protect_counts: "same_counts a (fold mark_frame_used ps a)"
proof -
  have "same_counts a b \<Longrightarrow> same_counts a (fold mark_frame_used ps b)" for b
    by (induction ps arbitrary: b) (use mark_frame_used_counts in \<open>auto simp: same_counts_def\<close>)
  then show ?thesis by (simp add: same_counts_def)
qed

definition region_has :: "memory_region \<Rightarrow> nat \<Rightarrow> bool" where
  "region_has e f \<longleftrightarrow> mr_usable e \<and> unat (mr_base e) div 4096 \<le> f
    \<and> f < unat (mr_base e) div 4096 + unat (mr_length e) div 4096"

lemma mark_range:
  "is_free g (fold track_frame fs a)
    \<longleftrightarrow> (g \<in> set fs \<and> g < FRAMES) \<or> is_free g a"
  "same_counts a (fold track_frame fs a)"
  "total_frames (fold track_frame fs a)
    = total_frames a + length fs"
  by (induction fs arbitrary: a) (auto simp: same_counts_def track_frame_def)

lemma frame_init_entry_free:
  "is_free g (frame_init_entry e a) \<longleftrightarrow>
    (g < FRAMES \<and> 8192 \<le> g \<and> region_has e g) \<or> is_free g a"
  by (auto simp: frame_init_entry_def Let_def mark_range region_has_def max_def)

lemma frame_init_entry_counts: "same_counts a (frame_init_entry e a)"
  using mark_range(2) by (auto simp: frame_init_entry_def Let_def same_counts_def)

lemma frame_init_entry_total:
  "total_frames (frame_init_entry e a) = total_frames a +
    (if mr_usable e
     then min (unat (mr_base e) div 4096 + unat (mr_length e) div 4096) FRAMES
       - max (unat (mr_base e) div 4096) 8192
     else 0)"
  by (auto simp: frame_init_entry_def Let_def mark_range(3))

lemma frame_init_entries:
  "is_free g (fold frame_init_entry es a) \<longleftrightarrow>
    (g < FRAMES \<and> 8192 \<le> g \<and> (\<exists>e \<in> set es. region_has e g)) \<or> is_free g a"
  "same_counts a (fold frame_init_entry es a)"
proof -
  show "is_free g (fold frame_init_entry es a) \<longleftrightarrow>
      (g < FRAMES \<and> 8192 \<le> g \<and> (\<exists>e \<in> set es. region_has e g)) \<or> is_free g a"
    by (induction es arbitrary: a) (auto simp: frame_init_entry_free)
  have "same_counts a b \<Longrightarrow> same_counts a (fold frame_init_entry es b)" for b
    by (induction es arbitrary: b) (use frame_init_entry_counts in \<open>auto simp: same_counts_def\<close>)
  then show "same_counts a (fold frame_init_entry es a)" by (simp add: same_counts_def)
qed

lemma not_free_all_ones: "\<not> is_free g (a\<lparr>bitmap := \<lambda>i. if i < 1024 then - 1 else b i\<rparr>)"
  by (auto simp: is_free_bit FRAMES_def)

abbreviation boot_frames ::
  "memory_region list \<Rightarrow> (u64 \<Rightarrow> nat \<Rightarrow> u64) \<Rightarrow> u64 \<Rightarrow> PhysicalFrameAllocator" where
  "boot_frames es mem cr3 \<equiv> frame_allocator_init (Some es) mem cr3 frame_allocator_new"

lemma boot_free:
  "is_free f (boot_frames es mem cr3) \<longleftrightarrow>
    f < FRAMES \<and> 8192 \<le> f \<and> (\<exists>e \<in> set es. region_has e f)
    \<and> f \<notin> (\<lambda>p. unat (p div 4096)) ` set (pt_frames mem cr3)"
  by (auto simp: frame_allocator_init_def protect_fold protect_free frame_init_entries(1) not_free_all_ones)

lemma boot_counts: "same_counts frame_allocator_new (boot_frames es mem cr3)"
proof -
  let ?a = "frame_allocator_new\<lparr>bitmap := \<lambda>i. if i < 1024 then - 1 else bitmap frame_allocator_new i\<rparr>"
  have "same_counts ?a (fold frame_init_entry es ?a)" by (rule frame_init_entries(2))
  moreover have "same_counts (fold frame_init_entry es ?a) (boot_frames es mem cr3)"
    using protect_counts by (simp add: frame_allocator_init_def protect_fold)
  ultimately show ?thesis by (simp add: same_counts_def)
qed

lemma boot_inv: "fa_inv (boot_frames es mem cr3)" "fa_holders (boot_frames es mem cr3) = count {#}"
  using boot_counts [of es mem cr3]
  by (simp_all add: same_counts_def fa_inv_def frame_allocator_new_def used_frames_def
      fa_holders_def fun_eq_iff)

text \<open>
  C29. Initialisation makes exactly these frames available: those of the usable
  regions of the memory map, at or above 32 MiB and below 256 MiB, that do not
  hold a table of the page-table hierarchy the boot loader left behind.
\<close>

theorem frame_init_free:
  "is_free f (frame_allocator_init (Some entries) mem cr3 frame_allocator_new) \<longleftrightarrow>
    f < FRAMES \<and> 8192 \<le> f \<and> (\<exists>e \<in> set entries. region_has e f)
    \<and> f \<notin> (\<lambda>p. unat (p div 4096)) ` set (pt_frames mem cr3)"
  by (rule boot_free)

text \<open>
  C8. However clients allocate, share and release frames after boot, releasing
  and sharing only what they hold and never beyond 65535 references to a frame,
  at which the 16-bit count saturates, the reference count of every frame is the
  number of references they hold, and an allocation never returns a frame that
  anyone still holds.
\<close>

theorem frame_exclusive:
  assumes "fp.run (frame_allocator_init (Some entries) mem cr3 frame_allocator_new) {#} a held"
  shows "(\<forall>f < FRAMES. unat (refcount a f) = count held (frame_addr f))
    \<and> (\<forall>p a'. allocate_frame a = (Some p, a') \<longrightarrow> p \<notin># held)"
proof -
  have "fa_holders a = count held" using fp.run_accounts [OF assms boot_inv] by simp
  then have "\<forall>f < FRAMES. unat (refcount a f) = count held (frame_addr f)"
    by (metis fa_holders_frame)
  then show ?thesis using fp.run_alloc_fresh [OF assms boot_inv] by blast
qed

text \<open>A small machine: 4 MiB of usable memory directly above the protected 32 MiB.\<close>

definition small_map :: "memory_region list" where
  "small_map = [\<lparr>mr_base = 0x2000000, mr_length = 0x400000, mr_usable = True\<rparr>]"

lemma small_boot:
  "is_free 8192 (boot_frames small_map (\<lambda>_ _. 0) 0)"
  "total_frames (boot_frames small_map (\<lambda>_ _. 0) 0) = 1024"
  "next_frame (boot_frames small_map (\<lambda>_ _. 0) 0) = 0"
proof -
  have pt: "pt_frames (\<lambda>_ _. 0) 0 = [0]" by (simp add: pt_frames_def table_children_def Let_def)
  show "is_free 8192 (boot_frames small_map (\<lambda>_ _. 0) 0)"
    by (simp add: boot_free pt small_map_def region_has_def FRAMES_def)
  show "next_frame (boot_frames small_map (\<lambda>_ _. 0) 0) = 0"
    using boot_counts [of small_map "\<lambda>_ _. 0" 0] by (simp add: same_counts_def frame_allocator_new_def)
  let ?a = "frame_allocator_new\<lparr>bitmap := \<lambda>i. if i < 1024 then - 1 else bitmap frame_allocator_new i\<rparr>"
  let ?b = "fold frame_init_entry small_map ?a"
  have tot: "total_frames ?b = 1024"
    by (simp add: small_map_def frame_init_entry_total FRAMES_def frame_allocator_new_def)
  have "\<not> is_free 0 ?b" by (simp add: frame_init_entries(1) not_free_all_ones)
  then show "total_frames (boot_frames small_map (\<lambda>_ _. 0) 0) = 1024"
    using tot by (simp add: frame_allocator_init_def protect_fold pt mark_frame_used_def Let_def)
qed

text \<open>
  C38. The search of \<open>allocate_frame\<close> visits only \<open>total_frames\<close> positions of
  the 65536, starting at the rotating index.  It therefore reports exhaustion
  while free frames exist: after booting with 4 MiB of usable memory at 32 MiB,
  the first allocation fails although frame 8192 is free.
\<close>

theorem allocate_frame_misses_free:
  "is_free 8192 (frame_allocator_init (Some small_map) (\<lambda>_ _. 0) 0 frame_allocator_new)
   \<and> fst (allocate_frame (frame_allocator_init (Some small_map) (\<lambda>_ _. 0) 0 frame_allocator_new)) = None"
proof -
  let ?a = "boot_frames small_map (\<lambda>_ _. 0) 0"
  have "\<not> is_free ((next_frame ?a + off) mod FRAMES) ?a" if "off < total_frames ?a" for off
    using that small_boot(2,3) boot_free [of off small_map "\<lambda>_ _. 0" 0] by (simp add: FRAMES_def)
  then have "find (\<lambda>off. is_free ((next_frame ?a + off) mod FRAMES) ?a) [0..<total_frames ?a] = None"
    by (auto simp: find_None_iff)
  then have "fst (allocate_frame ?a) = None" by (simp add: allocate_frame_def)
  then show ?thesis using small_boot(1) by simp
qed

text \<open>A machine with all memory from 32 to 256 MiB usable.\<close>

definition big_map :: "memory_region list" where
  "big_map = [\<lparr>mr_base = 0x2000000, mr_length = 0xE000000, mr_usable = True\<rparr>]"

abbreviation big_frames :: PhysicalFrameAllocator where
  "big_frames \<equiv> boot_frames big_map (\<lambda>_ _. 0) 0"

lemma big_boot:
  "is_free f big_frames \<longleftrightarrow> 8192 \<le> f \<and> f < FRAMES"
  "total_frames big_frames = 57344" "next_frame big_frames = 0" "refcount big_frames = (\<lambda>_. 0)"
  "allocated_frames big_frames = 0"
proof -
  have pt: "pt_frames (\<lambda>_ _. 0) 0 = [0]" by (simp add: pt_frames_def table_children_def Let_def)
  show "is_free f big_frames \<longleftrightarrow> 8192 \<le> f \<and> f < FRAMES"
    by (auto simp: boot_free pt big_map_def region_has_def FRAMES_def)
  show "next_frame big_frames = 0" "refcount big_frames = (\<lambda>_. 0)" "allocated_frames big_frames = 0"
    using boot_counts [of big_map "\<lambda>_ _. 0" 0] by (simp_all add: same_counts_def frame_allocator_new_def)
  let ?a = "frame_allocator_new\<lparr>bitmap := \<lambda>i. if i < 1024 then - 1 else bitmap frame_allocator_new i\<rparr>"
  let ?b = "fold frame_init_entry big_map ?a"
  have tot: "total_frames ?b = 57344"
    by (simp add: big_map_def frame_init_entry_total FRAMES_def frame_allocator_new_def)
  have "\<not> is_free 0 ?b" by (simp add: frame_init_entries(1) not_free_all_ones)
  then show "total_frames big_frames = 57344"
    using tot by (simp add: frame_allocator_init_def protect_fold pt mark_frame_used_def Let_def)
qed

lemma allocate_succeeds:
  assumes "is_free f a" "next_frame a = 0" "f < total_frames a"
  shows "\<exists>g a'. allocate_frame a = (Some (frame_addr g), a') \<and> g < FRAMES"
proof (cases rule: allocate_frame_cases [of a])
  case fail
  then have "\<not> is_free (f mod FRAMES) a" using assms(2,3) by force
  then show ?thesis using assms(1) is_free_bound [OF assms(1)] by simp
next
  case (ok g)
  then show ?thesis by (metis prod.collapse)
qed

text \<open>After \<open>n\<close> allocations, frames are in use from 32 MiB on without gaps.\<close>

definition filled :: "nat \<Rightarrow> PhysicalFrameAllocator" where
  "filled n = ((\<lambda>a. snd (allocate_frame a)) ^^ n) big_frames"

lemma allocate_at_next:
  assumes "is_free (next_frame a) a" "0 < total_frames a"
  shows "allocate_frame a = (Some (frame_addr (next_frame a)), (mark_used (next_frame a) a)
    \<lparr>refcount := (refcount a)(next_frame a := 1), next_frame := (next_frame a + 1) mod FRAMES,
     allocated_frames := allocated_frames a + 1\<rparr>)"
proof -
  have "next_frame a mod FRAMES = next_frame a" using is_free_bound [OF assms(1)] by simp
  then have "find (\<lambda>off. is_free ((next_frame a + off) mod FRAMES) a) [0..<total_frames a] = Some 0"
    using assms by (simp add: upt_conv_Cons)
  then show ?thesis using \<open>next_frame a mod FRAMES = _\<close> by (simp add: allocate_frame_def Let_def frame_addr_def)
qed

lemma allocate_first:
  "allocate_frame big_frames = (Some (frame_addr 8192), (mark_used 8192 big_frames)
    \<lparr>refcount := (\<lambda>_. 0)(8192 := 1), next_frame := 8193, allocated_frames := 1\<rparr>)"
proof -
  have "find (\<lambda>off. is_free ((next_frame big_frames + off) mod FRAMES) big_frames) [0..<total_frames big_frames] = Some 8192"
    unfolding find_Some_iff
    by (rule exI [of _ 8192]) (auto simp: big_boot FRAMES_def)
  then show ?thesis by (simp add: allocate_frame_def Let_def big_boot FRAMES_def frame_addr_def)
qed

lemma filled_state:
  assumes "0 < n" "n \<le> 57344"
  shows "is_free f (filled n) \<longleftrightarrow> 8192 + n \<le> f \<and> f < FRAMES" "total_frames (filled n) = 57344"
    "next_frame (filled n) = (8192 + n) mod FRAMES" "refcount (filled n) = (\<lambda>f. if 8192 \<le> f \<and> f < 8192 + n then 1 else 0)"
proof -
  have "(\<forall>f. is_free f (filled n) \<longleftrightarrow> 8192 + n \<le> f \<and> f < FRAMES) \<and> total_frames (filled n) = 57344
      \<and> next_frame (filled n) = (8192 + n) mod FRAMES
      \<and> refcount (filled n) = (\<lambda>f. if 8192 \<le> f \<and> f < 8192 + n then 1 else 0)"
    using assms
  proof (induction n)
    case (Suc n)
    show ?case
    proof (cases "n = 0")
      case True
      then show ?thesis
        using allocate_first by (auto simp: filled_def big_boot FRAMES_def fun_eq_iff)
    next
      case False
      let ?a = "filled n"
      have IH: "\<forall>f. is_free f ?a \<longleftrightarrow> 8192 + n \<le> f \<and> f < FRAMES" "total_frames ?a = 57344"
          "next_frame ?a = 8192 + n" "refcount ?a = (\<lambda>f. if 8192 \<le> f \<and> f < 8192 + n then 1 else 0)"
        using Suc False by (simp_all add: FRAMES_def)
      have "allocate_frame ?a = (Some (frame_addr (8192 + n)), (mark_used (8192 + n) ?a)
          \<lparr>refcount := (refcount ?a)(8192 + n := 1), next_frame := (8192 + n + 1) mod FRAMES,
           allocated_frames := allocated_frames ?a + 1\<rparr>)"
        using allocate_at_next [of ?a] IH Suc.prems by (simp add: FRAMES_def)
      moreover have "filled (Suc n) = snd (allocate_frame ?a)" by (simp add: filled_def)
      ultimately show ?thesis using IH Suc.prems by (auto simp: FRAMES_def fun_eq_iff)
    qed
  qed simp
  then show "is_free f (filled n) \<longleftrightarrow> 8192 + n \<le> f \<and> f < FRAMES" "total_frames (filled n) = 57344"
    "next_frame (filled n) = (8192 + n) mod FRAMES" "refcount (filled n) = (\<lambda>f. if 8192 \<le> f \<and> f < 8192 + n then 1 else 0)"
    by blast+
qed

lemma filled_step:
  assumes "n < 57344"
  shows "allocate_frame (filled n) = (Some (frame_addr (8192 + n)), filled (Suc n))"
proof (cases "n = 0")
  case True
  then show ?thesis using allocate_first by (simp add: filled_def)
next
  case False
  then have "fst (allocate_frame (filled n)) = Some (frame_addr (8192 + n))"
    using allocate_at_next [of "filled n"] filled_state [of n] assms by (simp add: FRAMES_def)
  then show ?thesis by (simp add: filled_def prod_eq_iff)
qed

lemma filled_run: "n \<le> 57344 \<Longrightarrow> fp.run big_frames {#} (filled n) (mset (map frame_addr [8192..<8192 + n]))"
proof (induction n)
  case 0
  then show ?case by (simp add: filled_def fp.run_refl)
next
  case (Suc n)
  then have "fp.run big_frames {#} (filled (Suc n))
      (add_mset (frame_addr (8192 + n)) (mset (map frame_addr [8192..<8192 + n])))"
    using fp.run_alloc [OF _ filled_step [of n]] by (simp del: mset_upt mset_map)
  moreover have "[8192..<8192 + Suc n] = [8192..<8192 + n] @ [8192 + n]"
    by (simp only: add_Suc_right upt_Suc_append [OF le_add1])
  ultimately show ?case by (simp del: mset_upt upt_Suc add_Suc_right)
qed

lemma frame_exclusive_witness:
  "\<exists>a1 q a3. allocate_frame big_frames = (Some (frame_addr 8192), a1)
    \<and> allocate_frame (inc_refcount (frame_addr 8192) a1) = (Some q, a3)
    \<and> q \<noteq> frame_addr 8192 \<and> unat (refcount a3 8192) = 2
    \<and> unat (refcount (free_frame (frame_addr 8192) a3) 8192) = 1"
proof -
  let ?p = "frame_addr 8192"
  obtain a1 where a1: "allocate_frame big_frames = (Some ?p, a1)" using allocate_first by blast
  let ?a2 = "inc_refcount ?p a1"
  have r1: "fp.run big_frames {#} a1 {#?p#}" by (rule fp.run_alloc [OF fp.run_refl a1])
  have r2: "fp.run big_frames {#} ?a2 {#?p, ?p#}" by (rule fp.run_share [OF r1]) simp_all
  have next2: "next_frame ?a2 = 8193" "total_frames ?a2 = 57344" "is_free 8193 ?a2"
    using a1 allocate_first by (auto simp: inc_refcount_def Let_def big_boot FRAMES_def)
  then obtain q a3 where a3: "allocate_frame ?a2 = (Some q, a3)" using allocate_at_next [of ?a2] by auto
  have q: "q \<noteq> ?p" using frame_exclusive [OF r2] a3 by auto
  have r3: "fp.run big_frames {#} a3 {#q, ?p, ?p#}" by (rule fp.run_alloc [OF r2 a3])
  then have "fp.run big_frames {#} (free_frame ?p a3) ({#q, ?p, ?p#} - {#?p#})" by (rule fp.run_release) simp
  then have "unat (refcount (free_frame ?p a3) 8192) = 1" "unat (refcount a3 8192) = 2"
    using frame_exclusive [OF r3] frame_exclusive [of big_map "\<lambda>_ _. 0" 0 "free_frame ?p a3"] q by (auto simp: FRAMES_def)
  then show ?thesis using a1 a3 q by blast
qed

end
