(* ===== verification/Page_Tables.thy ===== *)
theory Page_Tables
  imports Frame_Alloc
begin

text \<open>
  Four-level page tables, \<open>mem/paging_allocator.rs\<close>.  Physical memory is a
  function from a frame address and an index to the 64-bit word there; the
  kernel reaches it through its higher-half window, so a table access is an
  access of that function.  \<open>map\<close>, \<open>unmap\<close> and the operations built from them
  are state transformers; errors are the messages of the source.  The theory
  shows how each operation changes the translation of every virtual address.
\<close>

section \<open>Entries and flags\<close>

definition PRESENT :: u64 where [kdefs]: "PRESENT = 1"
definition WRITABLE :: u64 where [kdefs]: "WRITABLE = 2"
definition USER :: u64 where [kdefs]: "USER = 4"
definition COW :: u64 where [kdefs]: "COW = 0x200"
definition NO_EXECUTE :: u64 where [kdefs]: "NO_EXECUTE = 0x8000000000000000"

definition kernel_flags :: u64 where
  "kernel_flags = PRESENT OR WRITABLE"

definition user_flags :: "bool \<Rightarrow> bool \<Rightarrow> u64" where
  "user_flags writable executable =
    (let f = PRESENT OR USER;
         f = (if writable then f OR WRITABLE else f) in
     if \<not> executable then f OR NO_EXECUTE else f)"

definition parent_table_flags :: "u64 \<Rightarrow> u64" where
  "parent_table_flags self =
    (let f = PRESENT OR WRITABLE in if self AND USER \<noteq> 0 then f OR USER else f)"

definition merge_flags :: "u64 \<Rightarrow> u64 \<Rightarrow> u64" where
  "merge_flags self other = self OR other"

definition is_writable :: "u64 \<Rightarrow> bool" where "is_writable self \<longleftrightarrow> self AND WRITABLE \<noteq> 0"
definition is_cow :: "u64 \<Rightarrow> bool" where "is_cow self \<longleftrightarrow> self AND COW \<noteq> 0"
definition as_cow :: "u64 \<Rightarrow> u64" where "as_cow self = (self AND NOT WRITABLE) OR COW"
definition as_writable_no_cow :: "u64 \<Rightarrow> u64" where
  "as_writable_no_cow self = (self OR WRITABLE) AND NOT COW"

definition pte_is_present :: "u64 \<Rightarrow> bool" where "pte_is_present e \<longleftrightarrow> e AND PRESENT \<noteq> 0"
definition pte_flags :: "u64 \<Rightarrow> u64" where "pte_flags e = e AND 0xFFF"
definition pte_addr :: "u64 \<Rightarrow> u64" where "pte_addr e = e AND ADDR_MASK"
definition pte_set :: "u64 \<Rightarrow> u64 \<Rightarrow> u64" where
  "pte_set addr flags = (addr AND ADDR_MASK) OR (flags AND 0xFFF)"

section \<open>The state and the walk\<close>

type_synonym pmem = "u64 \<Rightarrow> nat \<Rightarrow> u64"

record paging =
  frames :: PhysicalFrameAllocator
  pmem :: pmem

definition put_entry :: "u64 \<Rightarrow> nat \<Rightarrow> u64 \<Rightarrow> pmem \<Rightarrow> pmem" where
  "put_entry t i e m = m(t := (m t)(i := e))"

definition table_zero :: "u64 \<Rightarrow> pmem \<Rightarrow> pmem" where
  "table_zero t m = m(t := (\<lambda>_. 0))"

definition l4_index :: "u64 \<Rightarrow> nat" where "l4_index virt = unat (drop_bit 39 virt AND 0x1FF)"
definition l3_index :: "u64 \<Rightarrow> nat" where "l3_index virt = unat (drop_bit 30 virt AND 0x1FF)"
definition l2_index :: "u64 \<Rightarrow> nat" where "l2_index virt = unat (drop_bit 21 virt AND 0x1FF)"
definition l1_index :: "u64 \<Rightarrow> nat" where "l1_index virt = unat (drop_bit 12 virt AND 0x1FF)"

type_synonym 'a outcome = "string + 'a"

text \<open>One level of \<open>map\<close>: follow the entry, adding the parent flags, or install a new table.\<close>

definition next_table ::
  "string \<Rightarrow> u64 \<Rightarrow> u64 \<Rightarrow> nat \<Rightarrow> paging \<Rightarrow> u64 outcome \<times> paging" where
  "next_table err pf t i s =
    (let e = pmem s t i in
     if pte_is_present e then
       (let e' = pte_set (pte_addr e) (merge_flags (pte_flags e) pf) in
        (Inr (pte_addr e'), s\<lparr>pmem := put_entry t i e' (pmem s)\<rparr>))
     else case allocate_frame (frames s) of
       (None, fa) \<Rightarrow> (Inl err, s\<lparr>frames := fa\<rparr>)
     | (Some n, fa) \<Rightarrow>
         (Inr n, s\<lparr>frames := fa, pmem := table_zero n (put_entry t i (pte_set n pf) (pmem s))\<rparr>))"

definition map_page :: "u64 \<Rightarrow> u64 \<Rightarrow> u64 \<Rightarrow> u64 \<Rightarrow> paging \<Rightarrow> unit outcome \<times> paging" where
  "map_page l4 virt phys flags s =
    (let pf = parent_table_flags flags in
     case next_table ''OOM: L3 table'' pf l4 (l4_index virt) s of
       (Inl e, s) \<Rightarrow> (Inl e, s)
     | (Inr l3, s) \<Rightarrow>
     (case next_table ''OOM: L2 table'' pf l3 (l3_index virt) s of
       (Inl e, s) \<Rightarrow> (Inl e, s)
     | (Inr l2, s) \<Rightarrow>
     (case next_table ''OOM: L1 table'' pf l2 (l2_index virt) s of
       (Inl e, s) \<Rightarrow> (Inl e, s)
     | (Inr l1, s) \<Rightarrow>
       if pte_is_present (pmem s l1 (l1_index virt)) then (Inl ''Page already mapped'', s)
       else (Inr (), s\<lparr>pmem := put_entry l1 (l1_index virt) (pte_set phys flags) (pmem s)\<rparr>))))"

definition unmap_page :: "u64 \<Rightarrow> u64 \<Rightarrow> paging \<Rightarrow> u64 outcome \<times> paging" where
  "unmap_page l4 virt s =
    (let e4 = pmem s l4 (l4_index virt) in
     if \<not> pte_is_present e4 then (Inl ''Not mapped (L4)'', s)
     else let e3 = pmem s (pte_addr e4) (l3_index virt) in
     if \<not> pte_is_present e3 then (Inl ''Not mapped (L3)'', s)
     else let e2 = pmem s (pte_addr e3) (l2_index virt) in
     if \<not> pte_is_present e2 then (Inl ''Not mapped (L2)'', s)
     else let l1 = pte_addr e2; e1 = pmem s l1 (l1_index virt) in
     if \<not> pte_is_present e1 then (Inl ''Not mapped (L1)'', s)
     else (Inr (pte_addr e1),
           s\<lparr>pmem := put_entry l1 (l1_index virt) 0 (pmem s),
             frames := free_frame (pte_addr e1) (frames s)\<rparr>))"

section \<open>Arithmetic of entries\<close>

lemma flag_mask_disjoint [simp]: "ADDR_MASK AND 0xFFF = 0" "0xFFF AND ADDR_MASK = 0"
  by (simp_all add: ADDR_MASK_def)

lemma and_absorb [simp]: "(x AND m) AND m = x AND (m :: u64)"
  by (simp add: and.assoc)

lemma mask_flags_0 [simp]: "(x AND ADDR_MASK) AND 0xFFF = 0" "(x AND 0xFFF) AND ADDR_MASK = 0"
  by (simp_all add: and.assoc)

lemma pte_addr_set [simp]: "pte_addr (pte_set a f) = a AND ADDR_MASK"
  by (simp add: pte_addr_def pte_set_def bit.conj_disj_distrib2)

lemma pte_flags_set [simp]: "pte_flags (pte_set a f) = f AND 0xFFF"
  by (simp add: pte_flags_def pte_set_def bit.conj_disj_distrib2)

lemma pte_addr_idem [simp]: "pte_addr e AND ADDR_MASK = pte_addr e"
  by (simp add: pte_addr_def)

lemma mask_present: "ADDR_MASK AND PRESENT = 0" "0xFFF AND PRESENT = PRESENT"
  by (simp_all add: ADDR_MASK_def PRESENT_def)

lemma pte_present_set [simp]: "pte_is_present (pte_set a f) \<longleftrightarrow> f AND PRESENT \<noteq> 0"
  by (simp add: pte_is_present_def pte_set_def bit.conj_disj_distrib2 and.assoc mask_present)

lemma not_present_0 [simp]: "\<not> pte_is_present 0"
  by (simp add: pte_is_present_def)

lemma parent_flags_present [simp]: "parent_table_flags f AND PRESENT \<noteq> 0"
  "merge_flags g (parent_table_flags f) AND PRESENT \<noteq> 0"
  by (simp_all add: parent_table_flags_def merge_flags_def PRESENT_def WRITABLE_def USER_def Let_def
      bit.conj_disj_distrib2)

lemma frame_addr_mask [simp]: "f < FRAMES \<Longrightarrow> frame_addr f AND ADDR_MASK = frame_addr f"
proof -
  assume f: "f < FRAMES"
  have mask: "ADDR_MASK = push_bit 12 (mask 40)"
    by (simp add: ADDR_MASK_def mask_eq_exp_minus_1 push_bit_eq_mult)
  have "of_nat f AND mask 40 = (of_nat f :: u64)"
    using f by (simp add: take_bit_eq_mask [symmetric] take_bit_of_nat take_bit_nat_eq_self FRAMES_def)
  moreover have "frame_addr f = push_bit 12 (of_nat f)"
    by (simp add: frame_addr_def push_bit_eq_mult)
  ultimately show ?thesis by (simp add: mask push_bit_and [symmetric])
qed

text \<open>
  C40. The entry format has room for twelve flag bits only: \<open>set\<close> discards bit
  63, so the no-execute flag that \<open>user_flags\<close> requests for data pages never
  reaches a page-table entry.
\<close>

theorem no_execute_never_installed:
  "pte_set phys (user_flags writable False) = pte_set phys (user_flags writable True)
   \<and> pte_set phys (user_flags writable False) AND NO_EXECUTE = 0"
  by (simp add: pte_set_def user_flags_def Let_def bit.conj_disj_distrib2 bit.conj_disj_distrib and.assoc
      ADDR_MASK_def PRESENT_def USER_def WRITABLE_def NO_EXECUTE_def)

section \<open>The tree of tables\<close>

text \<open>
  The table a path of entry indices leads to.  Paths of length 3 lead to the
  tables whose entries are the mappings of pages.
\<close>

fun table_at :: "pmem \<Rightarrow> u64 \<Rightarrow> nat list \<Rightarrow> u64 option" where
  "table_at m t [] = Some t"
| "table_at m t (i # is) = (if pte_is_present (m t i) then table_at m (pte_addr (m t i)) is else None)"

definition tpath :: "nat list \<Rightarrow> bool" where
  "tpath p \<longleftrightarrow> length p \<le> 3 \<and> list_all (\<lambda>i. i < 512) p"

definition vpath :: "u64 \<Rightarrow> nat list" where
  "vpath virt = [l4_index virt, l3_index virt, l2_index virt]"

text \<open>The entry that maps a virtual address, as the processor finds it.\<close>

definition leaf_entry :: "pmem \<Rightarrow> u64 \<Rightarrow> u64 \<Rightarrow> u64 option" where
  "leaf_entry m root virt =
    (case table_at m root (vpath virt) of
       None \<Rightarrow> None
     | Some t \<Rightarrow> if pte_is_present (m t (l1_index virt)) then Some (m t (l1_index virt)) else None)"

text \<open>No table is reached twice, and none of the tables is a free frame.\<close>

definition tree_inj :: "pmem \<Rightarrow> u64 \<Rightarrow> bool" where
  "tree_inj m root \<longleftrightarrow> (\<forall>p q t. tpath p \<longrightarrow> tpath q \<longrightarrow>
     table_at m root p = Some t \<longrightarrow> table_at m root q = Some t \<longrightarrow> p = q)"

definition pt_inv :: "u64 \<Rightarrow> paging \<Rightarrow> bool" where
  "pt_inv root s \<longleftrightarrow> tree_inj (pmem s) root
    \<and> (\<forall>p t. tpath p \<longrightarrow> table_at (pmem s) root p = Some t \<longrightarrow>
         \<not> is_free (unat (t div 4096)) (frames s))"

lemma table_at_snoc:
  "table_at m r (p @ [i]) = (case table_at m r p of None \<Rightarrow> None
     | Some t \<Rightarrow> if pte_is_present (m t i) then Some (pte_addr (m t i)) else None)"
  by (induction p arbitrary: r) auto

lemma tpath_snoc [simp]: "tpath (p @ [i]) \<longleftrightarrow> tpath p \<and> length p < 3 \<and> i < 512"
  by (auto simp: tpath_def)

lemma tpath_Nil [simp]: "tpath []"
  by (simp add: tpath_def)

lemma tree_injD:
  "\<lbrakk>tree_inj m r; tpath p; tpath q; table_at m r p = Some t; table_at m r q = Some t\<rbrakk> \<Longrightarrow> p = q"
  unfolding tree_inj_def by blast

lemma put_entry_apply: "put_entry t i e m u j = (if u = t \<and> j = i then e else m u j)"
  by (simp add: put_entry_def)

lemma index_bound [simp]:
  "l4_index v < 512" "l3_index v < 512" "l2_index v < 512" "l1_index v < 512"
proof -
  have "unat (x AND 0x1FF) < 512" for x :: u64
  proof -
    have "x AND 0x1FF \<le> 0x1FF" by (rule word_and_le1)
    then show ?thesis by (simp add: word_le_nat_alt)
  qed
  then show "l4_index v < 512" "l3_index v < 512" "l2_index v < 512" "l1_index v < 512"
    by (simp_all add: l4_index_def l3_index_def l2_index_def l1_index_def)
qed

lemma tpath_vpath [simp]: "tpath (vpath v)" "length (vpath v) = 3"
  by (simp_all add: tpath_def vpath_def)

text \<open>Replacing an entry by one with the same target changes no path.\<close>

lemma table_at_same_target:
  assumes "pte_is_present e = pte_is_present (m t i)" "pte_addr e = pte_addr (m t i)"
  shows "table_at (put_entry t i e m) r q = table_at m r q"
  by (induction q rule: rev_induct)
    (use assms in \<open>auto simp: table_at_snoc put_entry_apply split: option.split\<close>)

text \<open>Replacing an entry of a last-level table changes no path.\<close>

lemma table_at_leaf_update:
  assumes inj: "tree_inj m r" and p: "tpath p" "length p = 3" "table_at m r p = Some t"
  shows "tpath q \<Longrightarrow> table_at (put_entry t i e m) r q = table_at m r q"
proof (induction q rule: rev_induct)
  case (snoc j q)
  have "u \<noteq> t" if "table_at m r q = Some u" for u
    using tree_injD [OF inj _ p(1) that] snoc.prems p that by auto
  then show ?case
    using snoc by (auto simp: table_at_snoc put_entry_apply split: option.split)
qed simp

text \<open>Installing a fresh, zeroed table adds exactly one path.\<close>

lemma table_at_install:
  assumes inj: "tree_inj m r" and p: "tpath (p @ [i])" "table_at m r p = Some t"
    and absent: "\<not> pte_is_present (m t i)"
    and fresh: "\<And>q. tpath q \<Longrightarrow> table_at m r q \<noteq> Some n"
    and e: "pte_is_present e" "pte_addr e = n"
  shows "tpath q \<Longrightarrow> table_at (table_zero n (put_entry t i e m)) r q
    = (if q = p @ [i] then Some n else table_at m r q)"
proof (induction q rule: rev_induct)
  case (snoc j q)
  let ?m = "table_zero n (put_entry t i e m)"
  have q: "tpath q" and IH: "table_at ?m r q = (if q = p @ [i] then Some n else table_at m r q)"
    using snoc by auto
  have old: "table_at m r (p @ [i]) = None" using p(2) absent by (simp add: table_at_snoc)
  show ?case
  proof (cases "q = p @ [i]")
    case True
    then have "table_at ?m r q = Some n" "table_at m r q = None" using IH old by simp_all
    then have "table_at ?m r (q @ [j]) = None" "table_at m r (q @ [j]) = None"
      unfolding table_at_snoc [of _ r q] by (simp_all add: table_zero_def)
    then show ?thesis using True by simp
  next
    case ne: False
    show ?thesis
    proof (cases "table_at m r q")
      case None
      moreover from this have "q \<noteq> p" using p(2) by auto
      ultimately show ?thesis using IH ne by (simp add: table_at_snoc)
    next
      case (Some u)
      have un: "u \<noteq> n" using fresh [OF q] Some by auto
      have qp: "u = t \<longleftrightarrow> q = p"
        using tree_injD [OF inj q _ Some, of p] p Some by auto
      have ent: "?m u j = (if u = t \<and> j = i then e else m u j)"
        using un by (simp add: table_zero_def put_entry_apply)
      have "table_at ?m r q = Some u" using IH ne Some by simp
      then show ?thesis
        unfolding table_at_snoc [of _ r q] using Some ent qp e by auto
    qed
  qed
next
  case Nil
  then show ?case by simp
qed

section \<open>Mapping a page\<close>

text \<open>What one level of the walk guarantees, whichever branch it takes.\<close>

text \<open>
  A frame is foreign to an address space when it is in use but holds none of
  its tables: a page of data, or a table of another address space.
\<close>

definition foreign :: "u64 \<Rightarrow> paging \<Rightarrow> u64 \<Rightarrow> bool" where
  "foreign root s u \<longleftrightarrow> \<not> is_free (unat (u div 4096)) (frames s)
    \<and> (\<forall>q. tpath q \<longrightarrow> table_at (pmem s) root q \<noteq> Some u)"

definition walk_keeps :: "u64 \<Rightarrow> paging \<Rightarrow> paging \<Rightarrow> bool" where
  "walk_keeps root s s' \<longleftrightarrow> pt_inv root s'
    \<and> (\<forall>u. foreign root s u \<longrightarrow> foreign root s' u \<and> pmem s' u = pmem s u)
    \<and> (\<forall>g. is_free g (frames s') \<longrightarrow> is_free g (frames s))
    \<and> (\<forall>v. leaf_entry (pmem s') root v = leaf_entry (pmem s) root v)
    \<and> (\<forall>q u. tpath q \<longrightarrow> table_at (pmem s) root q = Some u \<longrightarrow> table_at (pmem s') root q = Some u)"

lemma walk_keeps_refl: "pt_inv root s \<Longrightarrow> walk_keeps root s s"
  by (simp add: walk_keeps_def)

lemma walk_keeps_trans: "walk_keeps root s t \<Longrightarrow> walk_keeps root t u \<Longrightarrow> walk_keeps root s u"
  by (simp add: walk_keeps_def)

lemma leaf_entry_inner_update:
  assumes inj: "tree_inj m r" and p: "tpath p" "length p < 3" "table_at m r p = Some t"
    and same: "table_at m' r (vpath v) = table_at m r (vpath v)"
    and m': "\<And>u j. u \<noteq> t \<Longrightarrow> table_at m r (vpath v) = Some u \<Longrightarrow> m' u j = m u j"
  shows "leaf_entry m' r v = leaf_entry m r v"
proof (cases "table_at m r (vpath v)")
  case (Some u)
  have "u \<noteq> t" using tree_injD [OF inj p(1) tpath_vpath(1) p(3)] Some p(2) by auto
  then show ?thesis using Some same m' [OF _ Some] by (simp add: leaf_entry_def)
qed (simp add: leaf_entry_def same)

lemma next_table_present:
  assumes inv: "pt_inv r s" and p: "tpath (p @ [i])" "table_at (pmem s) r p = Some t"
    and pres: "pte_is_present (pmem s t i)"
    and step: "next_table err (parent_table_flags f) t i s = (res, s')"
  shows "walk_keeps r s s' \<and> res = Inr (pte_addr (pmem s t i))
    \<and> table_at (pmem s') r (p @ [i]) = Some (pte_addr (pmem s t i))"
proof -
  let ?e = "pte_set (pte_addr (pmem s t i)) (merge_flags (pte_flags (pmem s t i)) (parent_table_flags f))"
  let ?m = "put_entry t i ?e (pmem s)"
  have s': "s' = s\<lparr>pmem := ?m\<rparr>" and res: "res = Inr (pte_addr (pmem s t i))"
    using step pres by (auto simp: next_table_def Let_def)
  have tab: "table_at ?m r q = table_at (pmem s) r q" for q
    by (rule table_at_same_target) (simp_all add: pres)
  have inj: "tree_inj (pmem s) r" using inv by (simp add: pt_inv_def)
  have "leaf_entry ?m r v = leaf_entry (pmem s) r v" for v
    by (rule leaf_entry_inner_update [OF inj _ _ p(2)]) (use p(1) tab in \<open>auto simp: put_entry_apply\<close>)
  moreover have "pt_inv r s'"
    using inv by (simp add: pt_inv_def s' tree_inj_def tab)
  moreover have "foreign r s' u \<and> pmem s' u = pmem s u" if "foreign r s u" for u
  proof -
    have "u \<noteq> t" using that p by (auto simp: foreign_def)
    then show ?thesis using that tab by (simp add: foreign_def s' put_entry_def)
  qed
  ultimately show ?thesis
    using p pres res tab [of "p @ [i]"] by (simp add: walk_keeps_def s' tab table_at_snoc put_entry_apply)
qed

lemma next_table_absent:
  assumes inv: "pt_inv r s" and p: "tpath (p @ [i])" "table_at (pmem s) r p = Some t"
    and abs: "\<not> pte_is_present (pmem s t i)"
    and step: "next_table err (parent_table_flags f) t i s = (res, s')"
  shows "walk_keeps r s s' \<and> (res = Inl err
    \<or> (\<exists>n. res = Inr n \<and> table_at (pmem s') r (p @ [i]) = Some n))"
proof (cases rule: allocate_frame_cases [of "frames s"])
  case fail
  then have "s' = s" "res = Inl err" using step abs by (auto simp: next_table_def Let_def)
  then show ?thesis using walk_keeps_refl [OF inv] by simp
next
  case (ok g)
  let ?n = "frame_addr g" and ?pf = "parent_table_flags f"
  let ?m = "table_zero ?n (put_entry t i (pte_set ?n ?pf) (pmem s))"
  have alloc: "allocate_frame (frames s) = (Some ?n, snd (allocate_frame (frames s)))"
    using ok by (simp add: prod_eq_iff)
  then have s': "pmem s' = ?m" "frames s' = snd (allocate_frame (frames s))" "res = Inr ?n"
    using step abs by (auto simp: next_table_def Let_def split: prod.splits)
  have inj: "tree_inj (pmem s) r"
    and nfree: "tpath q \<Longrightarrow> table_at (pmem s) r q = Some u \<Longrightarrow> \<not> is_free (unat (u div 4096)) (frames s)" for q u
    using inv by (auto simp: pt_inv_def)
  have fresh: "table_at (pmem s) r q \<noteq> Some ?n" if "tpath q" for q
    using nfree [OF that, of ?n] ok(1,2) by auto
  have tab: "table_at ?m r q = (if q = p @ [i] then Some ?n else table_at (pmem s) r q)" if "tpath q" for q
    by (rule table_at_install [OF inj p abs fresh _ _ that]) (use ok(2) in auto)
  have free': "is_free h (frames s') \<longleftrightarrow> h \<noteq> g \<and> is_free h (frames s)" for h
    by (simp add: s'(2) ok(4))
  have inj': "tree_inj ?m r"
    unfolding tree_inj_def using tab tree_injD [OF inj] fresh by (metis option.inject)
  have "\<not> is_free (unat (u div 4096)) (frames s')" if "tpath q" "table_at ?m r q = Some u" for q u
    using that tab [OF that(1)] nfree [OF that(1)] ok(2) free' by (auto split: if_splits)
  then have "pt_inv r s'" using inj' s'(1) by (simp add: pt_inv_def)
  moreover have "leaf_entry ?m r v = leaf_entry (pmem s) r v" for v
  proof (cases "vpath v = p @ [i]")
    case True
    then have "table_at ?m r (vpath v) = Some ?n" using tab tpath_vpath(1) [of v] by simp
    moreover have "table_at (pmem s) r (vpath v) = None"
      unfolding True using p abs by (simp add: table_at_snoc)
    ultimately show ?thesis by (simp add: leaf_entry_def table_zero_def)
  next
    case False
    then have eq: "table_at ?m r (vpath v) = table_at (pmem s) r (vpath v)" using tab by simp
    show ?thesis
      by (rule leaf_entry_inner_update [OF inj _ _ p(2) eq])
        (use p(1) fresh [OF tpath_vpath(1)] in \<open>auto simp: table_zero_def put_entry_apply\<close>)
  qed
  moreover have "table_at (pmem s) r (p @ [i]) = None" using p abs by (simp add: table_at_snoc)
  moreover have "foreign r s' u \<and> pmem s' u = pmem s u" if u: "foreign r s u" for u
  proof -
    have "u \<noteq> t" "u \<noteq> ?n" using u p ok(1,2) by (auto simp: foreign_def)
    then show ?thesis using u tab free' by (auto simp: foreign_def s'(1) table_zero_def put_entry_def)
  qed
  ultimately show ?thesis using s' tab p free' by (auto simp: walk_keeps_def)
qed

lemma next_table_spec:
  assumes "pt_inv r s" "tpath (p @ [i])" "table_at (pmem s) r p = Some t"
    and "next_table err (parent_table_flags f) t i s = (res, s')"
  shows "walk_keeps r s s' \<and> (res = Inl err
    \<or> (\<exists>n. res = Inr n \<and> table_at (pmem s') r (p @ [i]) = Some n))"
  using next_table_present [OF assms(1-3) _ assms(4)] next_table_absent [OF assms(1-3) _ assms(4)]
  by (cases "pte_is_present (pmem s t i)") auto

definition same_page :: "u64 \<Rightarrow> u64 \<Rightarrow> bool" where
  "same_page v w \<longleftrightarrow> vpath v = vpath w \<and> l1_index v = l1_index w"

lemma leaf_entry_update:
  assumes inj: "tree_inj m r" and t: "table_at m r (vpath v) = Some t"
  shows "leaf_entry (put_entry t (l1_index v) e m) r w =
    (if same_page v w then (if pte_is_present e then Some e else None) else leaf_entry m r w)"
proof -
  let ?m = "put_entry t (l1_index v) e m"
  have tab: "table_at ?m r (vpath w) = table_at m r (vpath w)"
    by (rule table_at_leaf_update [OF inj _ _ t]) simp_all
  show ?thesis
  proof (cases "table_at m r (vpath w)")
    case None
    then show ?thesis using tab t by (auto simp: leaf_entry_def same_page_def)
  next
    case (Some u)
    have "u = t \<longleftrightarrow> vpath v = vpath w"
      using tree_injD [OF inj _ _ t, of "vpath w"] Some t by auto
    then show ?thesis using Some tab by (auto simp: leaf_entry_def same_page_def put_entry_apply)
  qed
qed

lemma pt_inv_leaf_update:
  assumes inv: "pt_inv r s" and t: "table_at (pmem s) r (vpath v) = Some t"
  shows "pt_inv r (s\<lparr>pmem := put_entry t (l1_index v) e (pmem s)\<rparr>)"
proof -
  have "tree_inj (pmem s) r" using inv by (simp add: pt_inv_def)
  then have "tpath q \<Longrightarrow> table_at (put_entry t (l1_index v) e (pmem s)) r q = table_at (pmem s) r q" for q
    using table_at_leaf_update [OF _ _ _ t] by simp
  then show ?thesis using inv by (auto simp: pt_inv_def tree_inj_def)
qed

text \<open>The three levels of the walk put together.\<close>

lemma map_page_walk:
  assumes inv: "pt_inv r s" and step: "map_page r v phys flags s = (res, s')"
  shows "\<exists>s1. walk_keeps r s s1 \<and>
    ((\<exists>e. res = Inl e) \<and> s' = s1 \<or>
     (\<exists>t. res = Inr () \<and> table_at (pmem s1) r (vpath v) = Some t
        \<and> \<not> pte_is_present (pmem s1 t (l1_index v))
        \<and> s' = s1\<lparr>pmem := put_entry t (l1_index v) (pte_set phys flags) (pmem s1)\<rparr>))"
proof -
  let ?pf = "parent_table_flags flags"
  obtain r3 s3 where st3: "next_table ''OOM: L3 table'' ?pf r (l4_index v) s = (r3, s3)"
    by (rule prod.exhaust)
  have w3: "walk_keeps r s s3" "r3 = Inl ''OOM: L3 table''
      \<or> (\<exists>n. r3 = Inr n \<and> table_at (pmem s3) r [l4_index v] = Some n)"
    using next_table_spec [OF inv, of "[]", OF _ _ st3] by (simp_all add: tpath_def)
  show ?thesis
  proof (cases r3)
    case (Inl e)
    then show ?thesis using w3(1) step st3 by (intro exI [of _ s3]) (auto simp: map_page_def Let_def)
  next
    case (Inr l3)
    have t3: "table_at (pmem s3) r [l4_index v] = Some l3" using w3(2) Inr by simp
    have inv3: "pt_inv r s3" using w3(1) by (simp add: walk_keeps_def)
    obtain r2 s2 where st2: "next_table ''OOM: L2 table'' ?pf l3 (l3_index v) s3 = (r2, s2)"
      by (rule prod.exhaust)
    have w2: "walk_keeps r s3 s2" "r2 = Inl ''OOM: L2 table''
        \<or> (\<exists>n. r2 = Inr n \<and> table_at (pmem s2) r [l4_index v, l3_index v] = Some n)"
      using next_table_spec [OF inv3, of "[l4_index v]", OF _ t3 st2] by (simp_all add: tpath_def)
    show ?thesis
    proof (cases r2)
      case (Inl e)
      then show ?thesis using walk_keeps_trans [OF w3(1) w2(1)] step st3 st2 \<open>r3 = Inr l3\<close>
        by (intro exI [of _ s2]) (auto simp: map_page_def Let_def)
    next
      case (Inr l2)
      have t2: "table_at (pmem s2) r [l4_index v, l3_index v] = Some l2" using w2(2) Inr by simp
      have inv2: "pt_inv r s2" using w2(1) by (simp add: walk_keeps_def)
      obtain r1 s1 where st1: "next_table ''OOM: L1 table'' ?pf l2 (l2_index v) s2 = (r1, s1)"
        by (rule prod.exhaust)
      have w1: "walk_keeps r s2 s1" "r1 = Inl ''OOM: L1 table''
          \<or> (\<exists>n. r1 = Inr n \<and> table_at (pmem s1) r (vpath v) = Some n)"
        using next_table_spec [OF inv2, of "[l4_index v, l3_index v]", OF _ t2 st1]
        by (simp_all add: tpath_def vpath_def)
      have w: "walk_keeps r s s1"
        using walk_keeps_trans [OF w3(1) walk_keeps_trans [OF w2(1) w1(1)]] .
      show ?thesis
        using w w1(2) step st3 st2 st1 \<open>r3 = Inr l3\<close> \<open>r2 = Inr l2\<close>
        by (intro exI [of _ s1]) (auto simp: map_page_def Let_def split: if_splits)
    qed
  qed
qed

lemma map_page_effect:
  assumes inv: "pt_inv r s" and pres: "flags AND PRESENT \<noteq> 0"
    and step: "map_page r v phys flags s = (res, s')"
  shows "pt_inv r s' \<and> (\<forall>g. is_free g (frames s') \<longrightarrow> is_free g (frames s))
    \<and> (\<forall>u. foreign r s u \<longrightarrow> foreign r s' u \<and> pmem s' u = pmem s u)
    \<and> (res \<noteq> Inr () \<longrightarrow> (\<forall>w. leaf_entry (pmem s') r w = leaf_entry (pmem s) r w))
    \<and> (res = Inr () \<longrightarrow> leaf_entry (pmem s) r v = None
        \<and> leaf_entry (pmem s') r v = Some (pte_set phys flags)
        \<and> (\<forall>w. \<not> same_page v w \<longrightarrow> leaf_entry (pmem s') r w = leaf_entry (pmem s) r w))"
proof -
  obtain s1 where w: "walk_keeps r s s1" and cases:
    "(\<exists>e. res = Inl e) \<and> s' = s1 \<or>
     (\<exists>t. res = Inr () \<and> table_at (pmem s1) r (vpath v) = Some t
        \<and> \<not> pte_is_present (pmem s1 t (l1_index v))
        \<and> s' = s1\<lparr>pmem := put_entry t (l1_index v) (pte_set phys flags) (pmem s1)\<rparr>)"
    using map_page_walk [OF inv step] by blast
  have inv1: "pt_inv r s1" and leaf1: "leaf_entry (pmem s1) r x = leaf_entry (pmem s) r x"
    and fr1: "is_free g (frames s1) \<Longrightarrow> is_free g (frames s)"
    and for1: "foreign r s u \<Longrightarrow> foreign r s1 u \<and> pmem s1 u = pmem s u" for x g u
    using w by (auto simp: walk_keeps_def)
  from cases show ?thesis
  proof
    assume "(\<exists>e. res = Inl e) \<and> s' = s1"
    then show ?thesis using inv1 leaf1 fr1 for1 by auto
  next
    assume "\<exists>t. res = Inr () \<and> table_at (pmem s1) r (vpath v) = Some t
        \<and> \<not> pte_is_present (pmem s1 t (l1_index v))
        \<and> s' = s1\<lparr>pmem := put_entry t (l1_index v) (pte_set phys flags) (pmem s1)\<rparr>"
    then obtain t where t: "res = Inr ()" "table_at (pmem s1) r (vpath v) = Some t"
      "\<not> pte_is_present (pmem s1 t (l1_index v))"
      "s' = s1\<lparr>pmem := put_entry t (l1_index v) (pte_set phys flags) (pmem s1)\<rparr>" by blast
    have inj1: "tree_inj (pmem s1) r" using inv1 by (simp add: pt_inv_def)
    have "foreign r s' u \<and> pmem s' u = pmem s u" if "foreign r s u" for u
    proof -
      have u: "foreign r s1 u" "pmem s1 u = pmem s u" using for1 [OF that] by auto
      then have "u \<noteq> t" using t(2) by (auto simp: foreign_def)
      then show ?thesis
        using u t(4) table_at_leaf_update [OF inj1 _ _ t(2)] by (simp add: foreign_def put_entry_def)
    qed
    moreover have "leaf_entry (pmem s1) r v = None" using t by (simp add: leaf_entry_def)
    ultimately show ?thesis
      using t(1,4) leaf1 leaf_entry_update [OF inj1 t(2)] pt_inv_leaf_update [OF inv1 t(2)] pres fr1
      by (simp add: same_page_def)
  qed
qed

text \<open>
  C9. Mapping a page in a well-formed page table either fails and leaves the
  translation of every address as it was (out of frames for a table, or the
  page is already mapped), or succeeds, and then exactly the pages of the
  given address translate to the given frame and flags and every other address
  translates as before.  The page table stays well formed in both cases, and
  no page of data and no table of another address space is touched.
\<close>

theorem map_page_correct:
  assumes "pt_inv root s" "flags AND PRESENT \<noteq> 0"
    and "map_page root virt phys flags s = (res, s')"
  shows "pt_inv root s' \<and> (\<forall>g. is_free g (frames s') \<longrightarrow> is_free g (frames s))
    \<and> (\<forall>u. foreign root s u \<longrightarrow> foreign root s' u \<and> pmem s' u = pmem s u)
    \<and> (res \<noteq> Inr () \<longrightarrow> (\<forall>w. leaf_entry (pmem s') root w = leaf_entry (pmem s) root w))
    \<and> (res = Inr () \<longrightarrow> leaf_entry (pmem s) root virt = None
        \<and> leaf_entry (pmem s') root virt = Some (pte_set phys flags)
        \<and> (\<forall>w. \<not> same_page virt w \<longrightarrow> leaf_entry (pmem s') root w = leaf_entry (pmem s) root w))"
  by (rule map_page_effect [OF assms])

section \<open>Unmapping a page\<close>

lemma unmap_page_cases:
  "unmap_page r v s =
    (case table_at (pmem s) r (vpath v) of
       None \<Rightarrow> (fst (unmap_page r v s), s)
     | Some t \<Rightarrow>
         if pte_is_present (pmem s t (l1_index v))
         then (Inr (pte_addr (pmem s t (l1_index v))),
               s\<lparr>pmem := put_entry t (l1_index v) 0 (pmem s),
                 frames := free_frame (pte_addr (pmem s t (l1_index v))) (frames s)\<rparr>)
         else (Inl ''Not mapped (L1)'', s))"
  by (simp add: unmap_page_def vpath_def Let_def)

lemma unmap_page_fails:
  "table_at (pmem s) r (vpath v) = None \<Longrightarrow> \<exists>e. fst (unmap_page r v s) = Inl e"
  by (auto simp: unmap_page_def vpath_def Let_def split: if_splits)

text \<open>
  C11. Unmapping fails without any effect when the address is not mapped;
  otherwise it returns the frame the address was mapped to, drops one reference
  to it, makes exactly that page untranslatable and keeps every other
  translation.
\<close>

theorem unmap_page_correct:
  assumes "pt_inv root s" "unmap_page root virt s = (res, s')"
  shows "case leaf_entry (pmem s) root virt of
      None \<Rightarrow> (\<exists>e. res = Inl e) \<and> s' = s
    | Some e \<Rightarrow> res = Inr (pte_addr e)
        \<and> frames s' = free_frame (pte_addr e) (frames s)
        \<and> (\<forall>w. leaf_entry (pmem s') root w =
             (if same_page virt w then None else leaf_entry (pmem s) root w))"
proof (cases "table_at (pmem s) root (vpath virt)")
  case None
  then show ?thesis
    using assms(2) unmap_page_fails [OF None] unmap_page_cases [of root virt s]
    by (auto simp: leaf_entry_def)
next
  case (Some t)
  have inj: "tree_inj (pmem s) root" using assms(1) by (simp add: pt_inv_def)
  have leaf: "leaf_entry (pmem s) root virt =
      (if pte_is_present (pmem s t (l1_index virt)) then Some (pmem s t (l1_index virt)) else None)"
    using Some by (simp add: leaf_entry_def)
  show ?thesis
    using assms(2) unmap_page_cases [of root virt s] Some leaf_entry_update [OF inj Some, of 0]
    by (auto simp: leaf split: if_splits)
qed

section \<open>A small page table\<close>

text \<open>
  Root 0, one table per level at 0x1000, 0x2000 and 0x3000, and one page: the
  address 0x400000 mapped to the frame at 0x5000.
\<close>

definition ex_mem :: pmem where
  "ex_mem t i =
    (if t = 0 \<and> i = 0 then 0x1007 else if t = 0x1000 \<and> i = 0 then 0x2007
     else if t = 0x2000 \<and> i = 2 then 0x3007 else if t = 0x3000 \<and> i = 0 then 0x5007 else 0)"

definition ex_paging :: paging where
  "ex_paging = \<lparr>frames = boot_frames small_map (\<lambda>_ _. 0) 0, pmem = ex_mem\<rparr>"

lemmas ex_entry = ex_mem_def pte_is_present_def pte_addr_def PRESENT_def ADDR_MASK_def

lemma ex_paths:
  assumes "tpath q" "table_at ex_mem 0 q = Some t"
  shows "(q, t) \<in> {([], 0), ([0], 0x1000), ([0, 0], 0x2000), ([0, 0, 2], 0x3000)}"
proof -
  have "length q \<le> 3" using assms(1) by (simp add: tpath_def)
  then consider "q = []" | a where "q = [a]" | a b where "q = [a, b]" | a b c where "q = [a, b, c]"
    by (cases q rule: remdups_adj.cases; auto simp: le_Suc_eq length_Suc_conv numeral_3_eq_3)
  then show ?thesis
    by cases (use assms(2) in \<open>auto simp: ex_entry split: if_splits\<close>)
qed

lemma ex_inv: "pt_inv 0 ex_paging"
proof -
  have "tree_inj ex_mem 0"
    unfolding tree_inj_def by (auto dest!: ex_paths)
  moreover have "\<not> is_free (unat (t div 4096)) (boot_frames small_map (\<lambda>_ _. 0) 0)"
    if "tpath p" "table_at ex_mem 0 p = Some t" for p t
    using ex_paths [OF that] by (auto simp: boot_free unat_div)
  ultimately show ?thesis by (auto simp: pt_inv_def ex_paging_def)
qed

lemma ex_indices:
  "l4_index 0x400000 = 0" "l3_index 0x400000 = 0" "l2_index 0x400000 = 2" "l1_index 0x400000 = 0"
  "l4_index 0x401000 = 0" "l3_index 0x401000 = 0" "l2_index 0x401000 = 2" "l1_index 0x401000 = 1"
  by (simp_all add: l4_index_def l3_index_def l2_index_def l1_index_def drop_bit_eq_div)

lemma next_table_hit:
  "pte_is_present (pmem s t i) \<Longrightarrow> next_table err (parent_table_flags f) t i s =
    (Inr (pte_addr (pmem s t i)),
     s\<lparr>pmem := put_entry t i (pte_set (pte_addr (pmem s t i))
       (merge_flags (pte_flags (pmem s t i)) (parent_table_flags f))) (pmem s)\<rparr>)"
  by (simp add: next_table_def Let_def)

lemma map_page_correct_witness:
  "fst (map_page 0 0x401000 0x6000 7 ex_paging) = Inr ()
   \<and> leaf_entry (pmem (snd (map_page 0 0x401000 0x6000 7 ex_paging))) 0 0x401000 = Some 0x6007"
proof -
  have ok: "fst (map_page 0 0x401000 0x6000 7 ex_paging) = Inr ()"
    by (simp add: map_page_def ex_paging_def ex_indices ex_entry next_table_hit put_entry_apply Let_def)
  then show ?thesis
    using map_page_correct [of 0 ex_paging 7 "0x401000" "0x6000", OF ex_inv _ prod.collapse [symmetric]]
    by (simp add: PRESENT_def pte_set_def ADDR_MASK_def)
qed

lemma unmap_page_correct_witness:
  "fst (unmap_page 0 0x400000 ex_paging) = Inr 0x5000
   \<and> leaf_entry (pmem (snd (unmap_page 0 0x400000 ex_paging))) 0 0x400000 = None"
proof -
  have "leaf_entry (pmem ex_paging) 0 0x400000 = Some 0x5007"
    by (simp add: leaf_entry_def vpath_def ex_paging_def ex_indices ex_entry)
  then show ?thesis
    using unmap_page_correct [of 0 ex_paging "0x400000", OF ex_inv prod.collapse [symmetric]]
    by (simp add: same_page_def pte_addr_def ADDR_MASK_def)
qed

end
