(* ===== verification/Address_Spaces.thy ===== *)
theory Address_Spaces
  imports Page_Tables
begin

text \<open>
  Address spaces, the second half of \<open>mem/paging_allocator.rs\<close>: creating and
  freeing the page table of a process, mapping and unmapping ranges of pages in
  it, copy-on-write fork and its fault handler, and frames for shared memory.
  The global allocator is the paging state together with the kernel's own root
  table and the flag that initialisation is complete.
\<close>

record mm =
  pg :: paging
  kernel_l4 :: "u64 option"
  initialized :: bool

section \<open>Ranges of pages\<close>

fun map_user_pages :: "u64 \<Rightarrow> u64 \<Rightarrow> u64 \<Rightarrow> nat list \<Rightarrow> paging \<Rightarrow> unit outcome \<times> paging" where
  "map_user_pages cr3 virt flags [] s = (Inr (), s)"
| "map_user_pages cr3 virt flags (page # pages) s =
    (case allocate_frame (frames s) of
       (None, fa) \<Rightarrow> (Inl ''Out of frames'', s\<lparr>frames := fa\<rparr>)
     | (Some phys, fa) \<Rightarrow>
        (let s1 = s\<lparr>frames := fa, pmem := table_zero phys (pmem s)\<rparr> in
         case map_page cr3 (virt + of_nat (page * 4096)) phys flags s1 of
           (Inl e, s2) \<Rightarrow> (Inl e, s2)
         | (Inr _, s2) \<Rightarrow> map_user_pages cr3 virt flags pages s2))"

definition map_user_region_in ::
  "u64 \<Rightarrow> u64 \<Rightarrow> nat \<Rightarrow> bool \<Rightarrow> bool \<Rightarrow> mm \<Rightarrow> unit outcome \<times> mm" where
  "map_user_region_in cr3 virt num_pages writable executable m =
    (if \<not> initialized m then (Inl ''Paging allocator not initialized'', m)
     else case kernel_l4 m of
       None \<Rightarrow> (Inl ''PTM unavailable'', m)
     | Some saved \<Rightarrow>
         (let (res, s) = map_user_pages cr3 virt (user_flags writable executable) [0..<num_pages] (pg m)
          in (res, m\<lparr>pg := s\<rparr>)))"

definition unmap_user_region_in :: "u64 \<Rightarrow> u64 \<Rightarrow> nat \<Rightarrow> mm \<Rightarrow> mm" where
  "unmap_user_region_in cr3 virt num_pages m =
    (if \<not> initialized m \<or> kernel_l4 m = None then m
     else m\<lparr>pg := fold (\<lambda>page s. snd (unmap_page cr3 (virt + of_nat (page * 4096)) s))
                    [0..<num_pages] (pg m)\<rparr>)"

section \<open>Creation and release of a page table\<close>

definition create_user_page_table :: "mm \<Rightarrow> u64 option \<times> mm" where
  "create_user_page_table m =
    (if \<not> initialized m then (None, m)
     else case kernel_l4 m of
       None \<Rightarrow> (None, m)
     | Some kl4 \<Rightarrow>
        (case allocate_frame (frames (pg m)) of
           (None, fa) \<Rightarrow> (None, m\<lparr>pg := (pg m)\<lparr>frames := fa\<rparr>\<rparr>)
         | (Some n, fa) \<Rightarrow>
            (Some n, m\<lparr>pg := (pg m)\<lparr>frames := fa,
               pmem := (pmem (pg m))(n := (\<lambda>i. if i < 256 then 0
                                          else if i < 512 then pmem (pg m) kl4 i
                                          else pmem (pg m) n i))\<rparr>\<rparr>)))"

definition present_targets :: "pmem \<Rightarrow> u64 \<Rightarrow> nat \<Rightarrow> u64 list" where
  "present_targets m t n =
    map (\<lambda>e. e AND ADDR_MASK) (filter (\<lambda>e. e AND 1 \<noteq> 0) (map (m t) [0..<n]))"

definition free_user_page_table :: "u64 \<Rightarrow> mm \<Rightarrow> mm" where
  "free_user_page_table cr3 m =
    (if \<not> initialized m \<or> kernel_l4 m = None then m
     else
       (let mem = pmem (pg m);
            free_l1 = (\<lambda>l1 fa. free_frame l1 (fold free_frame (present_targets mem l1 512) fa));
            free_l2 = (\<lambda>l2 fa. free_frame l2 (fold free_l1 (present_targets mem l2 512) fa));
            free_l3 = (\<lambda>l3 fa. free_frame l3 (fold free_l2 (present_targets mem l3 512) fa))
        in m\<lparr>pg := (pg m)\<lparr>frames :=
             free_frame cr3 (fold free_l3 (present_targets mem cr3 256) (frames (pg m)))\<rparr>\<rparr>))"

section \<open>Copy-on-write fork\<close>

definition in_range :: "u64 \<Rightarrow> u64 \<times> u64 \<Rightarrow> bool" where
  "in_range virt r \<longleftrightarrow> fst r \<le> virt \<and> virt < snd r"

definition fork_virt :: "nat \<Rightarrow> nat \<Rightarrow> nat \<Rightarrow> nat \<Rightarrow> u64" where
  "fork_virt l4i l3i l2i l1i =
    push_bit 39 (of_nat l4i) OR push_bit 30 (of_nat l3i) OR push_bit 21 (of_nat l2i)
      OR push_bit 12 (of_nat l1i)"

text \<open>One entry of a last-level table: shared memory, stack, or a page to share copy-on-write.\<close>

definition fork_leaf ::
  "u64 \<times> u64 \<Rightarrow> (u64 \<times> u64) list \<Rightarrow> u64 \<Rightarrow> u64 \<Rightarrow> u64 \<Rightarrow> nat \<Rightarrow> paging \<Rightarrow> bool \<times> paging" where
  "fork_leaf stack_range shm_ranges virt src_l1 dst_l1 l1i s =
    (let l1e = pmem s src_l1 l1i in
     if l1e AND 1 = 0 then (True, s)
     else
       (let src_frame = l1e AND ADDR_MASK; flags = l1e AND 0xFFF in
        if list_ex (in_range virt) shm_ranges then
          (True, s\<lparr>pmem := put_entry dst_l1 l1i l1e (pmem s)\<rparr>)
        else if in_range virt stack_range then
          (case allocate_frame (frames s) of
             (None, fa) \<Rightarrow> (False, s\<lparr>frames := fa\<rparr>)
           | (Some n, fa) \<Rightarrow>
              (True, s\<lparr>frames := fa,
                 pmem := put_entry dst_l1 l1i (n OR (l1e AND 0xFFF))
                           ((pmem s)(n := pmem s src_frame))\<rparr>))
        else
          (let s1 = s\<lparr>frames := inc_refcount src_frame (frames s)\<rparr>;
               new_flags = (if is_writable flags then as_cow flags else flags);
               s2 = s1\<lparr>pmem := put_entry dst_l1 l1i (src_frame OR (new_flags AND 0xFFF)) (pmem s1)\<rparr> in
           (True, if new_flags \<noteq> flags
                  then s2\<lparr>pmem := put_entry src_l1 l1i (src_frame OR (new_flags AND 0xFFF)) (pmem s2)\<rparr>
                  else s2))))"

text \<open>An entry of a higher table: allocate the copy of the table below and descend into it.\<close>

definition fork_table ::
  "(u64 \<Rightarrow> u64 \<Rightarrow> paging \<Rightarrow> bool \<times> paging) \<Rightarrow> u64 \<Rightarrow> u64 \<Rightarrow> nat \<Rightarrow> paging \<Rightarrow> bool \<times> paging" where
  "fork_table below src dst i s =
    (let e = pmem s src i in
     if e AND 1 = 0 then (True, s)
     else case allocate_frame (frames s) of
       (None, fa) \<Rightarrow> (False, s\<lparr>frames := fa\<rparr>)
     | (Some n, fa) \<Rightarrow>
         below (e AND ADDR_MASK) n
           (s\<lparr>frames := fa, pmem := put_entry dst i (n OR (e AND 0xFFF)) (table_zero n (pmem s))\<rparr>))"

definition cow_fork_user_page_table ::
  "u64 \<Rightarrow> u64 \<times> u64 \<Rightarrow> (u64 \<times> u64) list \<Rightarrow> mm \<Rightarrow> u64 option \<times> mm" where
  "cow_fork_user_page_table src_cr3 stack_range shm_ranges m =
    (case create_user_page_table m of
       (None, m1) \<Rightarrow> (None, m1)
     | (Some dst_l4, m1) \<Rightarrow>
         (let leaf = (\<lambda>l4i l3i l2i src dst. for_each
                (\<lambda>l1i. fork_leaf stack_range shm_ranges (fork_virt l4i l3i l2i l1i) src dst l1i) [0..<512]);
              level2 = (\<lambda>l4i l3i src dst. for_each (\<lambda>l2i. fork_table (leaf l4i l3i l2i) src dst l2i) [0..<512]);
              level3 = (\<lambda>l4i src dst. for_each (\<lambda>l3i. fork_table (level2 l4i l3i) src dst l3i) [0..<512]);
              (ok, s) = for_each (\<lambda>l4i. fork_table (level3 l4i) src_cr3 dst_l4 l4i) [0..<256] (pg m1)
          in (if ok then Some dst_l4 else None, m1\<lparr>pg := s\<rparr>)))"

section \<open>The copy-on-write fault handler\<close>

definition HUGE :: u64 where [kdefs]: "HUGE = 0x80"

text \<open>
  The copy reads the page through its virtual address in the current address
  space, which is the frame the entry names.
\<close>

definition try_resolve_cow_fault :: "u64 \<Rightarrow> u64 \<Rightarrow> paging \<Rightarrow> bool \<times> paging" where
  "try_resolve_cow_fault cr3 fault_addr s =
    (let l4e = pmem s (cr3 AND ADDR_MASK) (l4_index fault_addr) in
     if l4e AND 1 = 0 then (False, s)
     else let l3e = pmem s (l4e AND ADDR_MASK) (l3_index fault_addr) in
     if l3e AND 1 = 0 \<or> l3e AND HUGE \<noteq> 0 then (False, s)
     else let l2e = pmem s (l3e AND ADDR_MASK) (l2_index fault_addr) in
     if l2e AND 1 = 0 \<or> l2e AND HUGE \<noteq> 0 then (False, s)
     else let l1 = l2e AND ADDR_MASK; l1i = l1_index fault_addr; l1e = pmem s l1 l1i in
     if l1e AND 1 = 0 then (False, s)
     else let flags = l1e AND 0xFFF in
     if \<not> is_cow flags then (False, s)
     else let frame = l1e AND ADDR_MASK; new_flags = as_writable_no_cow flags in
     if get_refcount frame (frames s) \<le> 1
     then (True, s\<lparr>pmem := put_entry l1 l1i (frame OR (new_flags AND 0xFFF)) (pmem s)\<rparr>)
     else case allocate_frame (frames s) of
       (None, fa) \<Rightarrow> (False, s\<lparr>frames := fa\<rparr>)
     | (Some n, fa) \<Rightarrow>
         (True, s\<lparr>pmem := put_entry l1 l1i (n OR (new_flags AND 0xFFF))
                           ((pmem s)(n := pmem s frame)),
                  frames := free_frame frame fa\<rparr>))"

definition is_page_mapped_current :: "u64 \<Rightarrow> u64 \<Rightarrow> pmem \<Rightarrow> bool" where
  "is_page_mapped_current cr3 virt m =
    (let l4e = m (cr3 AND ADDR_MASK) (l4_index virt) in
     if l4e AND 1 = 0 then False
     else let l3e = m (l4e AND ADDR_MASK) (l3_index virt) in
     if l3e AND 1 = 0 then False
     else if l3e AND HUGE \<noteq> 0 then True
     else let l2e = m (l3e AND ADDR_MASK) (l2_index virt) in
     if l2e AND 1 = 0 then False
     else if l2e AND HUGE \<noteq> 0 then True
     else m (l2e AND ADDR_MASK) (l1_index virt) AND 1 \<noteq> 0)"

section \<open>Frames for shared memory\<close>

fun alloc_more_frames :: "nat \<Rightarrow> paging \<Rightarrow> bool \<times> paging" where
  "alloc_more_frames 0 s = (True, s)"
| "alloc_more_frames (Suc n) s =
    (case allocate_frame (frames s) of
       (None, fa) \<Rightarrow> (False, s\<lparr>frames := fa\<rparr>)
     | (Some p, fa) \<Rightarrow> alloc_more_frames n (s\<lparr>frames := fa, pmem := table_zero p (pmem s)\<rparr>))"

definition alloc_phys_frames :: "nat \<Rightarrow> mm \<Rightarrow> u64 \<times> mm" where
  "alloc_phys_frames num_pages m =
    (if \<not> initialized m then (0, m)
     else case allocate_frame (frames (pg m)) of
       (None, fa) \<Rightarrow> (0, m\<lparr>pg := (pg m)\<lparr>frames := fa\<rparr>\<rparr>)
     | (Some first, fa) \<Rightarrow>
        (let (ok, s) = alloc_more_frames (num_pages - 1)
               ((pg m)\<lparr>frames := fa, pmem := table_zero first (pmem (pg m))\<rparr>)
         in (if ok then first else 0, m\<lparr>pg := s\<rparr>)))"

definition leaf_table :: "string \<Rightarrow> u64 \<Rightarrow> u64 \<Rightarrow> nat \<Rightarrow> paging \<Rightarrow> u64 outcome \<times> paging" where
  "leaf_table err pf t i s =
    (if pte_is_present (pmem s t i) then (Inr (pte_addr (pmem s t i)), s)
     else case allocate_frame (frames s) of
       (None, fa) \<Rightarrow> (Inl err, s\<lparr>frames := fa\<rparr>)
     | (Some n, fa) \<Rightarrow>
         (Inr n, s\<lparr>frames := fa, pmem := table_zero n (put_entry t i (pte_set n pf) (pmem s))\<rparr>))"

definition map_phys_leaf :: "u64 \<Rightarrow> u64 \<Rightarrow> u64 \<Rightarrow> u64 \<Rightarrow> paging \<Rightarrow> unit outcome \<times> paging" where
  "map_phys_leaf l4 virt phys flags s =
    (let pf = parent_table_flags flags in
     case leaf_table ''OOM: L3'' pf l4 (l4_index virt) s of
       (Inl e, s) \<Rightarrow> (Inl e, s)
     | (Inr l3, s) \<Rightarrow>
     (case leaf_table ''OOM: L2'' pf l3 (l3_index virt) s of
       (Inl e, s) \<Rightarrow> (Inl e, s)
     | (Inr l2, s) \<Rightarrow>
     (case leaf_table ''OOM: L1'' pf l2 (l2_index virt) s of
       (Inl e, s) \<Rightarrow> (Inl e, s)
     | (Inr l1, s) \<Rightarrow>
        (Inr (), s\<lparr>pmem := put_entry l1 (l1_index virt) (pte_set phys flags) (pmem s)\<rparr>))))"

fun map_phys_loop :: "u64 \<Rightarrow> u64 \<Rightarrow> u64 \<Rightarrow> u64 \<Rightarrow> nat list \<Rightarrow> paging \<Rightarrow> unit outcome \<times> paging" where
  "map_phys_loop cr3 virt phys flags [] s = (Inr (), s)"
| "map_phys_loop cr3 virt phys flags (i # is) s =
    (case map_phys_leaf cr3 (virt + of_nat i * 4096) (phys + of_nat i * 4096) flags s of
       (Inl e, s1) \<Rightarrow> (Inl e, s1)
     | (Inr _, s1) \<Rightarrow> map_phys_loop cr3 virt phys flags is s1)"

definition map_phys_pages_in ::
  "u64 \<Rightarrow> u64 \<Rightarrow> u64 \<Rightarrow> nat \<Rightarrow> bool \<Rightarrow> mm \<Rightarrow> unit outcome \<times> mm" where
  "map_phys_pages_in cr3 virt_base phys_base num_pages writable m =
    (if \<not> initialized m then (Inl ''not init'', m)
     else if kernel_l4 m = None then (Inl ''PTM None'', m)
     else (let (res, s) = map_phys_loop cr3 virt_base phys_base (user_flags writable False)
                            [0..<num_pages] (pg m)
           in (res, m\<lparr>pg := s\<rparr>)))"

section \<open>Mapping a range\<close>

lemma user_flags_present [simp]: "user_flags w x AND PRESENT \<noteq> 0"
  by (simp add: user_flags_def Let_def PRESENT_def USER_def WRITABLE_def NO_EXECUTE_def
      bit.conj_disj_distrib2)

text \<open>Taking a free frame out of the pool and clearing it.\<close>

definition fresh_page :: "nat \<Rightarrow> paging \<Rightarrow> paging" where
  "fresh_page g s = s\<lparr>frames := snd (allocate_frame (frames s)), pmem := table_zero (frame_addr g) (pmem s)\<rparr>"

lemma fresh_page_keeps:
  assumes inv: "pt_inv r s" and g: "is_free g (frames s)" "g < FRAMES"
    and fa: "snd (allocate_frame (frames s)) = (mark_used g (frames s))\<lparr>refcount := rc,
         next_frame := nf, allocated_frames := af\<rparr>"
  shows "walk_keeps r s (fresh_page g s) \<and> foreign r (fresh_page g s) (frame_addr g)
    \<and> \<not> is_free g (frames (fresh_page g s))"
proof -
  let ?m = "table_zero (frame_addr g) (pmem s)"
  have no: "table_at (pmem s) r q \<noteq> Some (frame_addr g)" if "tpath q" for q
    using inv g that by (auto simp: pt_inv_def)
  have tab: "tpath q \<Longrightarrow> table_at ?m r q = table_at (pmem s) r q" for q
  proof (induction q rule: rev_induct)
    case (snoc i q)
    then show ?case using no [of q]
      by (auto simp: table_at_snoc table_zero_def split: option.split)
  qed simp
  have free: "is_free h (frames (fresh_page g s)) \<longleftrightarrow> h \<noteq> g \<and> is_free h (frames s)" for h
    by (simp add: fresh_page_def fa)
  have "leaf_entry ?m r v = leaf_entry (pmem s) r v" for v
    using tab [OF tpath_vpath(1)] no [OF tpath_vpath(1), of v]
    by (auto simp: leaf_entry_def table_zero_def split: option.split)
  moreover have "foreign r (fresh_page g s) u \<and> ?m u = pmem s u" if "foreign r s u" for u
    using that g tab free by (auto simp: foreign_def fresh_page_def table_zero_def)
  moreover have "pt_inv r (fresh_page g s)"
    using inv tab free by (auto simp: pt_inv_def tree_inj_def fresh_page_def)
  ultimately have "walk_keeps r s (fresh_page g s)"
    using tab free by (auto simp: walk_keeps_def fresh_page_def)
  moreover have "foreign r (fresh_page g s) (frame_addr g)"
    using g no tab free by (auto simp: foreign_def fresh_page_def)
  ultimately show ?thesis using free by simp
qed

text \<open>What a successful run of the loop establishes.\<close>

definition pages_mapped :: "u64 \<Rightarrow> u64 \<Rightarrow> u64 \<Rightarrow> nat set \<Rightarrow> paging \<Rightarrow> paging \<Rightarrow> bool" where
  "pages_mapped r virt flags K s s' \<longleftrightarrow> pt_inv r s'
    \<and> (\<forall>k \<in> K. \<exists>g. is_free g (frames s) \<and> \<not> is_free g (frames s') \<and> foreign r s' (frame_addr g)
         \<and> leaf_entry (pmem s') r (virt + of_nat (k * 4096)) = Some (pte_set (frame_addr g) flags)
         \<and> (\<forall>i. pmem s' (frame_addr g) i = 0))
    \<and> (\<forall>w. (\<forall>k \<in> K. \<not> same_page (virt + of_nat (k * 4096)) w) \<longrightarrow>
         leaf_entry (pmem s') r w = leaf_entry (pmem s) r w)
    \<and> (\<forall>w e. leaf_entry (pmem s) r w = Some e \<longrightarrow> leaf_entry (pmem s') r w = Some e)
    \<and> (\<forall>u. foreign r s u \<longrightarrow> foreign r s' u \<and> pmem s' u = pmem s u)
    \<and> (\<forall>g. is_free g (frames s') \<longrightarrow> is_free g (frames s))"

lemma same_page_refl [simp]: "same_page v v"
  by (simp add: same_page_def)

lemma leaf_entry_same_page: "same_page v w \<Longrightarrow> leaf_entry m r v = leaf_entry m r w"
  by (cases "table_at m r (vpath w)") (auto simp: same_page_def leaf_entry_def)

lemma map_one_page:
  assumes inv: "pt_inv r s" and pres: "flags AND PRESENT \<noteq> 0"
    and g: "is_free g (frames s)" "g < FRAMES"
    and fa: "snd (allocate_frame (frames s)) = (mark_used g (frames s))\<lparr>refcount := rc,
         next_frame := nf, allocated_frames := af\<rparr>"
    and step: "map_page r v (frame_addr g) flags (fresh_page g s) = (Inr (), s')"
    and v: "v = virt + of_nat (k * 4096)"
  shows "pages_mapped r virt flags {k} s s'"
proof -
  have keeps: "walk_keeps r s (fresh_page g s)" and forg: "foreign r (fresh_page g s) (frame_addr g)"
    and used: "\<not> is_free g (frames (fresh_page g s))"
    using fresh_page_keeps [OF inv g fa] by auto
  have inv1: "pt_inv r (fresh_page g s)"
    and leaf1: "leaf_entry (pmem (fresh_page g s)) r w = leaf_entry (pmem s) r w" for w
    using keeps by (auto simp: walk_keeps_def)
  note eff = map_page_effect [OF inv1 pres step]
  have zero: "pmem s' (frame_addr g) i = 0" for i
    using eff forg by (simp add: fresh_page_def table_zero_def)
  have "leaf_entry (pmem s') r w = Some e" if "leaf_entry (pmem s) r w = Some e" for w e
    using eff leaf1 that leaf_entry_same_page by (metis option.distinct(1))
  then show ?thesis
    unfolding pages_mapped_def using eff leaf1 keeps forg used zero g v
    by (auto simp: walk_keeps_def)
qed

lemma pages_mapped_trans:
  assumes "pages_mapped r virt flags K s t" "pages_mapped r virt flags L t u"
  shows "pages_mapped r virt flags (K \<union> L) s u"
proof -
  have k: "\<exists>g. is_free g (frames s) \<and> \<not> is_free g (frames u) \<and> foreign r u (frame_addr g)
      \<and> leaf_entry (pmem u) r (virt + of_nat (k * 4096)) = Some (pte_set (frame_addr g) flags)
      \<and> (\<forall>i. pmem u (frame_addr g) i = 0)" if "k \<in> K \<union> L" for k
  proof (cases "k \<in> K")
    case True
    then obtain g where g: "is_free g (frames s)" "\<not> is_free g (frames t)" "foreign r t (frame_addr g)"
        "leaf_entry (pmem t) r (virt + of_nat (k * 4096)) = Some (pte_set (frame_addr g) flags)"
        "\<forall>i. pmem t (frame_addr g) i = 0"
      using assms(1) unfolding pages_mapped_def by blast
    then have "pmem u (frame_addr g) = pmem t (frame_addr g)" "foreign r u (frame_addr g)"
      "\<not> is_free g (frames u)"
      "leaf_entry (pmem u) r (virt + of_nat (k * 4096)) = Some (pte_set (frame_addr g) flags)"
      using assms(2) unfolding pages_mapped_def by blast+
    then show ?thesis using g by (intro exI [of _ g]) simp
  next
    case False
    then have "k \<in> L" using that by simp
    then obtain g where g: "is_free g (frames t)" "\<not> is_free g (frames u)" "foreign r u (frame_addr g)"
        "leaf_entry (pmem u) r (virt + of_nat (k * 4096)) = Some (pte_set (frame_addr g) flags)"
        "\<forall>i. pmem u (frame_addr g) i = 0"
      using assms(2) unfolding pages_mapped_def by blast
    moreover have "is_free g (frames s)" using g(1) assms(1) unfolding pages_mapped_def by blast
    ultimately show ?thesis by blast
  qed
  have fr: "foreign r u x \<and> pmem u x = pmem s x" if "foreign r s x" for x
    using that assms unfolding pages_mapped_def by simp
  show ?thesis
    using k fr assms unfolding pages_mapped_def by (simp add: ball_Un)
qed

lemma map_user_pages_step:
  assumes "pt_inv r s" "flags AND PRESENT \<noteq> 0" "map_user_pages r virt flags (k # ks) s = (Inr (), s')"
  obtains s2 where "pages_mapped r virt flags {k} s s2" "map_user_pages r virt flags ks s2 = (Inr (), s')"
proof (cases rule: allocate_frame_cases [of "frames s"])
  case fail
  then show ?thesis using assms by simp
next
  case (ok g)
  let ?v = "virt + of_nat (k * 4096)"
  have al: "allocate_frame (frames s) = (Some (frame_addr g), snd (allocate_frame (frames s)))"
    using ok by (simp add: prod_eq_iff)
  obtain res s2 where m: "map_page r ?v (frame_addr g) flags (fresh_page g s) = (res, s2)"
    by (rule prod.exhaust)
  have res: "res = Inr ()" and rest: "map_user_pages r virt flags ks s2 = (Inr (), s')"
    using assms(3) al m by (auto simp: fresh_page_def Let_def split: prod.splits sum.splits)
  have "pages_mapped r virt flags {k} s s2"
    by (rule map_one_page [OF assms(1,2) ok(1,2,4) m [unfolded res] refl])
  then show ?thesis using rest by (rule that)
qed

lemma map_user_pages_mapped:
  "\<lbrakk>pt_inv r s; flags AND PRESENT \<noteq> 0; map_user_pages r virt flags ks s = (Inr (), s')\<rbrakk>
    \<Longrightarrow> pages_mapped r virt flags (set ks) s s'"
proof (induction ks arbitrary: s)
  case Nil
  then show ?case by (simp add: pages_mapped_def)
next
  case (Cons k ks)
  obtain s2 where one: "pages_mapped r virt flags {k} s s2" and rest: "map_user_pages r virt flags ks s2 = (Inr (), s')"
    using map_user_pages_step [OF Cons.prems] .
  then have "pages_mapped r virt flags (set ks) s2 s'"
    using Cons.IH [OF _ Cons.prems(2) rest] by (simp add: pages_mapped_def)
  then show ?case using pages_mapped_trans [OF one] by (metis list.simps(15) insert_is_Un)
qed

text \<open>
  C10. When \<open>map_user_region_in\<close> succeeds, every page of the range is mapped,
  with the requested flags, to a frame that was free before and is filled with
  zeros; mappings that existed before, translations outside the range, and all
  frames in use by anyone else, other address spaces included, are unchanged.
\<close>

theorem map_user_region_in_correct:
  assumes "pt_inv cr3 (pg m)"
    and "map_user_region_in cr3 virt num_pages writable executable m = (Inr (), m')"
  shows "pages_mapped cr3 virt (user_flags writable executable) {0..<num_pages} (pg m) (pg m')
    \<and> kernel_l4 m' = kernel_l4 m \<and> initialized m'"
proof -
  obtain res s where run: "map_user_pages cr3 virt (user_flags writable executable) [0..<num_pages] (pg m)
      = (res, s)" by (rule prod.exhaust)
  have m': "initialized m" "res = Inr ()" "m' = m\<lparr>pg := s\<rparr>"
    using assms(2) run by (auto simp: map_user_region_in_def split: if_splits option.splits)
  then show ?thesis
    using map_user_pages_mapped [OF assms(1) user_flags_present run [unfolded m'(2)]] by simp
qed

section \<open>Resolving a copy-on-write fault\<close>

lemma present_bit: "pte_is_present e \<longleftrightarrow> e AND 1 \<noteq> 0"
  by (simp add: pte_is_present_def PRESENT_def)

lemma present_flags: "pte_is_present e \<longleftrightarrow> pte_flags e AND 1 \<noteq> 0"
  by (simp add: present_bit pte_flags_def and.assoc)

lemma addr_or_flags:
  assumes "p AND ADDR_MASK = p"
  shows "pte_addr (p OR (f AND 0xFFF)) = p" "pte_flags (p OR (f AND 0xFFF)) = f AND 0xFFF"
proof -
  have "pte_set p f = p OR (f AND 0xFFF)" using assms by (simp add: pte_set_def)
  then show "pte_addr (p OR (f AND 0xFFF)) = p" "pte_flags (p OR (f AND 0xFFF)) = f AND 0xFFF"
    using assms pte_addr_set [of p f] pte_flags_set [of p f] by simp_all
qed

lemma cow_flag_bits:
  assumes "e AND 1 \<noteq> 0"
  shows "as_writable_no_cow (e AND 0xFFF) AND 0xFFF AND 1 \<noteq> 0"
    "is_writable (as_writable_no_cow (e AND 0xFFF) AND 0xFFF)"
    "\<not> is_cow (as_writable_no_cow (e AND 0xFFF) AND 0xFFF)"
proof -
  have "e AND (0xFFF AND NOT COW AND 1) = e AND 1" by (simp add: COW_def)
  then show "as_writable_no_cow (e AND 0xFFF) AND 0xFFF AND 1 \<noteq> 0"
    using assms by (simp add: as_writable_no_cow_def bit.conj_disj_distrib2 and.assoc WRITABLE_def COW_def)
  show "is_writable (as_writable_no_cow (e AND 0xFFF) AND 0xFFF)"
    by (simp add: is_writable_def as_writable_no_cow_def bit.conj_disj_distrib2 and.assoc
        WRITABLE_def COW_def)
  show "\<not> is_cow (as_writable_no_cow (e AND 0xFFF) AND 0xFFF)"
    by (simp add: is_cow_def as_writable_no_cow_def and.assoc COW_def)
qed

definition huge_free :: "pmem \<Rightarrow> u64 \<Rightarrow> u64 \<Rightarrow> bool" where
  "huge_free m root v \<longleftrightarrow>
    (\<forall>t. table_at m root [l4_index v] = Some t \<longrightarrow> m t (l3_index v) AND HUGE = 0)
    \<and> (\<forall>t. table_at m root [l4_index v, l3_index v] = Some t \<longrightarrow> m t (l2_index v) AND HUGE = 0)"

text \<open>The handler once its walk has found the last-level table.\<close>

lemma try_resolve_found:
  assumes root: "root AND ADDR_MASK = root" and huge: "huge_free (pmem s) root v"
    and t: "table_at (pmem s) root (vpath v) = Some t"
    and e: "pmem s t (l1_index v) = e" "e AND 1 \<noteq> 0" "is_cow (e AND 0xFFF)"
  shows "try_resolve_cow_fault root v s =
    (let new_flags = as_writable_no_cow (e AND 0xFFF); frame = pte_addr e in
     if get_refcount frame (frames s) \<le> 1
     then (True, s\<lparr>pmem := put_entry t (l1_index v) (frame OR (new_flags AND 0xFFF)) (pmem s)\<rparr>)
     else case allocate_frame (frames s) of
       (None, fa) \<Rightarrow> (False, s\<lparr>frames := fa\<rparr>)
     | (Some n, fa) \<Rightarrow>
         (True, s\<lparr>pmem := put_entry t (l1_index v) (n OR (new_flags AND 0xFFF))
                           ((pmem s)(n := pmem s frame)),
                  frames := free_frame frame fa\<rparr>))"
proof -
  let ?e4 = "pmem s root (l4_index v)"
  let ?e3 = "pmem s (pte_addr ?e4) (l3_index v)"
  let ?e2 = "pmem s (pte_addr ?e3) (l2_index v)"
  have p: "?e4 AND 1 \<noteq> 0" "?e3 AND 1 \<noteq> 0" "?e2 AND 1 \<noteq> 0" "pte_addr ?e2 = t"
    using t by (auto simp: vpath_def present_bit split: if_splits)
  then have "?e3 AND HUGE = 0" "?e2 AND HUGE = 0"
    using huge by (simp_all add: huge_free_def present_bit)
  then show ?thesis
    using p e root unfolding try_resolve_cow_fault_def Let_def pte_addr_def
    by (simp split: prod.split option.split)
qed

lemma table_at_data_update:
  assumes "\<And>q. tpath q \<Longrightarrow> table_at m r q \<noteq> Some n"
  shows "tpath q \<Longrightarrow> table_at (m(n := d)) r q = table_at m r q"
proof (induction q rule: rev_induct)
  case (snoc j q)
  then show ?case using assms [of q] by (auto simp: table_at_snoc split: option.split)
qed simp

lemma leaf_entry_data_update:
  assumes no: "\<And>q. tpath q \<Longrightarrow> table_at m r q \<noteq> Some n"
  shows "leaf_entry (m(n := d)) r w = leaf_entry m r w"
  using table_at_data_update [OF no, of "vpath w"] no [OF tpath_vpath(1), of w]
  by (auto simp: leaf_entry_def split: option.split)

text \<open>
  A new address space satisfies the invariant of its tables whenever the
  kernel's tables, whose upper half it shares, satisfy it.
\<close>

definition new_root :: "u64 \<Rightarrow> u64 \<Rightarrow> pmem \<Rightarrow> pmem" where
  "new_root n kl4 m = m(n := (\<lambda>i. if i < 256 then 0 else if i < 512 then m kl4 i else m n i))"

lemma new_root_paths:
  assumes no: "\<And>q. tpath q \<Longrightarrow> table_at m kl4 q \<noteq> Some n"
  shows "tpath q \<Longrightarrow> table_at (new_root n kl4 m) kl4 q = table_at m kl4 q"
    and "tpath (i # q) \<Longrightarrow> table_at (new_root n kl4 m) n (i # q) = (if i < 256 then None else table_at m kl4 (i # q))"
proof -
  show old: "table_at (new_root n kl4 m) kl4 q = table_at m kl4 q" if "tpath q" for q
    using table_at_data_update [OF no that] by (simp add: new_root_def)
  assume p: "tpath (i # q)"
  then have "i < 512" by (simp add: tpath_def)
  moreover have "kl4 \<noteq> n" using no [of "[]"] by simp
  ultimately have "table_at (new_root n kl4 m) n (i # q) = (if i < 256 then None else table_at (new_root n kl4 m) kl4 (i # q))"
    by (simp add: new_root_def)
  then show "table_at (new_root n kl4 m) n (i # q) = (if i < 256 then None else table_at m kl4 (i # q))"
    using old [OF p] by simp
qed

lemma create_user_page_table_inv:
  assumes "create_user_page_table m = (Some n, m')" "kernel_l4 m = Some kl4" "pt_inv kl4 (pg m)"
  shows "pt_inv n (pg m') \<and> pt_inv kl4 (pg m') \<and> (\<forall>v. l4_index v < 256 \<longrightarrow> leaf_entry (pmem (pg m')) n v = None)"
proof -
  let ?m = "pmem (pg m)"
  obtain fa where al: "allocate_frame (frames (pg m)) = (Some n, fa)"
    and m': "pg m' = (pg m)\<lparr>frames := fa, pmem := ?m(n := (\<lambda>i. if i < 256 then 0
       else if i < 512 then ?m kl4 i else ?m n i))\<rparr>"
    using assms(1,2) by (auto simp: create_user_page_table_def split: if_splits prod.splits option.splits)
  then have m'_mem: "pmem (pg m') = new_root n kl4 ?m" by (simp add: new_root_def)
  obtain g where g: "is_free g (frames (pg m))" "g < FRAMES" "n = frame_addr g"
      and free: "\<And>h. is_free h fa \<longleftrightarrow> h \<noteq> g \<and> is_free h (frames (pg m))"
    by (rule allocate_frame_cases [of "frames (pg m)"]) (use al in auto)
  have no: "table_at ?m kl4 q \<noteq> Some n" if "tpath q" for q
    using assms(3) g that by (auto simp: pt_inv_def)
  note paths = new_root_paths [OF no, folded m'_mem]
  have reach: "p = [] \<and> t = n \<or> table_at ?m kl4 p = Some t"
    if "tpath p" "table_at (pmem (pg m')) n p = Some t" for p t
  proof (cases p)
    case (Cons i q)
    then show ?thesis using that paths(2) [of i q] by (metis option.distinct(1))
  qed (use that in simp)
  have inj: "tree_inj ?m kl4" using assms(3) by (simp add: pt_inv_def)
  have "pt_inv n (pg m')"
    unfolding pt_inv_def tree_inj_def
  proof (intro conjI allI impI)
    fix p q t
    assume "tpath p" "tpath q" "table_at (pmem (pg m')) n p = Some t" "table_at (pmem (pg m')) n q = Some t"
    then show "p = q" using reach [of p t] reach [of q t] no [of p] no [of q] tree_injD [OF inj, of p q t] by metis
  next
    fix p t
    assume "tpath p" "table_at (pmem (pg m')) n p = Some t"
    then show "\<not> is_free (unat (t div 4096)) (frames (pg m'))"
      using reach [of p t] assms(3) free g by (auto simp: pt_inv_def m')
  qed
  moreover have "pt_inv kl4 (pg m')" using assms(3) paths(1) free by (simp add: pt_inv_def tree_inj_def) (simp add: m')
  moreover have "leaf_entry (pmem (pg m')) n v = None" if "l4_index v < 256" for v
    using paths(2) [of "l4_index v" "[l3_index v, l2_index v]"] tpath_vpath(1) [of v] that by (simp add: leaf_entry_def vpath_def)
  ultimately show ?thesis by blast
qed

text \<open>A fault on a frame with other holders takes the branch that copies it.\<close>

lemma cow_fault_copies:
  assumes "root AND ADDR_MASK = root" "huge_free (pmem s) root v" "leaf_entry (pmem s) root v = Some e"
    and "is_cow (pte_flags e)" "1 < fa_holders (frames s) (pte_addr e)" "try_resolve_cow_fault root v s = (True, s')"
  obtains t n fa where "table_at (pmem s) root (vpath v) = Some t" "e AND 1 \<noteq> 0"
    "allocate_frame (frames s) = (Some n, fa)"
    "s' = s\<lparr>pmem := put_entry t (l1_index v) (n OR (as_writable_no_cow (e AND 0xFFF) AND 0xFFF)) ((pmem s)(n := pmem s (pte_addr e))),
            frames := free_frame (pte_addr e) fa\<rparr>"
proof -
  obtain t where t: "table_at (pmem s) root (vpath v) = Some t" "pmem s t (l1_index v) = e" "pte_is_present e"
    using assms(3) by (auto simp: leaf_entry_def split: option.splits if_splits)
  have cow: "e AND 1 \<noteq> 0" "is_cow (e AND 0xFFF)" using t(3) assms(4) by (simp_all add: present_bit pte_flags_def)
  have "0 < fa_holders (frames s) (pte_addr e)" using assms(5) by simp
  from fa_held_frame [OF this] obtain f where f: "f < FRAMES" "pte_addr e = frame_addr f" by blast
  have "\<not> get_refcount (pte_addr e) (frames s) \<le> 1"
    using assms(5) f by (simp add: get_refcount_def word_le_nat_alt)
  then show thesis
    using try_resolve_found [OF assms(1,2) t(1,2) cow] assms(6) that [OF t(1) cow(1)]
    by (auto simp: Let_def split: prod.splits option.splits)
qed

text \<open>
  C7. A write fault on a copy-on-write page whose frame has other holders is
  resolved by a private copy: afterwards the page is writable, no longer marked
  copy-on-write, and backed by a frame nobody held before, with the same
  contents; the shared frame keeps its contents and loses one holder; no other
  address of the faulting process changes its translation.
\<close>

theorem cow_fault_private_copy:
  assumes "pt_inv root s" "root AND ADDR_MASK = root" "huge_free (pmem s) root v"
    and "fa_inv (frames s)" "leaf_entry (pmem s) root v = Some e" "is_cow (pte_flags e)"
    and "1 < fa_holders (frames s) (pte_addr e)" "foreign root s (pte_addr e)"
    and "try_resolve_cow_fault root v s = (True, s')"
  shows "\<exists>e'. leaf_entry (pmem s') root v = Some e'
      \<and> is_writable (pte_flags e') \<and> \<not> is_cow (pte_flags e')
      \<and> fa_holders (frames s) (pte_addr e') = 0 \<and> fa_holders (frames s') (pte_addr e') = 1
      \<and> pmem s' (pte_addr e') = pmem s (pte_addr e)
      \<and> pmem s' (pte_addr e) = pmem s (pte_addr e)
      \<and> fa_holders (frames s') (pte_addr e) = fa_holders (frames s) (pte_addr e) - 1
      \<and> (\<forall>w. \<not> same_page v w \<longrightarrow> leaf_entry (pmem s') root w = leaf_entry (pmem s) root w)"
proof -
  let ?fr = "pte_addr e" and ?nf = "as_writable_no_cow (e AND 0xFFF)"
  obtain t n fa where t: "table_at (pmem s) root (vpath v) = Some t" and cow: "e AND 1 \<noteq> 0"
    and al: "allocate_frame (frames s) = (Some n, fa)"
    and s': "s' = s\<lparr>pmem := put_entry t (l1_index v) (n OR (?nf AND 0xFFF)) ((pmem s)(n := pmem s ?fr)),
                    frames := free_frame ?fr fa\<rparr>"
    by (rule cow_fault_copies [OF assms(2,3,5,6,7,9)])
  obtain g where g: "is_free g (frames s)" "g < FRAMES" "n = frame_addr g"
    using allocate_frame_cases [of "frames s"] al by (metis fst_conv option.inject option.distinct)
  have n: "fa_inv fa" "fa_holders (frames s) n = 0" "fa_holders fa = (fa_holders (frames s))(n := 1)"
    using allocate_frame_ok [OF assms(4) al] by auto
  have nfr: "n \<noteq> ?fr" using n(2) assms(7) by auto
  have rel: "fa_holders (free_frame ?fr fa) = (fa_holders fa)(?fr := fa_holders fa ?fr - 1)"
    using free_frame_ok [OF n(1), of ?fr] n(3) nfr assms(7) by simp
  have no: "table_at (pmem s) root q \<noteq> Some n" if "tpath q" for q
    using assms(1) g that by (auto simp: pt_inv_def)
  have tfr: "t \<noteq> ?fr" "t \<noteq> n" using t assms(8) no [OF tpath_vpath(1), of v] by (auto simp: foreign_def)
  let ?m = "(pmem s)(n := pmem s ?fr)" and ?e' = "n OR (?nf AND 0xFFF)"
  have inj: "tree_inj ?m root"
    using assms(1) table_at_data_update [OF no] by (simp add: pt_inv_def tree_inj_def)
  have t': "table_at ?m root (vpath v) = Some t" using table_at_data_update [OF no] t by simp
  have e': "pte_addr ?e' = n" "pte_flags ?e' = ?nf AND 0xFFF"
    using addr_or_flags [of n ?nf] g by simp_all
  have pres: "pte_is_present ?e'"
    using cow_flag_bits(1) [OF cow] by (simp add: present_flags e'(2) and.assoc)
  have leaf: "leaf_entry (pmem s') root w =
      (if same_page v w then Some ?e' else leaf_entry (pmem s) root w)" for w
    using leaf_entry_update [OF inj t', of ?e' w] pres leaf_entry_data_update [OF no] s' by simp
  show ?thesis
    using leaf e' cow_flag_bits(2,3) [OF cow] n rel nfr tfr s'
    by (intro exI [of _ ?e']) (simp add: put_entry_def)
qed

section \<open>Examples\<close>

text \<open>
  The machine of \<open>big_map\<close> with the page table of \<open>ex_mem\<close>, and a variant in which the page at 0x400000 is shared
  copy-on-write with another holder of frame 9000.
\<close>

definition ex_mm :: mm where
  "ex_mm = \<lparr>pg = \<lparr>frames = big_frames, pmem = ex_mem\<rparr>, kernel_l4 = Some 0, initialized = True\<rparr>"

lemma ex_mm_inv: "pt_inv 0 (pg ex_mm)"
proof -
  have "tree_inj ex_mem 0" using ex_inv by (simp add: pt_inv_def ex_paging_def)
  moreover have "\<not> is_free (unat (t div 4096)) big_frames"
    if "tpath p" "table_at ex_mem 0 p = Some t" for p t
    using ex_paths [OF that] by (auto simp: big_boot(1) unat_div)
  ultimately show ?thesis by (auto simp: pt_inv_def ex_mm_def)
qed

lemma ex_map_ok:
  assumes "g < FRAMES" "8192 \<le> g"
  shows "fst (map_page 0 0x401000 (frame_addr g) flags
    \<lparr>frames = fa, pmem = table_zero (frame_addr g) ex_mem\<rparr>) = Inr ()"
proof -
  have ne: "frame_addr g \<noteq> frame_addr k" if "k < 8192" for k
    using assms that frame_addr_inj [of g k] by (auto simp: FRAMES_def)
  have "frame_addr g \<noteq> 0" "frame_addr g \<noteq> 0x1000" "frame_addr g \<noteq> 0x2000" "frame_addr g \<noteq> 0x3000"
    using ne [of 0] ne [of 1] ne [of 2] ne [of 3] by (simp_all add: frame_addr_def)
  then show ?thesis
    by (simp add: map_page_def ex_indices ex_entry next_table_hit put_entry_apply table_zero_def Let_def)
qed

lemma ex_region_mapped: "\<exists>m'. map_user_region_in 0 0x401000 1 True True ex_mm = (Inr (), m')"
proof -
  obtain g fa where al: "allocate_frame big_frames = (Some (frame_addr g), fa)" "g < FRAMES"
    using allocate_succeeds [of 8192 big_frames] big_boot by (auto simp: FRAMES_def)
  have "8192 \<le> g"
  proof (cases rule: allocate_frame_cases [of big_frames])
    case (ok h)
    then show ?thesis using al frame_addr_inj [of g h] big_boot(1) by simp
  qed (use al in simp)
  then have "fst (map_page 0 0x401000 (frame_addr g) (user_flags True True)
      \<lparr>frames = fa, pmem = table_zero (frame_addr g) ex_mem\<rparr>) = Inr ()"
    using ex_map_ok al(2) by blast
  then obtain s2 where "map_page 0 0x401000 (frame_addr g) (user_flags True True)
      \<lparr>frames = fa, pmem = table_zero (frame_addr g) ex_mem\<rparr> = (Inr (), s2)"
    by (metis prod.collapse)
  then have "map_user_pages 0 0x401000 (user_flags True True) [0] (pg ex_mm) = (Inr (), s2)"
    using al by (simp add: ex_mm_def Let_def)
  then show ?thesis by (simp add: map_user_region_in_def ex_mm_def)
qed

lemma map_user_region_in_correct_witness:
  "\<exists>m'. map_user_region_in 0 0x401000 1 True True ex_mm = (Inr (), m')
    \<and> pages_mapped 0 0x401000 (user_flags True True) {0..<1} (pg ex_mm) (pg m')"
  using ex_region_mapped map_user_region_in_correct [OF ex_mm_inv] by blast

definition cow_frames :: PhysicalFrameAllocator where
  "cow_frames = (mark_used 9000 big_frames)\<lparr>refcount := (\<lambda>_. 0)(9000 := 2), allocated_frames := 1\<rparr>"

definition cow_paging :: paging where
  "cow_paging = \<lparr>frames = cow_frames, pmem = put_entry 0x3000 0 (frame_addr 9000 OR 0x205) ex_mem\<rparr>"

lemma cow_frames_facts:
  "fa_inv cow_frames" "fa_holders cow_frames (frame_addr 9000) = 2"
  "is_free f cow_frames \<longleftrightarrow> f \<noteq> 9000 \<and> 8192 \<le> f \<and> f < FRAMES"
proof -
  show free: "is_free f cow_frames \<longleftrightarrow> f \<noteq> 9000 \<and> 8192 \<le> f \<and> f < FRAMES" for f
    by (auto simp: cow_frames_def big_boot(1))
  have "used_frames cow_frames = {9000}" by (auto simp: used_frames_def cow_frames_def FRAMES_def)
  then show "fa_inv cow_frames"
    using free by (auto simp: fa_inv_def cow_frames_def big_boot)
  show "fa_holders cow_frames (frame_addr 9000) = 2"
    by (simp add: cow_frames_def FRAMES_def)
qed

lemma cow_paging_facts:
  "table_at (pmem cow_paging) 0 q = table_at ex_mem 0 q" if "tpath q" for q
proof -
  have "tree_inj ex_mem 0" using ex_inv by (simp add: pt_inv_def ex_paging_def)
  moreover have "table_at ex_mem 0 [0, 0, 2] = Some 0x3000" by (simp add: ex_entry)
  ultimately show ?thesis
    using table_at_leaf_update [of ex_mem 0 "[0, 0, 2]" "0x3000" q] that
    by (simp add: cow_paging_def tpath_def)
qed

lemma frame_9000: "frame_addr 9000 = 0x2328000"
  by (simp add: frame_addr_def)

lemma cow_paging_inv:
  "pt_inv 0 cow_paging" "huge_free (pmem cow_paging) 0 0x400000"
  "leaf_entry (pmem cow_paging) 0 0x400000 = Some 0x2328205" "foreign 0 cow_paging 0x2328000"
proof -
  have nf: "\<not> is_free (unat (t div 4096)) cow_frames \<and> t \<noteq> 0x2328000"
    if "tpath p" "table_at ex_mem 0 p = Some t" for p t
    using ex_paths [OF that] by (auto simp: cow_frames_facts(3) unat_div)
  have "tree_inj ex_mem 0" using ex_inv by (simp add: pt_inv_def ex_paging_def)
  then show "pt_inv 0 cow_paging"
    using nf cow_paging_facts by (auto simp: pt_inv_def tree_inj_def) (auto simp: cow_paging_def)
  show "foreign 0 cow_paging 0x2328000"
    using nf cow_paging_facts cow_frames_facts(3) [of 9000]
    by (auto simp: foreign_def) (simp add: cow_paging_def unat_div)
  show "leaf_entry (pmem cow_paging) 0 0x400000 = Some 0x2328205"
    by (simp add: leaf_entry_def cow_paging_def vpath_def ex_indices ex_entry put_entry_apply frame_9000)
  show "huge_free (pmem cow_paging) 0 0x400000"
    by (simp add: huge_free_def cow_paging_def ex_indices ex_entry put_entry_apply HUGE_def)
qed

lemma cow_resolves: "fst (try_resolve_cow_fault 0 0x400000 cow_paging)"
proof -
  have tab: "table_at (pmem cow_paging) 0 (vpath 0x400000) = Some 0x3000"
    by (simp add: cow_paging_facts) (simp add: vpath_def ex_indices ex_entry)
  have ent: "pmem cow_paging 0x3000 (l1_index 0x400000) = 0x2328205"
    by (simp add: cow_paging_def put_entry_apply ex_indices frame_9000)
  have rc: "\<not> get_refcount 0x2328000 (frames cow_paging) \<le> 1"
    by (simp add: get_refcount_def cow_paging_def cow_frames_def unat_div FRAMES_def word_le_nat_alt)
  have "total_frames cow_frames = 57344" "next_frame cow_frames = 0"
    by (simp_all add: cow_frames_def big_boot)
  then obtain g fa where "allocate_frame (frames cow_paging) = (Some (frame_addr g), fa)"
    using allocate_succeeds [of 8192 cow_frames] cow_frames_facts(3) [of 8192]
    by (auto simp: cow_paging_def FRAMES_def)
  then show ?thesis
    using try_resolve_found [OF _ cow_paging_inv(2) tab ent] rc
    by (simp add: is_cow_def COW_def pte_addr_def ADDR_MASK_def Let_def)
qed

lemma cow_fault_private_copy_witness:
  "\<exists>e'. leaf_entry (pmem (snd (try_resolve_cow_fault 0 0x400000 cow_paging))) 0 0x400000 = Some e'
    \<and> is_writable (pte_flags e') \<and> \<not> is_cow (pte_flags e')"
proof -
  have "try_resolve_cow_fault 0 0x400000 cow_paging
      = (True, snd (try_resolve_cow_fault 0 0x400000 cow_paging))"
    using cow_resolves by (simp add: prod_eq_iff)
  moreover have addr: "pte_addr 0x2328205 = 0x2328000" by (simp add: pte_addr_def ADDR_MASK_def)
  moreover have "is_cow (pte_flags 0x2328205)" by (simp add: is_cow_def pte_flags_def COW_def)
  moreover have "fa_holders (frames cow_paging) 0x2328000 = 2" "fa_inv (frames cow_paging)"
    using cow_frames_facts(1,2) by (simp_all add: cow_paging_def frame_9000)
  ultimately show ?thesis
    using cow_fault_private_copy [OF cow_paging_inv(1) _ cow_paging_inv(2) _ cow_paging_inv(3)]
      cow_paging_inv(4) by (simp add: addr) blast
qed

text \<open>
  A pool fragmented by ordinary use: after boot every frame has been allocated,
  and the holders of frames 8192 and 8194 have released them.
\<close>

definition frag_frames :: PhysicalFrameAllocator where
  "frag_frames = free_frame (frame_addr 8194) (free_frame (frame_addr 8192) (filled 57344))"

definition frag_held :: "u64 multiset" where
  "frag_held = mset (map frame_addr (8193 # [8195..<FRAMES]))"

definition frag_mm :: mm where
  "frag_mm = \<lparr>pg = \<lparr>frames = frag_frames, pmem = (\<lambda>_ _. 0)\<rparr>, kernel_l4 = Some 0, initialized = True\<rparr>"

lemma frag_frames_facts:
  "is_free f frag_frames \<longleftrightarrow> f = 8192 \<or> f = 8194" "next_frame frag_frames = 0"
  "total_frames frag_frames = 57344" "refcount frag_frames 8193 = 1"
proof -
  have idx: "unat (frame_addr 8192 div 4096) = 8192" "unat (frame_addr 8194 div 4096) = 8194"
    by (simp_all add: frame_addr_def)
  have st: "\<not> is_free g (filled 57344)" "next_frame (filled 57344) = 0" "total_frames (filled 57344) = 57344"
      "refcount (filled 57344) 8192 = 1" "refcount (filled 57344) 8193 = 1" "refcount (filled 57344) 8194 = 1" for g
    using filled_state [of 57344] by (simp_all add: FRAMES_def)
  show "is_free f frag_frames \<longleftrightarrow> f = 8192 \<or> f = 8194" "next_frame frag_frames = 0"
    "total_frames frag_frames = 57344" "refcount frag_frames 8193 = 1"
    using st by (auto simp: frag_frames_def free_frame_def Let_def idx FRAMES_def sat_dec_def)
qed

lemma frag_frames_run: "fp.run big_frames {#} frag_frames frag_held"
proof -
  let ?rest = "[8195..<FRAMES]"
  have all: "8192 + 57344 = FRAMES" "8192 < FRAMES" "8193 < FRAMES" "8194 < FRAMES" by (simp_all add: FRAMES_def)
  have "[8192..<FRAMES] = 8192 # 8193 # 8194 # ?rest"
    using upt_conv_Cons [OF all(2)] upt_conv_Cons [OF all(3)] upt_conv_Cons [OF all(4)] by simp
  then have "fp.run big_frames {#} (filled 57344) (mset (map frame_addr (8192 # 8193 # 8194 # ?rest)))"
    using filled_run [OF order_refl] unfolding all(1) by (simp only:)
  from fp.run_release [OF fp.run_release [OF this, of "frame_addr 8192"], of "frame_addr 8194"]
  show ?thesis by (simp add: frag_frames_def frag_held_def frame_addr_def del: mset_upt)
qed

lemma frag_allocates:
  "\<exists>b c. allocate_frame frag_frames = (Some (frame_addr 8192), b)
    \<and> allocate_frame b = (Some (frame_addr 8194), c) \<and> refcount c 8193 = 1"
proof -
  let ?a = frag_frames
  have "find (\<lambda>off. is_free ((next_frame ?a + off) mod FRAMES) ?a) [0..<total_frames ?a] = Some 8192"
    unfolding find_Some_iff by (rule exI [of _ 8192]) (auto simp: frag_frames_facts FRAMES_def)
  then obtain b where b: "allocate_frame ?a = (Some (frame_addr 8192), b)" "b = (mark_used 8192 ?a)
      \<lparr>refcount := (refcount ?a)(8192 := 1), next_frame := 8193, allocated_frames := allocated_frames ?a + 1\<rparr>"
    by (simp add: allocate_frame_def Let_def frag_frames_facts FRAMES_def frame_addr_def)
  have "find (\<lambda>off. is_free ((next_frame b + off) mod FRAMES) b) [0..<total_frames b] = Some 1"
    unfolding find_Some_iff by (rule exI [of _ 1]) (auto simp: b(2) frag_frames_facts FRAMES_def)
  then have "allocate_frame b = (Some (frame_addr 8194), (mark_used 8194 b)\<lparr>refcount := (refcount b)(8194 := 1),
      next_frame := 8195, allocated_frames := allocated_frames b + 1\<rparr>)"
    by (simp add: allocate_frame_def Let_def b(2) FRAMES_def frame_addr_def)
  then show ?thesis using b by (simp add: frag_frames_facts)
qed

text \<open>
  C39. The frames of a multi-page shared segment need not be contiguous, but
  \<open>alloc_phys_frames\<close> returns only the first and \<open>map_phys_pages_in\<close> maps the
  frames that follow it.  In a pool that allocations and releases after boot
  have fragmented, a two-page request succeeds with frame 8192 although frame
  8193, which becomes the second page of the segment, is held by someone else
  and stays held by them.
\<close>

theorem alloc_phys_frames_not_contiguous:
  "fp.run (boot_frames big_map (\<lambda>_ _. 0) 0) {#} (frames (pg frag_mm)) frag_held
   \<and> fst (alloc_phys_frames 2 frag_mm) = frame_addr 8192
   \<and> fa_inv (frames (pg frag_mm))
   \<and> fa_holders (frames (pg frag_mm)) (frame_addr 8192 + 4096) = 1
   \<and> fa_holders (frames (pg (snd (alloc_phys_frames 2 frag_mm)))) (frame_addr 8192 + 4096) = 1"
proof -
  have second: "frame_addr 8192 + 4096 = frame_addr 8193" by (simp add: frame_addr_def)
  obtain b c where bc: "allocate_frame frag_frames = (Some (frame_addr 8192), b)"
      "allocate_frame b = (Some (frame_addr 8194), c)" "refcount c 8193 = 1"
    using frag_allocates by blast
  then have "fst (alloc_phys_frames 2 frag_mm) = frame_addr 8192" "frames (pg (snd (alloc_phys_frames 2 frag_mm))) = c"
    by (simp_all add: alloc_phys_frames_def frag_mm_def numeral_2_eq_2)
  moreover have "fa_inv frag_frames" using fp.run_accounts [OF frag_frames_run boot_inv] by simp
  ultimately show ?thesis
    using frag_frames_run bc(3) second by (simp add: frag_mm_def frag_frames_facts FRAMES_def)
qed

end
