(* ===== verification/Paths.thy ===== *)
theory Paths
  imports Prelude
begin

text \<open>
  The string operations the file systems use on path names (\<open>str::split\<close>,
  \<open>trim_end_matches\<close>, \<open>rfind\<close>, \<open>starts_with\<close>), and the components of a path: its
  non-empty parts between slashes.  The disk file systems apply the same
  operations to byte slices.  Strings are character sequences; a slash is
  a single byte in UTF-8, so splitting on it never divides a character.
\<close>

abbreviation slash :: char where "slash \<equiv> CHR ''/''"

fun split_on :: "'a \<Rightarrow> 'a list \<Rightarrow> 'a list list" where
  "split_on d [] = [[]]"
| "split_on d (c # cs) =
    (if c = d then [] # split_on d cs
     else case split_on d cs of [] \<Rightarrow> [[c]] | w # ws \<Rightarrow> (c # w) # ws)"

definition trim_end :: "'a \<Rightarrow> 'a list \<Rightarrow> 'a list" where
  "trim_end d s = rev (dropWhile (\<lambda>c. c = d) (rev s))"

definition trim_start :: "'a \<Rightarrow> 'a list \<Rightarrow> 'a list" where
  "trim_start d s = dropWhile (\<lambda>c. c = d) s"

definition rfind :: "'a \<Rightarrow> 'a list \<Rightarrow> nat option" where
  "rfind d s = map_option (\<lambda>k. length s - 1 - k) (first_index (\<lambda>c. c = d) (rev s))"

definition starts_with :: "'a list \<Rightarrow> 'a list \<Rightarrow> bool" where
  "starts_with pre s \<longleftrightarrow> take (length pre) s = pre"

definition comps :: "string \<Rightarrow> string list" where
  "comps p = filter (\<lambda>w. w \<noteq> []) (split_on slash p)"

lemma split_on_nonempty [simp]: "split_on d s \<noteq> []"
  by (induction s) (auto split: list.split)

lemma split_on_append: "split_on d (p @ d # q) = split_on d p @ split_on d q"
proof (induction p)
  case (Cons c p)
  then show ?case by (cases "split_on d p") auto
qed simp

lemma split_on_absent: "d \<notin> set s \<Longrightarrow> split_on d s = [s]"
  by (induction s) auto

lemma split_on_parts: "w \<in> set (split_on d s) \<Longrightarrow> d \<notin> set w"
proof (induction s arbitrary: w)
  case (Cons c s)
  show ?case
  proof (cases "split_on d s")
    case (Cons u us)
    then show ?thesis using Cons.IH Cons.prems \<open>split_on d s = u # us\<close>
      by (auto split: if_splits)
  qed simp
qed simp

lemma comps_parts: "w \<in> set (comps p) \<Longrightarrow> w \<noteq> [] \<and> slash \<notin> set w"
  by (auto simp: comps_def split_on_parts)

lemma comps_append: "comps (p @ slash # q) = comps p @ comps q"
  by (simp add: comps_def split_on_append)

lemma comps_Nil [simp]: "comps [] = []" "comps [slash] = []"
  by (simp_all add: comps_def)

lemma comps_slash [simp]: "comps (slash # q) = comps q"
  using comps_append [of "[]" q] by simp

lemma comps_single: "slash \<notin> set s \<Longrightarrow> s \<noteq> [] \<Longrightarrow> comps s = [s]"
  by (simp add: comps_def split_on_absent)

lemma comps_slashes: "comps (p @ replicate k slash) = comps p"
proof (induction k arbitrary: p)
  case (Suc k)
  have "comps (p @ replicate (Suc k) slash) = comps ((p @ [slash]) @ replicate k slash)" by simp
  also have "\<dots> = comps (p @ [slash])" by (rule Suc)
  also have "\<dots> = comps p" using comps_append [of p "[]"] by simp
  finally show ?case .
qed simp

lemma trim_end_split: "\<exists>k. s = trim_end d s @ replicate k d"
proof -
  have "takeWhile (\<lambda>c. c = d) (rev s) = replicate (length (takeWhile (\<lambda>c. c = d) (rev s))) d"
    by (metis (mono_tags, lifting) replicate_length_same set_takeWhileD)
  then have "rev s = replicate (length (takeWhile (\<lambda>c. c = d) (rev s))) d @ dropWhile (\<lambda>c. c = d) (rev s)"
    by (metis takeWhile_dropWhile_id)
  then have "s = rev (dropWhile (\<lambda>c. c = d) (rev s)) @ replicate (length (takeWhile (\<lambda>c. c = d) (rev s))) d"
    by (metis rev_append rev_replicate rev_rev_ident)
  then show ?thesis unfolding trim_end_def by blast
qed

lemma comps_trim [simp]: "comps (trim_end slash p) = comps p"
  by (metis trim_end_split comps_slashes)

lemma trim_end_last: "trim_end d s \<noteq> [] \<Longrightarrow> last (trim_end d s) \<noteq> d"
proof -
  assume ne: "trim_end d s \<noteq> []"
  then have "last (trim_end d s) = hd (dropWhile (\<lambda>c. c = d) (rev s))"
    by (simp add: trim_end_def last_rev)
  then show ?thesis
    using ne hd_dropWhile [of "\<lambda>c. c = d" "rev s"] by (simp add: trim_end_def)
qed

lemma rfind_None: "rfind d s = None \<longleftrightarrow> d \<notin> set s"
  by (auto simp: rfind_def first_index_None)

lemma rfind_Some:
  assumes "rfind d s = Some pos"
  shows "pos < length s \<and> s = take pos s @ d # drop (pos + 1) s \<and> d \<notin> set (drop (pos + 1) s)"
proof -
  obtain k where k: "first_index (\<lambda>c. c = d) (rev s) = Some k" "pos = length s - 1 - k"
    using assms by (auto simp: rfind_def)
  have b: "k < length s" "rev s ! k = d" "\<forall>j < k. rev s ! j \<noteq> d"
    using first_index_SomeD [OF k(1)] by auto
  have pos: "pos < length s" "s ! pos = d" using b k(2) by (auto simp: rev_nth)
  have "d \<notin> set (drop (pos + 1) s)"
  proof
    assume "d \<in> set (drop (pos + 1) s)"
    then obtain i where i: "i < length s - (pos + 1)" "s ! (pos + 1 + i) = d"
      by (auto simp: in_set_conv_nth)
    let ?j = "length s - 1 - (pos + 1 + i)"
    have "?j < k" using i(1) b(1) k(2) by linarith
    moreover have "rev s ! ?j = d" using i pos by (simp add: rev_nth)
    ultimately show False using b(3) by blast
  qed
  then show ?thesis using pos by (metis Suc_eq_plus1 id_take_nth_drop)
qed

end
