(* ===== verification/Fs_Consts.thy ===== *)
theory Fs_Consts
  imports Prelude
begin

text \<open>
  The open flags and error codes that the file systems share, \<open>fs/mod.rs\<close>.
\<close>

definition O_RDONLY :: u32 where [kdefs]: "O_RDONLY = 0"
definition O_WRONLY :: u32 where [kdefs]: "O_WRONLY = 1"
definition O_RDWR :: u32 where [kdefs]: "O_RDWR = 2"
definition O_CREAT :: u32 where [kdefs]: "O_CREAT = 0x40"
definition O_TRUNC :: u32 where [kdefs]: "O_TRUNC = 0x200"
definition O_APPEND :: u32 where [kdefs]: "O_APPEND = 0x400"

definition ENOENT :: int where [kdefs]: "ENOENT = - 2"
definition EEXIST :: int where [kdefs]: "EEXIST = - 17"
definition EISDIR :: int where [kdefs]: "EISDIR = - 21"
definition ENOTDIR :: int where [kdefs]: "ENOTDIR = - 20"
definition EBADF :: int where [kdefs]: "EBADF = - 9"
definition EINVAL :: int where [kdefs]: "EINVAL = - 22"
definition ENOSPC :: int where [kdefs]: "ENOSPC = - 28"
definition EMFILE :: int where [kdefs]: "EMFILE = - 24"
definition EACCES :: int where [kdefs]: "EACCES = - 13"
definition ENOTEMPTY :: int where [kdefs]: "ENOTEMPTY = - 39"
definition EFBIG :: int where [kdefs]: "EFBIG = - 27"

text \<open>\<open>flags & O_WRONLY != 0 || flags & O_RDWR != 0\<close>, as every backend's \<open>open\<close> computes it.\<close>

definition wants_write :: "u32 \<Rightarrow> bool" where
  "wants_write flags \<longleftrightarrow> flags AND O_WRONLY \<noteq> 0 \<or> flags AND O_RDWR \<noteq> 0"

end
