(* ===== verification/Ramfs.thy ===== *)
theory Ramfs
  imports Paths Fs_Consts
begin

text \<open>
  The in-memory file system, \<open>fs/ramfs.rs\<close>: a vector of inodes that know their
  parent's index.  Operations return a \<open>Result\<close>: an error code (left) or a
  value (right), with the changed vector.  The theory shows that, as long as
  the tree is well formed, the operations implement a map from path components
  to nodes, with the error codes of the source decided by that map.
\<close>

section \<open>Constants and data\<close>

definition ROOT_PARENT :: nat where [kdefs]: "ROOT_PARENT = 2 ^ 64 - 1"

datatype NodeKind = File | Directory

record INode =
  iname :: string
  parent_idx :: nat
  kind :: NodeKind
  data :: bytes
  mode :: u16
  uid :: u32
  gid :: u32

type_synonym RamFs = "INode list"

section \<open>Path resolution\<close>

definition find_child :: "RamFs \<Rightarrow> nat \<Rightarrow> string \<Rightarrow> nat option" where
  "find_child fs parent name = first_index (\<lambda>n. parent_idx n = parent \<and> iname n = name) fs"

fun resolve_parts :: "RamFs \<Rightarrow> nat \<Rightarrow> string list \<Rightarrow> nat option" where
  "resolve_parts fs cur [] = Some cur"
| "resolve_parts fs cur (c # cs) =
    (if c = [] then resolve_parts fs cur cs
     else case find_child fs cur c of None \<Rightarrow> None | Some j \<Rightarrow> resolve_parts fs j cs)"

definition resolve :: "RamFs \<Rightarrow> string \<Rightarrow> nat option" where
  "resolve fs path =
    (if path = [slash] \<or> path = [] then Some 0
     else (let stripped = (if starts_with [slash] path then drop 1 path else path) in
           resolve_parts fs 0 (split_on slash stripped)))"

definition split_path :: "string \<Rightarrow> (string \<times> string) option" where
  "split_path path0 =
    (let path = trim_end slash path0 in
     if path = [] \<or> path = [slash] then None
     else case rfind slash path of
       Some 0 \<Rightarrow> Some ([slash], drop 1 path)
     | Some pos \<Rightarrow> Some (take pos path, drop (pos + 1) path)
     | None \<Rightarrow> Some ([slash], path))"

section \<open>Operations\<close>

definition new_node :: "string \<Rightarrow> nat \<Rightarrow> NodeKind \<Rightarrow> u16 \<Rightarrow> INode" where
  "new_node name parent k m =
    \<lparr>iname = name, parent_idx = parent, kind = k, data = [], mode = m, uid = 0, gid = 0\<rparr>"

definition create_dir :: "string \<Rightarrow> RamFs \<Rightarrow> (int + nat) \<times> RamFs" where
  "create_dir path fs =
    (if resolve fs path \<noteq> None then (Inl EEXIST, fs)
     else case split_path path of
       None \<Rightarrow> (Inl EINVAL, fs)
     | Some (parent_path, name) \<Rightarrow>
        (case resolve fs parent_path of
           None \<Rightarrow> (Inl ENOENT, fs)
         | Some parent \<Rightarrow>
             if kind (fs ! parent) \<noteq> Directory then (Inl ENOTDIR, fs)
             else (Inr (length fs), fs @ [new_node name parent Directory 0x1ED])))"

definition create_file :: "string \<Rightarrow> RamFs \<Rightarrow> (int + nat) \<times> RamFs" where
  "create_file path fs =
    (case resolve fs path of
       Some idx \<Rightarrow>
         if kind (fs ! idx) = Directory then (Inl EISDIR, fs)
         else (Inr idx, fs[idx := (fs ! idx)\<lparr>data := []\<rparr>])
     | None \<Rightarrow>
        (case split_path path of
           None \<Rightarrow> (Inl EINVAL, fs)
         | Some (parent_path, name) \<Rightarrow>
            (case resolve fs parent_path of
               None \<Rightarrow> (Inl ENOENT, fs)
             | Some parent \<Rightarrow>
                 if kind (fs ! parent) \<noteq> Directory then (Inl ENOTDIR, fs)
                 else (Inr (length fs), fs @ [new_node name parent File 0x1A4]))))"

definition extend_data :: "nat \<Rightarrow> bytes \<Rightarrow> RamFs \<Rightarrow> RamFs" where
  "extend_data idx d fs = fs[idx := (fs ! idx)\<lparr>data := data (fs ! idx) @ d\<rparr>]"

definition write_file :: "string \<Rightarrow> bytes \<Rightarrow> RamFs \<Rightarrow> (int + unit) \<times> RamFs" where
  "write_file path d fs =
    (case create_file path fs of
       (Inl e, fs') \<Rightarrow> (Inl e, fs')
     | (Inr idx, fs') \<Rightarrow> (Inr (), extend_data idx d fs'))"

definition append_file :: "string \<Rightarrow> bytes \<Rightarrow> RamFs \<Rightarrow> (int + unit) \<times> RamFs" where
  "append_file path d fs =
    (case resolve fs path of
       Some idx \<Rightarrow>
         if kind (fs ! idx) \<noteq> File then (Inl EISDIR, fs) else (Inr (), extend_data idx d fs)
     | None \<Rightarrow> write_file path d fs)"

definition read_file :: "string \<Rightarrow> RamFs \<Rightarrow> bytes option" where
  "read_file path fs =
    (case resolve fs path of
       None \<Rightarrow> None
     | Some idx \<Rightarrow> if kind (fs ! idx) \<noteq> File then None else Some (data (fs ! idx)))"

definition file_size :: "string \<Rightarrow> RamFs \<Rightarrow> nat option" where
  "file_size path fs =
    (case resolve fs path of
       None \<Rightarrow> None
     | Some idx \<Rightarrow> if kind (fs ! idx) \<noteq> File then None else Some (length (data (fs ! idx))))"

text \<open>The loop over all inodes before the removal, and the removal from the vector.\<close>

definition shift_parent :: "nat \<Rightarrow> INode \<Rightarrow> INode" where
  "shift_parent idx n =
    (if parent_idx n \<noteq> ROOT_PARENT \<and> parent_idx n > idx
     then n\<lparr>parent_idx := parent_idx n - 1\<rparr> else n)"

definition vec_remove :: "nat \<Rightarrow> 'a list \<Rightarrow> 'a list" where
  "vec_remove idx xs = take idx xs @ drop (Suc idx) xs"

definition remove_file :: "string \<Rightarrow> RamFs \<Rightarrow> (int + nat) \<times> RamFs" where
  "remove_file path fs =
    (case resolve fs path of
       None \<Rightarrow> (Inl ENOENT, fs)
     | Some idx \<Rightarrow>
         if kind (fs ! idx) = Directory then (Inl EISDIR, fs)
         else (Inr idx, vec_remove idx (map (shift_parent idx) fs)))"

definition ramfs_rename :: "string \<Rightarrow> string \<Rightarrow> RamFs \<Rightarrow> (int + unit) \<times> RamFs" where
  "ramfs_rename old_path new_path fs =
    (case resolve fs old_path of
       None \<Rightarrow> (Inl ENOENT, fs)
     | Some old_idx \<Rightarrow>
       if kind (fs ! old_idx) = Directory then (Inl EISDIR, fs)
       else
        (case (if resolve fs new_path \<noteq> None then remove_file new_path fs else (Inr 0, fs)) of
           (Inl e, fs1) \<Rightarrow> (Inl e, fs1)
         | (Inr _, fs1) \<Rightarrow>
            (case resolve fs1 old_path of
               None \<Rightarrow> (Inl ENOENT, fs1)
             | Some idx \<Rightarrow>
                (case split_path new_path of
                   None \<Rightarrow> (Inl EINVAL, fs1)
                 | Some (new_dir, new_name) \<Rightarrow>
                    (case (if new_dir = [slash] \<or> new_dir = [] then Some 0 else resolve fs1 new_dir) of
                       None \<Rightarrow> (Inl ENOENT, fs1)
                     | Some new_parent \<Rightarrow>
                         (Inr (), fs1[idx := (fs1 ! idx)\<lparr>iname := new_name,
                                                          parent_idx := new_parent\<rparr>]))))))"

text \<open>\<open>Vec::truncate\<close> followed by \<open>Vec::resize\<close> with zeros.\<close>

definition set_len :: "nat \<Rightarrow> bytes \<Rightarrow> bytes" where
  "set_len n d = (let t = take n d in if n > length t then t @ replicate (n - length t) 0 else t)"

definition ramfs_truncate :: "string \<Rightarrow> nat \<Rightarrow> RamFs \<Rightarrow> (int + unit) \<times> RamFs" where
  "ramfs_truncate path n fs =
    (case resolve fs path of
       None \<Rightarrow> (Inl ENOENT, fs)
     | Some idx \<Rightarrow>
         if kind (fs ! idx) = Directory then (Inl EISDIR, fs)
         else (Inr (), fs[idx := (fs ! idx)\<lparr>data := set_len n (data (fs ! idx))\<rparr>]))"

definition truncate_by_idx :: "nat \<Rightarrow> nat \<Rightarrow> RamFs \<Rightarrow> RamFs" where
  "truncate_by_idx idx n fs =
    (if idx < length fs then fs[idx := (fs ! idx)\<lparr>data := set_len n (data (fs ! idx))\<rparr>] else fs)"

definition fs_exists :: "string \<Rightarrow> RamFs \<Rightarrow> bool" where
  "fs_exists path fs \<longleftrightarrow> resolve fs path \<noteq> None"

definition is_dir :: "string \<Rightarrow> RamFs \<Rightarrow> bool" where
  "is_dir path fs = (case resolve fs path of None \<Rightarrow> False | Some i \<Rightarrow> kind (fs ! i) = Directory)"

definition list_dir :: "string \<Rightarrow> RamFs \<Rightarrow> (string \<times> NodeKind) list option" where
  "list_dir path fs =
    (case resolve fs path of
       None \<Rightarrow> None
     | Some d \<Rightarrow>
         if kind (fs ! d) \<noteq> Directory then None
         else Some (map (\<lambda>n. (iname n, kind n)) (filter (\<lambda>n. parent_idx n = d) fs)))"

text \<open>The listing loop: it stops at the first entry that does not fit.\<close>

fun read_dir_loop :: "INode list \<Rightarrow> nat \<Rightarrow> bytes \<Rightarrow> nat \<times> bytes" where
  "read_dir_loop [] pos buf = (pos, buf)"
| "read_dir_loop (n # ns) pos buf =
    (let name = bstr (iname n); trail = (if kind n = Directory then [47] else []);
         need = length name + length trail + 1 in
     if pos + need > length buf then (pos, buf)
     else read_dir_loop ns (pos + need) (blit pos (name @ trail @ [10]) buf))"

definition read_dir_raw :: "string \<Rightarrow> bytes \<Rightarrow> RamFs \<Rightarrow> int \<times> bytes" where
  "read_dir_raw path buf fs =
    (case resolve fs path of
       None \<Rightarrow> (- 7, buf)
     | Some d \<Rightarrow>
         if kind (fs ! d) \<noteq> Directory then (- 1, buf)
         else (let (pos, buf') = read_dir_loop (filter (\<lambda>n. parent_idx n = d) fs) 0 buf
               in (int pos, buf')))"

definition root_node :: INode where
  "root_node = \<lparr>iname = [slash], parent_idx = ROOT_PARENT, kind = Directory, data = [],
    mode = 0x1ED, uid = 0, gid = 0\<rparr>"

definition ramfs_new :: "bytes \<Rightarrow> RamFs" where
  "ramfs_new etc_version =
    (let fs = [root_node];
         fs = snd (create_dir ''/etc'' fs);
         fs = snd (create_dir ''/tmp'' fs);
         fs = snd (create_dir ''/home'' fs);
         fs = snd (create_dir ''/bin'' fs);
         fs = snd (write_file ''/etc/hostname'' (bstr (''oxideos'' @ [CHR 0x0A])) fs);
         fs = snd (write_file ''/etc/version'' etc_version fs)
     in snd (write_file ''/etc/motd''
           (bstr (''Welcome to OxideOS!'' @ [CHR 0x0A] @ ''Type '' @ [CHR 0x27] @ ''help'' @ [CHR 0x27]
                  @ '' in the terminal for commands.'' @ [CHR 0x0A])) fs))"

section \<open>Resolution in terms of path components\<close>

fun walk :: "RamFs \<Rightarrow> nat \<Rightarrow> string list \<Rightarrow> nat option" where
  "walk fs i [] = Some i"
| "walk fs i (c # cs) = (case find_child fs i c of None \<Rightarrow> None | Some j \<Rightarrow> walk fs j cs)"

lemma resolve_parts_walk: "resolve_parts fs i cs = walk fs i (filter (\<lambda>w. w \<noteq> []) cs)"
  by (induction cs arbitrary: i) (auto split: option.split)

lemma resolve_walk: "resolve fs path = walk fs 0 (comps path)"
proof (cases "path = [slash] \<or> path = []")
  case True
  then show ?thesis by (auto simp: resolve_def)
next
  case False
  show ?thesis
  proof (cases path)
    case (Cons c cs)
    then show ?thesis
      using False comps_slash [of cs]
      by (auto simp: resolve_def Let_def resolve_parts_walk starts_with_def comps_def [symmetric])
  qed (use False in simp)
qed

lemma walk_snoc:
  "walk fs i (p @ [c]) = (case walk fs i p of None \<Rightarrow> None | Some j \<Rightarrow> find_child fs j c)"
  by (induction p arbitrary: i) (auto split: option.split)

lemma split_path_None: "split_path path = None \<longleftrightarrow> comps path = []"
proof -
  let ?t = "trim_end slash path"
  have "?t \<noteq> [slash]" using trim_end_last [of slash path] by auto
  moreover have "comps path \<noteq> []" if ne: "?t \<noteq> []"
  proof (cases "rfind slash ?t")
    case None
    then have "comps ?t = [?t]" using ne by (intro comps_single) (simp_all add: rfind_None)
    then show ?thesis unfolding comps_trim by simp
  next
    case (Some pos)
    have sp: "pos < length ?t" "?t = take pos ?t @ slash # drop (pos + 1) ?t" "slash \<notin> set (drop (pos + 1) ?t)"
      using rfind_Some [OF Some] by auto
    have "drop (pos + 1) ?t \<noteq> []" using trim_end_last [OF ne] sp(2) by (metis last_snoc)
    then have "comps (drop (pos + 1) ?t) \<noteq> []" using sp(3) by (simp add: comps_single)
    moreover have "comps ?t = comps (take pos ?t) @ comps (drop (pos + 1) ?t)"
      by (subst sp(2)) (rule comps_append)
    ultimately show ?thesis unfolding comps_trim by simp
  qed
  moreover have "comps path = []" if "?t = []" using that comps_trim [of path] by simp
  ultimately show ?thesis by (auto simp: split_path_def Let_def split: option.split nat.split)
qed

lemma split_path_Some:
  assumes "split_path path = Some (dir, name)"
  shows "comps path = comps dir @ [name]" "name \<noteq> []" "slash \<notin> set name"
proof -
  let ?t = "trim_end slash path"
  have ne: "?t \<noteq> []" using assms by (auto simp: split_path_def Let_def split: if_splits)
  have "comps path = comps dir @ [name] \<and> name \<noteq> [] \<and> slash \<notin> set name"
  proof (cases "rfind slash ?t")
    case None
    then have "dir = [slash]" "name = ?t"
      using assms by (auto simp: split_path_def Let_def split: if_splits)
    moreover have "comps ?t = [?t]" using ne None by (intro comps_single) (simp_all add: rfind_None)
    ultimately show ?thesis using ne None unfolding comps_trim by (simp add: rfind_None)
  next
    case (Some pos)
    have sp: "pos < length ?t" "?t = take pos ?t @ slash # drop (pos + 1) ?t" "slash \<notin> set (drop (pos + 1) ?t)"
      using rfind_Some [OF Some] by auto
    have d: "drop (pos + 1) ?t \<noteq> []" using trim_end_last [OF ne] sp(2) by (metis last_snoc)
    have nm: "name = drop (pos + 1) ?t" and dr: "comps dir = comps (take pos ?t)"
      using assms Some by (auto simp: split_path_def Let_def split: if_splits nat.splits)
    have "comps ?t = comps (take pos ?t) @ comps (drop (pos + 1) ?t)"
      by (subst sp(2)) (rule comps_append)
    then show ?thesis using sp(3) d nm dr by (simp add: comps_single)
  qed
  then show "comps path = comps dir @ [name]" "name \<noteq> []" "slash \<notin> set name" by auto
qed

section \<open>Well-formed trees\<close>

text \<open>
  Inode 0 is the root; every other inode has a directory as its parent and a
  name that can be a path component; no two siblings share a name.
\<close>

definition node_ok :: "RamFs \<Rightarrow> nat \<Rightarrow> bool" where
  "node_ok fs i \<longleftrightarrow> parent_idx (fs ! i) < length fs \<and> kind (fs ! parent_idx (fs ! i)) = Directory
    \<and> iname (fs ! i) \<noteq> [] \<and> slash \<notin> set (iname (fs ! i))"

definition ramfs_inv :: "RamFs \<Rightarrow> bool" where
  "ramfs_inv fs \<longleftrightarrow> 0 < length fs \<and> length fs \<le> ROOT_PARENT
    \<and> parent_idx (fs ! 0) = ROOT_PARENT \<and> kind (fs ! 0) = Directory
    \<and> (\<forall>i < length fs. 0 < i \<longrightarrow> node_ok fs i)
    \<and> (\<forall>i < length fs. \<forall>j < length fs. parent_idx (fs ! i) = parent_idx (fs ! j)
         \<longrightarrow> iname (fs ! i) = iname (fs ! j) \<longrightarrow> i = j)"

lemma ramfs_inv_root:
  assumes "ramfs_inv fs"
  shows "0 < length fs" "length fs \<le> ROOT_PARENT" "parent_idx (fs ! 0) = ROOT_PARENT"
    "kind (fs ! 0) = Directory" "i < length fs \<Longrightarrow> parent_idx (fs ! 0) \<noteq> i"
  using assms by (simp_all add: ramfs_inv_def)

lemma ramfs_inv_node: "ramfs_inv fs \<Longrightarrow> i < length fs \<Longrightarrow> 0 < i \<Longrightarrow> node_ok fs i"
  by (simp add: ramfs_inv_def)

lemma ramfs_inv_unique:
  "\<lbrakk>ramfs_inv fs; i < length fs; j < length fs; parent_idx (fs ! i) = parent_idx (fs ! j);
    iname (fs ! i) = iname (fs ! j)\<rbrakk> \<Longrightarrow> i = j"
  unfolding ramfs_inv_def by blast

lemma find_child_Some:
  "find_child fs i c = Some j \<Longrightarrow> j < length fs \<and> parent_idx (fs ! j) = i \<and> iname (fs ! j) = c"
  unfolding find_child_def by (drule first_index_SomeD) auto

lemma find_child_at:
  "\<lbrakk>ramfs_inv fs; j < length fs; parent_idx (fs ! j) = i; iname (fs ! j) = c\<rbrakk> \<Longrightarrow> find_child fs i c = Some j"
  unfolding find_child_def by (rule first_index_unique) (auto intro: ramfs_inv_unique)

lemma find_child_None:
  "find_child fs i c = None \<longleftrightarrow> (\<forall>j < length fs. \<not> (parent_idx (fs ! j) = i \<and> iname (fs ! j) = c))"
  by (auto simp: find_child_def first_index_None all_set_conv_all_nth)

lemma walk_bound: "i < length fs \<Longrightarrow> walk fs i p = Some j \<Longrightarrow> j < length fs"
proof (induction p arbitrary: i)
  case (Cons c p)
  then show ?case by (auto dest: find_child_Some split: option.splits)
qed simp

text \<open>A node is reached by one path only.\<close>

lemma walk_inj:
  assumes inv: "ramfs_inv fs"
  shows "walk fs 0 p = Some i \<Longrightarrow> walk fs 0 q = Some i \<Longrightarrow> p = q"
proof (induction p arbitrary: q i rule: rev_induct)
  case Nil
  then have i: "i = 0" by simp
  show ?case
  proof (cases q rule: rev_cases)
    case (snoc q' c)
    then obtain j where "walk fs 0 q' = Some j" "find_child fs j c = Some 0"
      using Nil.prems i by (auto simp: walk_snoc split: option.splits)
    then have "j < length fs" "parent_idx (fs ! 0) = j"
      using walk_bound [of 0 fs q' j] find_child_Some [of fs j c 0] ramfs_inv_root(1) [OF inv] by auto
    then show ?thesis using ramfs_inv_root(5) [OF inv] by blast
  qed simp
next
  case (snoc c p)
  then obtain j where j: "walk fs 0 p = Some j" "find_child fs j c = Some i"
    by (auto simp: walk_snoc split: option.splits)
  have ij: "parent_idx (fs ! i) = j" "iname (fs ! i) = c" using find_child_Some [OF j(2)] by auto
  have jb: "j < length fs" using walk_bound [OF _ j(1)] ramfs_inv_root(1) [OF inv] by simp
  show ?case
  proof (cases q rule: rev_cases)
    case Nil
    then have "i = 0" using snoc.prems by simp
    then show ?thesis using ij jb ramfs_inv_root(5) [OF inv] by blast
  next
    case (snoc q' c')
    have "walk fs 0 (q' @ [c']) = Some i" using \<open>walk fs 0 q = Some i\<close> unfolding snoc .
    then obtain j' where j': "walk fs 0 q' = Some j'" "find_child fs j' c' = Some i"
      by (auto simp: walk_snoc split: option.splits)
    then have "j' = j" "c' = c" using find_child_Some [OF j'(2)] ij by auto
    then have "p = q'" using snoc.IH [OF j(1)] j' by blast
    then show ?thesis using \<open>q = q' @ [c']\<close> \<open>c' = c\<close> by simp
  qed
qed

section \<open>How the vector operations move nodes\<close>

lemma ramfs_inv_parent:
  "ramfs_inv fs \<Longrightarrow> i < length fs \<Longrightarrow> parent_idx (fs ! i) = k \<Longrightarrow> k < length fs \<Longrightarrow> kind (fs ! k) = Directory"
  using ramfs_inv_root(5) [of fs k] ramfs_inv_node [of fs i] by (cases "i = 0") (auto simp: node_ok_def)

lemma file_no_child:
  assumes "ramfs_inv fs" "i < length fs" "kind (fs ! i) = File"
  shows "find_child fs i c = None"
proof (rule ccontr)
  assume "find_child fs i c \<noteq> None"
  then obtain j where "find_child fs i c = Some j" by auto
  then have "j < length fs" "parent_idx (fs ! j) = i" using find_child_Some [of fs i c j] by auto
  then show False using ramfs_inv_parent [OF assms(1) _ _ assms(2)] assms(3) by fastforce
qed

paragraph \<open>A new node at the end.\<close>

lemma find_child_append:
  "find_child (fs @ [n]) i c =
    (case find_child fs i c of Some j \<Rightarrow> Some j
     | None \<Rightarrow> if parent_idx n = i \<and> iname n = c then Some (length fs) else None)"
  by (auto simp: find_child_def first_index_append split: option.split)

definition can_add :: "RamFs \<Rightarrow> string list \<Rightarrow> nat \<Rightarrow> INode \<Rightarrow> bool" where
  "can_add fs d k n \<longleftrightarrow> ramfs_inv fs \<and> length fs < ROOT_PARENT \<and> walk fs 0 d = Some k
    \<and> kind (fs ! k) = Directory \<and> find_child fs k (iname n) = None \<and> parent_idx n = k
    \<and> iname n \<noteq> [] \<and> slash \<notin> set (iname n)"

lemma can_add_bound: "can_add fs d k n \<Longrightarrow> k < length fs"
  using walk_bound [of 0 fs d k] ramfs_inv_root(1) [of fs] by (simp add: can_add_def)

lemma add_inv:
  assumes ok: "can_add fs d k n"
  shows "ramfs_inv (fs @ [n])"
proof -
  have inv: "ramfs_inv fs" and len: "length fs < ROOT_PARENT" and none: "find_child fs k (iname n) = None"
    and k: "k < length fs" and pk: "parent_idx n = k"
    using ok can_add_bound [OF ok] by (auto simp: can_add_def)
  note r = ramfs_inv_root [OF inv]
  have "node_ok (fs @ [n]) i" if i: "i < length (fs @ [n])" "0 < i" for i
  proof (cases "i = length fs")
    case True
    then show ?thesis using ok k by (simp add: node_ok_def can_add_def nth_append)
  next
    case False
    then have il: "i < length fs" using i by simp
    show ?thesis using il ramfs_inv_node [OF inv il i(2)] by (simp add: node_ok_def nth_append)
  qed
  moreover have "i = j" if ij: "i < length (fs @ [n])" "j < length (fs @ [n])"
    "parent_idx ((fs @ [n]) ! i) = parent_idx ((fs @ [n]) ! j)" "iname ((fs @ [n]) ! i) = iname ((fs @ [n]) ! j)"
    for i j
  proof -
    have fresh: "\<not> (parent_idx (fs ! l) = parent_idx n \<and> iname (fs ! l) = iname n)" if "l < length fs" for l
      using none that unfolding find_child_None pk by blast
    show ?thesis
    proof (cases "i < length fs"; cases "j < length fs")
      assume "i < length fs" "j < length fs"
      then show ?thesis using ij ramfs_inv_unique [OF inv, of i j] by (simp add: nth_append)
    next
      assume "i < length fs" "\<not> j < length fs"
      then show ?thesis using ij fresh [of i] by (simp add: nth_append)
    next
      assume "\<not> i < length fs" "j < length fs"
      then show ?thesis using ij fresh [of j] by (simp add: nth_append)
    qed (use ij in simp)
  qed
  ultimately show ?thesis
    unfolding ramfs_inv_def [of "fs @ [n]"] using r len by (simp add: nth_append)
qed

lemma walk_add:
  assumes ok: "can_add fs d k n"
  shows "walk (fs @ [n]) 0 p = (if p = d @ [iname n] then Some (length fs) else walk fs 0 p)"
proof (induction p rule: rev_induct)
  case (snoc c q)
  have inv: "ramfs_inv fs" and len: "length fs < ROOT_PARENT" and dk: "walk fs 0 d = Some k"
    and none: "find_child fs k (iname n) = None" and pk: "parent_idx n = k"
    and k: "k < length fs" using ok can_add_bound [OF ok] by (auto simp: can_add_def)
  show ?case
  proof (cases "q = d @ [iname n]")
    case True
    have "find_child fs (length fs) c = None"
      using ramfs_inv_root(3) [OF inv] ramfs_inv_node [OF inv] len
      by (fastforce simp: find_child_None node_ok_def)
    then have "find_child (fs @ [n]) (length fs) c = None" using k pk by (simp add: find_child_append)
    moreover have "walk fs 0 q = None" using True dk none by (simp add: walk_snoc)
    moreover have "walk (fs @ [n]) 0 q = Some (length fs)" using True snoc by simp
    moreover have "q @ [c] \<noteq> d @ [iname n]" using True by simp
    ultimately show ?thesis unfolding walk_snoc by simp
  next
    case False
    then have w: "walk (fs @ [n]) 0 q = walk fs 0 q" using snoc by simp
    show ?thesis
    proof (cases "walk fs 0 q")
      case None
      then have "q \<noteq> d" using dk by auto
      then show ?thesis using None w by (simp add: walk_snoc)
    next
      case (Some j)
      have "q = d \<longleftrightarrow> j = k" using Some dk walk_inj [OF inv] by auto
      then show ?thesis using Some w none pk by (auto simp: walk_snoc find_child_append split: option.split)
    qed
  qed
qed simp

paragraph \<open>A node changed in place.\<close>

definition same_place :: "INode \<Rightarrow> INode \<Rightarrow> bool" where
  "same_place n m \<longleftrightarrow> parent_idx n = parent_idx m \<and> iname n = iname m \<and> kind n = kind m"

lemma find_child_update:
  "same_place n (fs ! i) \<Longrightarrow> find_child (fs[i := n]) k c = find_child fs k c"
proof (cases "i < length fs")
  case True
  let ?P = "\<lambda>m. parent_idx m = k \<and> iname m = c"
  assume "same_place n (fs ! i)"
  then have "?P n \<longleftrightarrow> ?P (fs ! i)" by (simp add: same_place_def)
  then show ?thesis unfolding find_child_def
    using True first_index_update_same [of i fs ?P n] first_index_update_other [of i fs ?P n] by blast
qed (simp add: list_update_beyond)

lemma walk_update: "same_place n (fs ! i) \<Longrightarrow> walk (fs[i := n]) k p = walk fs k p"
  by (induction p arbitrary: k) (simp_all add: find_child_update split: option.split)

lemma update_inv:
  assumes inv: "ramfs_inv fs" and same: "same_place n (fs ! i)"
  shows "ramfs_inv (fs[i := n])"
proof -
  have eq: "parent_idx (fs[i := n] ! j) = parent_idx (fs ! j)" "iname (fs[i := n] ! j) = iname (fs ! j)"
    "kind (fs[i := n] ! j) = kind (fs ! j)" for j
    using same unfolding same_place_def
    by (cases "i < length fs \<and> j = i"; force simp: nth_list_update list_update_beyond)+
  show ?thesis using inv unfolding ramfs_inv_def node_ok_def eq length_list_update .
qed

paragraph \<open>A file taken out of the vector: the indices above it close up.\<close>

definition close_gap :: "nat \<Rightarrow> nat \<Rightarrow> nat" where
  "close_gap idx j = (if j > idx then j - 1 else j)"

definition without :: "nat \<Rightarrow> RamFs \<Rightarrow> RamFs" where
  "without idx fs = vec_remove idx (map (shift_parent idx) fs)"

definition file_at :: "RamFs \<Rightarrow> nat \<Rightarrow> bool" where
  "file_at fs idx \<longleftrightarrow> ramfs_inv fs \<and> idx < length fs \<and> kind (fs ! idx) = File"

lemma close_gap_inj: "close_gap idx i = close_gap idx j \<Longrightarrow> i \<noteq> idx \<Longrightarrow> j \<noteq> idx \<Longrightarrow> i = j"
  by (auto simp: close_gap_def split: if_splits)

lemma close_gap_onto: "\<exists>j. j \<noteq> idx \<and> close_gap idx j = k"
  by (rule exI [of _ "if k < idx then k else Suc k"]) (simp add: close_gap_def)

lemma file_at_pos: "file_at fs idx \<Longrightarrow> 0 < idx"
  using ramfs_inv_root(4) [of fs] by (cases idx) (auto simp: file_at_def)

lemma without_length [simp]: "idx < length fs \<Longrightarrow> length (without idx fs) = length fs - 1"
  by (simp add: without_def vec_remove_def)

lemma without_nth:
  assumes "j < length fs" "j \<noteq> idx" "idx < length fs"
  shows "close_gap idx j < length fs - 1" "without idx fs ! close_gap idx j = shift_parent idx (fs ! j)"
proof -
  show "close_gap idx j < length fs - 1" using assms by (auto simp: close_gap_def)
  show "without idx fs ! close_gap idx j = shift_parent idx (fs ! j)"
  proof (cases "j < idx")
    case True
    then show ?thesis using assms by (simp add: close_gap_def without_def vec_remove_def nth_append)
  next
    case False
    then have "idx < j" using assms by simp
    then show ?thesis using assms by (simp add: close_gap_def without_def vec_remove_def nth_append)
  qed
qed

lemma shift_parent_simps [simp]:
  "iname (shift_parent idx n) = iname n" "kind (shift_parent idx n) = kind n"
  "data (shift_parent idx n) = data n" "mode (shift_parent idx n) = mode n"
  "uid (shift_parent idx n) = uid n" "gid (shift_parent idx n) = gid n"
  by (simp_all add: shift_parent_def)

lemma shift_parent_idx:
  "parent_idx (shift_parent idx n) =
    (if parent_idx n = ROOT_PARENT then ROOT_PARENT else close_gap idx (parent_idx n))"
  by (simp add: shift_parent_def close_gap_def)

lemma without_parent:
  assumes f: "file_at fs idx" and j: "j < length fs" "j \<noteq> idx" "0 < j"
  shows "parent_idx (without idx fs ! close_gap idx j) = close_gap idx (parent_idx (fs ! j))"
    "parent_idx (fs ! j) \<noteq> idx" "parent_idx (fs ! j) < length fs"
proof -
  have inv: "ramfs_inv fs" and b: "idx < length fs" and k: "kind (fs ! idx) = File"
    using f by (auto simp: file_at_def)
  show pl: "parent_idx (fs ! j) < length fs" using ramfs_inv_node [OF inv j(1,3)] by (simp add: node_ok_def)
  then have "parent_idx (fs ! j) \<noteq> ROOT_PARENT" using ramfs_inv_root(2) [OF inv] by simp
  then show "parent_idx (without idx fs ! close_gap idx j) = close_gap idx (parent_idx (fs ! j))"
    using without_nth(2) [OF j(1,2) b] by (simp add: shift_parent_idx)
  show "parent_idx (fs ! j) \<noteq> idx" using ramfs_inv_parent [OF inv j(1) refl pl] k by auto
qed

lemma without_inv:
  assumes f: "file_at fs idx"
  shows "ramfs_inv (without idx fs)"
proof -
  have inv: "ramfs_inv fs" and b: "idx < length fs" using f by (auto simp: file_at_def)
  note r = ramfs_inv_root [OF inv] and pos = file_at_pos [OF f]
  let ?g = "without idx fs"
  have root: "?g ! 0 = shift_parent idx (fs ! 0)"
    using without_nth(2) [of 0 fs idx] b pos r(1) by (simp add: close_gap_def)
  have each: "\<exists>j. k = close_gap idx j \<and> j < length fs \<and> j \<noteq> idx" if "k < length ?g" for k
  proof -
    obtain j where j: "j \<noteq> idx" "close_gap idx j = k" using close_gap_onto by blast
    then have "j < length fs" using that b by (auto simp: close_gap_def split: if_splits)
    then show ?thesis using j by blast
  qed
  have "node_ok ?g k" if k: "k < length ?g" "0 < k" for k
  proof -
    obtain j where j: "k = close_gap idx j" "j < length fs" "j \<noteq> idx" using each [OF k(1)] by blast
    have j0: "0 < j" using k(2) j(1) by (cases j) (auto simp: close_gap_def)
    note p = without_parent [OF f j(2,3) j0] and ok = ramfs_inv_node [OF inv j(2) j0]
    note pn = without_nth [OF p(3,2) b]
    show ?thesis using ok p pn without_nth(2) [OF j(2,3) b] b unfolding node_ok_def j(1) by simp
  qed
  moreover have "k = l" if kl: "k < length ?g" "l < length ?g" "parent_idx (?g ! k) = parent_idx (?g ! l)"
    "iname (?g ! k) = iname (?g ! l)" for k l
  proof -
    obtain i where i: "k = close_gap idx i" "i < length fs" "i \<noteq> idx" using each [OF kl(1)] by blast
    obtain j where j: "l = close_gap idx j" "j < length fs" "j \<noteq> idx" using each [OF kl(2)] by blast
    have n: "iname (fs ! i) = iname (fs ! j)"
      using kl(4) without_nth(2) [OF i(2,3) b] without_nth(2) [OF j(2,3) b] i(1) j(1) by simp
    have cg: "close_gap idx (parent_idx (fs ! x)) < length fs" if "0 < x" "x < length fs" "x \<noteq> idx" for x
      using without_parent [OF f that(2,3,1)] without_nth(1) [OF _ _ b] by fastforce
    have rp: "parent_idx (?g ! close_gap idx 0) = ROOT_PARENT" using root r(3) by (simp add: close_gap_def shift_parent_idx)
    consider "i = 0" "j = 0" | "i = 0" "0 < j" | "0 < i" "j = 0" | "0 < i" "0 < j" by auto
    then have "i = j"
    proof cases
      case 2
      then show ?thesis using kl(3) i(1) j rp without_parent(1) [OF f j(2,3)] cg [of j] r(2) by simp
    next
      case 3
      then show ?thesis using kl(3) i j(1) rp without_parent(1) [OF f i(2,3)] cg [of i] r(2) by simp
    next
      case 4
      then have "close_gap idx (parent_idx (fs ! i)) = close_gap idx (parent_idx (fs ! j))"
        using kl(3) i(1) j(1) without_parent(1) [OF f i(2,3)] without_parent(1) [OF f j(2,3)] by simp
      then have "parent_idx (fs ! i) = parent_idx (fs ! j)"
        using close_gap_inj without_parent(2) [OF f i(2,3) 4(1)] without_parent(2) [OF f j(2,3) 4(2)] by blast
      then show ?thesis using ramfs_inv_unique [OF inv i(2) j(2) _ n] by blast
    qed simp
    then show ?thesis using i(1) j(1) by simp
  qed
  moreover have "length ?g = length fs - 1" "0 < length fs - 1" using b pos by auto
  moreover have "parent_idx (?g ! 0) = ROOT_PARENT" "kind (?g ! 0) = Directory"
    using root r by (simp_all add: shift_parent_idx)
  ultimately show ?thesis unfolding ramfs_inv_def [of ?g] using r(2) by auto
qed

lemma find_child_without:
  assumes f: "file_at fs idx" and i: "i < length fs" "i \<noteq> idx"
  shows "find_child (without idx fs) (close_gap idx i) c =
    (if find_child fs i c = Some idx then None else map_option (close_gap idx) (find_child fs i c))"
proof (cases "\<exists>j. find_child fs i c = Some j \<and> j \<noteq> idx")
  case True
  then obtain j where j: "find_child fs i c = Some j" "j \<noteq> idx" by blast
  have inv: "ramfs_inv fs" and b: "idx < length fs" using f by (auto simp: file_at_def)
  have jf: "j < length fs" "parent_idx (fs ! j) = i" "iname (fs ! j) = c" using find_child_Some [OF j(1)] by auto
  have j0: "0 < j" using jf i ramfs_inv_root(5) [OF inv, of i] by (cases j) auto
  have "find_child (without idx fs) (close_gap idx i) c = Some (close_gap idx j)"
    using jf without_nth [OF jf(1) j(2) b] without_parent(1) [OF f jf(1) j(2) j0] b
    by (intro find_child_at [OF without_inv [OF f]]) simp_all
  then show ?thesis using j by simp
next
  case False
  have inv: "ramfs_inv fs" and b: "idx < length fs" using f by (auto simp: file_at_def)
  have "find_child (without idx fs) (close_gap idx i) c = None"
  proof (rule ccontr)
    assume "find_child (without idx fs) (close_gap idx i) c \<noteq> None"
    then obtain k where "find_child (without idx fs) (close_gap idx i) c = Some k" by auto
    then have k: "k < length (without idx fs)" "parent_idx (without idx fs ! k) = close_gap idx i"
      "iname (without idx fs ! k) = c" using find_child_Some by blast+
    obtain j where j: "j \<noteq> idx" "k = close_gap idx j" using close_gap_onto by metis
    have jl: "j < length fs" using k(1) b j by (auto simp: close_gap_def split: if_splits)
    have "close_gap idx i < length (without idx fs)" using without_nth(1) [OF i b] b by simp
    then have "parent_idx (without idx fs ! 0) \<noteq> close_gap idx i"
      by (rule ramfs_inv_root(5) [OF without_inv [OF f]])
    then have "0 < j" using k(2) j(2) by (cases j) (auto simp: close_gap_def)
    then have "close_gap idx (parent_idx (fs ! j)) = close_gap idx i" "parent_idx (fs ! j) \<noteq> idx"
      using without_parent(1,2) [OF f jl j(1)] k(2) j(2) by auto
    then have "parent_idx (fs ! j) = i" using close_gap_inj i(2) by blast
    moreover have "iname (fs ! j) = c" using k(3) without_nth(2) [OF jl j(1) b] j(2) by simp
    ultimately show False using False find_child_at [OF inv jl] j(1) by blast
  qed
  then show ?thesis using False by (cases "find_child fs i c") auto
qed

lemma walk_without:
  assumes f: "file_at fs idx"
  shows "walk (without idx fs) 0 p =
    (if walk fs 0 p = Some idx then None else map_option (close_gap idx) (walk fs 0 p))"
proof (induction p rule: rev_induct)
  case Nil
  then show ?case using file_at_pos [OF f] by (auto simp: close_gap_def)
next
  case (snoc c p)
  have inv: "ramfs_inv fs" and b: "idx < length fs" and k: "kind (fs ! idx) = File"
    using f by (auto simp: file_at_def)
  show ?case
  proof (cases "walk fs 0 p")
    case None
    then show ?thesis using snoc by (simp add: walk_snoc)
  next
    case (Some j)
    show ?thesis
    proof (cases "j = idx")
      case True
      then show ?thesis using snoc Some file_no_child [OF inv b k] by (simp add: walk_snoc)
    next
      case False
      have "j < length fs" using walk_bound [OF _ Some] ramfs_inv_root(1) [OF inv] by simp
      then show ?thesis using snoc Some False find_child_without [OF f _ False] by (simp add: walk_snoc)
    qed
  qed
qed

paragraph \<open>A file given a new name and parent in place.\<close>

lemma move_inv:
  assumes f: "file_at fs idx" and k: "k < length fs" "kind (fs ! k) = Directory"
    and fresh: "find_child fs k (iname n) = None" and n: "parent_idx n = k" "kind n = File"
    "iname n \<noteq> []" "slash \<notin> set (iname n)"
  shows "ramfs_inv (fs[idx := n])"
proof -
  have inv: "ramfs_inv fs" and b: "idx < length fs" and kf: "kind (fs ! idx) = File"
    using f by (auto simp: file_at_def)
  let ?g = "fs[idx := n]"
  have kinds: "kind (?g ! j) = kind (fs ! j)" for j using b kf n(2) by (cases "j = idx") auto
  have "node_ok ?g i" if i: "i < length ?g" "0 < i" for i
  proof (cases "i = idx")
    case True
    then show ?thesis using n k kinds [of k] b unfolding node_ok_def by simp
  next
    case False
    then show ?thesis using ramfs_inv_node [OF inv _ i(2)] i(1) kinds unfolding node_ok_def by simp
  qed
  moreover have "i = j" if ij: "i < length ?g" "j < length ?g" "parent_idx (?g ! i) = parent_idx (?g ! j)"
    "iname (?g ! i) = iname (?g ! j)" for i j
  proof -
    have new: "\<not> (parent_idx (fs ! l) = k \<and> iname (fs ! l) = iname n)" if "l < length fs" for l
      using fresh that unfolding find_child_None by blast
    show ?thesis
    proof (cases "i = idx"; cases "j = idx")
      assume "i = idx" "j \<noteq> idx"
      then show ?thesis using ij new [of j] n(1) b by simp
    next
      assume "i \<noteq> idx" "j = idx"
      then show ?thesis using ij new [of i] n(1) b by simp
    next
      assume "i \<noteq> idx" "j \<noteq> idx"
      then show ?thesis using ij ramfs_inv_unique [OF inv, of i j] by simp
    qed simp
  qed
  moreover have "parent_idx (?g ! 0) = ROOT_PARENT" "kind (?g ! 0) = Directory"
    using ramfs_inv_root(3,4) [OF inv] file_at_pos [OF f] by simp_all
  ultimately show ?thesis using ramfs_inv_root(1,2) [OF inv] unfolding ramfs_inv_def [of ?g] by simp
qed

lemma find_child_move:
  assumes f: "file_at fs idx" and k: "k < length fs" "kind (fs ! k) = Directory"
    and fresh: "find_child fs k (iname n) = None" and n: "parent_idx n = k" "kind n = File"
    "iname n \<noteq> []" "slash \<notin> set (iname n)"
  shows "find_child (fs[idx := n]) j c = (if j = k \<and> c = iname n then Some idx
    else if find_child fs j c = Some idx then None else find_child fs j c)"
proof (cases "j = k \<and> c = iname n")
  case True
  then show ?thesis
    using find_child_at [OF move_inv [OF assms], of idx] n(1) f by (simp add: file_at_def)
next
  case other: False
  have inv: "ramfs_inv fs" and b: "idx < length fs" using f by (auto simp: file_at_def)
  let ?g = "fs[idx := n]"
  have old: "m < length fs \<and> m \<noteq> idx \<and> parent_idx (fs ! m) = j \<and> iname (fs ! m) = c"
    if "m < length ?g" "parent_idx (?g ! m) = j \<and> iname (?g ! m) = c" for m
    using that other n(1) b by (cases "m = idx") auto
  show ?thesis
  proof (cases "find_child fs j c")
    case None
    then have "find_child ?g j c = None" using old unfolding find_child_None by blast
    then show ?thesis using other None by simp
  next
    case (Some l)
    have l: "l < length fs" "parent_idx (fs ! l) = j" "iname (fs ! l) = c" using find_child_Some [OF Some] by auto
    show ?thesis
    proof (cases "l = idx")
      case True
      have "find_child ?g j c = None"
        unfolding find_child_None using old ramfs_inv_unique [OF inv] l True by metis
      then show ?thesis using True Some other by simp
    next
      case False
      then have "find_child ?g j c = Some l"
        using l by (intro find_child_at [OF move_inv [OF assms]]) simp_all
      then show ?thesis using False Some other by simp
    qed
  qed
qed

lemma walk_move:
  assumes f: "file_at fs idx" and d: "walk fs 0 d = Some k" "kind (fs ! k) = Directory"
    and fresh: "find_child fs k (iname n) = None" and n: "parent_idx n = k" "kind n = File"
    "iname n \<noteq> []" "slash \<notin> set (iname n)"
  shows "walk (fs[idx := n]) 0 p =
    (if p = d @ [iname n] then Some idx else if walk fs 0 p = Some idx then None else walk fs 0 p)"
proof (induction p rule: rev_induct)
  case Nil
  then show ?case using file_at_pos [OF f] by simp
next
  case (snoc c p)
  have inv: "ramfs_inv fs" and b: "idx < length fs" and kf: "kind (fs ! idx) = File"
    using f by (auto simp: file_at_def)
  let ?g = "fs[idx := n]"
  have k: "k < length fs" using walk_bound [OF _ d(1)] ramfs_inv_root(1) [OF inv] by simp
  have ginv: "ramfs_inv ?g" using move_inv [OF f k d(2) fresh n] .
  have dead: "find_child ?g idx c = None" using b n(2) by (intro file_no_child [OF ginv]) simp_all
  note away = find_child_move [OF f k d(2) fresh n]
  show ?case
  proof (cases "p = d @ [iname n]")
    case True
    have "walk fs 0 p = None" using True d(1) fresh by (simp add: walk_snoc)
    moreover have "walk ?g 0 p = Some idx" using True snoc by simp
    moreover have "p @ [c] \<noteq> d @ [iname n]" using True by simp
    ultimately show ?thesis using dead unfolding walk_snoc by simp
  next
    case new: False
    show ?thesis
    proof (cases "walk fs 0 p")
      case None
      then have "p \<noteq> d" using d(1) by auto
      then show ?thesis using None snoc new by (simp add: walk_snoc)
    next
      case (Some j)
      have "p = d \<longleftrightarrow> j = k" using Some d(1) walk_inj [OF inv] by auto
      moreover have "j = idx \<Longrightarrow> find_child fs j c = None" using file_no_child [OF inv b kf] by simp
      moreover have "j = idx \<Longrightarrow> j \<noteq> k" using kf d(2) by auto
      ultimately show ?thesis using Some snoc new away [of j] by (auto simp: walk_snoc)
    qed
  qed
qed

section \<open>The abstract file tree\<close>

text \<open>
  What a file system promises: a map from component lists to nodes, each with
  a kind, its contents and its ownership.  The error codes are decided by the
  map alone.
\<close>

type_synonym meta = "NodeKind \<times> bytes \<times> u16 \<times> u32 \<times> u32"
type_synonym tree = "string list \<Rightarrow> meta option"

definition meta :: "INode \<Rightarrow> meta" where
  "meta n = (kind n, data n, mode n, uid n, gid n)"

definition view :: "RamFs \<Rightarrow> tree" where
  "view fs p = map_option (\<lambda>i. meta (fs ! i)) (walk fs 0 p)"

datatype fs_op = MkDir string | Create string | WriteF string bytes | AppendF string bytes
  | RemoveF string | TruncateF string nat | ReadF string | SizeF string | IsDirF string

datatype fs_ans = Done | Failed int | Contents "bytes option" | Size "nat option" | Truth bool

definition ans :: "int + 'a \<Rightarrow> fs_ans" where
  "ans r = (case r of Inl e \<Rightarrow> Failed e | Inr _ \<Rightarrow> Done)"

fun fs_step :: "fs_op \<Rightarrow> RamFs \<Rightarrow> fs_ans \<times> RamFs" where
  "fs_step (MkDir p) fs = apfst ans (create_dir p fs)"
| "fs_step (Create p) fs = apfst ans (create_file p fs)"
| "fs_step (WriteF p d) fs = apfst ans (write_file p d fs)"
| "fs_step (AppendF p d) fs = apfst ans (append_file p d fs)"
| "fs_step (RemoveF p) fs = apfst ans (remove_file p fs)"
| "fs_step (TruncateF p n) fs = apfst ans (ramfs_truncate p n fs)"
| "fs_step (ReadF p) fs = (Contents (read_file p fs), fs)"
| "fs_step (SizeF p) fs = (Size (file_size p fs), fs)"
| "fs_step (IsDirF p) fs = (Truth (is_dir p fs), fs)"

definition spec_add :: "NodeKind \<Rightarrow> u16 \<Rightarrow> bytes \<Rightarrow> string list \<Rightarrow> tree \<Rightarrow> fs_ans \<times> tree" where
  "spec_add k m d p A =
    (case A (butlast p) of
       None \<Rightarrow> (Failed ENOENT, A)
     | Some (k', _) \<Rightarrow> if k' \<noteq> Directory then (Failed ENOTDIR, A) else (Done, A(p \<mapsto> (k, d, m, 0, 0))))"

definition spec_edit :: "(bytes \<Rightarrow> bytes) \<Rightarrow> (fs_ans \<times> tree) \<Rightarrow> string list \<Rightarrow> tree \<Rightarrow> fs_ans \<times> tree" where
  "spec_edit f absent p A =
    (case A p of
       None \<Rightarrow> absent
     | Some (k, d, o') \<Rightarrow> if k = Directory then (Failed EISDIR, A) else (Done, A(p \<mapsto> (k, f d, o'))))"

definition tree_file :: "string list \<Rightarrow> tree \<Rightarrow> bytes option" where
  "tree_file p A = (case A p of Some (File, d, _) \<Rightarrow> Some d | _ \<Rightarrow> None)"

fun fs_spec :: "fs_op \<Rightarrow> tree \<Rightarrow> fs_ans \<times> tree" where
  "fs_spec (MkDir p) A =
    (if A (comps p) \<noteq> None then (Failed EEXIST, A) else spec_add Directory 0x1ED [] (comps p) A)"
| "fs_spec (Create p) A = spec_edit (\<lambda>_. []) (spec_add File 0x1A4 [] (comps p) A) (comps p) A"
| "fs_spec (WriteF p d) A = spec_edit (\<lambda>_. d) (spec_add File 0x1A4 d (comps p) A) (comps p) A"
| "fs_spec (AppendF p d) A = spec_edit (\<lambda>b. b @ d) (spec_add File 0x1A4 d (comps p) A) (comps p) A"
| "fs_spec (RemoveF p) A =
    (case A (comps p) of None \<Rightarrow> (Failed ENOENT, A)
     | Some (k, _) \<Rightarrow> if k = Directory then (Failed EISDIR, A) else (Done, A(comps p := None)))"
| "fs_spec (TruncateF p n) A =
    spec_edit (\<lambda>b. take n b @ replicate (n - length b) 0) (Failed ENOENT, A) (comps p) A"
| "fs_spec (ReadF p) A = (Contents (tree_file (comps p) A), A)"
| "fs_spec (SizeF p) A = (Size (map_option length (tree_file (comps p) A)), A)"
| "fs_spec (IsDirF p) A = (Truth (map_option fst (A (comps p)) = Some Directory), A)"

definition room :: "nat \<Rightarrow> RamFs \<Rightarrow> bool" where
  "room n fs \<longleftrightarrow> ramfs_inv fs \<and> length fs + n \<le> ROOT_PARENT"

lemma view_at: "walk fs 0 p = Some i \<Longrightarrow> view fs p = Some (meta (fs ! i))"
  by (simp add: view_def)

lemma view_none: "walk fs 0 p = None \<Longrightarrow> view fs p = None"
  by (simp add: view_def)

lemma walk0_bound: "ramfs_inv fs \<Longrightarrow> walk fs 0 p = Some i \<Longrightarrow> i < length fs"
  using walk_bound [of 0 fs p i] ramfs_inv_root(1) [of fs] by simp

lemma view_add:
  assumes ok: "can_add fs d k n"
  shows "view (fs @ [n]) = (view fs)(d @ [iname n] \<mapsto> meta n)"
proof
  fix p
  have inv: "ramfs_inv fs" using ok by (simp add: can_add_def)
  show "view (fs @ [n]) p = ((view fs)(d @ [iname n] \<mapsto> meta n)) p"
    using walk0_bound [OF inv, of p]
    by (cases "walk fs 0 p") (auto simp: view_def walk_add [OF ok] nth_append)
qed

lemma view_update:
  assumes inv: "ramfs_inv fs" and p: "walk fs 0 p = Some i" and same: "same_place n (fs ! i)"
  shows "view (fs[i := n]) = (view fs)(p \<mapsto> meta n)"
proof
  fix q
  have i: "i < length fs" using walk0_bound [OF inv p] .
  show "view (fs[i := n]) q = ((view fs)(p \<mapsto> meta n)) q"
  proof (cases "q = p")
    case True
    then show ?thesis using i p by (simp add: view_def walk_update [OF same])
  next
    case False
    then have "walk fs 0 q \<noteq> Some i" using walk_inj [OF inv p] by blast
    then show ?thesis using False by (cases "walk fs 0 q") (auto simp: view_def walk_update [OF same])
  qed
qed

lemma view_without:
  assumes f: "file_at fs i" and p: "walk fs 0 p = Some i"
  shows "view (without i fs) = (view fs)(p := None)"
proof
  fix q
  have inv: "ramfs_inv fs" and b: "i < length fs" using f by (auto simp: file_at_def)
  show "view (without i fs) q = ((view fs)(p := None)) q"
  proof (cases "walk fs 0 q")
    case None
    then show ?thesis by (simp add: view_def walk_without [OF f])
  next
    case (Some j)
    have "q = p \<longleftrightarrow> j = i" using Some p walk_inj [OF inv] by auto
    then show ?thesis using Some p without_nth(2) [OF walk0_bound [OF inv Some] _ b]
      by (auto simp: view_def walk_without [OF f] meta_def)
  qed
qed

lemma split_path_cases:
  assumes inv: "ramfs_inv fs" and none: "walk fs 0 (comps path) = None"
  obtains d name where "split_path path = Some (d, name)" "comps path = comps d @ [name]"
    "name \<noteq> []" "slash \<notin> set name"
proof -
  have "comps path \<noteq> []" using none by auto
  then obtain d name where "split_path path = Some (d, name)" using split_path_None by fastforce
  then show ?thesis using that split_path_Some by blast
qed

lemma can_add_new_node:
  "\<lbrakk>ramfs_inv fs; length fs < ROOT_PARENT; walk fs 0 d = Some k; kind (fs ! k) = Directory;
    walk fs 0 (d @ [name]) = None; name \<noteq> []; slash \<notin> set name\<rbrakk>
    \<Longrightarrow> can_add fs d k ((new_node name k knd m)\<lparr>data := b\<rparr>)"
  by (simp add: can_add_def new_node_def walk_snoc)

text \<open>What the two creating operations do on an absent path.\<close>

definition added :: "RamFs \<Rightarrow> nat option \<Rightarrow> string \<Rightarrow> NodeKind \<Rightarrow> u16 \<Rightarrow> bytes \<Rightarrow> 'a \<Rightarrow> (int + 'a) \<times> RamFs" where
  "added fs parent name knd m b x =
    (case parent of
       None \<Rightarrow> (Inl ENOENT, fs)
     | Some k \<Rightarrow> if kind (fs ! k) \<noteq> Directory then (Inl ENOTDIR, fs)
                else (Inr x, fs @ [(new_node name k knd m)\<lparr>data := b\<rparr>]))"

lemma added_step:
  assumes room: "room (Suc n) fs" and none: "walk fs 0 (comps path) = None"
    and s: "comps path = comps d @ [name]" "name \<noteq> []" "slash \<notin> set name"
    and res: "added fs (walk fs 0 (comps d)) name knd m b x = (r, fs')"
  shows "room n fs' \<and> spec_add knd m b (comps path) (view fs) = (ans r, view fs')"
proof (cases "walk fs 0 (comps d)")
  case None
  then show ?thesis using res room s
    by (auto simp: added_def view_none room_def ans_def spec_add_def)
next
  case (Some k)
  let ?n = "(new_node name k knd m)\<lparr>data := b\<rparr>"
  have inv: "ramfs_inv fs" and len: "length fs < ROOT_PARENT" using room by (auto simp: room_def)
  show ?thesis
  proof (cases "kind (fs ! k) = Directory")
    case True
    then have r: "r = Inr x" "fs' = fs @ [?n]" using res Some by (simp_all add: added_def)
    have ok: "can_add fs (comps d) k ?n"
      using can_add_new_node [OF inv len Some True] none s by simp
    show ?thesis using add_inv [OF ok] view_add [OF ok] none Some s room True r
      by (simp add: room_def ans_def view_at spec_add_def meta_def new_node_def)
  next
    case False
    then show ?thesis using res Some s room
      by (auto simp: added_def room_def ans_def view_at spec_add_def meta_def)
  qed
qed

lemma create_dir_step:
  assumes room: "room (Suc n) fs" and step: "create_dir path fs = (r, fs')"
  shows "room n fs' \<and> fs_spec (MkDir path) (view fs) = (ans r, view fs')"
proof (cases "walk fs 0 (comps path)")
  case (Some i)
  then show ?thesis using step room
    by (auto simp: create_dir_def resolve_walk view_at room_def ans_def)
next
  case None
  have inv: "ramfs_inv fs" using room by (simp add: room_def)
  obtain d name where s: "split_path path = Some (d, name)" "comps path = comps d @ [name]"
    "name \<noteq> []" "slash \<notin> set name" by (rule split_path_cases [OF inv None])
  have "added fs (walk fs 0 (comps d)) name Directory 0x1ED [] (length fs) = (r, fs')"
    using step None s(1) 
    by (auto simp: create_dir_def resolve_walk added_def new_node_def split: option.splits if_splits)
  then show ?thesis using added_step [OF room None s(2-4)] None by (simp add: view_none)
qed

lemma write_file_step:
  assumes room: "room (Suc n) fs" and step: "write_file path b fs = (r, fs')"
  shows "room n fs' \<and> fs_spec (WriteF path b) (view fs) = (ans r, view fs')"
proof (cases "walk fs 0 (comps path)")
  case (Some i)
  have inv: "ramfs_inv fs" using room by (simp add: room_def)
  have i: "i < length fs" using walk0_bound [OF inv Some] .
  show ?thesis
  proof (cases "kind (fs ! i) = Directory")
    case True
    then show ?thesis using step room Some
      by (auto simp: write_file_def create_file_def resolve_walk view_at room_def ans_def spec_edit_def meta_def)
  next
    case False
    let ?n = "(fs ! i)\<lparr>data := b\<rparr>"
    have same: "same_place ?n (fs ! i)" by (simp add: same_place_def)
    have "r = Inr ()" "fs' = fs[i := ?n]"
      using step Some False i by (simp_all add: write_file_def create_file_def resolve_walk extend_data_def)
    then show ?thesis using False view_update [OF inv Some same] update_inv [OF inv same] room Some
      by (simp add: view_at room_def ans_def spec_edit_def meta_def)
  qed
next
  case None
  have inv: "ramfs_inv fs" using room by (simp add: room_def)
  obtain d name where s: "split_path path = Some (d, name)" "comps path = comps d @ [name]"
    "name \<noteq> []" "slash \<notin> set name" by (rule split_path_cases [OF inv None])
  have "added fs (walk fs 0 (comps d)) name File 0x1A4 b () = (r, fs')"
    using step None s(1)
    by (auto simp: write_file_def create_file_def resolve_walk added_def new_node_def extend_data_def
        split: option.splits if_splits)
  then show ?thesis using added_step [OF room None s(2-4)] None by (simp add: view_none spec_edit_def)
qed

lemma create_file_write:
  "apfst ans (create_file path fs) = apfst ans (write_file path [] fs)"
proof -
  obtain r fs' where "create_file path fs = (r, fs')" by (rule prod.exhaust)
  then show ?thesis by (cases r) (simp_all add: write_file_def ans_def extend_data_def)
qed

text \<open>The operations that change an existing file through a function on its bytes.\<close>

lemma edit_step:
  assumes room: "room (Suc n) fs" and i: "walk fs 0 (comps path) = Some i"
  shows "kind (fs ! i) = Directory \<Longrightarrow> spec_edit f a (comps path) (view fs) = (Failed EISDIR, view fs)"
    "kind (fs ! i) = File \<Longrightarrow> room n (fs[i := (fs ! i)\<lparr>data := f (data (fs ! i))\<rparr>])
      \<and> spec_edit f a (comps path) (view fs) = (Done, view (fs[i := (fs ! i)\<lparr>data := f (data (fs ! i))\<rparr>]))"
proof -
  have inv: "ramfs_inv fs" using room by (simp add: room_def)
  have same: "same_place ((fs ! i)\<lparr>data := f (data (fs ! i))\<rparr>) (fs ! i)" by (simp add: same_place_def)
  show "kind (fs ! i) = Directory \<Longrightarrow> spec_edit f a (comps path) (view fs) = (Failed EISDIR, view fs)"
    using i by (simp add: view_at spec_edit_def meta_def)
  show "kind (fs ! i) = File \<Longrightarrow> room n (fs[i := (fs ! i)\<lparr>data := f (data (fs ! i))\<rparr>])
      \<and> spec_edit f a (comps path) (view fs) = (Done, view (fs[i := (fs ! i)\<lparr>data := f (data (fs ! i))\<rparr>]))"
    using i room view_update [OF inv i same] update_inv [OF inv same]
    by (simp add: view_at spec_edit_def meta_def room_def)
qed

lemma room_less: "room (Suc n) fs \<Longrightarrow> room n fs"
  by (simp add: room_def)

lemma append_file_step:
  assumes room: "room (Suc n) fs" and step: "append_file path b fs = (r, fs')"
  shows "room n fs' \<and> fs_spec (AppendF path b) (view fs) = (ans r, view fs')"
proof (cases "walk fs 0 (comps path)")
  case (Some i)
  then show ?thesis using step room_less [OF room] edit_step [OF room Some, of "\<lambda>x. x @ b"]
    by (cases "kind (fs ! i)") (auto simp: append_file_def resolve_walk ans_def extend_data_def)
next
  case None
  then have "write_file path b fs = (r, fs')" using step by (simp add: append_file_def resolve_walk)
  from write_file_step [OF room this] show ?thesis using None by (simp add: view_none spec_edit_def)
qed

lemma set_len_eq: "set_len n d = take n d @ replicate (n - length d) 0"
  by (simp add: set_len_def Let_def)

lemma truncate_step:
  assumes room: "room (Suc n) fs" and step: "ramfs_truncate path m fs = (r, fs')"
  shows "room n fs' \<and> fs_spec (TruncateF path m) (view fs) = (ans r, view fs')"
proof (cases "walk fs 0 (comps path)")
  case (Some i)
  then show ?thesis using step room_less [OF room]
      edit_step [OF room Some, of "\<lambda>b. take m b @ replicate (m - length b) 0"]
    by (cases "kind (fs ! i)") (auto simp: ramfs_truncate_def resolve_walk ans_def set_len_eq)
next
  case None
  then show ?thesis using step room_less [OF room]
    by (auto simp: ramfs_truncate_def resolve_walk ans_def view_none spec_edit_def)
qed

lemma remove_file_step:
  assumes room: "room (Suc n) fs" and step: "remove_file path fs = (r, fs')"
  shows "room n fs' \<and> fs_spec (RemoveF path) (view fs) = (ans r, view fs')"
proof (cases "walk fs 0 (comps path)")
  case (Some i)
  have inv: "ramfs_inv fs" using room by (simp add: room_def)
  show ?thesis
  proof (cases "kind (fs ! i)")
    case File
    then have f: "file_at fs i" using inv walk0_bound [OF inv Some] by (simp add: file_at_def)
    have "r = Inr i" "fs' = without i fs" using step Some File
      by (simp_all add: remove_file_def resolve_walk without_def)
    then show ?thesis using File view_without [OF f Some] without_inv [OF f] room Some walk0_bound [OF inv Some]
      by (auto simp: view_at meta_def room_def ans_def)
  next
    case Directory
    then show ?thesis using step room_less [OF room] Some
      by (auto simp: remove_file_def resolve_walk view_at meta_def ans_def)
  qed
next
  case None
  then show ?thesis using step room_less [OF room]
    by (auto simp: remove_file_def resolve_walk ans_def view_none)
qed

lemma read_file_view: "read_file path fs = tree_file (comps path) (view fs)"
  by (auto simp: read_file_def resolve_walk tree_file_def view_def meta_def split: option.split NodeKind.split)

lemma file_size_read: "file_size path fs = map_option length (read_file path fs)"
  by (simp add: file_size_def read_file_def split: option.split)

lemma is_dir_view: "is_dir path fs \<longleftrightarrow> map_option fst (view fs (comps path)) = Some Directory"
  by (simp add: is_dir_def resolve_walk view_def meta_def split: option.split)

lemma fs_step_refines:
  assumes room: "room (Suc n) fs" and step: "fs_step a fs = (r, fs')"
  shows "room n fs' \<and> fs_spec a (view fs) = (r, view fs')"
proof (cases a)
  case (Create p)
  obtain r0 where w: "write_file p [] fs = (r0, fs')" "r = ans r0"
    using step Create create_file_write [of p fs] by (cases "write_file p [] fs") auto
  then show ?thesis using write_file_step [OF room w(1)] Create by simp
next
  case (MkDir p)
  then show ?thesis using step create_dir_step [OF room] by (cases "create_dir p fs") auto
next
  case (WriteF p d)
  then show ?thesis using step write_file_step [OF room] by (cases "write_file p d fs") auto
next
  case (AppendF p d)
  then show ?thesis using step append_file_step [OF room] by (cases "append_file p d fs") auto
next
  case (RemoveF p)
  then show ?thesis using step remove_file_step [OF room] by (cases "remove_file p fs") auto
next
  case (TruncateF p m)
  then show ?thesis using step truncate_step [OF room] by (cases "ramfs_truncate p m fs") auto
qed (use step room_less [OF room] in \<open>auto simp: read_file_view file_size_read is_dir_view\<close>)

interpretation fs_sim: budget_simulation fs_step fs_spec room view "\<lambda>_. True"
  using fs_step_refines by unfold_locales blast+

section \<open>The file system from boot\<close>

definition boot_ops :: "bytes \<Rightarrow> fs_op list" where
  "boot_ops v = [MkDir ''/etc'', MkDir ''/tmp'', MkDir ''/home'', MkDir ''/bin'',
    WriteF ''/etc/hostname'' (bstr (''oxideos'' @ [CHR 0x0A])), WriteF ''/etc/version'' v,
    WriteF ''/etc/motd'' (bstr (''Welcome to OxideOS!'' @ [CHR 0x0A] @ ''Type '' @ [CHR 0x27] @ ''help''
      @ [CHR 0x27] @ '' in the terminal for commands.'' @ [CHR 0x0A]))]"

definition boot_tree :: "bytes \<Rightarrow> tree" where
  "boot_tree v =
    [[] \<mapsto> (Directory, [], 0x1ED, 0, 0),
     [''etc''] \<mapsto> (Directory, [], 0x1ED, 0, 0), [''tmp''] \<mapsto> (Directory, [], 0x1ED, 0, 0),
     [''home''] \<mapsto> (Directory, [], 0x1ED, 0, 0), [''bin''] \<mapsto> (Directory, [], 0x1ED, 0, 0),
     [''etc'', ''hostname''] \<mapsto> (File, bstr (''oxideos'' @ [CHR 0x0A]), 0x1A4, 0, 0),
     [''etc'', ''version''] \<mapsto> (File, v, 0x1A4, 0, 0),
     [''etc'', ''motd''] \<mapsto>
       (File, bstr (''Welcome to OxideOS!'' @ [CHR 0x0A] @ ''Type '' @ [CHR 0x27] @ ''help''
         @ [CHR 0x27] @ '' in the terminal for commands.'' @ [CHR 0x0A]), 0x1A4, 0, 0)]"

lemma ramfs_new_boot: "ramfs_new v = snd (run_ops fs_step (boot_ops v) [root_node])"
  by (simp add: ramfs_new_def boot_ops_def Let_def case_prod_unfold)

lemma root_only: "room n [root_node] \<longleftrightarrow> n < ROOT_PARENT"
  "view [root_node] = [[] \<mapsto> (Directory, [], 0x1ED, 0, 0)]"
proof -
  show "room n [root_node] \<longleftrightarrow> n < ROOT_PARENT"
    by (auto simp: room_def ramfs_inv_def root_node_def)
  show "view [root_node] = [[] \<mapsto> (Directory, [], 0x1ED, 0, 0)]"
  proof
    fix p :: "string list"
    show "view [root_node] p = [[] \<mapsto> (Directory, [], 0x1ED, 0, 0)] p"
      by (cases p) (simp_all add: view_def meta_def root_node_def find_child_def ROOT_PARENT_def)
  qed
qed

lemma boot_comps:
  "comps ''/etc'' = [''etc'']" "comps ''/tmp'' = [''tmp'']" "comps ''/home'' = [''home'']"
  "comps ''/bin'' = [''bin'']" "comps ''/etc/hostname'' = [''etc'', ''hostname'']"
  "comps ''/etc/version'' = [''etc'', ''version'']" "comps ''/etc/motd'' = [''etc'', ''motd'']"
  by (simp_all add: comps_def)

lemma spec_new_dir:
  "\<lbrakk>comps s = [c]; map_option fst (A []) = Some Directory; A [c] = None\<rbrakk>
    \<Longrightarrow> fs_spec (MkDir s) A = (Done, A([c] \<mapsto> (Directory, [], 0x1ED, 0, 0)))"
  by (auto simp: spec_add_def)

lemma spec_new_file:
  "\<lbrakk>comps s = [a, c]; map_option fst (A [a]) = Some Directory; A [a, c] = None\<rbrakk>
    \<Longrightarrow> fs_spec (WriteF s d) A = (Done, A([a, c] \<mapsto> (File, d, 0x1A4, 0, 0)))"
  by (auto simp: spec_add_def spec_edit_def)

lemmas boot_steps = boot_comps(1-4) [THEN spec_new_dir] boot_comps(5-7) [THEN spec_new_file]

lemma boot_spec: "snd (run_ops fs_spec (boot_ops v) [[] \<mapsto> (Directory, [], 0x1ED, 0, 0)]) = boot_tree v"
  unfolding boot_ops_def boot_tree_def
  by (simp add: boot_steps del: fs_spec.simps append.simps)

lemma ramfs_new_ok:
  assumes "n + 7 < ROOT_PARENT"
  shows "room n (ramfs_new v)" "view (ramfs_new v) = boot_tree v"
proof -
  obtain rs fs where run: "run_ops fs_step (boot_ops v) [root_node] = (rs, fs)" by (rule prod.exhaust)
  have "room (length (boot_ops v) + n) [root_node]" using assms by (simp add: root_only boot_ops_def)
  from fs_sim.run_within [OF this _ run]
  have "room n fs" "run_ops fs_spec (boot_ops v) (view [root_node]) = (rs, view fs)"
    by (simp_all add: list_all_iff)
  then show "room n (ramfs_new v)" "view (ramfs_new v) = boot_tree v"
    using run boot_spec [of v] by (simp_all add: ramfs_new_boot root_only)
qed

section \<open>Properties\<close>

text \<open>C4. From boot, any sequence of fewer than 2^63 file operations (mkdir, create,
  write, append, remove, truncate, read, size, is-directory) returns exactly
  what the abstract file tree returns, error codes included, and leaves a
  well-formed inode vector that represents the tree's final state: removal with
  its renumbering of the vector never loses or confuses another file.\<close>
theorem ramfs_trace_refines:
  assumes "length ops < 2 ^ 63" "run_ops fs_step ops (ramfs_new v) = (rs, fs)"
  shows "ramfs_inv fs \<and> run_ops fs_spec ops (boot_tree v) = (rs, view fs)"
proof -
  have "length ops + 7 < ROOT_PARENT" using assms(1) by (simp add: ROOT_PARENT_def)
  note new = ramfs_new_ok [OF this, of v]
  have "room (length ops + 0) (ramfs_new v)" using new(1) by simp
  from fs_sim.run_within [OF this _ assms(2)] show ?thesis
    using new(2) by (simp add: list_all_iff room_def)
qed

theorem ramfs_trace_refines_witness:
  "\<exists>rs fs. run_ops fs_step [MkDir ''/tmp/a'', WriteF ''/tmp/a/x'' [1, 2], RemoveF ''/etc/motd'', AppendF ''/tmp/a/x'' [3],
      ReadF ''//tmp/a/x/'', MkDir ''/tmp/a/x/y'', RemoveF ''/tmp'', TruncateF ''/nope'' 3] (ramfs_new [9]) = (rs, fs)
    \<and> rs = [Done, Done, Done, Done, Contents (Some [1, 2, 3]), Failed ENOTDIR, Failed EISDIR, Failed ENOENT]
    \<and> ramfs_inv fs"
proof -
  let ?ops = "[MkDir ''/tmp/a'', WriteF ''/tmp/a/x'' [1, 2], RemoveF ''/etc/motd'', AppendF ''/tmp/a/x'' [3],
      ReadF ''//tmp/a/x/'', MkDir ''/tmp/a/x/y'', RemoveF ''/tmp'', TruncateF ''/nope'' 3]"
  obtain rs fs where run: "run_ops fs_step ?ops (ramfs_new [9]) = (rs, fs)" by (rule prod.exhaust)
  have cs: "comps ''/tmp/a'' = [''tmp'', ''a'']" "comps ''/tmp/a/x'' = [''tmp'', ''a'', ''x'']"
    "comps ''//tmp/a/x/'' = [''tmp'', ''a'', ''x'']" "comps ''/tmp/a/x/y'' = [''tmp'', ''a'', ''x'', ''y'']"
    "comps ''/nope'' = [''nope'']"
    by (simp_all add: comps_def)
  from ramfs_trace_refines [OF _ run] have "ramfs_inv fs" and s: "run_ops fs_spec ?ops (boot_tree [9]) = (rs, view fs)"
    by simp_all
  moreover have "rs = [Done, Done, Done, Done, Contents (Some [1, 2, 3]), Failed ENOTDIR, Failed EISDIR, Failed ENOENT]"
    using s by (simp add: cs boot_comps spec_add_def spec_edit_def tree_file_def boot_tree_def del: comps_slash)
  ultimately show ?thesis using run by blast
qed

lemma view_move:
  assumes f: "file_at fs idx" and p: "walk fs 0 p = Some idx" and d: "walk fs 0 d = Some k"
    "kind (fs ! k) = Directory" and fresh: "find_child fs k (iname n) = None"
    and n: "parent_idx n = k" "kind n = File" "iname n \<noteq> []" "slash \<notin> set (iname n)"
  shows "view (fs[idx := n]) = (view fs)(p := None, d @ [iname n] \<mapsto> meta n)"
proof
  fix q
  have inv: "ramfs_inv fs" and b: "idx < length fs" using f by (auto simp: file_at_def)
  have pq: "q = p \<longleftrightarrow> walk fs 0 q = Some idx" 
    by (rule iffI) (use p in simp, rule sym, rule walk_inj [OF inv p])
  show "view (fs[idx := n]) q = ((view fs)(p := None, d @ [iname n] \<mapsto> meta n)) q"
  proof (cases "q = d @ [iname n]")
    case True
    then show ?thesis using b by (simp add: view_def walk_move [OF f d fresh n])
  next
    case False
    then show ?thesis using pq by (cases "q = p"; cases "walk fs 0 q")
        (simp_all add: view_def walk_move [OF f d fresh n])
  qed
qed

lemma view_SomeD:
  "view fs p = Some (k, m) \<Longrightarrow> \<exists>i. walk fs 0 p = Some i \<and> kind (fs ! i) = k \<and> meta (fs ! i) = (k, m)"
  by (auto simp: view_def meta_def)

lemma rename_absent:
  assumes inv: "ramfs_inv fs" and old: "view fs (comps old) = Some (File, m)"
    and new: "view fs (comps new) = None" and dir: "view fs (butlast (comps new)) = Some (Directory, x)"
  shows "\<exists>fs'. ramfs_rename old new fs = (Inr (), fs') \<and> ramfs_inv fs'
    \<and> view fs' = (view fs)(comps old := None, comps new \<mapsto> (File, m))"
proof -
  obtain i where i: "walk fs 0 (comps old) = Some i" "kind (fs ! i) = File" "meta (fs ! i) = (File, m)"
    using view_SomeD [OF old] by blast
  have none: "walk fs 0 (comps new) = None" using new by (simp add: view_def)
  obtain d name where s: "split_path new = Some (d, name)" "comps new = comps d @ [name]"
    "name \<noteq> []" "slash \<notin> set name" by (rule split_path_cases [OF inv none])
  obtain k where k: "walk fs 0 (comps d) = Some k" "kind (fs ! k) = Directory"
    using view_SomeD [OF dir] s(2) by auto
  let ?n = "(fs ! i)\<lparr>iname := name, parent_idx := k\<rparr>"
  have f: "file_at fs i" using inv i walk0_bound [OF inv i(1)] by (simp add: file_at_def)
  have fresh: "find_child fs k (iname ?n) = None" using none s(2) k(1) by (simp add: walk_snoc)
  have kb: "k < length fs" using walk0_bound [OF inv k(1)] .
  have "ramfs_rename old new fs = (Inr (), fs[i := ?n])"
    using i none s(1) k(1) by (auto simp: ramfs_rename_def resolve_walk)
  moreover have "ramfs_inv (fs[i := ?n])"
    by (rule move_inv [OF f kb k(2) fresh]) (use i s in simp_all)
  moreover have "view (fs[i := ?n]) = (view fs)(comps old := None, comps d @ [iname ?n] \<mapsto> meta ?n)"
    by (rule view_move [OF f i(1) k fresh]) (use i s in simp_all)
  ultimately show ?thesis using s(2) i(3) by (auto simp: meta_def)
qed

text \<open>A file at the new path is removed first; the rest is the previous case.\<close>

lemma rename_present:
  assumes inv: "ramfs_inv fs" and old: "view fs (comps old) = Some (File, m)"
    and new: "view fs (comps new) = Some (File, m')" and ne: "comps old \<noteq> comps new"
  obtains fs1 where "ramfs_inv fs1" "view fs1 = (view fs)(comps new := None)"
    "ramfs_rename old new fs = ramfs_rename old new fs1"
proof -
  obtain i where i: "walk fs 0 (comps old) = Some i" "kind (fs ! i) = File" using view_SomeD [OF old] by blast
  obtain j where j: "walk fs 0 (comps new) = Some j" "kind (fs ! j) = File" using view_SomeD [OF new] by blast
  have f: "file_at fs j" using inv j walk0_bound [OF inv j(1)] by (simp add: file_at_def)
  let ?g = "without j fs"
  have v: "view ?g = (view fs)(comps new := None)" by (rule view_without [OF f j(1)])
  have w: "walk ?g 0 (comps new) = None" using walk_without [OF f] j(1) by simp
  have "view ?g (comps old) = Some (File, m)" using v old ne by simp
  then obtain i' where i': "walk ?g 0 (comps old) = Some i'" "kind (?g ! i') = File" using view_SomeD by blast
  have "ramfs_rename old new fs = ramfs_rename old new ?g"
    using i j i' w by (simp add: ramfs_rename_def remove_file_def resolve_walk without_def)
  then show thesis using that [OF without_inv [OF f] v] by blast
qed

text \<open>C27. Renaming a file to a path whose parent is a directory and that is not a
  directory itself succeeds, replaces a file that was there, moves contents,
  mode and owner unchanged and touches no other path.\<close>
theorem rename_correct:
  assumes "ramfs_inv fs" "view fs (comps old) = Some (File, m)" "comps old \<noteq> comps new"
    "view fs (comps new) = None \<or> (\<exists>m'. view fs (comps new) = Some (File, m'))"
    "view fs (butlast (comps new)) = Some (Directory, x)"
  shows "\<exists>fs'. ramfs_rename old new fs = (Inr (), fs') \<and> ramfs_inv fs'
    \<and> view fs' = (view fs)(comps old := None, comps new \<mapsto> (File, m))"
proof (cases "view fs (comps new)")
  case None
  show ?thesis by (rule rename_absent [OF assms(1,2) None assms(5)])
next
  case (Some e)
  then obtain m' where new: "view fs (comps new) = Some (File, m')" using assms(4) by auto
  obtain fs1 where fs1: "ramfs_inv fs1" "view fs1 = (view fs)(comps new := None)"
    "ramfs_rename old new fs = ramfs_rename old new fs1"
    by (rule rename_present [OF assms(1,2) new assms(3)])
  have par: "butlast (comps new) \<noteq> comps new" using assms(5) new by auto
  have "view fs1 (comps old) = Some (File, m)" "view fs1 (comps new) = None"
    "view fs1 (butlast (comps new)) = Some (Directory, x)" using fs1(2) assms(2,3,5) par by simp_all
  from rename_absent [OF fs1(1) this] show ?thesis
    unfolding fs1(2,3) fun_upd_twist [OF assms(3) [symmetric], of "view fs"] by simp
qed

theorem rename_correct_witness:
  "\<exists>fs'. ramfs_rename ''/etc/motd'' ''/tmp/version'' (ramfs_new [7]) = (Inr (), fs') \<and> ramfs_inv fs'
    \<and> view fs' [''etc'', ''motd''] = None \<and> view fs' [''etc'', ''version''] = Some (File, [7], 0x1A4, 0, 0)"
proof -
  have "0 + 7 < ROOT_PARENT" by (simp add: ROOT_PARENT_def)
  note new = ramfs_new_ok [OF this, of "[7]"]
  have c: "comps ''/tmp/version'' = [''tmp'', ''version'']" by (simp add: comps_def)
  have inv: "ramfs_inv (ramfs_new [7])" using new(1) by (simp add: room_def)
  have "\<exists>fs'. ramfs_rename ''/etc/motd'' ''/tmp/version'' (ramfs_new [7]) = (Inr (), fs') \<and> ramfs_inv fs'
    \<and> view fs' = (view (ramfs_new [7]))(comps ''/etc/motd'' := None, comps ''/tmp/version'' \<mapsto>
        (File, snd (the (boot_tree [7] [''etc'', ''motd'']))))"
    by (rule rename_correct [OF inv, where x = "([], 0x1ED, 0, 0)"])
      (simp_all only: new(2) c boot_comps, simp_all add: boot_tree_def)
  then show ?thesis unfolding new(2) c boot_comps by (auto simp: boot_tree_def)
qed

text \<open>C37. Renaming a file to its own path does not leave it in place: the file is
  removed and the call reports that it does not exist.\<close>
theorem rename_to_itself_removes:
  assumes "ramfs_inv fs" "view fs (comps path) = Some (File, m)"
  shows "\<exists>fs'. ramfs_rename path path fs = (Inl ENOENT, fs') \<and> view fs' = (view fs)(comps path := None)"
proof -
  obtain i where i: "walk fs 0 (comps path) = Some i" "kind (fs ! i) = File" using view_SomeD [OF assms(2)] by blast
  have f: "file_at fs i" using assms(1) i walk0_bound [OF assms(1) i(1)] by (simp add: file_at_def)
  have "walk (without i fs) 0 (comps path) = None" using walk_without [OF f] i(1) by simp
  then have "ramfs_rename path path fs = (Inl ENOENT, without i fs)"
    using i by (simp add: ramfs_rename_def remove_file_def resolve_walk without_def)
  then show ?thesis using view_without [OF f i(1)] by blast
qed

theorem rename_to_itself_removes_witness:
  "\<exists>fs'. ramfs_rename ''/etc/motd'' ''/etc/motd'' (ramfs_new [7]) = (Inl ENOENT, fs')
    \<and> view fs' [''etc'', ''motd''] = None"
proof -
  have "0 + 7 < ROOT_PARENT" by (simp add: ROOT_PARENT_def)
  note new = ramfs_new_ok [OF this, of "[7]"]
  have "ramfs_inv (ramfs_new [7])" using new(1) by (simp add: room_def)
  from rename_to_itself_removes [OF this, of "''/etc/motd''"] show ?thesis
    using new(2) by (auto simp: boot_comps boot_tree_def simp del: comps_slash)
qed

lemma distinct_map_filter_unique:
  assumes "\<And>i j. \<lbrakk>i < length xs; j < length xs; P (xs ! i); P (xs ! j); f (xs ! i) = f (xs ! j)\<rbrakk> \<Longrightarrow> i = j"
  shows "distinct (map f (filter P xs))"
  using assms
proof (induction xs)
  case (Cons x xs)
  have "distinct (map f (filter P xs))"
    by (rule Cons.IH) (use Cons.prems [of "Suc _" "Suc _"] in simp)
  moreover have "f x \<notin> f ` {y \<in> set xs. P y}" if "P x"
    using Cons.prems [of 0 "Suc _"] that by (auto simp: in_set_conv_nth)
  ultimately show ?case by auto
qed simp

text \<open>C28. Listing a directory succeeds exactly on directories and returns every
  child once, with its kind, and nothing else.\<close>
theorem list_dir_complete:
  assumes "ramfs_inv fs"
  shows "(case list_dir path fs of
      None \<Rightarrow> \<not> is_dir path fs
    | Some es \<Rightarrow> is_dir path fs \<and> distinct (map fst es)
        \<and> set es = {(c, k). \<exists>m. view fs (comps path @ [c]) = Some (k, m)})"
proof (cases "list_dir path fs")
  case None
  then show ?thesis by (auto simp: list_dir_def is_dir_def split: option.splits if_splits)
next
  case (Some es)
  then obtain d where d: "walk fs 0 (comps path) = Some d" "kind (fs ! d) = Directory"
    and es: "es = map (\<lambda>n. (iname n, kind n)) (filter (\<lambda>n. parent_idx n = d) fs)"
    by (auto simp: list_dir_def resolve_walk split: option.splits if_splits)
  have "map fst es = map iname (filter (\<lambda>n. parent_idx n = d) fs)" by (simp add: es)
  then have dist: "distinct (map fst es)"
    using distinct_map_filter_unique [of fs "\<lambda>n. parent_idx n = d" iname] ramfs_inv_unique [OF assms] by simp
  have "(c, k) \<in> set es \<longleftrightarrow> (\<exists>m. view fs (comps path @ [c]) = Some (k, m))" for c k
  proof
    assume "(c, k) \<in> set es"
    then obtain j where j: "j < length fs" "parent_idx (fs ! j) = d" "iname (fs ! j) = c" "kind (fs ! j) = k"
      by (auto simp: es in_set_conv_nth)
    then show "\<exists>m. view fs (comps path @ [c]) = Some (k, m)"
      using find_child_at [OF assms j(1-3)] d(1) by (simp add: view_def walk_snoc meta_def)
  next
    assume "\<exists>m. view fs (comps path @ [c]) = Some (k, m)"
    then obtain j where "find_child fs d c = Some j" "kind (fs ! j) = k"
      using d(1) by (auto simp: view_def walk_snoc meta_def split: option.splits)
    then show "(c, k) \<in> set es" using find_child_Some [of fs d c j] by (force simp: es)
  qed
  then show ?thesis using Some d dist by (auto simp: is_dir_def resolve_walk)
qed

theorem list_dir_complete_witness:
  "ramfs_inv (ramfs_new [7]) \<and> (\<exists>es. list_dir ''/etc'' (ramfs_new [7]) = Some es \<and> (''motd'', File) \<in> set es)"
proof -
  have "0 + 7 < ROOT_PARENT" by (simp add: ROOT_PARENT_def)
  note new = ramfs_new_ok [OF this, of "[7]"]
  have inv: "ramfs_inv (ramfs_new [7])" using new(1) by (simp add: room_def)
  have "is_dir ''/etc'' (ramfs_new [7])"
    using new(2) by (simp add: is_dir_view boot_comps boot_tree_def del: comps_slash)
  then obtain es where "list_dir ''/etc'' (ramfs_new [7]) = Some es"
    "set es = {(c, k). \<exists>m. view (ramfs_new [7]) (comps ''/etc'' @ [c]) = Some (k, m)}"
    using list_dir_complete [OF inv, of "''/etc''"] by (auto split: option.splits simp del: comps_slash)
  then show ?thesis using inv new(2) by (simp add: boot_comps boot_tree_def del: comps_slash)
qed

end
