(* ===== verification/Disk.thy ===== *)
theory Disk
  imports Prelude
begin

text \<open>
  The block devices: little-endian fields in a byte buffer, and the sector
  interface of the ATA driver, \<open>drivers/ata.rs\<close>.  The medium is hardware: a
  drive holds 512 bytes per sector address and may fail to read or to write
  some addresses.  The driver's own part is what it does with them: it refuses
  absent drives, and it puts 28 bits of the address into the registers of a
  drive without 48-bit addressing.
\<close>

section \<open>Little-endian fields\<close>

definition le16 :: "u16 \<Rightarrow> bytes" where
  "le16 v = [ucast v, ucast (drop_bit 8 v)]"

definition le32 :: "u32 \<Rightarrow> bytes" where
  "le32 v = [ucast v, ucast (drop_bit 8 v), ucast (drop_bit 16 v), ucast (drop_bit 24 v)]"

definition from_le16 :: "u8 \<Rightarrow> u8 \<Rightarrow> u16" where
  "from_le16 a b = ucast a OR push_bit 8 (ucast b)"

definition from_le32 :: "u8 \<Rightarrow> u8 \<Rightarrow> u8 \<Rightarrow> u8 \<Rightarrow> u32" where
  "from_le32 a b c d =
    ((ucast a OR push_bit 8 (ucast b)) OR push_bit 16 (ucast c)) OR push_bit 24 (ucast d)"

definition rd16 :: "bytes \<Rightarrow> nat \<Rightarrow> u16" where
  "rd16 buf off = from_le16 (buf ! off) (buf ! (off + 1))"

definition rd32 :: "bytes \<Rightarrow> nat \<Rightarrow> u32" where
  "rd32 buf off = from_le32 (buf ! off) (buf ! (off + 1)) (buf ! (off + 2)) (buf ! (off + 3))"

lemma length_le [simp]: "length (le16 v) = 2" "length (le32 w) = 4"
  by (simp_all add: le16_def le32_def)

lemma from_le16_le16: "from_le16 (ucast v) (ucast (drop_bit 8 v)) = v"
  unfolding from_le16_def
  by (rule bit_word_eqI) (auto simp: bit_or_iff bit_push_bit_iff bit_ucast_iff bit_drop_bit_eq)

lemma from_le32_le32:
  "from_le32 (ucast v) (ucast (drop_bit 8 v)) (ucast (drop_bit 16 v)) (ucast (drop_bit 24 v)) = v"
proof (rule bit_word_eqI)
  fix n assume "n < LENGTH(32)"
  then consider "n < 8" | "8 \<le> n" "n < 16" | "16 \<le> n" "n < 24" | "24 \<le> n" "n < 32" by force
  then show "bit (from_le32 (ucast v) (ucast (drop_bit 8 v)) (ucast (drop_bit 16 v)) (ucast (drop_bit 24 v))) n
      = bit v n"
    by cases (simp_all add: less_diff_conv2 from_le32_def bit_or_iff bit_push_bit_iff bit_ucast_iff bit_drop_bit_eq)
qed

lemma rd16_blit:
  "off + 2 \<le> length buf \<Longrightarrow> rd16 (blit off (le16 v) buf) off = v"
  by (simp add: rd16_def nth_blit le16_def from_le16_le16)

lemma rd32_blit:
  "off + 4 \<le> length buf \<Longrightarrow> rd32 (blit off (le32 v) buf) off = v"
  by (simp add: rd32_def nth_blit le32_def from_le32_le32)

text \<open>A field read away from the bytes written is unchanged.\<close>

lemma rd16_blit_other:
  "\<lbrakk>off + length src \<le> length buf; i + 2 \<le> length buf; i + 2 \<le> off \<or> off + length src \<le> i\<rbrakk>
    \<Longrightarrow> rd16 (blit off src buf) i = rd16 buf i"
  by (auto simp: rd16_def nth_blit_outside)

lemma rd32_blit_other:
  "\<lbrakk>off + length src \<le> length buf; i + 4 \<le> length buf; i + 4 \<le> off \<or> off + length src \<le> i\<rbrakk>
    \<Longrightarrow> rd32 (blit off src buf) i = rd32 buf i"
  by (auto simp: rd32_def nth_blit_outside)

section \<open>Drives\<close>

text \<open>
  What a drive holds and how it answers: the sectors it fails to deliver
  (\<open>rd_err\<close>); those it does not ask data for, so that the driver gives up before
  sending any (\<open>wr_err\<close>); those whose data it takes and loses, which the driver
  does not notice because it reads no error bit after the transfer (\<open>wr_lost\<close>);
  and those whose flush does not finish in time, so that the driver reports a
  failure although the data was sent (\<open>wr_late\<close>).
\<close>

record drive =
  sect :: "u32 \<Rightarrow> bytes"
  rd_err :: "u32 \<Rightarrow> bool"
  wr_err :: "u32 \<Rightarrow> bool"
  wr_lost :: "u32 \<Rightarrow> bool"
  wr_late :: "u32 \<Rightarrow> bool"
  lba48 :: bool

text \<open>The table \<open>DISKS\<close> with its four positions.\<close>

type_synonym disks = "nat \<Rightarrow> drive option"

definition ata_addr :: "drive \<Rightarrow> u32 \<Rightarrow> u32" where
  "ata_addr d lba = (if lba48 d then lba else lba AND 0x0FFFFFFF)"

definition do_read :: "drive \<Rightarrow> u32 \<Rightarrow> bytes option" where
  "do_read d lba = (if rd_err d (ata_addr d lba) then None else Some (sect d (ata_addr d lba)))"

definition do_write :: "drive \<Rightarrow> u32 \<Rightarrow> bytes \<Rightarrow> bool \<times> drive" where
  "do_write d lba buf =
    (let a = ata_addr d lba in
     if wr_err d a then (False, d)
     else (\<not> wr_late d a, if wr_lost d a then d else d\<lparr>sect := (sect d)(a := buf)\<rparr>))"

definition read_sector :: "nat \<Rightarrow> u32 \<Rightarrow> disks \<Rightarrow> bytes option" where
  "read_sector idx lba ds = (case ds idx of None \<Rightarrow> None | Some d \<Rightarrow> do_read d lba)"

definition write_sector :: "nat \<Rightarrow> u32 \<Rightarrow> bytes \<Rightarrow> disks \<Rightarrow> bool \<times> disks" where
  "write_sector idx lba buf ds =
    (case ds idx of None \<Rightarrow> (False, ds)
     | Some d \<Rightarrow> (case do_write d lba buf of (ok, d') \<Rightarrow> (ok, ds(idx \<mapsto> d'))))"

definition is_present_at :: "nat \<Rightarrow> disks \<Rightarrow> bool" where
  "is_present_at idx ds \<longleftrightarrow> (if idx \<ge> 4 then False else ds idx \<noteq> None)"

definition is_present :: "disks \<Rightarrow> bool" where
  "is_present ds \<longleftrightarrow> ds 0 \<noteq> None"

definition is_present_sec :: "disks \<Rightarrow> bool" where
  "is_present_sec ds \<longleftrightarrow> ds 3 \<noteq> None"

definition read_sector_sec :: "u32 \<Rightarrow> disks \<Rightarrow> bytes option" where
  "read_sector_sec lba ds = read_sector 3 lba ds"

definition write_sector_sec :: "u32 \<Rightarrow> bytes \<Rightarrow> disks \<Rightarrow> bool \<times> disks" where
  "write_sector_sec lba buf ds = write_sector 3 lba buf ds"

text \<open>The multi-sector helpers stop at the first failing sector.\<close>

fun read_sectors :: "nat \<Rightarrow> u32 \<Rightarrow> nat \<Rightarrow> disks \<Rightarrow> bytes option" where
  "read_sectors idx lba 0 ds = Some []"
| "read_sectors idx lba (Suc n) ds =
    (case read_sector idx lba ds of
       None \<Rightarrow> None
     | Some b \<Rightarrow> map_option (\<lambda>bs. b @ bs) (read_sectors idx (lba + 1) n ds))"

fun write_sectors :: "nat \<Rightarrow> u32 \<Rightarrow> nat \<Rightarrow> bytes \<Rightarrow> disks \<Rightarrow> bool \<times> disks" where
  "write_sectors idx lba 0 buf ds = (True, ds)"
| "write_sectors idx lba (Suc n) buf ds =
    (case write_sector idx lba (take 512 buf) ds of
       (False, ds') \<Rightarrow> (False, ds')
     | (True, ds') \<Rightarrow> write_sectors idx (lba + 1) n (drop 512 buf) ds')"

section \<open>A drive without faults\<close>

text \<open>
  The positive theorems about the file systems are about drives that answer
  every request and are addressed with 48 bits, so that distinct sector numbers
  are distinct sectors.
\<close>

definition sound_drive :: "drive \<Rightarrow> bool" where
  "sound_drive d \<longleftrightarrow> (\<forall>a. \<not> rd_err d a \<and> \<not> wr_err d a \<and> \<not> wr_lost d a \<and> \<not> wr_late d a \<and> length (sect d a) = 512) \<and> lba48 d"

definition sound :: "nat \<Rightarrow> disks \<Rightarrow> bool" where
  "sound idx ds \<longleftrightarrow> (\<exists>d. ds idx = Some d \<and> sound_drive d)"

definition content :: "nat \<Rightarrow> disks \<Rightarrow> u32 \<Rightarrow> bytes" where
  "content idx ds = sect (the (ds idx))"

text \<open>What a client of a sector store relies on.\<close>

locale sector_store =
  fixes rd :: "u32 \<Rightarrow> 's \<Rightarrow> bytes option"
    and wr :: "u32 \<Rightarrow> bytes \<Rightarrow> 's \<Rightarrow> bool \<times> 's"
    and good :: "'s \<Rightarrow> bool"
    and cont :: "'s \<Rightarrow> u32 \<Rightarrow> bytes"
  assumes good_read: "good s \<Longrightarrow> rd a s = Some (cont s a)"
    and good_len: "good s \<Longrightarrow> length (cont s a) = 512"
    and good_write: "good s \<Longrightarrow> length b = 512 \<Longrightarrow>
      \<exists>s'. wr a b s = (True, s') \<and> good s' \<and> cont s' = (cont s)(a := b)"
begin

text \<open>The read-modify-write pattern: one sector changed by a function.\<close>

lemma modify:
  assumes "good s" "length (f (cont s a)) = 512"
  shows "\<exists>s'. wr a (f (cont s a)) s = (True, s') \<and> good s' \<and> cont s' = (cont s)(a := f (cont s a))"
  using good_write [OF assms] .

text \<open>A list of writes to distinct sectors, one after the other, all of which succeed.\<close>

fun write_all :: "(u32 \<times> bytes) list \<Rightarrow> 's \<Rightarrow> bool \<times> 's" where
  "write_all [] s = (True, s)"
| "write_all ((a, b) # ws) s = (case wr a b s of (False, s') \<Rightarrow> (False, s') | (True, s') \<Rightarrow> write_all ws s')"

lemma write_all_ok:
  "\<lbrakk>good s; \<forall>(a, b) \<in> set ws. length b = 512; distinct (map fst ws)\<rbrakk>
    \<Longrightarrow> \<exists>s'. write_all ws s = (True, s') \<and> good s'
      \<and> cont s' = (\<lambda>a. case map_of ws a of Some b \<Rightarrow> b | None \<Rightarrow> cont s a)"
proof (induction ws arbitrary: s)
  case (Cons w ws)
  obtain a b where w: "w = (a, b)" by (cases w)
  have "length b = 512" using Cons.prems(2) w by simp
  then obtain s1 where s1: "wr a b s = (True, s1)" "good s1" "cont s1 = (cont s)(a := b)"
    using good_write [OF Cons.prems(1)] by blast
  have "\<forall>(a, b) \<in> set ws. length b = 512" "distinct (map fst ws)" using Cons.prems by auto
  then obtain s' where s': "write_all ws s1 = (True, s')" "good s'"
    "cont s' = (\<lambda>a. case map_of ws a of Some b \<Rightarrow> b | None \<Rightarrow> cont s1 a)"
    using Cons.IH [OF s1(2)] by blast
  have "map_of ws a = None" using Cons.prems(3) w by (simp add: map_of_eq_None_iff)
  then have "cont s' = (\<lambda>x. case map_of (w # ws) x of Some y \<Rightarrow> y | None \<Rightarrow> cont s x)"
    using s'(3) s1(3) w by (auto simp: fun_eq_iff split: option.split)
  then show ?case using s1(1) s'(1,2) w by auto
qed simp

end

lemma sound_read: "sound idx ds \<Longrightarrow> read_sector idx a ds = Some (content idx ds a)"
  by (auto simp: sound_def sound_drive_def read_sector_def do_read_def content_def ata_addr_def)

lemma sound_len: "sound idx ds \<Longrightarrow> length (content idx ds a) = 512"
  by (auto simp: sound_def sound_drive_def content_def)

lemma sound_write:
  assumes "sound idx ds" "length b = 512"
  shows "\<exists>ds'. write_sector idx a b ds = (True, ds') \<and> sound idx ds' \<and> content idx ds' = (content idx ds)(a := b)"
  using assms by (auto simp: sound_def sound_drive_def write_sector_def do_write_def Let_def content_def ata_addr_def)

interpretation dev: sector_store "read_sector idx" "write_sector idx" "sound idx" "content idx" for idx
  by unfold_locales (simp_all add: sound_read sound_len sound_write)

lemma write_sector_other: "write_sector idx a b ds = (ok, ds') \<Longrightarrow> j \<noteq> idx \<Longrightarrow> ds' j = ds j"
  by (auto simp: write_sector_def split: option.splits prod.splits)

end
