(* ===== verification/Disk_Store.thy ===== *)
theory Disk_Store
  imports Disk Keyed_Table
begin

text \<open>
  The on-disk record store, \<open>drivers/disk_store.rs\<close>: one sector per record,
  addressed by a 32-bit id, protected by a checksum.  The flags \<open>STORE_MOUNTED\<close>
  and the drives are explicit state; serial output is left out.
\<close>

definition STORE_MAGIC :: u32 where [kdefs]: "STORE_MAGIC = 0x4F584453"
definition RECORD_MAGIC :: u32 where [kdefs]: "RECORD_MAGIC = 0x52454358"
definition STORE_BASE_LBA :: u32 where [kdefs]: "STORE_BASE_LBA = 2048"
definition MAX_RECORDS :: nat where [kdefs]: "MAX_RECORDS = 255"
definition RECORD_DATA_MAX :: nat where [kdefs]: "RECORD_DATA_MAX = 496"

record RecordSlot =
  rec_magic :: u32
  rec_id :: u32
  data_len :: u32
  rec_sum :: u32
  rec_data :: bytes

text \<open>The packed little-endian layout of a slot and of the header.\<close>

definition encode_slot :: "RecordSlot \<Rightarrow> bytes" where
  "encode_slot s = le32 (rec_magic s) @ le32 (rec_id s) @ le32 (data_len s) @ le32 (rec_sum s) @ rec_data s"

definition decode_slot :: "bytes \<Rightarrow> RecordSlot" where
  "decode_slot buf = \<lparr>rec_magic = rd32 buf 0, rec_id = rd32 buf 4, data_len = rd32 buf 8,
    rec_sum = rd32 buf 12, rec_data = take RECORD_DATA_MAX (drop 16 buf)\<rparr>"

definition store_header :: bytes where
  "store_header = le32 STORE_MAGIC @ le32 1 @ le32 (of_nat MAX_RECORDS) @ le32 (of_nat RECORD_DATA_MAX)
    @ replicate 496 0"

definition header_lba :: u32 where
  "header_lba = STORE_BASE_LBA"

definition record_lba :: "nat \<Rightarrow> u32" where
  "record_lba slot = STORE_BASE_LBA + 1 + of_nat slot"

definition checksum :: "bytes \<Rightarrow> u32" where
  "checksum d = foldl (\<lambda>acc b. acc XOR ucast b) 0 d"

definition read_slot :: "nat \<Rightarrow> nat \<Rightarrow> disks \<Rightarrow> RecordSlot option" where
  "read_slot disk slot ds = map_option decode_slot (read_sector disk (record_lba slot) ds)"

definition write_slot :: "nat \<Rightarrow> nat \<Rightarrow> RecordSlot \<Rightarrow> disks \<Rightarrow> bool \<times> disks" where
  "write_slot disk slot s ds = write_sector disk (record_lba slot) (encode_slot s) ds"

definition is_ext2_disk :: "nat \<Rightarrow> disks \<Rightarrow> bool" where
  "is_ext2_disk disk ds =
    (case read_sector disk 2 ds of None \<Rightarrow> False | Some buf \<Rightarrow> rd16 buf 56 = 0xEF53)"

fun zero_slots :: "nat \<Rightarrow> nat list \<Rightarrow> disks \<Rightarrow> disks" where
  "zero_slots disk [] ds = ds"
| "zero_slots disk (s # ss) ds = zero_slots disk ss (snd (write_sector disk (record_lba s) (replicate 512 0) ds))"

type_synonym store = "bool list \<times> disks"

definition store_mount :: "nat \<Rightarrow> store \<Rightarrow> bool \<times> store" where
  "store_mount disk st =
    (let (mounted, ds) = st in
     if \<not> is_present_at disk ds then (False, st)
     else case read_sector disk header_lba ds of
       None \<Rightarrow> (False, st)
     | Some buf \<Rightarrow>
        if rd32 buf 0 = STORE_MAGIC \<and> rd32 buf 4 = 1 \<and> rd32 buf 8 = of_nat MAX_RECORDS
        then (True, (mounted[disk := True], ds))
        else if is_ext2_disk disk ds then (False, st)
        else case write_sector disk header_lba store_header ds of
          (False, ds') \<Rightarrow> (False, (mounted, ds'))
        | (True, ds') \<Rightarrow> (True, (mounted[disk := True], zero_slots disk [0..<MAX_RECORDS] ds')))"

text \<open>The search loop: the slot with the id (which ends the search), the first empty slot.\<close>

fun scan_slots :: "nat \<Rightarrow> u32 \<Rightarrow> disks \<Rightarrow> nat list \<Rightarrow> nat option \<Rightarrow> nat option \<times> nat option" where
  "scan_slots disk ident ds [] first_empty = (None, first_empty)"
| "scan_slots disk ident ds (slot # ss) first_empty =
    (case read_slot disk slot ds of
       None \<Rightarrow> scan_slots disk ident ds ss first_empty
     | Some s \<Rightarrow>
        if rec_magic s = RECORD_MAGIC \<and> rec_id s = ident then (Some slot, first_empty)
        else if rec_magic s \<noteq> RECORD_MAGIC \<and> first_empty = None
             then scan_slots disk ident ds ss (Some slot)
             else scan_slots disk ident ds ss first_empty)"

definition new_record :: "u32 \<Rightarrow> bytes \<Rightarrow> RecordSlot" where
  "new_record ident d =
    (let n = min (length d) RECORD_DATA_MAX in
     \<lparr>rec_magic = RECORD_MAGIC, rec_id = ident, data_len = of_nat n, rec_sum = checksum (take n d),
      rec_data = take n d @ replicate (RECORD_DATA_MAX - n) 0\<rparr>)"

definition write_record :: "nat \<Rightarrow> u32 \<Rightarrow> bytes \<Rightarrow> store \<Rightarrow> bool \<times> store" where
  "write_record disk ident d st =
    (let (mounted, ds) = st in
     if \<not> mounted ! disk then (False, st)
     else (let (target, first_empty) = scan_slots disk ident ds [0..<MAX_RECORDS] None in
           case (case target of Some s \<Rightarrow> Some s | None \<Rightarrow> first_empty) of
             None \<Rightarrow> (False, st)
           | Some slot \<Rightarrow> (let (ok, ds') = write_slot disk slot (new_record ident d) ds in (ok, (mounted, ds')))))"

fun read_loop :: "nat \<Rightarrow> u32 \<Rightarrow> disks \<Rightarrow> nat list \<Rightarrow> bytes \<Rightarrow> nat option \<times> bytes" where
  "read_loop disk ident ds [] buf = (None, buf)"
| "read_loop disk ident ds (slot # ss) buf =
    (case read_slot disk slot ds of
       None \<Rightarrow> (None, buf)
     | Some s \<Rightarrow>
        if rec_magic s \<noteq> RECORD_MAGIC \<or> rec_id s \<noteq> ident then read_loop disk ident ds ss buf
        else (let dlen = min (unat (data_len s)) RECORD_DATA_MAX in
              if checksum (take dlen (rec_data s)) \<noteq> rec_sum s then (None, buf)
              else (let copy = min dlen (length buf) in (Some copy, blit 0 (take copy (rec_data s)) buf))))"

definition read_record :: "nat \<Rightarrow> u32 \<Rightarrow> bytes \<Rightarrow> store \<Rightarrow> nat option \<times> bytes" where
  "read_record disk ident buf st =
    (let (mounted, ds) = st in
     if \<not> mounted ! disk then (None, buf) else read_loop disk ident ds [0..<MAX_RECORDS] buf)"

fun delete_loop :: "nat \<Rightarrow> u32 \<Rightarrow> nat list \<Rightarrow> disks \<Rightarrow> bool \<times> disks" where
  "delete_loop disk ident [] ds = (False, ds)"
| "delete_loop disk ident (slot # ss) ds =
    (case read_slot disk slot ds of
       None \<Rightarrow> delete_loop disk ident ss ds
     | Some s \<Rightarrow>
        if rec_magic s = RECORD_MAGIC \<and> rec_id s = ident
        then write_sector disk (record_lba slot) (replicate 512 0) ds
        else delete_loop disk ident ss ds)"

definition delete_record :: "nat \<Rightarrow> u32 \<Rightarrow> store \<Rightarrow> bool \<times> store" where
  "delete_record disk ident st =
    (let (mounted, ds) = st in
     if \<not> mounted ! disk then (False, st)
     else (let (ok, ds') = delete_loop disk ident [0..<MAX_RECORDS] ds in (ok, (mounted, ds'))))"

fun list_loop :: "nat \<Rightarrow> disks \<Rightarrow> nat list \<Rightarrow> nat \<Rightarrow> u32 list \<Rightarrow> nat \<times> u32 list" where
  "list_loop disk ds [] count out = (count, out)"
| "list_loop disk ds (slot # ss) count out =
    (if count \<ge> length out then (count, out)
     else case read_slot disk slot ds of
       None \<Rightarrow> list_loop disk ds ss count out
     | Some s \<Rightarrow>
        if rec_magic s = RECORD_MAGIC then list_loop disk ds ss (count + 1) (out[count := rec_id s])
        else list_loop disk ds ss count out)"

definition list_records :: "nat \<Rightarrow> u32 list \<Rightarrow> store \<Rightarrow> nat \<times> u32 list" where
  "list_records disk out st =
    (let (mounted, ds) = st in
     if \<not> mounted ! disk then (0, out) else list_loop disk ds [0..<MAX_RECORDS] 0 out)"

definition is_mounted :: "nat \<Rightarrow> store \<Rightarrow> bool" where
  "is_mounted disk st = fst st ! disk"

section \<open>The sectors of the store as a table\<close>

lemma decode_encode: "length (rec_data s) = RECORD_DATA_MAX \<Longrightarrow> decode_slot (encode_slot s) = s"
  by (simp add: decode_slot_def encode_slot_def rd32_def le32_def nth_append from_le32_le32)

lemma length_encode_slot: "length (rec_data s) = RECORD_DATA_MAX \<Longrightarrow> length (encode_slot s) = 512"
  by (simp add: encode_slot_def RECORD_DATA_MAX_def)

lemma record_lba_eq:
  assumes "i < MAX_RECORDS" "j < MAX_RECORDS"
  shows "record_lba i = record_lba j \<longleftrightarrow> i = j"
proof
  assume "record_lba i = record_lba j"
  then have "(of_nat i :: u32) = of_nat j" by (simp add: record_lba_def)
  then have "unat (of_nat i :: u32) = unat (of_nat j :: u32)" by simp
  then show "i = j" using assms by (simp add: unat_of_nat_small MAX_RECORDS_def)
qed simp

definition slots :: "nat \<Rightarrow> disks \<Rightarrow> RecordSlot list" where
  "slots disk ds = map (\<lambda>i. decode_slot (content disk ds (record_lba i))) [0..<MAX_RECORDS]"

definition slot_key :: "RecordSlot \<Rightarrow> u32 option" where
  "slot_key s = (if rec_magic s = RECORD_MAGIC then Some (rec_id s) else None)"

definition slot_value :: "RecordSlot \<Rightarrow> bytes" where
  "slot_value s = take (unat (data_len s)) (rec_data s)"

definition slot_ok :: "RecordSlot \<Rightarrow> bool" where
  "slot_ok s \<longleftrightarrow> length (rec_data s) = RECORD_DATA_MAX \<and>
    (slot_key s \<noteq> None \<longrightarrow> unat (data_len s) \<le> RECORD_DATA_MAX \<and> checksum (slot_value s) = rec_sum s)"

definition store_inv :: "nat \<Rightarrow> store \<Rightarrow> bool" where
  "store_inv disk st \<longleftrightarrow> sound disk (snd st) \<and> fst st ! disk
    \<and> uniq slot_key (slots disk (snd st)) \<and> list_all slot_ok (slots disk (snd st))"

definition store_abs :: "nat \<Rightarrow> store \<Rightarrow> u32 \<Rightarrow> bytes option" where
  "store_abs disk st = tab_map slot_key slot_value (slots disk (snd st))"

lemma length_slots [simp]: "length (slots disk ds) = MAX_RECORDS"
  by (simp add: slots_def)

lemma read_slot_sound: "sound disk ds \<Longrightarrow> i < MAX_RECORDS \<Longrightarrow> read_slot disk i ds = Some (slots disk ds ! i)"
  by (simp add: read_slot_def sound_read slots_def)

lemma slots_update:
  assumes "i < MAX_RECORDS" "content disk ds' = (content disk ds)(record_lba i := b)"
  shows "slots disk ds' = (slots disk ds)[i := decode_slot b]"
  using assms by (intro nth_equalityI) (auto simp: slots_def nth_list_update record_lba_eq)

lemma write_sector_slot:
  assumes "sound disk ds" "i < MAX_RECORDS" "length b = 512"
  shows "\<exists>ds'. write_sector disk (record_lba i) b ds = (True, ds') \<and> sound disk ds'
    \<and> slots disk ds' = (slots disk ds)[i := decode_slot b]"
  using sound_write [OF assms(1,3)] slots_update [OF assms(2)] by blast

text \<open>The loops are searches of that table.\<close>

lemma scan_slots_list:
  assumes "\<forall>j \<in> set js. read_slot disk j ds = Some (S ! j)"
  shows "fst (scan_slots disk ident ds js fe)
      = map_option ((!) js) (first_index (\<lambda>j. slot_key (S ! j) = Some ident) js)
    \<and> (first_index (\<lambda>j. slot_key (S ! j) = Some ident) js = None \<longrightarrow>
        snd (scan_slots disk ident ds js fe)
          = (case fe of Some e \<Rightarrow> Some e
             | None \<Rightarrow> map_option ((!) js) (first_index (\<lambda>j. slot_key (S ! j) = None) js)))"
  using assms
  by (induction js arbitrary: fe)
    (auto simp: slot_key_def option.map_comp comp_def split: option.split)

lemma scan_slots_search:
  assumes "sound disk ds"
  shows "fst (scan_slots disk ident ds [0..<MAX_RECORDS] None) = tab_find slot_key ident (slots disk ds)"
    "tab_find slot_key ident (slots disk ds) = None \<Longrightarrow>
      snd (scan_slots disk ident ds [0..<MAX_RECORDS] None)
        = first_index (\<lambda>s. slot_key s = None) (slots disk ds)"
proof -
  let ?S = "slots disk ds"
  have eqs: "first_index (\<lambda>j. slot_key (?S ! j) = Some ident) [0..<MAX_RECORDS] = tab_find slot_key ident ?S"
    "first_index (\<lambda>j. slot_key (?S ! j) = None) [0..<MAX_RECORDS] = first_index (\<lambda>s. slot_key s = None) ?S"
    using first_index_upt [of "\<lambda>s. slot_key s = Some ident" ?S] first_index_upt [of "\<lambda>s. slot_key s = None" ?S]
    by (simp_all add: tab_find_def)
  have "\<forall>j \<in> set [0..<MAX_RECORDS]. read_slot disk j ds = Some (?S ! j)" using read_slot_sound [OF assms] by simp
  note scan = scan_slots_list [OF this, of ident None, unfolded first_index_upt_nth]
  show "fst (scan_slots disk ident ds [0..<MAX_RECORDS] None) = tab_find slot_key ident ?S"
    "tab_find slot_key ident ?S = None \<Longrightarrow>
      snd (scan_slots disk ident ds [0..<MAX_RECORDS] None) = first_index (\<lambda>s. slot_key s = None) ?S"
    using scan unfolding eqs by simp_all
qed

lemma read_loop_search:
  assumes "\<forall>j \<in> set js. read_slot disk j ds = Some (S ! j) \<and> slot_ok (S ! j)"
  shows "read_loop disk ident ds js buf =
    (case map_option ((!) js) (first_index (\<lambda>j. slot_key (S ! j) = Some ident) js) of
       None \<Rightarrow> (None, buf)
     | Some j \<Rightarrow> (let v = slot_value (S ! j); n = min (length v) (length buf)
                 in (Some n, blit 0 (take n v) buf)))"
  using assms
proof (induction js)
  case (Cons j js)
  have ok: "slot_ok (S ! j)" "read_slot disk j ds = Some (S ! j)" using Cons.prems by simp_all
  show ?case
  proof (cases "slot_key (S ! j) = Some ident")
    case True
    let ?s = "S ! j"
    have "unat (data_len ?s) \<le> RECORD_DATA_MAX" "checksum (slot_value ?s) = rec_sum ?s"
      "length (slot_value ?s) = unat (data_len ?s)"
      using ok(1) True by (auto simp: slot_ok_def slot_value_def)
    then show ?thesis using True ok(2)
      by (auto simp: slot_key_def slot_value_def Let_def min_def split: if_splits)
  next
    case False
    then have "read_loop disk ident ds (j # js) buf = read_loop disk ident ds js buf"
      using ok(2) by (auto simp: slot_key_def split: if_splits)
    then show ?thesis using Cons False by (simp add: option.map_comp comp_def)
  qed
qed simp

lemma delete_loop_search:
  assumes "\<forall>j \<in> set js. read_slot disk j ds = Some (S ! j)"
  shows "delete_loop disk ident js ds =
    (case map_option ((!) js) (first_index (\<lambda>j. slot_key (S ! j) = Some ident) js) of
       None \<Rightarrow> (False, ds)
     | Some j \<Rightarrow> write_sector disk (record_lba j) (replicate 512 0) ds)"
  using assms
proof (induction js)
  case (Cons j js)
  then have ok: "read_slot disk j ds = Some (S ! j)" by simp
  show ?case
  proof (cases "slot_key (S ! j) = Some ident")
    case True
    then show ?thesis using ok by (auto simp: slot_key_def split: if_splits)
  next
    case False
    then have "delete_loop disk ident (j # js) ds = delete_loop disk ident js ds"
      using ok by (auto simp: slot_key_def split: if_splits)
    then show ?thesis using Cons False by (simp add: option.map_comp comp_def)
  qed
qed simp

section \<open>Refinement\<close>

datatype store_op = SWrite u32 bytes | SRead u32 nat | SDelete u32

datatype store_ans = Flag bool | Found "bytes option"

text \<open>A read is given a buffer of \<open>n\<close> bytes; its answer is the part it filled.\<close>

fun store_step :: "nat \<Rightarrow> store_op \<Rightarrow> store \<Rightarrow> store_ans \<times> store" where
  "store_step disk (SWrite k d) st = apfst Flag (write_record disk k d st)"
| "store_step disk (SRead k n) st =
    (let (r, buf) = read_record disk k (replicate n 0) st
     in (Found (map_option (\<lambda>m. take m buf) r), st))"
| "store_step disk (SDelete k) st = apfst Flag (delete_record disk k st)"

fun store_spec :: "store_op \<Rightarrow> (u32 \<Rightarrow> bytes option) \<Rightarrow> store_ans \<times> (u32 \<Rightarrow> bytes option)" where
  "store_spec (SWrite k d) A =
    (if A k = None \<and> card (dom A) = MAX_RECORDS then (Flag False, A)
     else (Flag True, A(k \<mapsto> take RECORD_DATA_MAX d)))"
| "store_spec (SRead k n) A = (Found (map_option (take n) (A k)), A)"
| "store_spec (SDelete k) A = (Flag (A k \<noteq> None), A(k := None))"

lemma new_record_ok:
  "slot_key (new_record k d) = Some k" "slot_value (new_record k d) = take RECORD_DATA_MAX d"
  "length (rec_data (new_record k d)) = RECORD_DATA_MAX" "slot_ok (new_record k d)"
proof -
  let ?n = "min (length d) RECORD_DATA_MAX"
  have u: "unat (of_nat ?n :: u32) = ?n" by (rule unat_of_nat_small) (simp add: RECORD_DATA_MAX_def min_def)
  show k: "slot_key (new_record k d) = Some k" by (simp add: new_record_def slot_key_def Let_def)
  show l: "length (rec_data (new_record k d)) = RECORD_DATA_MAX" by (simp add: new_record_def Let_def)
  have v: "slot_value (new_record k d) = take ?n d" using u by (simp add: new_record_def slot_value_def Let_def)
  then show "slot_value (new_record k d) = take RECORD_DATA_MAX d" by (simp add: min_def)
  show "slot_ok (new_record k d)" using u v l by (simp add: slot_ok_def new_record_def Let_def)
qed

lemma empty_slot: "slot_key (decode_slot (replicate 512 0)) = None" "slot_ok (decode_slot (replicate 512 0))"
proof -
  have "rd32 (replicate 512 0) 0 = 0" by (simp add: rd32_def from_le32_def)
  then have "rec_magic (decode_slot (replicate 512 0)) = 0" by (simp add: decode_slot_def)
  then show "slot_key (decode_slot (replicate 512 0)) = None" by (simp add: slot_key_def RECORD_MAGIC_def)
  then show "slot_ok (decode_slot (replicate 512 0))"
    by (simp add: slot_ok_def decode_slot_def RECORD_DATA_MAX_def)
qed

lemma write_record_refines:
  assumes inv: "store_inv disk st" and step: "write_record disk k d st = (r, st')"
  shows "store_inv disk st' \<and> store_spec (SWrite k d) (store_abs disk st) = (Flag r, store_abs disk st')"
proof -
  obtain mounted ds where st: "st = (mounted, ds)" by (cases st)
  have s: "sound disk ds" and m: "mounted ! disk" and u: "uniq slot_key (slots disk ds)"
    and ok: "list_all slot_ok (slots disk ds)" using inv by (auto simp: store_inv_def st)
  let ?S = "slots disk ds" and ?A = "store_abs disk st" and ?r = "new_record k d"
  note scan = scan_slots_search [OF s, of k]
  have full: "first_index (\<lambda>e. slot_key e = None) ?S = None \<longleftrightarrow> card (dom ?A) = MAX_RECORDS"
    using table_full_iff [OF u, of slot_value] by (simp add: store_abs_def st)
  have none: "?A k = None \<longleftrightarrow> tab_find slot_key k ?S = None" by (simp add: store_abs_def st tab_map_None)
  have put: "store_inv disk st' \<and> r \<and> store_abs disk st' = ?A(k \<mapsto> take RECORD_DATA_MAX d)"
    if i: "i < MAX_RECORDS" and key: "slot_key (?S ! i) = Some k \<or> slot_key (?S ! i) = None \<and> tab_find slot_key k ?S = None"
      and w: "write_slot disk i ?r ds = (r, snd st')" and f: "fst st' = mounted" for i
  proof -
    from write_sector_slot [OF s i length_encode_slot [OF new_record_ok(3) [of k d]]]
    obtain ds' where ds': "write_slot disk i ?r ds = (True, ds')" "sound disk ds'"
      "slots disk ds' = ?S[i := ?r]"
      using decode_encode [OF new_record_ok(3), of k d] by (auto simp: write_slot_def)
    note t = tab_map_set(1) [OF u _ new_record_ok(1) [of k d] key]
      tab_map_set(2) [OF u _ new_record_ok(1) [of k d] key, of slot_value]
    show ?thesis using ds' w f m t i ok new_record_ok(2,4) [of k d]
      by (simp add: store_inv_def store_abs_def st list_all_update)
  qed
  show ?thesis
  proof (cases "tab_find slot_key k ?S")
    case (Some i)
    have i: "i < MAX_RECORDS" "slot_key (?S ! i) = Some k" using tab_find_SomeD [OF Some] by auto
    have "write_slot disk i ?r ds = (r, snd st')" "fst st' = mounted"
      using step scan(1) Some m by (auto simp: write_record_def st Let_def split: prod.splits)
    then show ?thesis using put [OF i(1)] i(2) none Some by simp
  next
    case None
    show ?thesis
    proof (cases "first_index (\<lambda>e. slot_key e = None) ?S")
      case (Some i)
      have i: "i < MAX_RECORDS" "slot_key (?S ! i) = None" using first_index_SomeD [OF Some] by auto
      have "write_slot disk i ?r ds = (r, snd st')" "fst st' = mounted"
        using step scan None Some m by (auto simp: write_record_def st Let_def split: prod.splits)
      then show ?thesis using put [OF i(1)] i(2) none full Some None by simp
    next
      case full': None
      then have "r = False" "st' = st"
        using step scan None m by (auto simp: write_record_def st Let_def split: prod.splits)
      then show ?thesis using none full full' None inv by simp
    qed
  qed
qed

lemma slots_all:
  assumes "sound disk ds" "list_all slot_ok (slots disk ds)"
  shows "\<forall>j \<in> set [0..<MAX_RECORDS]. read_slot disk j ds = Some (slots disk ds ! j) \<and> slot_ok (slots disk ds ! j)"
  using assms read_slot_sound by (simp add: list_all_length)

lemma slots_find:
  "map_option ((!) [0..<MAX_RECORDS]) (first_index (\<lambda>j. slot_key (slots disk ds ! j) = Some k) [0..<MAX_RECORDS])
    = tab_find slot_key k (slots disk ds)"
  unfolding first_index_upt_nth
  using first_index_upt [of "\<lambda>s. slot_key s = Some k" "slots disk ds"] by (simp add: tab_find_def)

lemma read_record_refines:
  assumes inv: "store_inv disk st"
  shows "store_step disk (SRead k n) st = (Found (map_option (take n) (store_abs disk st k)), st)"
proof -
  obtain mounted ds where st: "st = (mounted, ds)" by (cases st)
  have s: "sound disk ds" and m: "mounted ! disk" and ok: "list_all slot_ok (slots disk ds)"
    using inv by (auto simp: store_inv_def st)
  note rd = read_loop_search [OF slots_all [OF s ok], of k "replicate n 0"]
  show ?thesis
    using m by (cases "tab_find slot_key k (slots disk ds)")
      (simp_all add: read_record_def st rd slots_find store_abs_def tab_map_def Let_def blit_def min_def)
qed

lemma delete_record_refines:
  assumes inv: "store_inv disk st" and step: "delete_record disk k st = (r, st')"
  shows "store_inv disk st' \<and> store_spec (SDelete k) (store_abs disk st) = (Flag r, store_abs disk st')"
proof -
  obtain mounted ds where st: "st = (mounted, ds)" by (cases st)
  have s: "sound disk ds" and m: "mounted ! disk" and u: "uniq slot_key (slots disk ds)"
    and ok: "list_all slot_ok (slots disk ds)" using inv by (auto simp: store_inv_def st)
  have all: "\<forall>j \<in> set [0..<MAX_RECORDS]. read_slot disk j ds = Some (slots disk ds ! j)"
    using slots_all [OF s ok] by simp
  note del = delete_loop_search [OF all, of k, unfolded slots_find]
  show ?thesis
  proof (cases "tab_find slot_key k (slots disk ds)")
    case None
    then have "r = False" "st' = st" using step m del by (auto simp: delete_record_def st)
    then show ?thesis using None inv by (auto simp: store_abs_def st tab_map_None fun_upd_idem)
  next
    case (Some i)
    have i: "i < MAX_RECORDS" "slot_key (slots disk ds ! i) = Some k" using tab_find_SomeD [OF Some] by auto
    obtain ds' where ds': "write_sector disk (record_lba i) (replicate 512 0) ds = (True, ds')" "sound disk ds'"
      "slots disk ds' = (slots disk ds)[i := decode_slot (replicate 512 0)]"
      using write_sector_slot [OF s i(1), of "replicate 512 0"] by auto
    have "r = True" "st' = (mounted, ds')" using step m del Some ds'(1) by (auto simp: delete_record_def st)
    then show ?thesis
      using ds' m ok i u empty_slot tab_map_del(1) [OF u _ i(2) empty_slot(1)]
        tab_map_del(2) [OF u _ i(2) empty_slot(1), of slot_value] tab_map_at [OF u _ i(2), of slot_value]
      by (simp add: store_inv_def store_abs_def st list_all_update)
  qed
qed

lemma store_step_refines:
  assumes "store_inv disk st" "store_step disk a st = (r, st')"
  shows "store_inv disk st' \<and> store_spec a (store_abs disk st) = (r, store_abs disk st')"
proof (cases a)
  case (SWrite k d)
  then show ?thesis using assms write_record_refines [of disk st k d] by (cases "write_record disk k d st") auto
next
  case (SRead k n)
  then show ?thesis using assms read_record_refines [OF assms(1), of k n] by auto
next
  case (SDelete k)
  then show ?thesis using assms delete_record_refines [of disk st k] by (cases "delete_record disk k st") auto
qed

interpretation store_sim: simulation "store_step disk" store_spec "store_inv disk" "store_abs disk" "\<lambda>_. True" for disk
  using store_step_refines by unfold_locales blast+

section \<open>Formatting\<close>

lemma zero_slots_ok:
  "\<lbrakk>sound disk ds; \<forall>s \<in> set ss. s < MAX_RECORDS\<rbrakk> \<Longrightarrow> sound disk (zero_slots disk ss ds)
    \<and> content disk (zero_slots disk ss ds)
        = (\<lambda>a. if a \<in> record_lba ` set ss then replicate 512 0 else content disk ds a)"
proof (induction ss arbitrary: ds)
  case (Cons s ss)
  obtain ds' where ds': "write_sector disk (record_lba s) (replicate 512 0) ds = (True, ds')" "sound disk ds'"
    "content disk ds' = (content disk ds)(record_lba s := replicate 512 0)"
    using sound_write [OF Cons.prems(1), of "replicate 512 0" "record_lba s"] by auto
  then show ?case using Cons.IH [OF ds'(2)] Cons.prems by (auto simp: fun_eq_iff)
qed simp

definition has_store_header :: "bytes \<Rightarrow> bool" where
  "has_store_header buf \<longleftrightarrow> rd32 buf 0 = STORE_MAGIC \<and> rd32 buf 4 = 1 \<and> rd32 buf 8 = of_nat MAX_RECORDS"

lemma mount_formats:
  assumes s: "sound disk ds" and d: "disk < 4" and nh: "\<not> has_store_header (content disk ds 2048)"
    and ne: "rd16 (content disk ds 2) 56 \<noteq> 0xEF53"
  shows "\<exists>ds'. store_mount disk (mounted, ds) = (True, (mounted[disk := True], ds')) \<and> sound disk ds'
    \<and> content disk ds' = (\<lambda>a. if a \<in> record_lba ` {..<MAX_RECORDS} then replicate 512 0
                              else if a = 2048 then store_header else content disk ds a)"
proof -
  have "length store_header = 512" by (simp add: store_header_def)
  then obtain ds1 where ds1: "write_sector disk header_lba store_header ds = (True, ds1)" "sound disk ds1"
    "content disk ds1 = (content disk ds)(2048 := store_header)"
    using sound_write [OF s, of store_header header_lba] by (auto simp: header_lba_def STORE_BASE_LBA_def)
  have z: "sound disk (zero_slots disk [0..<MAX_RECORDS] ds1)
      \<and> content disk (zero_slots disk [0..<MAX_RECORDS] ds1)
        = (\<lambda>a. if a \<in> record_lba ` set [0..<MAX_RECORDS] then replicate 512 0 else content disk ds1 a)"
    by (rule zero_slots_ok [OF ds1(2)]) simp
  have "is_present_at disk ds" using s d by (auto simp: is_present_at_def sound_def)
  then have "store_mount disk (mounted, ds) = (True, (mounted[disk := True], zero_slots disk [0..<MAX_RECORDS] ds1))"
    using ds1(1) nh ne sound_read [OF s]
    by (auto simp: store_mount_def is_ext2_disk_def has_store_header_def header_lba_def STORE_BASE_LBA_def)
  then show ?thesis using z ds1(3) by (auto simp: fun_eq_iff atLeast0LessThan)
qed

lemma mount_inv:
  assumes "sound disk ds" "disk < 4" "length mounted = 4" "\<not> has_store_header (content disk ds 2048)"
    "rd16 (content disk ds 2) 56 \<noteq> 0xEF53"
  shows "\<exists>st. store_mount disk (mounted, ds) = (True, st) \<and> store_inv disk st \<and> store_abs disk st = Map.empty"
proof -
  obtain ds' where ds': "store_mount disk (mounted, ds) = (True, (mounted[disk := True], ds'))" "sound disk ds'"
    "content disk ds' = (\<lambda>a. if a \<in> record_lba ` {..<MAX_RECORDS} then replicate 512 0
                              else if a = 2048 then store_header else content disk ds a)"
    using mount_formats [OF assms(1,2,4,5)] by blast
  have "slots disk ds' = map (\<lambda>i. decode_slot (replicate 512 0)) [0..<MAX_RECORDS]"
    unfolding slots_def using ds'(3) by (intro map_cong) auto
  then have sl: "slots disk ds' = replicate MAX_RECORDS (decode_slot (replicate 512 0))"
    by (simp add: map_replicate_const)
  have "store_inv disk (mounted[disk := True], ds')"
    using ds'(2) assms(2,3) empty_slot by (simp add: store_inv_def sl uniq_def list_all_iff)
  moreover have "store_abs disk (mounted[disk := True], ds') = Map.empty"
    using empty_slot by (auto simp: store_abs_def sl tab_map_None tab_find_None)
  ultimately show ?thesis using ds'(1) by blast
qed

text \<open>C19. A freshly formatted record store behaves as a map from ids to byte strings:
  every sequence of writes, reads and deletes returns what the map returns, where a
  write keeps the first 496 bytes and fails only for a new id when all 255 slots are
  taken.  In particular what is written is read back unchanged, checksum included.\<close>
theorem store_trace_refines:
  assumes "sound disk ds" "disk < 4" "length mounted = 4" "\<not> has_store_header (content disk ds 2048)"
    "rd16 (content disk ds 2) 56 \<noteq> 0xEF53"
  shows "\<exists>st. store_mount disk (mounted, ds) = (True, st) \<and>
    fst (run_ops (store_step disk) ops st) = fst (run_ops store_spec ops Map.empty)"
proof -
  obtain st where st: "store_mount disk (mounted, ds) = (True, st)" "store_inv disk st" "store_abs disk st = Map.empty"
    using mount_inv [OF assms] by blast
  obtain rs st' where run: "run_ops (store_step disk) ops st = (rs, st')" by (rule prod.exhaust)
  from store_sim.run_refines [OF st(2) _ run] st show ?thesis using run by (auto simp: list_all_iff)
qed

definition blank_drive :: drive where
  "blank_drive = \<lparr>sect = (\<lambda>_. replicate 512 0), rd_err = (\<lambda>_. False), wr_err = (\<lambda>_. False),
    wr_lost = (\<lambda>_. False), wr_late = (\<lambda>_. False), lba48 = True\<rparr>"

lemma blank_sound: "sound k [k \<mapsto> blank_drive]" "content k [k \<mapsto> blank_drive] a = replicate 512 0"
  by (simp_all add: sound_def sound_drive_def blank_drive_def content_def)

lemma blank_fields: "\<not> has_store_header (replicate 512 0)" "rd16 (replicate 512 0) 56 = 0"
  by (simp_all add: has_store_header_def rd32_def rd16_def from_le32_def from_le16_def STORE_MAGIC_def)

theorem store_trace_refines_witness:
  "\<exists>st. store_mount 0 (replicate 4 False, [0 \<mapsto> blank_drive]) = (True, st) \<and>
    fst (run_ops (store_step 0) [SWrite 7 [1, 2, 3], SRead 7 2, SWrite 7 [4], SRead 7 9, SDelete 7, SRead 7 9] st)
      = [Flag True, Found (Some [1, 2]), Flag True, Found (Some [4]), Flag True, Found None]"
  using store_trace_refines [of 0 "[0 \<mapsto> blank_drive]" "replicate 4 False"
      "[SWrite 7 [1, 2, 3], SRead 7 2, SWrite 7 [4], SRead 7 9, SDelete 7, SRead 7 9]"] blank_sound blank_fields
  by (simp add: RECORD_DATA_MAX_def MAX_RECORDS_def)

end
