(* ===== verification/Mbr.thy ===== *)
theory Mbr
  imports Disk
begin

text \<open>
  The partition table parser, \<open>fs/mbr.rs\<close>.  The static \<open>MBR\<close> is explicit state;
  serial output is left out.
\<close>

definition PTYPE_FAT16_SMALL :: u8 where [kdefs]: "PTYPE_FAT16_SMALL = 0x04"
definition PTYPE_FAT16_LARGE :: u8 where [kdefs]: "PTYPE_FAT16_LARGE = 0x06"
definition PTYPE_FAT16_LBA :: u8 where [kdefs]: "PTYPE_FAT16_LBA = 0x0E"
definition PTYPE_LINUX :: u8 where [kdefs]: "PTYPE_LINUX = 0x83"

record PartEntry =
  pstatus :: u8
  partition_type :: u8
  start_lba :: u32
  size_sectors :: u32

definition part_empty :: PartEntry where
  "part_empty = \<lparr>pstatus = 0, partition_type = 0, start_lba = 0, size_sectors = 0\<rparr>"

definition part_is_empty :: "PartEntry \<Rightarrow> bool" where
  "part_is_empty e \<longleftrightarrow> partition_type e = 0 \<and> start_lba e = 0"

record MbrState =
  entries :: "PartEntry list"
  whole_disk :: bool
  valid :: bool

definition mbr_new :: MbrState where
  "mbr_new = \<lparr>entries = [part_empty, part_empty, part_empty, part_empty], whole_disk = True, valid = False\<rparr>"

definition part_entry :: "bytes \<Rightarrow> nat \<Rightarrow> PartEntry" where
  "part_entry buf i =
    (let off = 446 + i * 16 in
     \<lparr>pstatus = buf ! off, partition_type = buf ! (off + 4),
      start_lba = rd32 buf (off + 8), size_sectors = rd32 buf (off + 12)\<rparr>)"

definition mbr_init :: "disks \<Rightarrow> MbrState \<Rightarrow> MbrState" where
  "mbr_init ds m =
    (if \<not> is_present ds then m
     else case read_sector 0 0 ds of
       None \<Rightarrow> m
     | Some buf \<Rightarrow>
        if buf ! 510 \<noteq> 0x55 \<or> buf ! 511 \<noteq> 0xAA then m
        else if buf ! 0 = 0xEB \<or> buf ! 0 = 0xE9 then m\<lparr>valid := True, whole_disk := True\<rparr>
        else (let es = map (part_entry buf) [0..<4] in
              m\<lparr>valid := True, entries := es, whole_disk := \<not> list_ex (\<lambda>e. partition_type e \<noteq> 0) es\<rparr>))"

definition is_fat16_type :: "u8 \<Rightarrow> bool" where
  "is_fat16_type t \<longleftrightarrow> t = PTYPE_FAT16_SMALL \<or> t = PTYPE_FAT16_LARGE \<or> t = PTYPE_FAT16_LBA"

definition fat16_lba_offset :: "MbrState \<Rightarrow> u32" where
  "fat16_lba_offset m =
    (if \<not> valid m \<or> whole_disk m then 0
     else case find (\<lambda>e. is_fat16_type (partition_type e)) (entries m) of
       Some e \<Rightarrow> start_lba e | None \<Rightarrow> 0)"

definition ext2_lba_offset :: "MbrState \<Rightarrow> u32 option" where
  "ext2_lba_offset m =
    (if \<not> valid m \<or> whole_disk m then None
     else map_option start_lba (find (\<lambda>e. partition_type e = PTYPE_LINUX) (entries m)))"

section \<open>Partition tables as an installer writes them\<close>

text \<open>The 16 bytes of one entry; the CHS fields, which the parser ignores, are zero.\<close>

definition encode_part :: "PartEntry \<Rightarrow> bytes" where
  "encode_part e = [pstatus e, 0, 0, 0, partition_type e, 0, 0, 0] @ le32 (start_lba e) @ le32 (size_sectors e)"

definition encode_table :: "bytes \<Rightarrow> PartEntry list \<Rightarrow> bytes" where
  "encode_table boot es = take 446 boot @ concat (map encode_part es) @ [0x55, 0xAA]"

lemma length_encode_part [simp]: "length (encode_part e) = 16"
  by (simp add: encode_part_def)

lemma length_encode_parts: "length (concat (map encode_part es)) = 16 * length es"
  using length_concat_uniform [of "map encode_part es" 16] by simp

lemma nth_encode_parts:
  "\<lbrakk>i < length es; k < 16\<rbrakk> \<Longrightarrow> concat (map encode_part es) ! (i * 16 + k) = encode_part (es ! i) ! k"
  using nth_concat_uniform [of "map encode_part es" 16 i k] by simp

lemma part_entry_encode:
  assumes "446 \<le> length boot" "length es = 4" "i < 4"
  shows "part_entry (encode_table boot es) i = es ! i"
proof -
  have at: "encode_table boot es ! (446 + i * 16 + k) = encode_part (es ! i) ! k" if "k < 16" for k
  proof -
    have "i * 16 + k < 16 * length es" using that assms by simp
    then show ?thesis using assms that nth_encode_parts [of i es k]
      by (simp add: encode_table_def nth_append length_encode_parts add.assoc)
  qed
  have fields: "encode_part e ! 0 = pstatus e" "encode_part e ! 4 = partition_type e"
    "rd32 (encode_part e) 8 = start_lba e" "rd32 (encode_part e) 12 = size_sectors e" for e
    by (simp_all add: encode_part_def rd32_def le32_def nth_append from_le32_le32)
  have r: "rd32 (encode_table boot es) (446 + i * 16 + k) = rd32 (encode_part (es ! i)) k" if "k + 3 < 16" for k
    using at [of k] at [of "k + 1"] at [of "k + 2"] at [of "k + 3"] that by (simp add: rd32_def add.assoc)
  show ?thesis using at [of 0] at [of 4] r [of 8] r [of 12] fields [of "es ! i"] by (simp add: part_entry_def Let_def)
qed

lemma encode_table_bytes:
  assumes "446 \<le> length boot" "length es = 4"
  shows "encode_table boot es ! 0 = boot ! 0" "encode_table boot es ! 510 = 0x55"
    "encode_table boot es ! 511 = 0xAA" "length (encode_table boot es) = 512"
  using assms by (simp_all add: encode_table_def nth_append length_encode_parts)

text \<open>C32. Reading back a partition table: when sector 0 holds boot code that does not
  begin with a jump and four encoded entries of which one is in use, the parser
  recovers exactly those entries, and the FAT16 and Linux offsets it reports are the
  start sectors of the first entry of the respective type.\<close>
theorem mbr_round_trip:
  assumes "sound 0 ds" "content 0 ds 0 = encode_table boot es" "446 \<le> length boot" "length es = 4"
    "boot ! 0 \<noteq> 0xEB" "boot ! 0 \<noteq> 0xE9" "\<exists>e \<in> set es. partition_type e \<noteq> 0"
  shows "entries (mbr_init ds m) = es
    \<and> fat16_lba_offset (mbr_init ds m)
        = (case find (\<lambda>e. is_fat16_type (partition_type e)) es of Some e \<Rightarrow> start_lba e | None \<Rightarrow> 0)
    \<and> ext2_lba_offset (mbr_init ds m) = map_option start_lba (find (\<lambda>e. partition_type e = PTYPE_LINUX) es)"
proof -
  have "is_present ds" using assms(1) by (auto simp: is_present_def sound_def)
  moreover have "read_sector 0 0 ds = Some (encode_table boot es)" using sound_read [OF assms(1)] assms(2) by simp
  moreover have "map (part_entry (encode_table boot es)) [0..<4] = es"
    by (rule nth_equalityI) (use assms(3,4) part_entry_encode in simp_all)
  ultimately have "mbr_init ds m = m\<lparr>valid := True, entries := es, whole_disk := False\<rparr>"
    using encode_table_bytes [OF assms(3,4)] assms(5-7) by (simp add: mbr_init_def Let_def list_ex_iff)
  then show ?thesis by (simp add: fat16_lba_offset_def ext2_lba_offset_def)
qed

theorem mbr_round_trip_witness:
  "let es = [\<lparr>pstatus = 0x80, partition_type = 0x06, start_lba = 2048, size_sectors = 65536\<rparr>,
             \<lparr>pstatus = 0, partition_type = 0x83, start_lba = 67584, size_sectors = 1000\<rparr>, part_empty, part_empty];
       d = \<lparr>sect = (\<lambda>a. if a = 0 then encode_table (replicate 446 0x90) es else replicate 512 0),
            rd_err = (\<lambda>_. False), wr_err = (\<lambda>_. False),
            wr_lost = (\<lambda>_. False), wr_late = (\<lambda>_. False), lba48 = True\<rparr>;
       m = mbr_init [0 \<mapsto> d] mbr_new
   in entries m = es \<and> fat16_lba_offset m = 2048 \<and> ext2_lba_offset m = Some 67584"
proof -
  let ?es = "[\<lparr>pstatus = 0x80, partition_type = 0x06, start_lba = 2048, size_sectors = 65536\<rparr>,
             \<lparr>pstatus = 0, partition_type = 0x83, start_lba = 67584, size_sectors = 1000\<rparr>, part_empty, part_empty]"
  let ?d = "\<lparr>sect = (\<lambda>a. if a = 0 then encode_table (replicate 446 0x90) ?es else replicate 512 0),
            rd_err = (\<lambda>_. False), wr_err = (\<lambda>_. False),
            wr_lost = (\<lambda>_. False), wr_late = (\<lambda>_. False), lba48 = True\<rparr>"
  have "sound 0 [0 \<mapsto> ?d]"
    using encode_table_bytes(4) [of "replicate 446 0x90" ?es] by (simp add: sound_def sound_drive_def)
  from mbr_round_trip [OF this, of "replicate 446 0x90" ?es mbr_new] show ?thesis
    by (simp add: content_def Let_def is_fat16_type_def kdefs)
qed

end
