(* ===== verification/Fat.thy ===== *)
theory Fat
  imports Disk Paths Mbr Fs_Consts "HOL-Library.Monad_Syntax"
begin

text \<open>
  The FAT16 driver, \<open>fs/fat.rs\<close>, on the primary disk.  The static \<open>FAT_FS\<close> and the
  drives are explicit state.  Loops that follow a cluster chain can run forever
  on a cyclic chain: they are partial functions, and \<^const>\<open>None\<close> stands for a
  call that does not return.  32-bit sector arithmetic wraps.
\<close>

section \<open>Data\<close>

definition FAT_FD_BASE :: int where [kdefs]: "FAT_FD_BASE = 64"
definition FAT_FD_COUNT :: nat where [kdefs]: "FAT_FD_COUNT = 16"

record Bpb =
  bytes_per_sector :: u16
  sectors_per_cluster :: u8
  reserved_sectors :: u16
  fat_count :: u8
  root_entry_count :: u16
  fat_size_16 :: u16
  fat_start_lba :: u32
  root_dir_lba :: u32
  data_start_lba :: u32

record FatFd =
  ff_active :: bool
  ff_writable :: bool
  ff_size :: u32
  first_cluster :: u16
  cur_cluster :: u16
  cur_sector :: u8
  ff_offset :: u32
  dir_entry_sector :: u32
  dir_entry_offset :: u32

definition fatfd_empty :: FatFd where
  "fatfd_empty = \<lparr>ff_active = False, ff_writable = False, ff_size = 0, first_cluster = 0, cur_cluster = 0,
    cur_sector = 0, ff_offset = 0, dir_entry_sector = 0, dir_entry_offset = 0\<rparr>"

record FatFs =
  fat_ready :: bool
  bpb :: Bpb
  fat_fds :: "FatFd list"

definition fatfs_new :: FatFs where
  "fatfs_new = \<lparr>fat_ready = False,
    bpb = \<lparr>bytes_per_sector = 512, sectors_per_cluster = 1, reserved_sectors = 1, fat_count = 2,
           root_entry_count = 512, fat_size_16 = 9, fat_start_lba = 1, root_dir_lba = 19, data_start_lba = 51\<rparr>,
    fat_fds = replicate FAT_FD_COUNT fatfd_empty\<rparr>"

datatype DirLoc = Root | Subdir u16

record DirEntryInfo =
  name83 :: bytes
  de_cluster :: u16
  de_size :: u32
  entry_sector :: u32
  entry_offset :: u32
  de_is_dir :: bool

text \<open>\<open>u32::saturating_sub\<close>.\<close>

definition sat_sub32 :: "u32 \<Rightarrow> u32 \<Rightarrow> u32" where
  "sat_sub32 a b = (if b \<le> a then a - b else 0)"

section \<open>Sectors, clusters and the allocation table\<close>

definition read_sector_buf :: "u32 \<Rightarrow> disks \<Rightarrow> bytes option" where
  "read_sector_buf lba ds = read_sector 0 lba ds"

definition write_sector_buf :: "u32 \<Rightarrow> bytes \<Rightarrow> disks \<Rightarrow> bool \<times> disks" where
  "write_sector_buf lba buf ds = write_sector 0 lba buf ds"

definition cluster_to_lba :: "Bpb \<Rightarrow> u16 \<Rightarrow> u32" where
  "cluster_to_lba b c = data_start_lba b + (ucast c - 2) * ucast (sectors_per_cluster b)"

definition cluster_sectors :: "Bpb \<Rightarrow> u16 \<Rightarrow> u32 list" where
  "cluster_sectors b c = map (\<lambda>s. cluster_to_lba b c + of_nat s) [0..<unat (sectors_per_cluster b)]"

definition root_sectors :: "Bpb \<Rightarrow> u32 list" where
  "root_sectors b =
    map (\<lambda>s. root_dir_lba b + of_nat s) [0..<unat ((ucast (root_entry_count b) * 32 + 511 :: u32) div 512)]"

definition fat_sector_of :: "Bpb \<Rightarrow> u16 \<Rightarrow> u32" where
  "fat_sector_of b c = fat_start_lba b + (ucast c * 2) div 512"

definition fat_byte_of :: "u16 \<Rightarrow> nat" where
  "fat_byte_of c = unat ((ucast c * 2 :: u32) mod 512)"

fun fat_write_copies :: "u32 list \<Rightarrow> nat \<Rightarrow> u16 \<Rightarrow> disks \<Rightarrow> bool \<times> disks" where
  "fat_write_copies [] byte v ds = (True, ds)"
| "fat_write_copies (lba # ls) byte v ds =
    (case read_sector_buf lba ds of
       None \<Rightarrow> (False, ds)
     | Some buf \<Rightarrow>
        (case write_sector_buf lba (blit byte (le16 v) buf) ds of
           (False, ds') \<Rightarrow> (False, ds')
         | (True, ds') \<Rightarrow> fat_write_copies ls byte v ds'))"

definition fat_copies :: "Bpb \<Rightarrow> u16 \<Rightarrow> u32 list" where
  "fat_copies b c =
    map (\<lambda>k. fat_sector_of b c + of_nat k * ucast (fat_size_16 b)) [0..<unat (fat_count b)]"

definition fat_write_entry :: "Bpb \<Rightarrow> u16 \<Rightarrow> u16 \<Rightarrow> disks \<Rightarrow> bool \<times> disks" where
  "fat_write_entry b c v ds = fat_write_copies (fat_copies b c) (fat_byte_of c) v ds"

definition alloc_cluster_no :: "nat \<Rightarrow> nat \<Rightarrow> u16" where
  "alloc_cluster_no s i = ucast (of_nat s * 256 + of_nat i :: u32)"

fun fat_alloc_scan :: "Bpb \<Rightarrow> nat list \<Rightarrow> disks \<Rightarrow> u16 \<times> disks" where
  "fat_alloc_scan b [] ds = (0, ds)"
| "fat_alloc_scan b (s # ss) ds =
    (case read_sector_buf (fat_start_lba b + of_nat s) ds of
       None \<Rightarrow> fat_alloc_scan b ss ds
     | Some buf \<Rightarrow>
        (case find (\<lambda>i. \<not> alloc_cluster_no s i < 2 \<and> buf ! (2 * i) = 0 \<and> buf ! (2 * i + 1) = 0) [0..<256] of
           None \<Rightarrow> fat_alloc_scan b ss ds
         | Some i \<Rightarrow>
            (case fat_write_entry b (alloc_cluster_no s i) 0xFFFF ds of
               (True, ds') \<Rightarrow> (alloc_cluster_no s i, ds')
             | (False, ds') \<Rightarrow> (0, ds'))))"

definition fat_alloc_cluster :: "Bpb \<Rightarrow> disks \<Rightarrow> u16 \<times> disks" where
  "fat_alloc_cluster b ds = fat_alloc_scan b [0..<unat (fat_size_16 b)] ds"

definition fat_next :: "Bpb \<Rightarrow> u16 \<Rightarrow> disks \<Rightarrow> u16" where
  "fat_next b c ds =
    (case read_sector_buf (fat_sector_of b c) ds of
       None \<Rightarrow> 0
     | Some buf \<Rightarrow> (let v = rd16 buf (fat_byte_of c) in if v \<ge> 0xFFF8 then 0xFFFF else v))"

partial_function (option) free_cluster_chain :: "Bpb \<Rightarrow> u16 \<Rightarrow> disks \<Rightarrow> disks option" where
  "free_cluster_chain b cl ds =
    (if \<not> (cl \<ge> 2 \<and> cl < 0xFFF8) then Some ds
     else (let next = fat_next b cl ds; ds' = snd (fat_write_entry b cl 0 ds) in
           if next = 0 \<or> next = 0xFFFF then Some ds' else free_cluster_chain b next ds'))"

section \<open>Directories\<close>

definition entry_info :: "bytes \<Rightarrow> u32 \<Rightarrow> nat \<Rightarrow> DirEntryInfo" where
  "entry_info buf lba e =
    (let off = e * 32 in
     \<lparr>name83 = take 11 (drop off buf), de_cluster = rd16 buf (off + 26), de_size = rd32 buf (off + 28),
      entry_sector = lba, entry_offset = of_nat (e * 32), de_is_dir = buf ! (off + 11) AND 0x10 \<noteq> 0\<rparr>)"

text \<open>
  The loop over the entries of one sector, with the visitor \<open>f\<close> on a state.  The
  flag tells whether the iteration goes on after this sector.
\<close>

fun scan_sector :: "(DirEntryInfo \<Rightarrow> 's \<Rightarrow> bool \<times> 's) \<Rightarrow> bytes \<Rightarrow> u32 \<Rightarrow> nat list \<Rightarrow> 's \<Rightarrow> bool \<times> 's" where
  "scan_sector f buf lba [] s = (True, s)"
| "scan_sector f buf lba (e # es) s =
    (if buf ! (e * 32) = 0x00 then (False, s)
     else if buf ! (e * 32) = 0xE5 then scan_sector f buf lba es s
     else if buf ! (e * 32 + 11) AND 0x08 \<noteq> 0 then scan_sector f buf lba es s
     else case f (entry_info buf lba e) s of
       (False, s') \<Rightarrow> (False, s')
     | (True, s') \<Rightarrow> scan_sector f buf lba es s')"

fun scan_sectors :: "(DirEntryInfo \<Rightarrow> 's \<Rightarrow> bool \<times> 's) \<Rightarrow> disks \<Rightarrow> u32 list \<Rightarrow> 's \<Rightarrow> bool \<times> 's" where
  "scan_sectors f ds [] s = (True, s)"
| "scan_sectors f ds (lba # ls) s =
    (case read_sector_buf lba ds of
       None \<Rightarrow> (False, s)
     | Some buf \<Rightarrow>
        (case scan_sector f buf lba [0..<16] s of
           (False, s') \<Rightarrow> (False, s')
         | (True, s') \<Rightarrow> scan_sectors f ds ls s'))"

partial_function (option) scan_chain ::
  "Bpb \<Rightarrow> disks \<Rightarrow> (DirEntryInfo \<Rightarrow> 's \<Rightarrow> bool \<times> 's) \<Rightarrow> u16 \<Rightarrow> 's \<Rightarrow> 's option" where
  "scan_chain b ds f cluster s =
    (if cluster < 2 \<or> cluster \<ge> 0xFFF8 then Some s
     else (let (go, s') = scan_sectors f ds (cluster_sectors b cluster) s in
           if go then scan_chain b ds f (fat_next b cluster ds) s' else Some s'))"

definition for_each_fat_entry ::
  "Bpb \<Rightarrow> disks \<Rightarrow> DirLoc \<Rightarrow> (DirEntryInfo \<Rightarrow> 's \<Rightarrow> bool \<times> 's) \<Rightarrow> 's \<Rightarrow> 's option" where
  "for_each_fat_entry b ds dir f s =
    (case dir of
       Root \<Rightarrow> Some (snd (scan_sectors f ds (root_sectors b) s))
     | Subdir c \<Rightarrow> scan_chain b ds f c s)"

text \<open>The visitor most callers use: stop at the first entry with a property.\<close>

definition find_visitor :: "(DirEntryInfo \<Rightarrow> bool) \<Rightarrow> DirEntryInfo \<Rightarrow> DirEntryInfo option \<Rightarrow> bool \<times> DirEntryInfo option" where
  "find_visitor P e found = (if P e then (False, Some e) else (True, found))"

definition dir_find :: "Bpb \<Rightarrow> disks \<Rightarrow> DirLoc \<Rightarrow> (DirEntryInfo \<Rightarrow> bool) \<Rightarrow> DirEntryInfo option option" where
  "dir_find b ds dir P = for_each_fat_entry b ds dir (find_visitor P) None"

section \<open>Names and paths\<close>

definition to_ascii_uppercase :: "u8 \<Rightarrow> u8" where
  "to_ascii_uppercase c = (if 97 \<le> c \<and> c \<le> 122 then c - 32 else c)"

definition to_ascii_lowercase :: "u8 \<Rightarrow> u8" where
  "to_ascii_lowercase c = (if 65 \<le> c \<and> c \<le> 90 then c + 32 else c)"

definition strip_disk_prefix :: "bytes \<Rightarrow> bytes" where
  "strip_disk_prefix raw =
    (if starts_with (bstr ''/disk/'') raw then drop 6 raw
     else if raw = bstr ''/disk'' then []
     else if starts_with (bstr ''/'') raw then drop 1 raw
     else raw)"

definition component_to_83 :: "bytes \<Rightarrow> bytes option" where
  "component_to_83 part =
    (if part = [] then None
     else (let (name_part, ext_part) =
             (case first_index (\<lambda>c. c = 46) part of
                Some dot \<Rightarrow> (take dot part, drop (dot + 1) part)
              | None \<Rightarrow> (part, [])) in
           if name_part = [] then None
           else Some (blit 8 (map to_ascii_uppercase (take 3 ext_part))
                       (blit 0 (map to_ascii_uppercase (take 8 name_part)) (replicate 11 32)))))"

fun resolve_components :: "Bpb \<Rightarrow> disks \<Rightarrow> bytes list \<Rightarrow> DirLoc \<Rightarrow> DirLoc option option" where
  "resolve_components b ds [] cur = Some (Some cur)"
| "resolve_components b ds (part # ps) cur =
    (if part = [] then resolve_components b ds ps cur
     else if part = bstr ''.'' then resolve_components b ds ps cur
     else if part = bstr ''..'' then
       (if cur = Root then resolve_components b ds ps cur else Some None)
     else case component_to_83 part of
       None \<Rightarrow> Some None
     | Some n83 \<Rightarrow>
        (case dir_find b ds cur (\<lambda>e. name83 e = n83) of
           None \<Rightarrow> None
         | Some None \<Rightarrow> Some None
         | Some (Some e) \<Rightarrow>
            if de_is_dir e then resolve_components b ds ps (Subdir (de_cluster e)) else Some None))"

definition resolve_dir_components :: "Bpb \<Rightarrow> disks \<Rightarrow> DirLoc \<Rightarrow> bytes \<Rightarrow> DirLoc option option" where
  "resolve_dir_components b ds start cs =
    (if cs = [] then Some (Some start) else resolve_components b ds (split_on 47 cs) start)"

definition split_last :: "bytes \<Rightarrow> bytes \<times> bytes" where
  "split_last rel = (case rfind 47 rel of Some pos \<Rightarrow> (take pos rel, drop (pos + 1) rel) | None \<Rightarrow> ([], rel))"

definition fat_resolve_parent :: "Bpb \<Rightarrow> disks \<Rightarrow> bytes \<Rightarrow> (DirLoc \<times> bytes) option option" where
  "fat_resolve_parent b ds raw_path =
    (let rel = strip_disk_prefix raw_path in
     if rel = [] then Some None
     else (let (dir_bytes, file_bytes) = split_last rel in
           do { parent \<leftarrow> resolve_dir_components b ds Root dir_bytes;
                Some (case parent of
                        None \<Rightarrow> None
                      | Some p \<Rightarrow> map_option (\<lambda>n. (p, n)) (component_to_83 file_bytes)) }))"

definition fat83_to_string :: "bytes \<Rightarrow> bytes \<Rightarrow> bytes" where
  "fat83_to_string name ext =
    (let s = map to_ascii_lowercase (takeWhile (\<lambda>c. c \<noteq> 32) name);
         e = trim_end 32 ext in
     if e \<noteq> [] then s @ [46] @ map to_ascii_lowercase e else s)"

text \<open>\<open>String::as_bytes\<close> of characters below 256: one UTF-8 byte below 128, two from there on.\<close>

definition utf8 :: "bytes \<Rightarrow> bytes" where
  "utf8 cs = concat (map (\<lambda>c. if c < 128 then [c] else [0xC0 OR drop_bit 6 c, 0x80 OR (c AND 0x3F)]) cs)"

definition entry_name :: "DirEntryInfo \<Rightarrow> bytes" where
  "entry_name e = fat83_to_string (take 8 (name83 e)) (take 3 (drop 8 (name83 e)))"

definition is_dot :: "bytes \<Rightarrow> bool" where
  "is_dot n \<longleftrightarrow> n = bstr ''.'' \<or> n = bstr ''..''"

section \<open>Mounting\<close>

definition parse_bpb :: "u32 \<Rightarrow> bytes \<Rightarrow> Bpb" where
  "parse_bpb part_offset buf =
    (let reserved = ucast (rd16 buf 0x0E) :: u32; fc = ucast (buf ! 0x10) :: u32;
         fsz = ucast (rd16 buf 0x16) :: u32; rde = ucast (rd16 buf 0x11) :: u32;
         root = part_offset + reserved + fc * fsz in
     \<lparr>bytes_per_sector = rd16 buf 0x0B, sectors_per_cluster = buf ! 0x0D, reserved_sectors = rd16 buf 0x0E,
      fat_count = buf ! 0x10, root_entry_count = rd16 buf 0x11, fat_size_16 = rd16 buf 0x16,
      fat_start_lba = part_offset + reserved, root_dir_lba = root,
      data_start_lba = root + (rde * 32 + 511) div 512\<rparr>)"

definition fat_init :: "MbrState \<Rightarrow> disks \<Rightarrow> FatFs \<Rightarrow> FatFs" where
  "fat_init m ds fs =
    (if \<not> is_present ds then fs
     else (let part_offset = fat16_lba_offset m in
           case read_sector_buf part_offset ds of
             None \<Rightarrow> fs
           | Some buf \<Rightarrow>
              if buf ! 510 \<noteq> 0x55 \<or> buf ! 511 \<noteq> 0xAA then fs
              else fs\<lparr>bpb := parse_bpb part_offset buf, fat_ready := True\<rparr>))"

definition is_fat_fd :: "int \<Rightarrow> bool" where
  "is_fat_fd fd \<longleftrightarrow> fd \<ge> FAT_FD_BASE \<and> fd < FAT_FD_BASE + int FAT_FD_COUNT"

definition fat_slot :: "int \<Rightarrow> nat" where
  "fat_slot fd = nat (fd - FAT_FD_BASE)"

definition set_slot :: "nat \<Rightarrow> FatFd \<Rightarrow> FatFs \<Rightarrow> FatFs" where
  "set_slot i slot fs = fs\<lparr>fat_fds := (fat_fds fs)[i := slot]\<rparr>"

definition fat_file_seek :: "int \<Rightarrow> int \<Rightarrow> u32 \<Rightarrow> FatFs \<Rightarrow> int \<times> FatFs" where
  "fat_file_seek fd offset whence fs =
    (if \<not> is_fat_fd fd then (- 9, fs)
     else (let i = fat_slot fd; slot = fat_fds fs ! i; fsize = uint (ff_size slot); cur = uint (ff_offset slot) in
           if whence > 2 then (- 22, fs)
           else (let new_off = (if whence = 0 then offset else if whence = 1 then i64 (cur + offset) else i64 (fsize + offset)) in
                 if new_off < 0 then (- 22, fs)
                 else (new_off, set_slot i (slot\<lparr>ff_offset := of_int new_off\<rparr>) fs))))"

definition fat_file_size :: "int \<Rightarrow> FatFs \<Rightarrow> u32" where
  "fat_file_size fd fs = (if \<not> is_fat_fd fd then 0 else ff_size (fat_fds fs ! fat_slot fd))"

section \<open>Creating entries\<close>

text \<open>The 32 bytes of a directory entry.\<close>

definition dir_record :: "bytes \<Rightarrow> u8 \<Rightarrow> u16 \<Rightarrow> u32 \<Rightarrow> bytes" where
  "dir_record n83 attr fc sz = n83 @ [attr] @ replicate 14 0 @ le16 fc @ le32 sz"

definition try_sector :: "bytes \<Rightarrow> u32 \<Rightarrow> disks \<Rightarrow> (u32 \<times> u32) option \<times> disks" where
  "try_sector entry lba ds =
    (case read_sector_buf lba ds of
       None \<Rightarrow> (None, ds)
     | Some buf \<Rightarrow>
        (case find (\<lambda>e. buf ! (e * 32) = 0x00 \<or> buf ! (e * 32) = 0xE5) [0..<16] of
           None \<Rightarrow> (None, ds)
         | Some e \<Rightarrow>
            (case write_sector_buf lba (blit (e * 32) entry buf) ds of
               (False, ds') \<Rightarrow> (None, ds')
             | (True, ds') \<Rightarrow> (Some (lba, of_nat (e * 32)), ds'))))"

fun try_sectors :: "bytes \<Rightarrow> u32 list \<Rightarrow> disks \<Rightarrow> (u32 \<times> u32) option \<times> disks" where
  "try_sectors entry [] ds = (None, ds)"
| "try_sectors entry (lba # ls) ds =
    (case try_sector entry lba ds of
       (Some p, ds') \<Rightarrow> (Some p, ds')
     | (None, ds') \<Rightarrow> try_sectors entry ls ds')"

fun zero_sectors :: "u32 list \<Rightarrow> disks \<Rightarrow> disks" where
  "zero_sectors [] ds = ds"
| "zero_sectors (lba # ls) ds = zero_sectors ls (snd (write_sector_buf lba (replicate 512 0) ds))"

partial_function (option) create_in_chain ::
  "Bpb \<Rightarrow> bytes \<Rightarrow> u16 \<Rightarrow> disks \<Rightarrow> ((u32 \<times> u32) option \<times> disks) option" where
  "create_in_chain b entry cluster ds =
    (if cluster < 2 \<or> cluster \<ge> 0xFFF8 then Some (None, ds)
     else (let (p, ds1) = try_sectors entry (cluster_sectors b cluster) ds in
           if p \<noteq> None then Some (p, ds1)
           else (let next = fat_next b cluster ds1 in
                 if next \<ge> 0xFFF8 \<or> next = 0 then
                   (let (new_cl, ds2) = fat_alloc_cluster b ds1 in
                    if new_cl = 0 then Some (None, ds2)
                    else (let ds3 = snd (fat_write_entry b cluster new_cl ds2);
                              ds4 = zero_sectors (cluster_sectors b new_cl) ds3
                          in create_in_chain b entry new_cl ds4))
                 else create_in_chain b entry next ds1)))"

definition create_dir_entry ::
  "Bpb \<Rightarrow> DirLoc \<Rightarrow> bytes \<Rightarrow> u8 \<Rightarrow> u16 \<Rightarrow> u32 \<Rightarrow> disks \<Rightarrow> ((u32 \<times> u32) option \<times> disks) option" where
  "create_dir_entry b dir n83 attr fc sz ds =
    (let entry = dir_record n83 attr fc sz in
     case dir of
       Root \<Rightarrow> Some (try_sectors entry (root_sectors b) ds)
     | Subdir c \<Rightarrow> create_in_chain b entry c ds)"

section \<open>Opening\<close>

partial_function (option) open_trunc_loop :: "Bpb \<Rightarrow> u16 \<Rightarrow> disks \<Rightarrow> disks option" where
  "open_trunc_loop b cl ds =
    (if \<not> (cl \<ge> 2 \<and> cl < 0xFFF8) then Some ds
     else (let next = fat_next b cl ds; ds' = snd (fat_write_entry b cl 0 ds) in open_trunc_loop b next ds'))"

text \<open>The directory entry after truncation: a new first cluster and size zero.\<close>

definition reset_entry :: "u32 \<Rightarrow> u32 \<Rightarrow> u16 \<Rightarrow> disks \<Rightarrow> disks" where
  "reset_entry sector off new_cl ds =
    (case read_sector_buf sector ds of
       None \<Rightarrow> ds
     | Some buf \<Rightarrow> snd (write_sector_buf sector (blit (unat off + 26) (le16 new_cl @ le32 0) buf) ds))"

definition alloc_fat_fd :: "bool \<Rightarrow> u32 \<Rightarrow> u16 \<Rightarrow> u32 \<Rightarrow> u32 \<Rightarrow> FatFs \<Rightarrow> int \<times> FatFs" where
  "alloc_fat_fd w sz fc sector off fs =
    (case first_index (\<lambda>s. \<not> ff_active s) (fat_fds fs) of
       None \<Rightarrow> (- 4, fs)
     | Some i \<Rightarrow>
        (FAT_FD_BASE + int i,
         set_slot i \<lparr>ff_active = True, ff_writable = w, ff_size = sz, first_cluster = fc, cur_cluster = fc,
           cur_sector = 0, ff_offset = 0, dir_entry_sector = sector, dir_entry_offset = off\<rparr> fs))"

text \<open>The position, first cluster and size of the file to open, created when allowed.\<close>

definition open_entry ::
  "Bpb \<Rightarrow> DirLoc \<Rightarrow> bytes \<Rightarrow> bool \<Rightarrow> disks \<Rightarrow> ((int + u32 \<times> u32 \<times> u16 \<times> u32) \<times> disks) option" where
  "open_entry b parent name do_create ds =
    do { found \<leftarrow> dir_find b ds parent (\<lambda>e. name83 e = name \<and> \<not> de_is_dir e);
         case found of
           Some e \<Rightarrow> Some (Inr (entry_sector e, entry_offset e, de_cluster e, de_size e), ds)
         | None \<Rightarrow>
            if \<not> do_create then Some (Inl (- 7), ds)
            else (let (new_cluster, ds1) = fat_alloc_cluster b ds in
                  if new_cluster = 0 then Some (Inl (- 28), ds1)
                  else do { (p, ds2) \<leftarrow> create_dir_entry b parent name 0x20 new_cluster 0 ds1;
                            Some (case p of
                                    None \<Rightarrow> (Inl (- 28), ds2)
                                  | Some (sector, off) \<Rightarrow> (Inr (sector, off, new_cluster, 0), ds2)) }) }"

definition fat_open :: "bytes \<Rightarrow> u32 \<Rightarrow> FatFs \<Rightarrow> disks \<Rightarrow> (int \<times> FatFs \<times> disks) option" where
  "fat_open raw_path flags fs ds =
    (if \<not> fat_ready fs then Some (- 2, fs, ds)
     else do {
       target \<leftarrow> fat_resolve_parent (bpb fs) ds raw_path;
       case target of
         None \<Rightarrow> Some (- 22, fs, ds)
       | Some (parent, name) \<Rightarrow> do {
           (entry, ds1) \<leftarrow> open_entry (bpb fs) parent name (flags AND O_CREAT \<noteq> 0) ds;
           case entry of
             Inl err \<Rightarrow> Some (err, fs, ds1)
           | Inr (sector, off, fc, sz) \<Rightarrow>
               if flags AND O_TRUNC \<noteq> 0 \<and> wants_write flags \<and> fc \<noteq> 0 then do {
                 ds2 \<leftarrow> open_trunc_loop (bpb fs) fc ds1;
                 let (new_cl, ds3) = fat_alloc_cluster (bpb fs) ds2;
                     ds4 = reset_entry sector off new_cl ds3;
                     (r, fs') = alloc_fat_fd (wants_write flags) 0 new_cl sector off fs
                 in Some (r, fs', ds4) }
               else (let (r, fs') = alloc_fat_fd (wants_write flags) sz fc sector off fs in Some (r, fs', ds1)) } })"

section \<open>Directories as such\<close>

definition fat_is_directory :: "bytes \<Rightarrow> FatFs \<Rightarrow> disks \<Rightarrow> bool option" where
  "fat_is_directory raw_path fs ds =
    (if \<not> fat_ready fs then Some False
     else (let rel = strip_disk_prefix raw_path in
           if rel = [] then Some True
           else (let (dir_bytes, file_bytes) = split_last rel in
                 do { parent \<leftarrow> resolve_dir_components (bpb fs) ds Root dir_bytes;
                      case parent of
                        None \<Rightarrow> Some False
                      | Some p \<Rightarrow>
                         (case component_to_83 file_bytes of
                            None \<Rightarrow> Some False
                          | Some n \<Rightarrow> do {
                              found \<leftarrow> dir_find (bpb fs) ds p (\<lambda>e. name83 e = n \<and> de_is_dir e);
                              Some (found \<noteq> None) }) })))"

definition parent_cluster :: "DirLoc \<Rightarrow> u16" where
  "parent_cluster d = (case d of Subdir c \<Rightarrow> c | Root \<Rightarrow> 0)"

definition dot_entries :: "u16 \<Rightarrow> DirLoc \<Rightarrow> bytes" where
  "dot_entries new_cluster parent =
    dir_record (bstr ''.          '') 0x10 new_cluster 0 @ dir_record (bstr ''..         '') 0x10 (parent_cluster parent) 0"

fun zero_sectors_checked :: "u32 list \<Rightarrow> disks \<Rightarrow> bool \<times> disks" where
  "zero_sectors_checked [] ds = (True, ds)"
| "zero_sectors_checked (lba # ls) ds =
    (case write_sector_buf lba (replicate 512 0) ds of
       (False, ds') \<Rightarrow> (False, ds')
     | (True, ds') \<Rightarrow> zero_sectors_checked ls ds')"

definition fat_mkdir :: "bytes \<Rightarrow> FatFs \<Rightarrow> disks \<Rightarrow> (int \<times> disks) option" where
  "fat_mkdir raw_path fs ds =
    (if \<not> fat_ready fs then Some (- 2, ds)
     else do {
       target \<leftarrow> fat_resolve_parent (bpb fs) ds raw_path;
       case target of
         None \<Rightarrow> Some (- 22, ds)
       | Some (parent, name) \<Rightarrow>
          (let (new_cluster, ds1) = fat_alloc_cluster (bpb fs) ds in
           if new_cluster = 0 then Some (- 28, ds1)
           else (let new_lba = cluster_to_lba (bpb fs) new_cluster;
                     (ok, ds2) = zero_sectors_checked (cluster_sectors (bpb fs) new_cluster) ds1 in
                 if \<not> ok then Some (- 5, ds2)
                 else case read_sector_buf new_lba ds2 of
                   None \<Rightarrow> Some (- 5, ds2)
                 | Some buf \<Rightarrow>
                    (case write_sector_buf new_lba (blit 0 (dot_entries new_cluster parent) buf) ds2 of
                       (False, ds3) \<Rightarrow> Some (- 5, ds3)
                     | (True, ds3) \<Rightarrow> do {
                         (p, ds4) \<leftarrow> create_dir_entry (bpb fs) parent name 0x10 new_cluster 0 ds3;
                         Some (if p = None then - 28 else 0, ds4) }))) })"

definition mark_deleted :: "bytes \<Rightarrow> u32 \<Rightarrow> bytes" where
  "mark_deleted buf off = buf[unat off := 0xE5]"

definition fat_unlink :: "bytes \<Rightarrow> FatFs \<Rightarrow> disks \<Rightarrow> (int \<times> disks) option" where
  "fat_unlink raw_path fs ds =
    (if \<not> fat_ready fs then Some (- 2, ds)
     else do {
       target \<leftarrow> fat_resolve_parent (bpb fs) ds raw_path;
       case target of
         None \<Rightarrow> Some (- 22, ds)
       | Some (parent, name) \<Rightarrow> do {
           found \<leftarrow> dir_find (bpb fs) ds parent (\<lambda>e. name83 e = name);
           case found of
             None \<Rightarrow> Some (- 2, ds)
           | Some e \<Rightarrow> do {
               child \<leftarrow> (if de_is_dir e
                         then dir_find (bpb fs) ds (Subdir (de_cluster e)) (\<lambda>c. \<not> is_dot (entry_name c))
                         else Some None);
               if child \<noteq> None then Some (- 39, ds)
               else do {
                 ds1 \<leftarrow> (if de_cluster e \<ge> 2 then free_cluster_chain (bpb fs) (de_cluster e) ds else Some ds);
                 case read_sector_buf (entry_sector e) ds1 of
                   None \<Rightarrow> Some (- 5, ds1)
                 | Some buf \<Rightarrow>
                    (case write_sector_buf (entry_sector e) (mark_deleted buf (entry_offset e)) ds1 of
                       (False, ds2) \<Rightarrow> Some (- 5, ds2)
                     | (True, ds2) \<Rightarrow> Some (0, ds2)) } } } })"

definition fix_dotdot :: "Bpb \<Rightarrow> u16 \<Rightarrow> DirLoc \<Rightarrow> disks \<Rightarrow> disks" where
  "fix_dotdot b fc new_parent ds =
    (case read_sector_buf (cluster_to_lba b fc) ds of
       None \<Rightarrow> ds
     | Some buf \<Rightarrow> snd (write_sector_buf (cluster_to_lba b fc) (blit 58 (le16 (parent_cluster new_parent)) buf) ds))"

definition delete_old_entry :: "u32 \<Rightarrow> u32 \<Rightarrow> disks \<Rightarrow> disks" where
  "delete_old_entry sector off ds =
    (case read_sector_buf sector ds of
       None \<Rightarrow> ds
     | Some buf \<Rightarrow> snd (write_sector_buf sector (mark_deleted buf off) ds))"

definition fat_rename :: "bytes \<Rightarrow> bytes \<Rightarrow> FatFs \<Rightarrow> disks \<Rightarrow> (int \<times> disks) option" where
  "fat_rename old_path new_path fs ds =
    (if \<not> fat_ready fs then Some (- 2, ds)
     else do {
       old \<leftarrow> fat_resolve_parent (bpb fs) ds old_path;
       case old of
         None \<Rightarrow> Some (- 22, ds)
       | Some (old_parent, old_name) \<Rightarrow> do {
           new \<leftarrow> fat_resolve_parent (bpb fs) ds new_path;
           case new of
             None \<Rightarrow> Some (- 22, ds)
           | Some (new_parent, new_name) \<Rightarrow> do {
               found \<leftarrow> dir_find (bpb fs) ds old_parent (\<lambda>e. name83 e = old_name);
               case found of
                 None \<Rightarrow> Some (- 2, ds)
               | Some e \<Rightarrow> do {
                   dest \<leftarrow> dir_find (bpb fs) ds new_parent (\<lambda>c. name83 c = new_name);
                   if dest \<noteq> None then Some (- 17, ds)
                   else if old_parent = new_parent then
                     (case read_sector_buf (entry_sector e) ds of
                        None \<Rightarrow> Some (- 5, ds)
                      | Some buf \<Rightarrow>
                         (case write_sector_buf (entry_sector e) (blit (unat (entry_offset e)) new_name buf) ds of
                            (False, ds1) \<Rightarrow> Some (- 5, ds1)
                          | (True, ds1) \<Rightarrow> Some (0, ds1)))
                   else do {
                     (p, ds1) \<leftarrow> create_dir_entry (bpb fs) new_parent new_name (if de_is_dir e then 0x10 else 0x20)
                                   (de_cluster e) (de_size e) ds;
                     if p = None then Some (- 28, ds1)
                     else (let ds2 = (if de_is_dir e then fix_dotdot (bpb fs) (de_cluster e) new_parent ds1 else ds1)
                           in Some (0, delete_old_entry (entry_sector e) (entry_offset e) ds2)) } } } } })"

section \<open>Reading and writing open files\<close>

definition flush_dir_size :: "FatFd \<Rightarrow> disks \<Rightarrow> disks" where
  "flush_dir_size slot ds =
    (if dir_entry_sector slot = 0 then ds
     else case read_sector_buf (dir_entry_sector slot) ds of
       None \<Rightarrow> ds
     | Some buf \<Rightarrow>
        snd (write_sector_buf (dir_entry_sector slot)
          (blit (unat (dir_entry_offset slot) + 26) (le16 (first_cluster slot) @ le32 (ff_size slot)) buf) ds))"

definition slot_lba :: "Bpb \<Rightarrow> FatFd \<Rightarrow> u32" where
  "slot_lba b slot = cluster_to_lba b (cur_cluster slot) + ucast (cur_sector slot)"

definition chunk :: "FatFd \<Rightarrow> nat \<Rightarrow> nat" where
  "chunk slot left = min (512 - unat (ff_offset slot) mod 512) left"

text \<open>Moving on after a chunk; the flag tells whether the read loop continues.\<close>

definition read_advance :: "Bpb \<Rightarrow> disks \<Rightarrow> nat \<Rightarrow> FatFd \<Rightarrow> bool \<times> FatFd" where
  "read_advance b ds n slot =
    (let slot1 = slot\<lparr>ff_offset := ff_offset slot + of_nat n\<rparr> in
     if ff_offset slot1 mod 512 = 0 then
       (let slot2 = slot1\<lparr>cur_sector := cur_sector slot1 + 1\<rparr> in
        if cur_sector slot2 \<ge> sectors_per_cluster b then
          (let slot3 = slot2\<lparr>cur_sector := 0\<rparr>; next = fat_next b (cur_cluster slot3) ds in
           if next = 0xFFFF \<or> next = 0 then (False, slot3) else (True, slot3\<lparr>cur_cluster := next\<rparr>))
        else (True, slot2))
     else (True, slot1))"

function fat_read_loop :: "Bpb \<Rightarrow> disks \<Rightarrow> nat \<Rightarrow> nat \<Rightarrow> FatFd \<Rightarrow> bytes \<Rightarrow> nat \<times> FatFd \<times> bytes" where
  "fat_read_loop b ds to_read done slot buf =
    (if \<not> done < to_read then (done, slot, buf)
     else case read_sector_buf (slot_lba b slot) ds of
       None \<Rightarrow> (done, slot, buf)
     | Some sector \<Rightarrow>
        (let n = chunk slot (to_read - done);
             buf' = blit done (take n (drop (unat (ff_offset slot) mod 512) sector)) buf;
             (go, slot') = read_advance b ds n slot in
         if go then fat_read_loop b ds to_read (done + n) slot' buf' else (done + n, slot', buf')))"
  by pat_completeness auto
termination
  by (relation "measure (\<lambda>(b, ds, to_read, done, slot, buf). to_read - done)")
    (auto simp: chunk_def min_def)

declare fat_read_loop.simps [simp del]

definition fat_read_fd :: "int \<Rightarrow> bytes \<Rightarrow> FatFs \<Rightarrow> disks \<Rightarrow> int \<times> bytes \<times> FatFs" where
  "fat_read_fd fd buf fs ds =
    (if \<not> fat_ready fs \<or> \<not> is_fat_fd fd then (- 5, buf, fs)
     else (let i = fat_slot fd; slot = fat_fds fs ! i in
           if \<not> ff_active slot then (- 5, buf, fs)
           else (let remaining = unat (sat_sub32 (ff_size slot) (ff_offset slot)) in
                 if remaining = 0 then (0, buf, fs)
                 else (let (done, slot', buf') = fat_read_loop (bpb fs) ds (min (length buf) remaining) 0 slot buf
                       in (int done, buf', set_slot i slot' fs)))))"

definition write_advance :: "Bpb \<Rightarrow> nat \<Rightarrow> bool \<Rightarrow> FatFd \<Rightarrow> disks \<Rightarrow> bool \<times> FatFd \<times> disks" where
  "write_advance b n pending slot ds =
    (let off = ff_offset slot + of_nat n;
         slot1 = slot\<lparr>ff_offset := off, ff_size := (if off > ff_size slot then off else ff_size slot)\<rparr> in
     if off mod 512 = 0 then
       (let slot2 = slot1\<lparr>cur_sector := cur_sector slot1 + 1\<rparr> in
        if cur_sector slot2 \<ge> sectors_per_cluster b then
          (let slot3 = slot2\<lparr>cur_sector := 0\<rparr>; next = fat_next b (cur_cluster slot3) ds in
           if next \<ge> 0xFFF8 \<or> next = 0 then
             (if pending then
                (let (new_cl, ds1) = fat_alloc_cluster b ds in
                 if new_cl = 0 then (False, slot3, ds1)
                 else (True, slot3\<lparr>cur_cluster := new_cl\<rparr>, snd (fat_write_entry b (cur_cluster slot3) new_cl ds1)))
              else (True, slot3, ds))
           else (True, slot3\<lparr>cur_cluster := next\<rparr>, ds))
        else (True, slot2, ds))
     else (True, slot1, ds))"

text \<open>A file without a cluster gets one before its first chunk.\<close>

definition ensure_cluster :: "Bpb \<Rightarrow> FatFd \<Rightarrow> disks \<Rightarrow> bool \<times> FatFd \<times> disks" where
  "ensure_cluster b slot ds =
    (if cur_cluster slot < 2 then
       (let (cl, ds1) = fat_alloc_cluster b ds in
        if cl = 0 then (False, slot, ds1)
        else (True, slot\<lparr>first_cluster := cl, cur_cluster := cl, cur_sector := 0\<rparr>, ds1))
     else (True, slot, ds))"

function fat_write_loop :: "Bpb \<Rightarrow> bytes \<Rightarrow> nat \<Rightarrow> FatFd \<Rightarrow> disks \<Rightarrow> nat \<times> FatFd \<times> disks" where
  "fat_write_loop b buf done slot ds =
    (if \<not> done < length buf then (done, slot, ds)
     else (let (ok, slot1, ds1) = ensure_cluster b slot ds in
           if \<not> ok then (done, slot1, ds1)
           else (let lba = slot_lba b slot1; byte_off = unat (ff_offset slot1) mod 512;
                     n = chunk slot1 (length buf - done) in
                 case (if byte_off \<noteq> 0 \<or> n < 512 then read_sector_buf lba ds1 else Some (replicate 512 0)) of
                   None \<Rightarrow> (done, slot1, ds1)
                 | Some sector \<Rightarrow>
                    (let (wok, ds2) = write_sector_buf lba (blit byte_off (take n (drop done buf)) sector) ds1 in
                     if \<not> wok then (done, slot1, ds2)
                     else (let (go, slot2, ds3) = write_advance b n (done + n < length buf) slot1 ds2 in
                           if go then fat_write_loop b buf (done + n) slot2 ds3 else (done + n, slot2, ds3))))))"
  by pat_completeness auto
termination
  by (relation "measure (\<lambda>(b, buf, done, slot, ds). length buf - done)")
    (auto simp: chunk_def min_def)

declare fat_write_loop.simps [simp del]

definition fat_write_fd :: "int \<Rightarrow> bytes \<Rightarrow> FatFs \<Rightarrow> disks \<Rightarrow> int \<times> FatFs \<times> disks" where
  "fat_write_fd fd buf fs ds =
    (if \<not> fat_ready fs \<or> \<not> is_fat_fd fd then (- 5, fs, ds)
     else (let i = fat_slot fd; slot = fat_fds fs ! i in
           if \<not> ff_active slot then (- 5, fs, ds)
           else if \<not> ff_writable slot then (- 9, fs, ds)
           else (let (done, slot', ds') = fat_write_loop (bpb fs) buf 0 slot ds
                 in (int done, set_slot i slot' fs, flush_dir_size slot' ds'))))"

definition fat_close :: "int \<Rightarrow> FatFs \<Rightarrow> disks \<Rightarrow> int \<times> FatFs \<times> disks" where
  "fat_close fd fs ds =
    (if \<not> is_fat_fd fd then (- 5, fs, ds)
     else (let i = fat_slot fd; slot = fat_fds fs ! i;
               ds' = (if ff_active slot \<and> ff_writable slot then flush_dir_size slot ds else ds)
           in (0, set_slot i (slot\<lparr>ff_active := False\<rparr>) fs, ds')))"

section \<open>Listing\<close>

definition fat_resolve_dir :: "bytes \<Rightarrow> FatFs \<Rightarrow> disks \<Rightarrow> DirLoc option option" where
  "fat_resolve_dir raw_path fs ds =
    (if \<not> fat_ready fs then Some None
     else resolve_dir_components (bpb fs) ds Root (strip_disk_prefix raw_path))"

definition list_visitor :: "DirEntryInfo \<Rightarrow> nat \<times> bytes \<Rightarrow> bool \<times> nat \<times> bytes" where
  "list_visitor e s =
    (let (written, out) = s; name = entry_name e in
     if is_dot name then (True, s)
     else (let line = utf8 name @ (if de_is_dir e then [47] else []) @ [10] in
           if written + length line > length out then (False, s)
           else (True, written + length line, blit written line out)))"

definition fat_list_dir_raw :: "DirLoc \<Rightarrow> bytes \<Rightarrow> FatFs \<Rightarrow> disks \<Rightarrow> (int \<times> bytes) option" where
  "fat_list_dir_raw dir out fs ds =
    (if \<not> fat_ready fs then Some (- 2, out)
     else map_option (\<lambda>(written, out'). (int written, out')) (for_each_fat_entry (bpb fs) ds dir list_visitor (0, out)))"

definition fat_list_dir :: "DirLoc \<Rightarrow> FatFs \<Rightarrow> disks \<Rightarrow> (bytes \<times> bool) list option" where
  "fat_list_dir dir fs ds =
    (if \<not> fat_ready fs then Some []
     else for_each_fat_entry (bpb fs) ds dir
       (\<lambda>e es. (True, if is_dot (entry_name e) then es else es @ [(entry_name e, de_is_dir e)])) [])"

definition fat_list_root :: "FatFs \<Rightarrow> disks \<Rightarrow> (bytes \<times> bool) list option" where
  "fat_list_root fs ds = fat_list_dir Root fs ds"

end
