(* ===== verification/Ext2.thy ===== *)
theory Ext2
  imports Disk Paths Fs_Consts "HOL-Library.Monad_Syntax"
begin

text \<open>
  The ext2 driver, \<open>fs/ext2.rs\<close>, on the secondary disk.  The driver state
  \<open>EXT2\<close>, the static block buffer \<open>SCRATCH\<close> and the drives are one explicit
  state.  The kernel panics on an index outside a slice and on a division by
  zero: an operation that can panic returns an option, and \<^const>\<open>None\<close> is the
  panic.  32-bit arithmetic wraps.
\<close>

section \<open>Data\<close>

definition EXT2_FD_BASE :: int where [kdefs]: "EXT2_FD_BASE = 80"
definition EXT2_FD_COUNT :: nat where [kdefs]: "EXT2_FD_COUNT = 16"
definition MAX_GROUPS :: nat where [kdefs]: "MAX_GROUPS = 8"
definition MAX_BLOCK :: nat where [kdefs]: "MAX_BLOCK = 4096"
definition EXT2_MAGIC :: u16 where [kdefs]: "EXT2_MAGIC = 0xEF53"
definition S_IFREG :: u16 where [kdefs]: "S_IFREG = 0x8000"
definition S_IFDIR :: u16 where [kdefs]: "S_IFDIR = 0x4000"
definition FT_REG :: u8 where [kdefs]: "FT_REG = 1"
definition FT_DIR :: u8 where [kdefs]: "FT_DIR = 2"

record BlockGroupDesc =
  block_bitmap :: u32
  inode_bitmap :: u32
  inode_table :: u32
  free_blocks_count :: u16
  free_inodes_count :: u16
  used_dirs_count :: u16

definition bgd_zero :: BlockGroupDesc where
  "bgd_zero = \<lparr>block_bitmap = 0, inode_bitmap = 0, inode_table = 0, free_blocks_count = 0, free_inodes_count = 0, used_dirs_count = 0\<rparr>"

record Inode =
  i_mode :: u16
  i_uid :: u16
  size_lo :: u32
  i_atime :: u32
  i_ctime :: u32
  i_mtime :: u32
  i_dtime :: u32
  i_gid :: u16
  links_count :: u16
  blocks_512 :: u32
  i_flags :: u32
  i_osd1 :: u32
  i_block :: "u32 list"
  i_generation :: u32
  file_acl :: u32
  size_hi :: u32
  i_faddr :: u32

definition inode_zero :: Inode where
  "inode_zero = \<lparr>i_mode = 0, i_uid = 0, size_lo = 0, i_atime = 0, i_ctime = 0, i_mtime = 0, i_dtime = 0, i_gid = 0,
    links_count = 0, blocks_512 = 0, i_flags = 0, i_osd1 = 0, i_block = replicate 15 0, i_generation = 0, file_acl = 0,
    size_hi = 0, i_faddr = 0\<rparr>"

definition inode_is_dir :: "Inode \<Rightarrow> bool" where
  "inode_is_dir i \<longleftrightarrow> i_mode i AND 0xF000 = S_IFDIR"

definition inode_is_file :: "Inode \<Rightarrow> bool" where
  "inode_is_file i \<longleftrightarrow> i_mode i AND 0xF000 = S_IFREG"

definition inode_size64 :: "Inode \<Rightarrow> u64" where
  "inode_size64 i = ucast (size_lo i) OR push_bit 32 (ucast (size_hi i))"

record Ext2Fd =
  ef_active :: bool
  inode_no :: u32
  ef_size :: u32
  ef_offset :: u32
  direct_blocks :: "u32 list"
  ef_writable :: bool
  ef_append :: bool

definition ext2fd_empty :: Ext2Fd where
  "ext2fd_empty = \<lparr>ef_active = False, inode_no = 0, ef_size = 0, ef_offset = 0, direct_blocks = replicate 12 0,
    ef_writable = False, ef_append = False\<rparr>"

record Ext2State =
  e_ready :: bool
  lba_offset :: u32
  block_size :: u32
  sects_per_block :: u32
  inodes_per_group :: u32
  blocks_per_group :: u32
  inode_size :: u32
  first_data_block :: u32
  groups_count :: u32
  bgdt :: "BlockGroupDesc list"
  bgdt_block :: u32
  sb_free_blocks :: u32
  sb_free_inodes :: u32
  e_fds :: "Ext2Fd list"

definition ext2_new :: Ext2State where
  "ext2_new = \<lparr>e_ready = False, lba_offset = 0, block_size = 1024, sects_per_block = 2, inodes_per_group = 0,
    blocks_per_group = 0, inode_size = 128, first_data_block = 1, groups_count = 0,
    bgdt = replicate MAX_GROUPS bgd_zero, bgdt_block = 0, sb_free_blocks = 0, sb_free_inodes = 0,
    e_fds = replicate EXT2_FD_COUNT ext2fd_empty\<rparr>"

text \<open>The statics \<open>EXT2\<close> and \<open>SCRATCH\<close>, and the drives.\<close>

record Ext2 =
  st :: Ext2State
  scratch :: bytes
  drives :: disks

section \<open>Slices\<close>

definition slice :: "nat \<Rightarrow> nat \<Rightarrow> bytes \<Rightarrow> bytes option" where
  "slice off n s = (if off + n \<le> length s then Some (take n (drop off s)) else None)"

definition put :: "nat \<Rightarrow> bytes \<Rightarrow> bytes \<Rightarrow> bytes option" where
  "put off src s = (if off + length src \<le> length s then Some (blit off src s) else None)"

fun put_all :: "(nat \<times> bytes) list \<Rightarrow> bytes \<Rightarrow> bytes option" where
  "put_all [] s = Some s"
| "put_all ((off, src) # ps) s = do { s' \<leftarrow> put off src s; put_all ps s' }"

section \<open>Blocks\<close>

definition block_lba :: "Ext2State \<Rightarrow> u32 \<Rightarrow> u32" where
  "block_lba e block_no = lba_offset e + block_no * sects_per_block e"

fun load_sectors :: "u32 \<Rightarrow> nat list \<Rightarrow> Ext2 \<Rightarrow> bool \<times> Ext2" where
  "load_sectors lba [] w = (True, w)"
| "load_sectors lba (s # ss) w =
    (case read_sector_sec (lba + of_nat s) (drives w) of
       None \<Rightarrow> (False, w)
     | Some buf \<Rightarrow> load_sectors lba ss (w\<lparr>scratch := blit (512 * s) buf (scratch w)\<rparr>))"

definition read_block_into_scratch :: "u32 \<Rightarrow> Ext2 \<Rightarrow> bool \<times> Ext2" where
  "read_block_into_scratch block_no w =
    load_sectors (block_lba (st w) block_no) [0..<unat (sects_per_block (st w))] w"

fun store_sectors :: "u32 \<Rightarrow> nat list \<Rightarrow> Ext2 \<Rightarrow> bool \<times> Ext2" where
  "store_sectors lba [] w = (True, w)"
| "store_sectors lba (s # ss) w =
    (case write_sector_sec (lba + of_nat s) (take 512 (drop (512 * s) (scratch w))) (drives w) of
       (False, ds) \<Rightarrow> (False, w\<lparr>drives := ds\<rparr>)
     | (True, ds) \<Rightarrow> store_sectors lba ss (w\<lparr>drives := ds\<rparr>))"

definition write_block_from_scratch :: "u32 \<Rightarrow> Ext2 \<Rightarrow> bool \<times> Ext2" where
  "write_block_from_scratch block_no w =
    store_sectors (block_lba (st w) block_no) [0..<unat (sects_per_block (st w))] w"

text \<open>Read a block, change some of its bytes and write it back.\<close>

definition patch_block :: "u32 \<Rightarrow> (nat \<times> bytes) list \<Rightarrow> Ext2 \<Rightarrow> (bool \<times> Ext2) option" where
  "patch_block block_no ps w =
    (let (ok, w1) = read_block_into_scratch block_no w in
     if \<not> ok then Some (False, w1)
     else do { s \<leftarrow> put_all ps (scratch w1);
               Some (write_block_from_scratch block_no (w1\<lparr>scratch := s\<rparr>)) })"

section \<open>Bitmap allocator\<close>

definition block_to_group_bit :: "Ext2State \<Rightarrow> u32 \<Rightarrow> (nat \<times> u32) option" where
  "block_to_group_bit e block_no =
    (if blocks_per_group e = 0 then None
     else (let rel = block_no - first_data_block e
           in Some (unat (rel div blocks_per_group e), rel mod blocks_per_group e)))"

definition group_bit_to_block :: "Ext2State \<Rightarrow> nat \<Rightarrow> u32 \<Rightarrow> u32" where
  "group_bit_to_block e grp b = first_data_block e + of_nat grp * blocks_per_group e + b"

definition inode_to_group_bit :: "Ext2State \<Rightarrow> u32 \<Rightarrow> (nat \<times> u32) option" where
  "inode_to_group_bit e ino =
    (if inodes_per_group e = 0 then None
     else Some (unat ((ino - 1) div inodes_per_group e), (ino - 1) mod inodes_per_group e))"

definition write_bgdt_entry :: "nat \<Rightarrow> Ext2 \<Rightarrow> (bool \<times> Ext2) option" where
  "write_bgdt_entry grp w =
    (let base = grp * 32; desc = bgdt (st w) ! grp in
     patch_block (bgdt_block (st w))
       [(base + 12, le16 (free_blocks_count desc)), (base + 14, le16 (free_inodes_count desc)),
        (base + 16, le16 (used_dirs_count desc))] w)"

definition write_superblock_free_counts :: "Ext2 \<Rightarrow> bool \<times> Ext2" where
  "write_superblock_free_counts w =
    (let sb_lba = lba_offset (st w) + 2 in
     case read_sector_sec sb_lba (drives w) of
       None \<Rightarrow> (False, w)
     | Some sb0 \<Rightarrow>
        (let sb1 = blit 12 (le32 (sb_free_blocks (st w))) sb0; sb2 = blit 16 (le32 (sb_free_inodes (st w))) sb1;
             (ok, ds) = write_sector_sec sb_lba sb2 (drives w)
         in (ok, w\<lparr>drives := ds\<rparr>)))"

text \<open>The first clear bit below \<open>n\<close>; the search stops at the end of the block.\<close>

definition find_clear :: "nat \<Rightarrow> nat \<Rightarrow> bytes \<Rightarrow> nat option" where
  "find_clear n bs s =
    find (\<lambda>k. s ! (k div 8) AND push_bit (k mod 8) 1 = 0) [0..<min n (8 * bs)]"

definition set_bit_at :: "nat \<Rightarrow> bytes \<Rightarrow> bytes" where
  "set_bit_at k s = s[k div 8 := s ! (k div 8) OR push_bit (k mod 8) 1]"

definition clear_bit_at :: "nat \<Rightarrow> bytes \<Rightarrow> bytes" where
  "clear_bit_at k s = s[k div 8 := s ! (k div 8) AND NOT (push_bit (k mod 8) 1)]"

definition take_block :: "nat \<Rightarrow> Ext2State \<Rightarrow> Ext2State" where
  "take_block g e =
    e\<lparr>bgdt := (bgdt e)[g := (bgdt e ! g)\<lparr>free_blocks_count := free_blocks_count (bgdt e ! g) - 1\<rparr>],
      sb_free_blocks := sat_dec (sb_free_blocks e)\<rparr>"

fun alloc_block_in :: "nat list \<Rightarrow> Ext2 \<Rightarrow> (u32 \<times> Ext2) option" where
  "alloc_block_in [] w = Some (0, w)"
| "alloc_block_in (g # gs) w =
    (if g \<ge> unat (groups_count (st w)) \<or> free_blocks_count (bgdt (st w) ! g) = 0 then alloc_block_in gs w
     else (let bitmap_block = block_bitmap (bgdt (st w) ! g); (ok, w1) = read_block_into_scratch bitmap_block w in
           if \<not> ok then alloc_block_in gs w1
           else (case find_clear (unat (blocks_per_group (st w))) (unat (block_size (st w))) (scratch w1) of
                   None \<Rightarrow> alloc_block_in gs w1
                 | Some k \<Rightarrow>
                    (let (ok2, w2) = write_block_from_scratch bitmap_block (w1\<lparr>scratch := set_bit_at k (scratch w1)\<rparr>) in
                     if \<not> ok2 then Some (0, w2)
                     else do {
                       (ok3, w3) \<leftarrow> write_bgdt_entry g (w2\<lparr>st := take_block g (st w2)\<rparr>);
                       if \<not> ok3 then Some (0, w3)
                       else (let (ok4, w4) = write_superblock_free_counts w3 in
                             if \<not> ok4 then Some (0, w4)
                             else (let block_no = group_bit_to_block (st w4) g (of_nat k);
                                       (ok5, w5) = write_block_from_scratch block_no (w4\<lparr>scratch := replicate MAX_BLOCK 0\<rparr>)
                                   in Some (if ok5 then block_no else 0, w5))) }))))"

definition ext2_alloc_block :: "nat \<Rightarrow> Ext2 \<Rightarrow> (u32 \<times> Ext2) option" where
  "ext2_alloc_block pref_group w = alloc_block_in (pref_group # [0..<unat (groups_count (st w))]) w"

text \<open>Write the descriptor and the superblock counts, one after the other.\<close>

definition flush_counts :: "nat \<Rightarrow> Ext2 \<Rightarrow> (bool \<times> Ext2) option" where
  "flush_counts g w =
    do { (bgdt_ok, w1) \<leftarrow> write_bgdt_entry g w;
         (let (sb_ok, w2) = write_superblock_free_counts w1 in Some (bgdt_ok \<and> sb_ok, w2)) }"

definition give_block :: "nat \<Rightarrow> Ext2State \<Rightarrow> Ext2State" where
  "give_block g e =
    e\<lparr>bgdt := (bgdt e)[g := (bgdt e ! g)\<lparr>free_blocks_count := free_blocks_count (bgdt e ! g) + 1\<rparr>],
      sb_free_blocks := sb_free_blocks e + 1\<rparr>"

definition ext2_free_block :: "u32 \<Rightarrow> Ext2 \<Rightarrow> (bool \<times> Ext2) option" where
  "ext2_free_block block_no w =
    (if block_no = 0 then Some (True, w)
     else do {
       (g, b) \<leftarrow> block_to_group_bit (st w) block_no;
       if g \<ge> unat (groups_count (st w)) then Some (False, w)
       else (let bitmap_block = block_bitmap (bgdt (st w) ! g); (ok, w1) = read_block_into_scratch bitmap_block w in
             if \<not> ok then Some (False, w1)
             else if unat b div 8 \<ge> length (scratch w1) then None
             else (let (ok2, w2) = write_block_from_scratch bitmap_block (w1\<lparr>scratch := clear_bit_at (unat b) (scratch w1)\<rparr>) in
                   if \<not> ok2 then Some (False, w2)
                   else flush_counts g (w2\<lparr>st := give_block g (st w2)\<rparr>))) })"

definition take_inode :: "nat \<Rightarrow> bool \<Rightarrow> Ext2State \<Rightarrow> Ext2State" where
  "take_inode g is_dir e =
    e\<lparr>bgdt := (bgdt e)[g := (bgdt e ! g)\<lparr>free_inodes_count := free_inodes_count (bgdt e ! g) - 1,
        used_dirs_count := used_dirs_count (bgdt e ! g) + (if is_dir then 1 else 0)\<rparr>],
      sb_free_inodes := sat_dec (sb_free_inodes e)\<rparr>"

fun alloc_inode_in :: "nat list \<Rightarrow> bool \<Rightarrow> Ext2 \<Rightarrow> (u32 \<times> Ext2) option" where
  "alloc_inode_in [] is_dir w = Some (0, w)"
| "alloc_inode_in (g # gs) is_dir w =
    (if g \<ge> unat (groups_count (st w)) \<or> free_inodes_count (bgdt (st w) ! g) = 0 then alloc_inode_in gs is_dir w
     else (let bitmap_block = inode_bitmap (bgdt (st w) ! g); (ok, w1) = read_block_into_scratch bitmap_block w in
           if \<not> ok then alloc_inode_in gs is_dir w1
           else (case find_clear (unat (inodes_per_group (st w))) (unat (block_size (st w))) (scratch w1) of
                   None \<Rightarrow> alloc_inode_in gs is_dir w1
                 | Some k \<Rightarrow>
                    (let (ok2, w2) = write_block_from_scratch bitmap_block (w1\<lparr>scratch := set_bit_at k (scratch w1)\<rparr>) in
                     if \<not> ok2 then Some (0, w2)
                     else do {
                       (ok3, w3) \<leftarrow> write_bgdt_entry g (w2\<lparr>st := take_inode g is_dir (st w2)\<rparr>);
                       if \<not> ok3 then Some (0, w3)
                       else (let (ok4, w4) = write_superblock_free_counts w3
                             in Some (if ok4 then of_nat g * inodes_per_group (st w4) + of_nat k + 1 else 0, w4)) }))))"

definition ext2_alloc_inode :: "nat \<Rightarrow> bool \<Rightarrow> Ext2 \<Rightarrow> (u32 \<times> Ext2) option" where
  "ext2_alloc_inode pref_group is_dir w = alloc_inode_in (pref_group # [0..<unat (groups_count (st w))]) is_dir w"

section \<open>Inodes\<close>

text \<open>Block and byte of an inode record: the outer option is the panic of a division by
  zero, the inner one the source's \<open>None\<close>.\<close>

definition inode_location :: "Ext2State \<Rightarrow> u32 \<Rightarrow> (u32 \<times> nat) option option" where
  "inode_location e ino =
    (if ino = 0 then Some None
     else if inodes_per_group e = 0 then None
     else (let grp = unat ((ino - 1) div inodes_per_group e); local_idx = (ino - 1) mod inodes_per_group e in
           if grp \<ge> unat (groups_count e) then Some None
           else if block_size e = 0 then None
           else (let byte_offset = local_idx * inode_size e
                 in Some (Some (inode_table (bgdt e ! grp) + byte_offset div block_size e,
                                unat (byte_offset mod block_size e))))))"

definition patch_inode :: "u32 \<Rightarrow> (nat \<times> bytes) list \<Rightarrow> Ext2 \<Rightarrow> (bool \<times> Ext2) option" where
  "patch_inode ino ps w =
    do { loc \<leftarrow> inode_location (st w) ino;
         (case loc of
            None \<Rightarrow> Some (False, w)
          | Some (blk, base) \<Rightarrow> patch_block blk (map (\<lambda>(off, src). (base + off, src)) ps) w) }"

definition give_inode :: "nat \<Rightarrow> bool \<Rightarrow> Ext2State \<Rightarrow> Ext2State" where
  "give_inode g is_dir e =
    e\<lparr>bgdt := (bgdt e)[g := (bgdt e ! g)\<lparr>free_inodes_count := free_inodes_count (bgdt e ! g) + 1,
        used_dirs_count := (if is_dir then sat_dec (used_dirs_count (bgdt e ! g)) else used_dirs_count (bgdt e ! g))\<rparr>],
      sb_free_inodes := sb_free_inodes e + 1\<rparr>"

definition ext2_free_inode :: "u32 \<Rightarrow> bool \<Rightarrow> Ext2 \<Rightarrow> (bool \<times> Ext2) option" where
  "ext2_free_inode ino is_dir w =
    (if ino = 0 then Some (True, w)
     else do {
       (g, b) \<leftarrow> inode_to_group_bit (st w) ino;
       if g \<ge> unat (groups_count (st w)) then Some (False, w)
       else (let bitmap_block = inode_bitmap (bgdt (st w) ! g); (ok, w1) = read_block_into_scratch bitmap_block w in
             if \<not> ok then Some (False, w1)
             else if unat b div 8 \<ge> length (scratch w1) then None
             else (let (ok2, w2) = write_block_from_scratch bitmap_block (w1\<lparr>scratch := clear_bit_at (unat b) (scratch w1)\<rparr>) in
                   if \<not> ok2 then Some (False, w2)
                   else do {
                     (_, w3) \<leftarrow> patch_inode ino [(0, [0, 0]), (4, [0, 0, 0, 0]), (26, [0, 0])] w2;
                     flush_counts g (w3\<lparr>st := give_inode g is_dir (st w3)\<rparr>) })) })"

text \<open>The fields the driver reads; the others stay zero.\<close>

definition parse_inode :: "bytes \<Rightarrow> nat \<Rightarrow> Inode option" where
  "parse_inode s base =
    (if base + 112 \<le> length s then
       Some (inode_zero\<lparr>i_mode := rd16 s base, i_uid := rd16 s (base + 2), size_lo := rd32 s (base + 4),
         links_count := rd16 s (base + 26), blocks_512 := rd32 s (base + 28),
         i_block := map (\<lambda>i. rd32 s (base + 40 + i * 4)) [0..<15], size_hi := rd32 s (base + 108)\<rparr>)
     else None)"

definition read_inode :: "u32 \<Rightarrow> Ext2 \<Rightarrow> (Inode option \<times> Ext2) option" where
  "read_inode ino w =
    do { loc \<leftarrow> inode_location (st w) ino;
         (case loc of
            None \<Rightarrow> Some (None, w)
          | Some (blk, base) \<Rightarrow>
             (let (ok, w1) = read_block_into_scratch blk w in
              if \<not> ok then Some (None, w1)
              else do { i \<leftarrow> parse_inode (scratch w1) base; Some (Some i, w1) })) }"

definition update_inode_size :: "u32 \<Rightarrow> u32 \<Rightarrow> Ext2 \<Rightarrow> (bool \<times> Ext2) option" where
  "update_inode_size ino new_size w = patch_inode ino [(4, le32 new_size)] w"

definition update_inode_block_ptr :: "u32 \<Rightarrow> nat \<Rightarrow> u32 \<Rightarrow> Ext2 \<Rightarrow> (bool \<times> Ext2) option" where
  "update_inode_block_ptr ino idx block_no w = patch_inode ino [(40 + idx * 4, le32 block_no)] w"

definition update_inode_times :: "u32 \<Rightarrow> Ext2 \<Rightarrow> (bool \<times> Ext2) option" where
  "update_inode_times ino w = patch_inode ino [(8, replicate 12 0)] w"

definition update_inode_links :: "u32 \<Rightarrow> u16 \<Rightarrow> Ext2 \<Rightarrow> (bool \<times> Ext2) option" where
  "update_inode_links ino n w = patch_inode ino [(26, le16 n)] w"

definition read_inode_links :: "u32 \<Rightarrow> Ext2 \<Rightarrow> (u16 \<times> Ext2) option" where
  "read_inode_links ino w =
    do { loc \<leftarrow> inode_location (st w) ino;
         (case loc of
            None \<Rightarrow> Some (0, w)
          | Some (blk, base) \<Rightarrow>
             (let (ok, w1) = read_block_into_scratch blk w in
              if \<not> ok then Some (0, w1)
              else if base + 28 \<le> length (scratch w1) then Some (rd16 (scratch w1) (base + 26), w1) else None)) }"

definition write_new_inode_record :: "u32 \<Rightarrow> u16 \<Rightarrow> u16 \<Rightarrow> Ext2 \<Rightarrow> (bool \<times> Ext2) option" where
  "write_new_inode_record ino m n w = patch_inode ino [(0, replicate 128 0), (0, le16 m), (26, le16 n)] w"

text \<open>Freeing the direct blocks from \<open>keep\<close> on, as \<open>resize_blocks\<close> does.\<close>

fun drop_blocks :: "u32 \<Rightarrow> nat list \<Rightarrow> u32 list \<Rightarrow> Ext2 \<Rightarrow> (bool \<times> u32 list \<times> Ext2) option" where
  "drop_blocks ino [] blocks w = Some (True, blocks, w)"
| "drop_blocks ino (bi # bis) blocks w =
    (if blocks ! bi = 0 then drop_blocks ino bis blocks w
     else do {
       (_, w1) \<leftarrow> ext2_free_block (blocks ! bi) w;
       (ok, w2) \<leftarrow> update_inode_block_ptr ino bi 0 w1;
       if \<not> ok then Some (False, blocks[bi := 0], w2) else drop_blocks ino bis (blocks[bi := 0]) w2 })"

definition resize_blocks :: "u32 \<Rightarrow> u32 list \<Rightarrow> u32 \<Rightarrow> u32 \<Rightarrow> Ext2 \<Rightarrow> (bool \<times> u32 list \<times> u32 \<times> Ext2) option" where
  "resize_blocks ino blocks cur_size new_len w =
    (let bs = block_size (st w) in
     if new_len > 12 * bs then Some (False, blocks, cur_size, w)
     else if new_len < cur_size \<and> bs = 0 then None
     else do {
       (ok, blocks1, w1) \<leftarrow>
         (if new_len < cur_size
          then drop_blocks ino [(unat new_len + (unat bs - 1)) div unat bs..<12] blocks w
          else Some (True, blocks, w));
       if \<not> ok then Some (False, blocks1, cur_size, w1)
       else do { (ok2, w2) \<leftarrow> update_inode_size ino new_len w1; Some (ok2, blocks1, new_len, w2) } })"

section \<open>Directories\<close>

text \<open>The header of the entry at \<open>pos\<close>: inode number, record length, name length.\<close>

definition dirent :: "bytes \<Rightarrow> nat \<Rightarrow> (u32 \<times> nat \<times> nat) option" where
  "dirent s pos =
    (if pos + 7 \<le> length s then Some (rd32 s pos, unat (rd16 s (pos + 4)), unat (s ! (pos + 6))) else None)"

text \<open>The position and inode of the entry with a name, in the first \<open>lim\<close> bytes of a block.\<close>

function find_in_block :: "bytes \<Rightarrow> nat \<Rightarrow> bytes \<Rightarrow> nat \<Rightarrow> (nat \<times> u32) option option" where
  "find_in_block s lim name pos =
    (if \<not> pos < lim then Some None
     else case dirent s pos of
       None \<Rightarrow> None
     | Some (ino, reclen, namlen) \<Rightarrow>
        if reclen = 0 then Some None
        else if ino \<noteq> 0 \<and> namlen = length name then
          (case slice (pos + 8) namlen s of
             None \<Rightarrow> None
           | Some n \<Rightarrow> if n = name then Some (Some (pos, ino)) else find_in_block s lim name (pos + reclen))
        else find_in_block s lim name (pos + reclen))"
  by pat_completeness auto
termination
  by (relation "measure (\<lambda>(s, lim, name, pos). lim - pos)") auto

declare find_in_block.simps [simp del]

fun lookup_blocks :: "bytes \<Rightarrow> nat \<Rightarrow> nat \<Rightarrow> u32 list \<Rightarrow> Ext2 \<Rightarrow> (u32 \<times> Ext2) option" where
  "lookup_blocks name dir_size seen [] w = Some (0, w)"
| "lookup_blocks name dir_size seen (blk # blks) w =
    (if blk = 0 \<or> seen \<ge> dir_size then Some (0, w)
     else (let (ok, w1) = read_block_into_scratch blk w; bs = unat (block_size (st w)) in
           if \<not> ok then Some (0, w1)
           else case find_in_block (scratch w1) (min bs (dir_size - seen)) name 0 of
             None \<Rightarrow> None
           | Some (Some (pos, ino)) \<Rightarrow> Some (ino, w1)
           | Some None \<Rightarrow> lookup_blocks name dir_size (seen + bs) blks w1))"

definition dir_lookup :: "u32 \<Rightarrow> bytes \<Rightarrow> Ext2 \<Rightarrow> (u32 \<times> Ext2) option" where
  "dir_lookup dir_ino name w =
    do { (i, w1) \<leftarrow> read_inode dir_ino w;
         (case i of
            None \<Rightarrow> Some (0, w1)
          | Some dir \<Rightarrow>
             if \<not> inode_is_dir dir then Some (0, w1)
             else lookup_blocks name (unat (size_lo dir)) 0 (take 12 (i_block dir)) w1) }"

fun lookup_components :: "bytes list \<Rightarrow> u32 \<Rightarrow> Ext2 \<Rightarrow> (u32 \<times> Ext2) option" where
  "lookup_components [] cur_ino w = Some (cur_ino, w)"
| "lookup_components (c # cs) cur_ino w =
    (if c = [] then lookup_components cs cur_ino w
     else do { (next, w1) \<leftarrow> dir_lookup cur_ino c w;
               if next = 0 then Some (0, w1) else lookup_components cs next w1 })"

definition lookup_path :: "bytes \<Rightarrow> Ext2 \<Rightarrow> (u32 \<times> Ext2) option" where
  "lookup_path path w =
    (let p = dropWhile (\<lambda>c. c = 47) path in
     if p = [] then Some (2, w) else lookup_components (split_on 47 p) 2 w)"

definition ext2_resolve_parent :: "bytes \<Rightarrow> Ext2 \<Rightarrow> ((u32 \<times> bytes) option \<times> Ext2) option" where
  "ext2_resolve_parent path w =
    (let p = dropWhile (\<lambda>c. c = 47) path in
     if p = [] then Some (None, w)
     else (let (parent_part, name) =
             (case rfind 47 p of Some i \<Rightarrow> (take i p, drop (i + 1) p) | None \<Rightarrow> ([], p)) in
           if name = [] \<or> length name > 255 then Some (None, w)
           else do {
             (parent_ino, w1) \<leftarrow> (if parent_part = [] then Some (2, w) else lookup_path parent_part w);
             Some (if parent_ino = 0 then None else Some (parent_ino, name), w1) }))"

definition dirent_align4 :: "nat \<Rightarrow> nat" where
  "dirent_align4 n = (n + 3) div 4 * 4"

definition write_dir_entry_at :: "nat \<Rightarrow> u32 \<Rightarrow> u16 \<Rightarrow> bytes \<Rightarrow> u8 \<Rightarrow> bytes \<Rightarrow> bytes option" where
  "write_dir_entry_at pos ino rec_len name file_type s =
    put pos (le32 ino @ le16 rec_len @ [of_nat (length name), file_type] @ name) s"

text \<open>Inserting into one block: the changed block, or \<open>Some None\<close> without room.\<close>

function insert_in_block :: "bytes \<Rightarrow> nat \<Rightarrow> bytes \<Rightarrow> u32 \<Rightarrow> u8 \<Rightarrow> nat \<Rightarrow> bytes option option" where
  "insert_in_block s bs name new_ino file_type pos =
    (if \<not> pos < bs then Some None
     else case dirent s pos of
       None \<Rightarrow> None
     | Some (ino, reclen, namlen) \<Rightarrow>
        (let needed = dirent_align4 (8 + length name); ideal = dirent_align4 (8 + namlen) in
         if reclen = 0 \<or> pos + reclen > bs then Some None
         else if ino = 0 \<and> reclen \<ge> needed then
           map_option Some (write_dir_entry_at pos new_ino (of_nat reclen) name file_type s)
         else if ino \<noteq> 0 \<and> reclen \<ge> ideal + needed then
           do { s1 \<leftarrow> put (pos + 4) (le16 (of_nat ideal)) s;
                s2 \<leftarrow> write_dir_entry_at (pos + ideal) new_ino (of_nat (reclen - ideal)) name file_type s1;
                Some (Some s2) }
         else insert_in_block s bs name new_ino file_type (pos + reclen)))"
  by pat_completeness auto
termination
  by (relation "measure (\<lambda>(s, bs, name, new_ino, file_type, pos). bs - pos)") auto

declare insert_in_block.simps [simp del]

text \<open>The walk over the blocks of the directory: \<open>Some None\<close> when no block has room.\<close>

fun insert_blocks :: "bytes \<Rightarrow> u32 \<Rightarrow> u8 \<Rightarrow> nat \<Rightarrow> nat \<Rightarrow> u32 list \<Rightarrow> Ext2 \<Rightarrow> (bool option \<times> Ext2) option" where
  "insert_blocks name new_ino file_type dir_size seen [] w = Some (None, w)"
| "insert_blocks name new_ino file_type dir_size seen (blk # blks) w =
    (if blk = 0 \<or> seen \<ge> dir_size then Some (None, w)
     else (let (ok, w1) = read_block_into_scratch blk w; bs = unat (block_size (st w)) in
           if \<not> ok then Some (Some False, w1)
           else case insert_in_block (scratch w1) bs name new_ino file_type 0 of
             None \<Rightarrow> None
           | Some (Some s) \<Rightarrow>
              (let (ok2, w2) = write_block_from_scratch blk (w1\<lparr>scratch := s\<rparr>) in Some (Some ok2, w2))
           | Some None \<Rightarrow> insert_blocks name new_ino file_type dir_size (seen + bs) blks w1))"

text \<open>Extending the directory by a new block.\<close>

definition extend_dir :: "u32 \<Rightarrow> Inode \<Rightarrow> bytes \<Rightarrow> u32 \<Rightarrow> u8 \<Rightarrow> Ext2 \<Rightarrow> (bool \<times> Ext2) option" where
  "extend_dir dir_ino dir name new_ino file_type w =
    (case find (\<lambda>bi. i_block dir ! bi = 0) [0..<12] of
       None \<Rightarrow> Some (False, w)
     | Some bi \<Rightarrow>
        if inodes_per_group (st w) = 0 then None
        else do {
          (new_block, w1) \<leftarrow> ext2_alloc_block (unat ((dir_ino - 1) div inodes_per_group (st w))) w;
          if new_block = 0 then Some (False, w1)
          else (let (ok, w2) = read_block_into_scratch new_block w1 in
                if \<not> ok then Some (False, w2)
                else do {
                  s \<leftarrow> write_dir_entry_at 0 new_ino (ucast (block_size (st w2))) name file_type (scratch w2);
                  (let (ok2, w3) = write_block_from_scratch new_block (w2\<lparr>scratch := s\<rparr>) in
                   if \<not> ok2 then Some (False, w3)
                   else do {
                     (ok3, w4) \<leftarrow> update_inode_block_ptr dir_ino bi new_block w3;
                     if \<not> ok3 then Some (False, w4)
                     else update_inode_size dir_ino (size_lo dir + block_size (st w4)) w4 }) }) })"

definition dir_insert_entry :: "u32 \<Rightarrow> bytes \<Rightarrow> u32 \<Rightarrow> u8 \<Rightarrow> Ext2 \<Rightarrow> (bool \<times> Ext2) option" where
  "dir_insert_entry dir_ino name new_ino file_type w =
    (if name = [] \<or> length name > 255 then Some (False, w)
     else do {
       (i, w1) \<leftarrow> read_inode dir_ino w;
       (case i of
          None \<Rightarrow> Some (False, w1)
        | Some dir \<Rightarrow>
           if \<not> inode_is_dir dir then Some (False, w1)
           else do {
             (r, w2) \<leftarrow> insert_blocks name new_ino file_type (unat (size_lo dir)) 0 (take 12 (i_block dir)) w1;
             (case r of
                Some ok \<Rightarrow> Some (ok, w2)
              | None \<Rightarrow> extend_dir dir_ino dir name new_ino file_type w2) }) })"

fun delete_blocks :: "bytes \<Rightarrow> nat \<Rightarrow> nat \<Rightarrow> u32 list \<Rightarrow> Ext2 \<Rightarrow> (bool \<times> Ext2) option" where
  "delete_blocks name dir_size seen [] w = Some (False, w)"
| "delete_blocks name dir_size seen (blk # blks) w =
    (if blk = 0 \<or> seen \<ge> dir_size then Some (False, w)
     else (let (ok, w1) = read_block_into_scratch blk w; bs = unat (block_size (st w)) in
           if \<not> ok then Some (False, w1)
           else case find_in_block (scratch w1) (min bs (dir_size - seen)) name 0 of
             None \<Rightarrow> None
           | Some (Some (pos, ino)) \<Rightarrow>
              Some (write_block_from_scratch blk (w1\<lparr>scratch := blit pos (replicate 4 0) (scratch w1)\<rparr>))
           | Some None \<Rightarrow> delete_blocks name dir_size (seen + bs) blks w1))"

definition dir_delete_entry :: "u32 \<Rightarrow> bytes \<Rightarrow> Ext2 \<Rightarrow> (bool \<times> Ext2) option" where
  "dir_delete_entry dir_ino name w =
    do { (i, w1) \<leftarrow> read_inode dir_ino w;
         (case i of
            None \<Rightarrow> Some (False, w1)
          | Some dir \<Rightarrow>
             if \<not> inode_is_dir dir then Some (False, w1)
             else delete_blocks name (unat (size_lo dir)) 0 (take 12 (i_block dir)) w1) }"

section \<open>Mounting\<close>

definition parse_bgd :: "bytes \<Rightarrow> nat \<Rightarrow> BlockGroupDesc" where
  "parse_bgd s base =
    \<lparr>block_bitmap = rd32 s base, inode_bitmap = rd32 s (base + 4), inode_table = rd32 s (base + 8),
     free_blocks_count = rd16 s (base + 12), free_inodes_count = rd16 s (base + 14), used_dirs_count = rd16 s (base + 16)\<rparr>"

text \<open>The geometry of the superblock; \<open>1024 << log\<close> uses the low five bits of its operand.\<close>

definition parse_superblock :: "u32 \<Rightarrow> bytes \<Rightarrow> Ext2State \<Rightarrow> Ext2State" where
  "parse_superblock partition_lba s e =
    (let bs = push_bit (unat (rd32 s 24) mod 32) 1024; bpg = rd32 s 32;
         groups = (unat (rd32 s 4) + (unat bpg - 1)) div unat bpg in
     e\<lparr>lba_offset := partition_lba, block_size := bs, sects_per_block := bs div 512, inodes_per_group := rd32 s 40,
       blocks_per_group := bpg, inode_size := (if rd32 s 76 \<ge> 1 then ucast (rd16 s 88) else 128),
       first_data_block := rd32 s 20, groups_count := of_nat (min groups MAX_GROUPS),
       sb_free_blocks := rd32 s 12, sb_free_inodes := rd32 s 16\<rparr>)"

definition ext2_init :: "u32 \<Rightarrow> Ext2 \<Rightarrow> Ext2 option" where
  "ext2_init partition_lba w =
    (if \<not> is_present_sec (drives w) then Some w
     else case read_sector_sec (partition_lba + 2) (drives w) of
       None \<Rightarrow> Some w
     | Some sb0 \<Rightarrow>
        (case read_sector_sec (partition_lba + 2 + 1) (drives w) of
           None \<Rightarrow> Some w
         | Some sb1 \<Rightarrow>
            (let s = blit 512 sb1 (blit 0 sb0 (scratch w)); w1 = w\<lparr>scratch := s\<rparr>;
                 bs = push_bit (unat (rd32 s 24) mod 32) 1024 :: u32 in
             if rd16 s 56 \<noteq> EXT2_MAGIC then Some w1
             else if bs > of_nat MAX_BLOCK then Some w1
             else if rd32 s 32 > bs * 8 \<or> rd32 s 40 > bs * 8 then Some w1
             else if rd32 s 32 = 0 then None
             else (let w2 = w1\<lparr>st := parse_superblock partition_lba s (st w1)\<rparr>; bgdt_blk = rd32 s 20 + 1;
                       (ok, w3) = read_block_into_scratch bgdt_blk w2 in
                   if \<not> ok then Some w3
                   else (let n = unat (groups_count (st w3)) in
                         Some (w3\<lparr>st := (st w3)\<lparr>bgdt_block := bgdt_blk, e_ready := True,
                           bgdt := map (\<lambda>g. parse_bgd (scratch w3) (g * 32)) [0..<n] @ drop n (bgdt (st w3))\<rparr>\<rparr>))))))"

definition ext2_is_ready :: "Ext2 \<Rightarrow> bool" where
  "ext2_is_ready w \<longleftrightarrow> e_ready (st w)"

definition is_ext2_fd :: "int \<Rightarrow> bool" where
  "is_ext2_fd fd \<longleftrightarrow> fd \<ge> EXT2_FD_BASE \<and> fd < EXT2_FD_BASE + int EXT2_FD_COUNT"

definition strip_ext2_prefix :: "bytes \<Rightarrow> bytes" where
  "strip_ext2_prefix path =
    (if starts_with (bstr ''/ext2/'') path then drop 5 path
     else if path = bstr ''/ext2'' then bstr ''/''
     else path)"

section \<open>Opening and creating\<close>

text \<open>The group of an inode, the panic being a division by zero.\<close>

definition group_of :: "Ext2State \<Rightarrow> u32 \<Rightarrow> nat option" where
  "group_of e ino = map_option fst (inode_to_group_bit e ino)"

definition ext2_create :: "bytes \<Rightarrow> Ext2 \<Rightarrow> (int \<times> Ext2) option" where
  "ext2_create path w =
    (if \<not> e_ready (st w) then Some (ENOENT, w)
     else do {
       (p, w1) \<leftarrow> ext2_resolve_parent path w;
       (case p of
          None \<Rightarrow> Some (ENOENT, w1)
        | Some (parent_ino, name) \<Rightarrow> do {
            (old, w2) \<leftarrow> dir_lookup parent_ino name w1;
            if old \<noteq> 0 then Some (EEXIST, w2)
            else do {
              g \<leftarrow> group_of (st w2) parent_ino;
              (ino, w3) \<leftarrow> ext2_alloc_inode g False w2;
              if ino = 0 then Some (ENOSPC, w3)
              else do {
                (ok, w4) \<leftarrow> write_new_inode_record ino (S_IFREG OR 0x1A4) 1 w3;
                if \<not> ok then do { (_, w5) \<leftarrow> ext2_free_inode ino False w4; Some (- 5, w5) }
                else do {
                  (ok2, w5) \<leftarrow> dir_insert_entry parent_ino name ino FT_REG w4;
                  if \<not> ok2 then do { (_, w6) \<leftarrow> ext2_free_inode ino False w5; Some (ENOSPC, w6) }
                  else Some (int (unat ino), w5) } } } }) })"

definition alloc_ext2_fd :: "u32 \<Rightarrow> Inode \<Rightarrow> u32 \<Rightarrow> Ext2 \<Rightarrow> int \<times> Ext2" where
  "alloc_ext2_fd ino inode flags w =
    (case first_index (\<lambda>f. \<not> ef_active f) (e_fds (st w)) of
       None \<Rightarrow> (- 24, w)
     | Some i \<Rightarrow>
        (EXT2_FD_BASE + int i,
         w\<lparr>st := (st w)\<lparr>e_fds := (e_fds (st w))[i :=
           \<lparr>ef_active = True, inode_no = ino, ef_size = size_lo inode,
            ef_offset = (if flags AND O_APPEND \<noteq> 0 then size_lo inode else 0),
            direct_blocks = take 12 (i_block inode), ef_writable = wants_write flags,
            ef_append = (flags AND O_APPEND \<noteq> 0)\<rparr>]\<rparr>\<rparr>))"

text \<open>The inode to open: found, or created with \<open>O_CREAT\<close>.  Left is an error.\<close>

definition open_inode :: "bytes \<Rightarrow> u32 \<Rightarrow> Ext2 \<Rightarrow> ((int + u32) \<times> Ext2) option" where
  "open_inode path flags w =
    do { (ino, w1) \<leftarrow> lookup_path path w;
         if ino \<noteq> 0 then Some (Inr ino, w1)
         else if flags AND O_CREAT = 0 then Some (Inl ENOENT, w1)
         else do {
           (created, w2) \<leftarrow> ext2_create path w1;
           Some (if created \<le> 0 then Inl (min created (- 1)) else Inr (of_int created), w2) } }"

definition ext2_open :: "bytes \<Rightarrow> u32 \<Rightarrow> Ext2 \<Rightarrow> (int \<times> Ext2) option" where
  "ext2_open raw_path flags w =
    (if \<not> e_ready (st w) then Some (ENOENT, w)
     else do {
       (r, w1) \<leftarrow> open_inode (strip_ext2_prefix raw_path) flags w;
       (case r of
          Inl e \<Rightarrow> Some (e, w1)
        | Inr ino \<Rightarrow> do {
            (i, w2) \<leftarrow> read_inode ino w1;
            (case i of
               None \<Rightarrow> Some (- 1, w2)
             | Some inode \<Rightarrow>
                if \<not> inode_is_file inode then Some (- 21, w2)
                else if flags AND O_TRUNC = 0 then Some (alloc_ext2_fd ino inode flags w2)
                else do {
                  (ok, _, size, w3) \<leftarrow> resize_blocks ino (take 12 (i_block inode)) (size_lo inode) 0 w2;
                  if \<not> ok then Some (- 5, w3)
                  else Some (alloc_ext2_fd ino (inode\<lparr>size_lo := size,
                         i_block := replicate 12 0 @ drop 12 (i_block inode)\<rparr>) flags w3) }) }) })"

section \<open>Reading and writing\<close>

definition ext2_slot :: "int \<Rightarrow> nat" where
  "ext2_slot fd = nat (fd - EXT2_FD_BASE)"

definition set_fd :: "nat \<Rightarrow> Ext2Fd \<Rightarrow> Ext2 \<Rightarrow> Ext2" where
  "set_fd i f w = w\<lparr>st := (st w)\<lparr>e_fds := (e_fds (st w))[i := f]\<rparr>\<rparr>"

lemma chunk_progress: "\<lbrakk>done < n; 0 < bs\<rbrakk> \<Longrightarrow> n - (done + min (bs - x mod bs) (n - done)) < n - (done :: nat)"
  using mod_less_divisor [of bs x] by linarith

function ext2_read_loop :: "Ext2Fd \<Rightarrow> nat \<Rightarrow> nat \<Rightarrow> bytes \<Rightarrow> Ext2 \<Rightarrow> (nat \<times> bytes \<times> Ext2) option" where
  "ext2_read_loop f to_read done buf w =
    (if \<not> done < to_read then Some (done, buf, w)
     else if block_size (st w) = 0 then None
     else (let bs = unat (block_size (st w)); off = unat (ef_offset f) + done;
               bi = off div bs; bib = off mod bs; avail = min (bs - bib) (to_read - done) in
           if bi \<ge> 12 then Some (done, buf, w)
           else if direct_blocks f ! bi = 0 then
             ext2_read_loop f to_read (done + avail) (blit done (replicate avail 0) buf) w
           else (case read_block_into_scratch (direct_blocks f ! bi) w of
                   (False, w1) \<Rightarrow> Some (done, buf, w1)
                 | (True, w1) \<Rightarrow>
                    (case slice bib avail (scratch w1) of
                       None \<Rightarrow> None
                     | Some d \<Rightarrow> ext2_read_loop f to_read (done + avail) (blit done d buf) w1))))"
  by pat_completeness auto
termination
  by (relation "measure (\<lambda>(f, to_read, done, buf, w). to_read - done)")
    (auto simp: unat_gt_0 intro!: chunk_progress)

declare ext2_read_loop.simps [simp del]

definition ext2_read_fd :: "int \<Rightarrow> bytes \<Rightarrow> Ext2 \<Rightarrow> (int \<times> bytes \<times> Ext2) option" where
  "ext2_read_fd fd buf w =
    (if \<not> e_ready (st w) \<or> \<not> is_ext2_fd fd then Some (- 5, buf, w)
     else (let i = ext2_slot fd; f = e_fds (st w) ! i in
           if \<not> ef_active f then Some (- 5, buf, w)
           else (let remaining = unat (ef_size f) - unat (ef_offset f) in
                 if remaining = 0 then Some (0, buf, w)
                 else do {
                   (n, buf', w1) \<leftarrow> ext2_read_loop f (min (length buf) remaining) 0 buf w;
                   Some (int n, buf', set_fd i (f\<lparr>ef_offset := ef_offset f + of_nat n\<rparr>) w1) })))"

text \<open>The block of a chunk, allocated on demand; 0 stops the write.\<close>

definition write_block_for :: "nat \<Rightarrow> nat \<Rightarrow> nat \<Rightarrow> Ext2 \<Rightarrow> (u32 \<times> Ext2) option" where
  "write_block_for i pref_group bi w =
    (let f = e_fds (st w) ! i; blk = direct_blocks f ! bi in
     if blk \<noteq> 0 then Some (blk, w)
     else do {
       (blk, w1) \<leftarrow> ext2_alloc_block pref_group w;
       if blk = 0 then Some (0, w1)
       else do {
         (ok, w2) \<leftarrow> update_inode_block_ptr (inode_no f) bi blk w1;
         if \<not> ok then Some (0, w2)
         else (let f2 = e_fds (st w2) ! i
               in Some (blk, set_fd i (f2\<lparr>direct_blocks := (direct_blocks f2)[bi := blk]\<rparr>) w2)) } })"

text \<open>The write loop: bytes written and whether the twelfth block was passed.\<close>

function ext2_write_loop :: "nat \<Rightarrow> nat \<Rightarrow> nat \<Rightarrow> u32 \<Rightarrow> bytes \<Rightarrow> nat \<Rightarrow> Ext2 \<Rightarrow> (nat \<times> bool \<times> Ext2) option" where
  "ext2_write_loop i pref_group bs offset buf done w =
    (if \<not> done < length buf then Some (done, False, w)
     else if bs = 0 then None
     else (let off = unat offset + done; bi = off div bs; bib = off mod bs; avail = min (bs - bib) (length buf - done) in
           if bi \<ge> 12 then Some (done, True, w)
           else case write_block_for i pref_group bi w of
             None \<Rightarrow> None
           | Some (blk, w1) \<Rightarrow>
              if blk = 0 then Some (done, False, w1)
              else (case read_block_into_scratch blk w1 of
                      (False, w2) \<Rightarrow> Some (done, False, w2)
                    | (True, w2) \<Rightarrow>
                       (case put bib (take avail (drop done buf)) (scratch w2) of
                          None \<Rightarrow> None
                        | Some s \<Rightarrow>
                           (case write_block_from_scratch blk (w2\<lparr>scratch := s\<rparr>) of
                              (False, w3) \<Rightarrow> Some (done, False, w3)
                            | (True, w3) \<Rightarrow> ext2_write_loop i pref_group bs offset buf (done + avail) w3)))))"
  by pat_completeness auto
termination
  by (relation "measure (\<lambda>(i, pref_group, bs, offset, buf, done, w). length buf - done)")
    (auto intro!: chunk_progress)

declare ext2_write_loop.simps [simp del]

definition ext2_write_fd :: "int \<Rightarrow> bytes \<Rightarrow> Ext2 \<Rightarrow> (int \<times> Ext2) option" where
  "ext2_write_fd fd buf w =
    (if \<not> e_ready (st w) \<or> \<not> is_ext2_fd fd then Some (- 5, w)
     else (let i = ext2_slot fd; f = e_fds (st w) ! i in
           if \<not> ef_active f then Some (- 5, w)
           else if \<not> ef_writable f then Some (EACCES, w)
           else do {
             g \<leftarrow> group_of (st w) (inode_no f);
             (n, efbig, w1) \<leftarrow> ext2_write_loop i g (unat (block_size (st w))) (ef_offset f) buf 0 w;
             if n = 0 then Some (if buf = [] then 0 else if efbig then EFBIG else ENOSPC, w1)
             else (let f1 = e_fds (st w1) ! i; off = ef_offset f1 + of_nat n; f2 = f1\<lparr>ef_offset := off\<rparr> in
                   do {
                     w2 \<leftarrow> (if off > ef_size f2
                             then map_option snd (update_inode_size (inode_no f2) off (set_fd i (f2\<lparr>ef_size := off\<rparr>) w1))
                             else Some (set_fd i f2 w1));
                     (_, w3) \<leftarrow> update_inode_times (inode_no f2) w2;
                     Some (int n, w3) }) }))"

definition ext2_close :: "int \<Rightarrow> Ext2 \<Rightarrow> int \<times> Ext2" where
  "ext2_close fd w =
    (if \<not> is_ext2_fd fd then (- 5, w)
     else (let i = ext2_slot fd in (0, set_fd i ((e_fds (st w) ! i)\<lparr>ef_active := False\<rparr>) w)))"

definition ext2_truncate :: "int \<Rightarrow> u32 \<Rightarrow> Ext2 \<Rightarrow> (int \<times> Ext2) option" where
  "ext2_truncate fd len w =
    (if \<not> e_ready (st w) \<or> \<not> is_ext2_fd fd then Some (- 5, w)
     else (let i = ext2_slot fd; f = e_fds (st w) ! i in
           if \<not> ef_active f then Some (- 5, w)
           else if \<not> ef_writable f then Some (EACCES, w)
           else if len > 12 * block_size (st w) then Some (EFBIG, w)
           else do {
             (ok, blocks, size, w1) \<leftarrow> resize_blocks (inode_no f) (direct_blocks f) (ef_size f) len w;
             if \<not> ok then Some (- 5, w1)
             else Some (0, set_fd i ((e_fds (st w1) ! i)\<lparr>direct_blocks := blocks, ef_size := size\<rparr>) w1) }))"

section \<open>Listing\<close>

text \<open>One entry appended to the listing; the flag is False when the buffer is full.\<close>

definition list_entry :: "bytes \<Rightarrow> u8 \<Rightarrow> nat \<Rightarrow> bytes \<Rightarrow> bool \<times> nat \<times> bytes" where
  "list_entry name ftype written out =
    (let n = min (length name) (length out - (written + 2)) in
     if n = 0 then (False, written, out)
     else (let out1 = blit written (take n name) out; w1 = written + n;
               (w2, out2) = (if ftype = FT_DIR \<and> w1 < length out1 then (w1 + 1, out1[w1 := 47]) else (w1, out1));
               (w3, out3) = (if w2 < length out2 then (w2 + 1, out2[w2 := 10]) else (w2, out2))
           in (True, w3, out3)))"

definition is_dot_name :: "bytes \<Rightarrow> bool" where
  "is_dot_name n \<longleftrightarrow> n = bstr ''.'' \<or> n = bstr ''..''"

function list_in_block :: "bytes \<Rightarrow> nat \<Rightarrow> nat \<Rightarrow> nat \<Rightarrow> bytes \<Rightarrow> (bool \<times> nat \<times> bytes) option" where
  "list_in_block s lim pos written out =
    (if \<not> pos < lim then Some (True, written, out)
     else if length s < pos + 8 then None
     else case dirent s pos of
       None \<Rightarrow> None
     | Some (ino, reclen, namlen) \<Rightarrow>
        if reclen = 0 then Some (True, written, out)
        else if ino = 0 then list_in_block s lim (pos + reclen) written out
        else (case slice (pos + 8) namlen s of
                None \<Rightarrow> None
              | Some n \<Rightarrow>
                 if is_dot_name n then list_in_block s lim (pos + reclen) written out
                 else (case list_entry n (s ! (pos + 7)) written out of
                         (False, r) \<Rightarrow> Some (False, r)
                       | (True, written', out') \<Rightarrow> list_in_block s lim (pos + reclen) written' out')))"
  by pat_completeness auto
termination
  by (relation "measure (\<lambda>(s, lim, pos, written, out). lim - pos)") auto

declare list_in_block.simps [simp del]

fun list_blocks :: "nat \<Rightarrow> nat \<Rightarrow> u32 list \<Rightarrow> nat \<Rightarrow> bytes \<Rightarrow> Ext2 \<Rightarrow> (nat \<times> bytes \<times> Ext2) option" where
  "list_blocks dir_size seen [] written out w = Some (written, out, w)"
| "list_blocks dir_size seen (blk # blks) written out w =
    (if blk = 0 \<or> seen \<ge> dir_size then Some (written, out, w)
     else (let (ok, w1) = read_block_into_scratch blk w; bs = unat (block_size (st w)) in
           if \<not> ok then Some (written, out, w1)
           else case list_in_block (scratch w1) (min bs (dir_size - seen)) 0 written out of
             None \<Rightarrow> None
           | Some (go, written', out') \<Rightarrow>
              if go then list_blocks dir_size (seen + bs) blks written' out' w1 else Some (written', out', w1)))"

definition ext2_list_dir_raw :: "bytes \<Rightarrow> bytes \<Rightarrow> Ext2 \<Rightarrow> (int \<times> bytes \<times> Ext2) option" where
  "ext2_list_dir_raw path out w =
    (if \<not> e_ready (st w) then Some (- 2, out, w)
     else do {
       (dir_ino, w1) \<leftarrow> lookup_path (strip_ext2_prefix path) w;
       if dir_ino = 0 then Some (- 7, out, w1)
       else do {
         (i, w2) \<leftarrow> read_inode dir_ino w1;
         (case i of
            None \<Rightarrow> Some (- 1, out, w2)
          | Some dir \<Rightarrow>
             if \<not> inode_is_dir dir then Some (- 20, out, w2)
             else do {
               (n, out', w3) \<leftarrow> list_blocks (unat (size_lo dir)) 0 (take 12 (i_block dir)) 0 out w2;
               Some (int n, out', w3) }) } })"

definition ext2_is_dir :: "bytes \<Rightarrow> Ext2 \<Rightarrow> (bool \<times> Ext2) option" where
  "ext2_is_dir path w =
    (if \<not> e_ready (st w) then Some (False, w)
     else do {
       (ino, w1) \<leftarrow> lookup_path (strip_ext2_prefix path) w;
       if ino = 0 then Some (False, w1)
       else do {
         (i, w2) \<leftarrow> read_inode ino w1;
         Some (case i of None \<Rightarrow> False | Some inode \<Rightarrow> inode_is_dir inode, w2) } })"

section \<open>Creating, removing and renaming\<close>

text \<open>Undoing an allocation: \<open>ENOSPC\<close> after freeing the inode.\<close>

definition undo_mkdir :: "u32 \<Rightarrow> Ext2 \<Rightarrow> (int \<times> Ext2) option" where
  "undo_mkdir ino w = do { (_, w1) \<leftarrow> ext2_free_inode ino True w; Some (ENOSPC, w1) }"

definition link_subdir :: "u32 \<Rightarrow> Ext2 \<Rightarrow> (int \<times> Ext2) option" where
  "link_subdir parent_ino w =
    do { (n, w1) \<leftarrow> read_inode_links parent_ino w;
         (_, w2) \<leftarrow> update_inode_links parent_ino (n + 1) w1;
         Some (0, w2) }"

definition fill_new_dir :: "u32 \<Rightarrow> u32 \<Rightarrow> u32 \<Rightarrow> Ext2 \<Rightarrow> (bool \<times> Ext2) option" where
  "fill_new_dir new_ino parent_ino new_block w =
    (let bs = unat (block_size (st w)); (ok, w1) = read_block_into_scratch new_block w in
     if \<not> ok then Some (False, w1)
     else do {
       s1 \<leftarrow> write_dir_entry_at 0 new_ino 12 (bstr ''.'') FT_DIR (scratch w1);
       s2 \<leftarrow> write_dir_entry_at 12 parent_ino (of_nat (bs - 12)) (bstr ''..'') FT_DIR s1;
       (let (ok2, w2) = write_block_from_scratch new_block (w1\<lparr>scratch := s2\<rparr>) in
        if \<not> ok2 then Some (False, w2)
        else do {
          (ok3, w3) \<leftarrow> write_new_inode_record new_ino (S_IFDIR OR 0x1ED) 2 w2;
          if \<not> ok3 then Some (False, w3)
          else do {
            (ok4, w4) \<leftarrow> update_inode_block_ptr new_ino 0 new_block w3;
            if \<not> ok4 then Some (False, w4)
            else update_inode_size new_ino (of_nat bs) w4 } }) })"

definition ext2_mkdir :: "bytes \<Rightarrow> Ext2 \<Rightarrow> (int \<times> Ext2) option" where
  "ext2_mkdir path w =
    (if \<not> e_ready (st w) then Some (ENOENT, w)
     else do {
       (p, w1) \<leftarrow> ext2_resolve_parent (strip_ext2_prefix path) w;
       (case p of
          None \<Rightarrow> Some (ENOENT, w1)
        | Some (parent_ino, name) \<Rightarrow> do {
            (old, w2) \<leftarrow> dir_lookup parent_ino name w1;
            if old \<noteq> 0 then Some (EEXIST, w2)
            else do {
              g \<leftarrow> group_of (st w2) parent_ino;
              (new_ino, w3) \<leftarrow> ext2_alloc_inode g True w2;
              if new_ino = 0 then Some (ENOSPC, w3)
              else do {
                (new_block, w4) \<leftarrow> ext2_alloc_block g w3;
                if new_block = 0 then undo_mkdir new_ino w4
                else do {
                  (ok, w5) \<leftarrow> fill_new_dir new_ino parent_ino new_block w4;
                  if \<not> ok then Some (- 5, w5)
                  else do {
                    (ok2, w6) \<leftarrow> dir_insert_entry parent_ino name new_ino FT_DIR w5;
                    if \<not> ok2 then do { (_, w7) \<leftarrow> ext2_free_block new_block w6; undo_mkdir new_ino w7 }
                    else link_subdir parent_ino w6 } } } } }) })"

function empty_in_block :: "bytes \<Rightarrow> nat \<Rightarrow> nat \<Rightarrow> bool option" where
  "empty_in_block s lim pos =
    (if \<not> pos < lim then Some True
     else case dirent s pos of
       None \<Rightarrow> None
     | Some (ino, reclen, namlen) \<Rightarrow>
        if reclen = 0 then Some True
        else if ino = 0 then empty_in_block s lim (pos + reclen)
        else (case slice (pos + 8) namlen s of
                None \<Rightarrow> None
              | Some n \<Rightarrow> if is_dot_name n then empty_in_block s lim (pos + reclen) else Some False))"
  by pat_completeness auto
termination
  by (relation "measure (\<lambda>(s, lim, pos). lim - pos)") auto

declare empty_in_block.simps [simp del]

fun empty_blocks :: "nat \<Rightarrow> nat \<Rightarrow> u32 list \<Rightarrow> Ext2 \<Rightarrow> (bool \<times> Ext2) option" where
  "empty_blocks dir_size seen [] w = Some (True, w)"
| "empty_blocks dir_size seen (blk # blks) w =
    (if blk = 0 \<or> seen \<ge> dir_size then Some (True, w)
     else (let (ok, w1) = read_block_into_scratch blk w; bs = unat (block_size (st w)) in
           if \<not> ok then Some (False, w1)
           else case empty_in_block (scratch w1) (min bs (dir_size - seen)) 0 of
             None \<Rightarrow> None
           | Some e \<Rightarrow> if e then empty_blocks dir_size (seen + bs) blks w1 else Some (False, w1)))"

definition dir_is_empty :: "u32 \<Rightarrow> Ext2 \<Rightarrow> (bool \<times> Ext2) option" where
  "dir_is_empty dir_ino w =
    do { (i, w1) \<leftarrow> read_inode dir_ino w;
         (case i of
            None \<Rightarrow> Some (False, w1)
          | Some dir \<Rightarrow>
             if \<not> inode_is_dir dir then Some (False, w1)
             else empty_blocks (unat (size_lo dir)) 0 (take 12 (i_block dir)) w1) }"

fun free_blocks :: "u32 list \<Rightarrow> Ext2 \<Rightarrow> Ext2 option" where
  "free_blocks [] w = Some w"
| "free_blocks (b # bs) w =
    (if b = 0 then free_blocks bs w
     else do { (_, w1) \<leftarrow> ext2_free_block b w; free_blocks bs w1 })"

definition unlink_dir :: "u32 \<Rightarrow> bytes \<Rightarrow> u32 \<Rightarrow> Inode \<Rightarrow> Ext2 \<Rightarrow> (int \<times> Ext2) option" where
  "unlink_dir parent_ino name target_ino inode w =
    do { (e, w1) \<leftarrow> dir_is_empty target_ino w;
         if \<not> e then Some (ENOTEMPTY, w1)
         else do {
           w2 \<leftarrow> free_blocks (take 12 (i_block inode)) w1;
           (_, w3) \<leftarrow> ext2_free_inode target_ino True w2;
           (_, w4) \<leftarrow> dir_delete_entry parent_ino name w3;
           (n, w5) \<leftarrow> read_inode_links parent_ino w4;
           (_, w6) \<leftarrow> update_inode_links parent_ino (sat_dec n) w5;
           Some (0, w6) } }"

definition unlink_file :: "u32 \<Rightarrow> bytes \<Rightarrow> u32 \<Rightarrow> Inode \<Rightarrow> Ext2 \<Rightarrow> (int \<times> Ext2) option" where
  "unlink_file parent_ino name target_ino inode w =
    do { (links, w1) \<leftarrow> read_inode_links target_ino w;
         w3 \<leftarrow> (if sat_dec links = 0
                 then do { w2 \<leftarrow> free_blocks (take 12 (i_block inode)) w1;
                           map_option snd (ext2_free_inode target_ino False w2) }
                 else map_option snd (update_inode_links target_ino (sat_dec links) w1));
         (_, w4) \<leftarrow> dir_delete_entry parent_ino name w3;
         Some (0, w4) }"

definition ext2_unlink :: "bytes \<Rightarrow> Ext2 \<Rightarrow> (int \<times> Ext2) option" where
  "ext2_unlink path w =
    (if \<not> e_ready (st w) then Some (ENOENT, w)
     else do {
       (p, w1) \<leftarrow> ext2_resolve_parent (strip_ext2_prefix path) w;
       (case p of
          None \<Rightarrow> Some (ENOENT, w1)
        | Some (parent_ino, name) \<Rightarrow> do {
            (target_ino, w2) \<leftarrow> dir_lookup parent_ino name w1;
            if target_ino = 0 then Some (ENOENT, w2)
            else do {
              (i, w3) \<leftarrow> read_inode target_ino w2;
              (case i of
                 None \<Rightarrow> Some (- 5, w3)
               | Some inode \<Rightarrow>
                  if inode_is_dir inode then unlink_dir parent_ino name target_ino inode w3
                  else unlink_file parent_ino name target_ino inode w3) } }) })"

definition ext2_rmdir :: "bytes \<Rightarrow> Ext2 \<Rightarrow> (int \<times> Ext2) option" where
  "ext2_rmdir path w =
    (if \<not> e_ready (st w) then Some (ENOENT, w)
     else do {
       (ino, w1) \<leftarrow> lookup_path (strip_ext2_prefix path) w;
       if ino = 0 then Some (ENOENT, w1)
       else do {
         (i, w2) \<leftarrow> read_inode ino w1;
         (case i of
            None \<Rightarrow> Some (- 5, w2)
          | Some inode \<Rightarrow> if \<not> inode_is_dir inode then Some (ENOTDIR, w2) else ext2_unlink path w2) } })"

text \<open>A directory moved to another parent: its \<open>..\<close> entry and both link counts.\<close>

definition relink_moved_dir :: "Inode \<Rightarrow> u32 \<Rightarrow> u32 \<Rightarrow> Ext2 \<Rightarrow> (int \<times> Ext2) option" where
  "relink_moved_dir inode old_parent new_parent w =
    do { w1 \<leftarrow> (if i_block inode ! 0 \<noteq> 0
                 then map_option snd (patch_block (i_block inode ! 0) [(12, le32 new_parent)] w) else Some w);
         (old_links, w2) \<leftarrow> read_inode_links old_parent w1;
         (_, w3) \<leftarrow> update_inode_links old_parent (sat_dec old_links) w2;
         (new_links, w4) \<leftarrow> read_inode_links new_parent w3;
         (_, w5) \<leftarrow> update_inode_links new_parent (new_links + 1) w4;
         Some (0, w5) }"

definition ext2_rename :: "bytes \<Rightarrow> bytes \<Rightarrow> Ext2 \<Rightarrow> (int \<times> Ext2) option" where
  "ext2_rename old_path new_path w =
    (if \<not> e_ready (st w) then Some (ENOENT, w)
     else do {
       (old, w1) \<leftarrow> ext2_resolve_parent (strip_ext2_prefix old_path) w;
       (case old of
          None \<Rightarrow> Some (ENOENT, w1)
        | Some (old_parent, old_name) \<Rightarrow> do {
            (target_ino, w2) \<leftarrow> dir_lookup old_parent old_name w1;
            if target_ino = 0 then Some (ENOENT, w2)
            else do {
              (new, w3) \<leftarrow> ext2_resolve_parent (strip_ext2_prefix new_path) w2;
              (case new of
                 None \<Rightarrow> Some (ENOENT, w3)
               | Some (new_parent, new_name) \<Rightarrow>
                  if old_parent = new_parent \<and> old_name = new_name then Some (0, w3)
                  else do {
                    (clash, w4) \<leftarrow> dir_lookup new_parent new_name w3;
                    if clash \<noteq> 0 then Some (EEXIST, w4)
                    else do {
                      (i, w5) \<leftarrow> read_inode target_ino w4;
                      (case i of
                         None \<Rightarrow> Some (- 5, w5)
                       | Some inode \<Rightarrow> do {
                           (ok, w6) \<leftarrow> dir_insert_entry new_parent new_name target_ino
                             (if inode_is_dir inode then FT_DIR else FT_REG) w5;
                           if \<not> ok then Some (ENOSPC, w6)
                           else do {
                             (_, w7) \<leftarrow> dir_delete_entry old_parent old_name w6;
                             if inode_is_dir inode \<and> old_parent \<noteq> new_parent
                             then relink_moved_dir inode old_parent new_parent w7
                             else Some (0, w7) } }) } }) } }) })"

end
