(* ===== verification/Kernel_State.thy ===== *)
theory Kernel_State
  imports Stdin_Ring Pipes Msg_Queues Environment Address_Spaces Ramfs Disk_Store Fat Ext2
    "HOL-Library.Monad_Syntax"
begin

text \<open>
  The state the components of the kernel share.  The task table of
  \<open>proc/scheduler.rs\<close> with the descriptor tables of \<open>fs/ramfs.rs\<close> inside it, and
  every other static the system calls reach, form one record \<open>kernel\<close>; an
  operation of the source that works through \<open>SCHED\<close> or another static is a
  function on this record.  All disk drivers share the drives kept inside the
  ext2 driver state.  The value \<open>None\<close> of an operation means that the code
  panics or never returns.
\<close>

section \<open>File descriptors\<close>

definition MAX_FD :: nat where [kdefs]: "MAX_FD = 32"

datatype FdBackend = RamFS | Fat16 | Ext2 | Pipe | DevNull | DevTty | Dir

record FdEntry =
  backend :: FdBackend
  inode_idx :: nat
  raw_fd :: int
  fd_offset :: nat
  fd_writable :: bool
  fd_append :: bool
  dir_path :: bytes
  dir_path_len :: nat

type_synonym FdTable = "FdEntry option list"

definition fd_table_new :: FdTable where
  "fd_table_new = replicate MAX_FD None"

section \<open>Tasks\<close>

definition MAX_TASKS :: nat where [kdefs]: "MAX_TASKS = 8"
definition USER_CODE_ADDR :: u64 where [kdefs]: "USER_CODE_ADDR = 0x400000"
definition USER_STACK_TOP :: u64 where [kdefs]: "USER_STACK_TOP = 0x800000"
definition USER_STACK_PAGES :: nat where [kdefs]: "USER_STACK_PAGES = 64"
definition TASK_OUTPUT_CAP :: nat where [kdefs]: "TASK_OUTPUT_CAP = 2048"
definition CWD_MAX :: nat where [kdefs]: "CWD_MAX = 128"
definition MAX_MMAP_REGIONS :: nat where [kdefs]: "MAX_MMAP_REGIONS = 32"
definition NSIG :: nat where [kdefs]: "NSIG = 32"
definition MAX_ATTACH :: nat where [kdefs]: "MAX_ATTACH = 8"
definition MAX_SEGMENTS :: nat where [kdefs]: "MAX_SEGMENTS = 16"

record TaskContext =
  reg_r15 :: u64
  reg_r14 :: u64
  reg_r13 :: u64
  reg_r12 :: u64
  reg_r11 :: u64
  reg_r10 :: u64
  reg_r9 :: u64
  reg_r8 :: u64
  reg_rdi :: u64
  reg_rsi :: u64
  reg_rbp :: u64
  reg_rdx :: u64
  reg_rcx :: u64
  reg_rbx :: u64
  reg_rax :: u64
  reg_rip :: u64
  reg_cs :: u64
  reg_rflags :: u64
  reg_rsp :: u64
  reg_ss :: u64

definition context_zeroed :: TaskContext where
  "context_zeroed = \<lparr>reg_r15 = 0, reg_r14 = 0, reg_r13 = 0, reg_r12 = 0, reg_r11 = 0, reg_r10 = 0,
    reg_r9 = 0, reg_r8 = 0, reg_rdi = 0, reg_rsi = 0, reg_rbp = 0, reg_rdx = 0, reg_rcx = 0,
    reg_rbx = 0, reg_rax = 0, reg_rip = 0, reg_cs = 0, reg_rflags = 0, reg_rsp = 0, reg_ss = 0\<rparr>"

datatype TaskState =
    Empty
  | Ready
  | Running
  | Sleeping u64
  | Waiting u8
  | WaitingForMsg u32 u64
  | Dead int

definition exit_code :: "TaskState \<Rightarrow> int option" where
  "exit_code s = (case s of Dead code \<Rightarrow> Some code | _ \<Rightarrow> None)"

definition is_free_state :: "TaskState \<Rightarrow> bool" where
  "is_free_state s = (case s of Empty \<Rightarrow> True | Dead _ \<Rightarrow> True | _ \<Rightarrow> False)"

record MmapRegion =
  mr_virt :: u64
  mr_pages :: u32

definition mmap_region_empty :: MmapRegion where
  "mmap_region_empty = \<lparr>mr_virt = 0, mr_pages = 0\<rparr>"

record ShmAttach =
  at_shmid :: u32
  at_vaddr :: u64
  at_active :: bool

definition shm_attach_empty :: ShmAttach where
  "shm_attach_empty = \<lparr>at_shmid = 0, at_vaddr = 0, at_active = False\<rparr>"

record ShmSegment =
  seg_key :: u32
  seg_size :: u64
  seg_phys :: u64
  seg_pages :: nat
  seg_refcount :: u32
  seg_active :: bool

definition shm_segment_empty :: ShmSegment where
  "shm_segment_empty = \<lparr>seg_key = 0, seg_size = 0, seg_phys = 0, seg_pages = 0, seg_refcount = 0,
    seg_active = False\<rparr>"

record Task =
  tstate :: TaskState
  ctx :: TaskContext
  tname :: bytes
  tname_len :: nat
  first_run :: bool
  tentry :: u64
  tcr3 :: u64
  tpid :: u8
  parent_pid :: u8
  pgid :: u8
  fs_base :: u64
  heap_end :: u64
  mmap_end :: u64
  out_buf :: bytes
  out_len :: nat
  fd_table :: FdTable
  cwd :: bytes
  cwd_len :: nat
  pending_signals :: u32
  signal_mask :: u32
  saved_signal_mask :: u32
  in_sigsuspend :: bool
  alarm_deadline :: u64
  signal_handlers :: "u64 list"
  shm_attaches :: "ShmAttach list"
  initial_rsp :: u64
  mmap_regions :: "MmapRegion list"
  mmap_nregions :: nat

definition task_empty :: Task where
  "task_empty =
    \<lparr>tstate = Empty, ctx = context_zeroed, tname = replicate 16 0, tname_len = 0, first_run = True,
     tentry = USER_CODE_ADDR, tcr3 = 0, tpid = 0, parent_pid = 0, pgid = 0, fs_base = 0, heap_end = 0,
     mmap_end = 0, out_buf = replicate TASK_OUTPUT_CAP 0, out_len = 0, fd_table = fd_table_new,
     cwd = 47 # replicate (CWD_MAX - 1) 0, cwd_len = 1, pending_signals = 0, signal_mask = 0,
     saved_signal_mask = 0, in_sigsuspend = False, alarm_deadline = 0,
     signal_handlers = replicate NSIG 0, shm_attaches = replicate MAX_ATTACH shm_attach_empty,
     initial_rsp = USER_STACK_TOP - 16, mmap_regions = replicate MAX_MMAP_REGIONS mmap_region_empty,
     mmap_nregions = 0\<rparr>"

section \<open>The kernel\<close>

record kernel =
  tasks :: "Task list"
  current :: nat
  slice_remaining :: u64
  cur_idx :: nat
  ticks :: u64
  syscall_ctx :: "TaskContext option"
  user_active :: bool
  ramfs :: "RamFs option"
  kpipes :: pipes
  stdin :: stdin_ring
  kqueues :: queues
  kenv :: env
  fatfs :: FatFs
  ext2 :: Ext2
  store_mounted :: "bool list"
  kmm :: mm
  segtab :: "ShmSegment list"

text \<open>
  The statics before the kernel starts; the drives and the memory manager come
  from the machine.
\<close>

definition kernel_statics :: "disks \<Rightarrow> mm \<Rightarrow> kernel" where
  "kernel_statics ds m =
    \<lparr>tasks = replicate MAX_TASKS task_empty, current = 0, slice_remaining = 0, cur_idx = 0, ticks = 0,
     syscall_ctx = None, user_active = False, ramfs = None, kpipes = PIPES_init, stdin = stdin_init,
     kqueues = QUEUES_init, kenv = ENV_TABLE_init, fatfs = fatfs_new,
     ext2 = \<lparr>st = ext2_new, scratch = replicate MAX_BLOCK 0, drives = ds\<rparr>,
     store_mounted = replicate 4 False, kmm = m, segtab = replicate MAX_SEGMENTS shm_segment_empty\<rparr>"

text \<open>The drives every disk driver works on, and the record store on them.\<close>

definition kdisks :: "kernel \<Rightarrow> disks" where
  "kdisks k = drives (ext2 k)"

definition set_kdisks :: "disks \<Rightarrow> kernel \<Rightarrow> kernel" where
  "set_kdisks ds k = k\<lparr>ext2 := (ext2 k)\<lparr>drives := ds\<rparr>\<rparr>"

definition kstore :: "kernel \<Rightarrow> store" where
  "kstore k = (store_mounted k, kdisks k)"

definition set_kstore :: "store \<Rightarrow> kernel \<Rightarrow> kernel" where
  "set_kstore s k = (set_kdisks (snd s) k)\<lparr>store_mounted := fst s\<rparr>"

definition upd_task :: "nat \<Rightarrow> (Task \<Rightarrow> Task) \<Rightarrow> kernel \<Rightarrow> kernel" where
  "upd_task i f k = k\<lparr>tasks := (tasks k)[i := f (tasks k ! i)]\<rparr>"

definition fdt :: "nat \<Rightarrow> kernel \<Rightarrow> FdTable" where
  "fdt i k = fd_table (tasks k ! i)"

definition set_fdt :: "nat \<Rightarrow> FdTable \<Rightarrow> kernel \<Rightarrow> kernel" where
  "set_fdt i t k = upd_task i (fd_table_update (\<lambda>_. t)) k"

lemma upd_task_simps [simp]:
  "tasks (upd_task i f k) = (tasks k)[i := f (tasks k ! i)]"
  "current (upd_task i f k) = current k" "slice_remaining (upd_task i f k) = slice_remaining k"
  "cur_idx (upd_task i f k) = cur_idx k" "ticks (upd_task i f k) = ticks k"
  "ramfs (upd_task i f k) = ramfs k" "kpipes (upd_task i f k) = kpipes k"
  "stdin (upd_task i f k) = stdin k" "kqueues (upd_task i f k) = kqueues k"
  "kenv (upd_task i f k) = kenv k" "fatfs (upd_task i f k) = fatfs k"
  "ext2 (upd_task i f k) = ext2 k" "store_mounted (upd_task i f k) = store_mounted k"
  "kmm (upd_task i f k) = kmm k" "segtab (upd_task i f k) = segtab k"
  "syscall_ctx (upd_task i f k) = syscall_ctx k" "user_active (upd_task i f k) = user_active k"
  "kdisks (upd_task i f k) = kdisks k"
  by (simp_all add: upd_task_def kdisks_def)

lemma set_fdt_simps [simp]:
  "ramfs (set_fdt i t k) = ramfs k" "kpipes (set_fdt i t k) = kpipes k"
  "stdin (set_fdt i t k) = stdin k" "kdisks (set_fdt i t k) = kdisks k"
  "fatfs (set_fdt i t k) = fatfs k" "ext2 (set_fdt i t k) = ext2 k" "kmm (set_fdt i t k) = kmm k"
  "length (tasks (set_fdt i t k)) = length (tasks k)" "cur_idx (set_fdt i t k) = cur_idx k"
  by (simp_all add: set_fdt_def)

lemma fdt_set_fdt: "i < length (tasks k) \<Longrightarrow> fdt j (set_fdt i t k) = (if j = i then t else fdt j k)"
  by (simp add: fdt_def set_fdt_def nth_list_update)

lemma set_kdisks_simps [simp]:
  "kdisks (set_kdisks ds k) = ds" "tasks (set_kdisks ds k) = tasks k" "ramfs (set_kdisks ds k) = ramfs k"
  "kpipes (set_kdisks ds k) = kpipes k" "stdin (set_kdisks ds k) = stdin k"
  "fatfs (set_kdisks ds k) = fatfs k" "store_mounted (set_kdisks ds k) = store_mounted k"
  "cur_idx (set_kdisks ds k) = cur_idx k" "fdt i (set_kdisks ds k) = fdt i k"
  "kmm (set_kdisks ds k) = kmm k"
  by (simp_all add: set_kdisks_def kdisks_def fdt_def)

end
