(* ===== verification/Fd_Table.thy ===== *)
theory Fd_Table
  imports Kernel_State
begin

text \<open>
  The per-task descriptor table, \<open>FdTable\<close> of \<open>fs/ramfs.rs\<close>, with the backends its
  methods dispatch to: the in-memory file system, FAT16, ext2, pipes, the
  terminal and the null device.  A method that needs a backend works on the
  table of the task with index \<open>i\<close> in the kernel state, as the callers of the
  source pass \<open>SCHED.tasks[i].fd_table\<close>.  What a read and a write of a
  pipe do is shown in \<open>Pipe_Transfer\<close>, and that removing a file keeps every other
  open descriptor on its file in \<open>Sys_Files\<close>.
\<close>

section \<open>Operations on a table\<close>

definition alloc_fd :: "FdTable \<Rightarrow> nat option" where
  "alloc_fd t = find (\<lambda>i. t ! i = None) [3..<MAX_FD]"

definition fd_entry :: "FdBackend \<Rightarrow> nat \<Rightarrow> int \<Rightarrow> nat \<Rightarrow> bool \<Rightarrow> bool \<Rightarrow> FdEntry" where
  "fd_entry b inode raw off w a =
    \<lparr>backend = b, inode_idx = inode, raw_fd = raw, fd_offset = off, fd_writable = w, fd_append = a,
     dir_path = replicate 64 0, dir_path_len = 0\<rparr>"

text \<open>The choice of the inode in \<open>open\<close>, before a descriptor is allocated.\<close>

definition open_inode_idx :: "string \<Rightarrow> u32 \<Rightarrow> RamFs \<Rightarrow> nat option \<times> RamFs" where
  "open_inode_idx path flags fs =
    (case resolve fs path of
       Some idx \<Rightarrow>
         (Some idx, if flags AND O_TRUNC \<noteq> 0 \<and> kind (fs ! idx) = File
                    then fs[idx := (fs ! idx)\<lparr>data := []\<rparr>] else fs)
     | None \<Rightarrow>
         if flags AND O_CREAT \<noteq> 0
         then (case create_file path fs of (Inr idx, fs') \<Rightarrow> (Some idx, fs') | (Inl _, fs') \<Rightarrow> (None, fs'))
         else (None, fs))"

definition fd_open :: "string \<Rightarrow> u32 \<Rightarrow> RamFs \<Rightarrow> FdTable \<Rightarrow> int \<times> RamFs \<times> FdTable" where
  "fd_open path flags fs t =
    (case open_inode_idx path flags fs of
       (None, fs1) \<Rightarrow> (ENOENT, fs1, t)
     | (Some idx, fs1) \<Rightarrow>
        (case alloc_fd t of
           None \<Rightarrow> (EMFILE, fs1, t)
         | Some fd \<Rightarrow>
            (let app = flags AND O_APPEND \<noteq> 0; off = (if app then length (data (fs1 ! idx)) else 0) in
             (int fd, fs1, t[fd := Some (fd_entry RamFS idx 0 off (wants_write flags) app)]))))"

definition open_pipe :: "int \<Rightarrow> int \<Rightarrow> FdTable \<Rightarrow> (nat \<times> nat) option \<times> FdTable" where
  "open_pipe raw_r raw_w t =
    (case alloc_fd t of
       None \<Rightarrow> (None, t)
     | Some r \<Rightarrow>
        (let t1 = t[r := Some (fd_entry Pipe 0 raw_r 0 False False)] in
         case alloc_fd t1 of
           None \<Rightarrow> (None, t1)
         | Some w \<Rightarrow> (Some (r, w), t1[w := Some (fd_entry Pipe 0 raw_w 0 True False)])))"

definition open_raw :: "FdEntry \<Rightarrow> FdTable \<Rightarrow> int \<times> FdTable" where
  "open_raw e t = (case alloc_fd t of None \<Rightarrow> (- 24, t) | Some fd \<Rightarrow> (int fd, t[fd := Some e]))"

definition open_fat :: "int \<Rightarrow> bool \<Rightarrow> FdTable \<Rightarrow> int \<times> FdTable" where
  "open_fat raw w t = open_raw (fd_entry Fat16 0 raw 0 w False) t"

definition open_ext2 :: "int \<Rightarrow> bool \<Rightarrow> FdTable \<Rightarrow> int \<times> FdTable" where
  "open_ext2 raw w t = open_raw (fd_entry Ext2 0 raw 0 w False) t"

definition open_dev :: "FdBackend \<Rightarrow> FdTable \<Rightarrow> int \<times> FdTable" where
  "open_dev b t = open_raw (fd_entry b 0 0 0 (b \<noteq> DevNull) False) t"

definition open_dir :: "bytes \<Rightarrow> FdTable \<Rightarrow> int \<times> FdTable" where
  "open_dir path t =
    (let n = min (length path) 63 in
     open_raw ((fd_entry Dir 0 0 0 False False)
       \<lparr>dir_path := blit 0 (take n path) (replicate 64 0), dir_path_len := n\<rparr>) t)"

definition on_inode_removed :: "nat \<Rightarrow> FdTable \<Rightarrow> FdTable" where
  "on_inode_removed removed t =
    map (\<lambda>slot. case slot of
           None \<Rightarrow> None
         | Some e \<Rightarrow>
             if backend e \<noteq> RamFS then Some e
             else if inode_idx e = removed then None
             else if inode_idx e > removed then Some (e\<lparr>inode_idx := inode_idx e - 1\<rparr>)
             else Some e) t"

section \<open>Operations with a backend\<close>

text \<open>\<open>fd < 0 || fd as usize >= MAX_FD\<close>, and the entry otherwise.\<close>

definition fd_lookup :: "int \<Rightarrow> FdTable \<Rightarrow> FdEntry option" where
  "fd_lookup fd t = (if fd < 0 \<or> nat fd \<ge> MAX_FD then None else t ! nat fd)"

definition output_write_for_task :: "nat \<Rightarrow> bytes \<Rightarrow> kernel \<Rightarrow> kernel" where
  "output_write_for_task idx bs k =
    (if idx \<ge> MAX_TASKS then k
     else upd_task idx (\<lambda>t.
       let used = out_len t; n = min (length bs) (TASK_OUTPUT_CAP - used) in
       t\<lparr>out_buf := blit used (take n bs) (out_buf t), out_len := used + n\<rparr>) k)"

definition output_write :: "bytes \<Rightarrow> kernel \<Rightarrow> kernel" where
  "output_write bs k = output_write_for_task (cur_idx k) bs k"

text \<open>The clean-up of the backend in \<open>close\<close>.\<close>

definition close_backend :: "FdEntry \<Rightarrow> kernel \<Rightarrow> kernel" where
  "close_backend e k =
    (case backend e of
       Pipe \<Rightarrow> k\<lparr>kpipes := snd (pipe_close (raw_fd e) (kpipes k))\<rparr>
     | Fat16 \<Rightarrow> (case fat_close (raw_fd e) (fatfs k) (kdisks k) of
                   (_, f, ds) \<Rightarrow> (set_kdisks ds k)\<lparr>fatfs := f\<rparr>)
     | Ext2 \<Rightarrow> k\<lparr>ext2 := snd (ext2_close (raw_fd e) (ext2 k))\<rparr>
     | _ \<Rightarrow> k)"

definition fd_close :: "nat \<Rightarrow> int \<Rightarrow> kernel \<Rightarrow> int \<times> kernel" where
  "fd_close i fd k =
    (case fd_lookup fd (fdt i k) of
       None \<Rightarrow> (EBADF, k)
     | Some e \<Rightarrow> (0, close_backend e (set_fdt i ((fdt i k)[nat fd := None]) k)))"

text \<open>The in-memory branch of \<open>read_fd\<close>: result, buffer and table.\<close>

definition ramfs_read_fd :: "nat \<Rightarrow> FdEntry \<Rightarrow> RamFs \<Rightarrow> bytes \<Rightarrow> FdTable \<Rightarrow> int \<times> bytes \<times> FdTable" where
  "ramfs_read_fd fd e fs buf t =
    (if inode_idx e \<ge> length fs then (EBADF, buf, t)
     else if kind (fs ! inode_idx e) \<noteq> File then (EISDIR, buf, t)
     else (let d = data (fs ! inode_idx e); available = length d - fd_offset e in
           if available = 0 then (0, buf, t)
           else (let n = min available (length buf) in
                 (int n, blit 0 (take n (drop (fd_offset e) d)) buf,
                  t[fd := Some (e\<lparr>fd_offset := fd_offset e + n\<rparr>)]))))"

definition read_fd :: "nat \<Rightarrow> int \<Rightarrow> bytes \<Rightarrow> RamFs \<Rightarrow> kernel \<Rightarrow> (int \<times> bytes \<times> kernel) option" where
  "read_fd i fd buf fs k =
    (case fd_lookup fd (fdt i k) of
       None \<Rightarrow> Some (EBADF, buf, k)
     | Some e \<Rightarrow>
        (case backend e of
           Pipe \<Rightarrow> (case pipe_read (raw_fd e) buf (kpipes k) of
                      (r, buf', ps) \<Rightarrow> Some (r, buf', k\<lparr>kpipes := ps\<rparr>))
         | Fat16 \<Rightarrow> (case fat_read_fd (raw_fd e) buf (fatfs k) (kdisks k) of
                       (r, buf', f) \<Rightarrow> Some (r, buf', k\<lparr>fatfs := f\<rparr>))
         | Ext2 \<Rightarrow> do { (r, buf', w) \<leftarrow> ext2_read_fd (raw_fd e) buf (ext2 k);
                        Some (r, buf', k\<lparr>ext2 := w\<rparr>) }
         | DevNull \<Rightarrow> Some (0, buf, k)
         | DevTty \<Rightarrow>
             if buf = [] then Some (0, buf, k)
             else (case stdin_pop (stdin k) of
                     Some (ch, s) \<Rightarrow> Some (1, buf[0 := ch], k\<lparr>stdin := s\<rparr>)
                   | None \<Rightarrow> Some (- 6, buf, k))
         | Dir \<Rightarrow> Some (EISDIR, buf, k)
         | RamFS \<Rightarrow>
             (case ramfs_read_fd (nat fd) e fs buf (fdt i k) of
                (r, buf', t) \<Rightarrow> Some (r, buf', set_fdt i t k))))"

text \<open>The bytes of a file after a write of \<open>buf\<close> at \<open>off\<close>.\<close>

definition overwrite :: "nat \<Rightarrow> bytes \<Rightarrow> bytes \<Rightarrow> bytes" where
  "overwrite off buf d =
    (if off \<ge> length d then d @ buf
     else (let e = off + length buf;
               d' = (if e > length d then d @ replicate (e - length d) 0 else d)
           in blit off buf d'))"

definition ramfs_write_fd ::
  "nat \<Rightarrow> FdEntry \<Rightarrow> bytes \<Rightarrow> RamFs \<Rightarrow> FdTable \<Rightarrow> int \<times> RamFs \<times> FdTable" where
  "ramfs_write_fd fd e buf fs t =
    (if \<not> fd_writable e then (EACCES, fs, t)
     else if inode_idx e \<ge> length fs then (EBADF, fs, t)
     else if kind (fs ! inode_idx e) \<noteq> File then (EISDIR, fs, t)
     else (int (length buf),
           fs[inode_idx e := (fs ! inode_idx e)
                \<lparr>data := overwrite (fd_offset e) buf (data (fs ! inode_idx e))\<rparr>],
           t[fd := Some (e\<lparr>fd_offset := fd_offset e + length buf\<rparr>)]))"

definition write_fd :: "nat \<Rightarrow> int \<Rightarrow> bytes \<Rightarrow> RamFs \<Rightarrow> kernel \<Rightarrow> (int \<times> kernel) option" where
  "write_fd i fd buf fs k =
    (case fd_lookup fd (fdt i k) of
       None \<Rightarrow> Some (EBADF, k)
     | Some e \<Rightarrow>
        (case backend e of
           Pipe \<Rightarrow> (case pipe_write (raw_fd e) buf (kpipes k) of
                      (r, ps) \<Rightarrow> Some (r, k\<lparr>kpipes := ps\<rparr>))
         | Fat16 \<Rightarrow> (case fat_write_fd (raw_fd e) buf (fatfs k) (kdisks k) of
                       (r, f, ds) \<Rightarrow> Some (r, (set_kdisks ds k)\<lparr>fatfs := f\<rparr>))
         | Ext2 \<Rightarrow> if \<not> fd_writable e then Some (EACCES, k)
                   else do { (r, w) \<leftarrow> ext2_write_fd (raw_fd e) buf (ext2 k);
                             Some (r, k\<lparr>ext2 := w\<rparr>) }
         | DevNull \<Rightarrow> Some (int (length buf), k)
         | DevTty \<Rightarrow> Some (int (length buf), output_write buf k)
         | Dir \<Rightarrow> Some (EISDIR, k)
         | RamFS \<Rightarrow>
             (case ramfs_write_fd (nat fd) e buf fs (fdt i k) of
                (r, fs', t) \<Rightarrow> Some (r, (set_fdt i t k)\<lparr>ramfs := Some fs'\<rparr>))))"

text \<open>\<open>dup2\<close>: the reference to the source first, then the entry that is replaced.\<close>

definition dup2_addref :: "FdEntry \<Rightarrow> kernel \<Rightarrow> kernel" where
  "dup2_addref e k =
    (if backend e = Pipe then k\<lparr>kpipes := pipe_addref (raw_fd e) (kpipes k)\<rparr> else k)"

definition dup2_release :: "FdEntry option \<Rightarrow> kernel \<Rightarrow> kernel" where
  "dup2_release slot k =
    (case slot of
       None \<Rightarrow> k
     | Some old \<Rightarrow>
        (case backend old of
           Pipe \<Rightarrow> k\<lparr>kpipes := snd (pipe_close (raw_fd old) (kpipes k))\<rparr>
         | Fat16 \<Rightarrow> (case fat_close (raw_fd old) (fatfs k) (kdisks k) of
                       (_, f, ds) \<Rightarrow> (set_kdisks ds k)\<lparr>fatfs := f\<rparr>)
         | _ \<Rightarrow> k))"

definition dup2 :: "nat \<Rightarrow> int \<Rightarrow> int \<Rightarrow> kernel \<Rightarrow> int \<times> kernel" where
  "dup2 i old_fd new_fd k =
    (if new_fd < 0 \<or> nat new_fd \<ge> MAX_FD then (- 5, k)
     else case fd_lookup old_fd (fdt i k) of
       None \<Rightarrow> (- 5, k)
     | Some e \<Rightarrow>
        (let k1 = dup2_release (fdt i k ! nat new_fd) (dup2_addref e k) in
         (new_fd, set_fdt i ((fdt i k)[nat new_fd := Some e]) k1)))"

end
