(* ===== verification/Shm.thy ===== *)
theory Shm
  imports Kernel_State
begin

text \<open>
  Shared memory, \<open>ipc/shm.rs\<close>: a table of sixteen segments backed by physical
  frames, and the attachment table of a task.  A segment with number \<open>n\<close> is
  mapped at \<open>0x20000000 + n\<close> MiB in every process that attaches it.  That
  the operations keep the tables' sizes is shown with the system calls that use
  them, in \<open>Syscall_Inv\<close>.
\<close>

definition MAX_SEG_SIZE :: u64 where [kdefs]: "MAX_SEG_SIZE = 0x100000"
definition SHM_VIRT_BASE :: u64 where [kdefs]: "SHM_VIRT_BASE = 0x20000000"
definition SHM_SLOT_SIZE :: u64 where [kdefs]: "SHM_SLOT_SIZE = 0x100000"

definition shmget :: "u32 \<Rightarrow> u64 \<Rightarrow> ShmSegment list \<Rightarrow> mm \<Rightarrow> int \<times> ShmSegment list \<times> mm" where
  "shmget key sz segs m =
    (if sz = 0 \<or> sz > MAX_SEG_SIZE then (- 22, segs, m)
     else case first_index (\<lambda>s. seg_active s \<and> seg_key s = key) segs of
       Some i \<Rightarrow> (int i, segs, m)
     | None \<Rightarrow>
        (case first_index (\<lambda>s. \<not> seg_active s) segs of
           None \<Rightarrow> (- 28, segs, m)
         | Some slot \<Rightarrow>
            (let pages = unat ((sz + 4095) div 4096);
                 (phys, m') = alloc_phys_frames pages m in
             if phys = 0 then (- 12, segs, m')
             else (int slot,
                   segs[slot := \<lparr>seg_key = key, seg_size = of_nat pages * 4096, seg_phys = phys,
                                 seg_pages = pages, seg_refcount = 0, seg_active = True\<rparr>], m'))))"

definition shm_vaddr :: "nat \<Rightarrow> u64" where
  "shm_vaddr ident = SHM_VIRT_BASE + of_nat ident * SHM_SLOT_SIZE"

definition shmat ::
  "u32 \<Rightarrow> u64 \<Rightarrow> ShmAttach list \<Rightarrow> ShmSegment list \<Rightarrow> mm \<Rightarrow> int \<times> ShmAttach list \<times> ShmSegment list \<times> mm" where
  "shmat shmid cr3 atts segs m =
    (let ident = unat shmid in
     if ident \<ge> MAX_SEGMENTS \<or> \<not> seg_active (segs ! ident) then (- 22, atts, segs, m)
     else case find (\<lambda>a. at_active a \<and> at_shmid a = shmid) atts of
       Some a \<Rightarrow> (sint (at_vaddr a), atts, segs, m)
     | None \<Rightarrow>
        (case first_index (\<lambda>a. \<not> at_active a) atts of
           None \<Rightarrow> (- 24, atts, segs, m)
         | Some slot \<Rightarrow>
            (let s = segs ! ident in
             case map_phys_pages_in cr3 (shm_vaddr ident) (seg_phys s) (seg_pages s) True m of
               (Inl _, m') \<Rightarrow> (- 12, atts, segs, m')
             | (Inr _, m') \<Rightarrow>
                 (sint (shm_vaddr ident),
                  atts[slot := \<lparr>at_shmid = shmid, at_vaddr = shm_vaddr ident, at_active = True\<rparr>],
                  segs[ident := s\<lparr>seg_refcount := seg_refcount s + 1\<rparr>], m'))))"

definition seg_phys_base :: "nat \<Rightarrow> ShmSegment list \<Rightarrow> u64" where
  "seg_phys_base shmid segs =
    (if shmid \<ge> MAX_SEGMENTS then 0
     else if seg_active (segs ! shmid) then seg_phys (segs ! shmid) else 0)"

definition segment_pages :: "u32 \<Rightarrow> ShmSegment list \<Rightarrow> nat" where
  "segment_pages shmid segs =
    (let ident = unat shmid in
     if ident \<ge> MAX_SEGMENTS then 0
     else if seg_active (segs ! ident) then seg_pages (segs ! ident) else 0)"

definition shmdt :: "u64 \<Rightarrow> ShmAttach list \<Rightarrow> ShmSegment list \<Rightarrow> int \<times> ShmAttach list \<times> ShmSegment list" where
  "shmdt addr atts segs =
    (case first_index (\<lambda>a. at_active a \<and> at_vaddr a = addr) atts of
       None \<Rightarrow> (- 22, atts, segs)
     | Some slot \<Rightarrow>
        (let shmid = unat (at_shmid (atts ! slot)); atts' = atts[slot := shm_attach_empty] in
         if shmid < MAX_SEGMENTS \<and> seg_active (segs ! shmid)
         then (0, atts', segs[shmid := (segs ! shmid)
                \<lparr>seg_refcount := (if seg_refcount (segs ! shmid) = 0 then 0
                                  else seg_refcount (segs ! shmid) - 1)\<rparr>])
         else (0, atts', segs)))"

end
