(* ===== verification/User_Memory.thy ===== *)
theory User_Memory
  imports Kernel_State
begin

text \<open>
  Bytes of a process's memory.  Kernel code copies to and from user addresses
  with the page table of the process active (\<open>copy_to_region_in\<close>, the slices the
  system calls build from user pointers); a byte access goes through the
  last-level entry of its page to a byte of a physical frame.  A read needs a
  present page and a write a writable one: the processor's write protection
  holds in kernel mode too, and the page-fault handler resolves copy-on-write
  faults of user mode only, so any other access of the kernel is a panic, the
  value \<open>None\<close>.
\<close>

section \<open>Bytes of a word\<close>

definition get_byte :: "nat \<Rightarrow> u64 \<Rightarrow> u8" where
  "get_byte i w = ucast (drop_bit (8 * i) w)"

definition set_byte :: "nat \<Rightarrow> u8 \<Rightarrow> u64 \<Rightarrow> u64" where
  "set_byte i b w = (w AND NOT (push_bit (8 * i) 0xFF)) OR push_bit (8 * i) (ucast b)"

definition le64 :: "u64 \<Rightarrow> bytes" where
  "le64 w = map (\<lambda>i. get_byte i w) [0..<8]"

definition rd64 :: "bytes \<Rightarrow> nat \<Rightarrow> u64" where
  "rd64 bs i = foldr (\<lambda>j acc. push_bit 8 acc OR ucast (bs ! (i + j))) [0..<8] 0"

lemma bit_get_byte: "bit (get_byte i w) n \<longleftrightarrow> n < 8 \<and> bit w (8 * i + n)"
  by (auto simp: get_byte_def bit_ucast_iff bit_drop_bit_eq dest: bit_imp_le_length)

lemma bit_set_byte:
  "i < 8 \<Longrightarrow> bit (set_byte i b w) n \<longleftrightarrow> (if 8 * i \<le> n \<and> n < 8 * i + 8 then bit b (n - 8 * i) else bit w n)"
proof -
  assume i: "i < 8"
  have m: "bit (0xFF :: u64) j \<longleftrightarrow> j < 8" for j
    using bit_mask_iff [of 8 j, where ?'a = u64] by (auto simp: mask_eq_exp_minus_1)
  have w: "bit (push_bit (8 * i) x) n \<longleftrightarrow> 8 * i \<le> n \<and> n < 64 \<and> bit x (n - 8 * i)" for x :: u64
    by (auto simp: bit_push_bit_iff)
  have b: "bit (ucast b :: u64) j \<longleftrightarrow> j < 8 \<and> bit b j" for j
    using bit_imp_le_length [of b j] by (auto simp: bit_ucast_iff)
  have n: "bit w n \<Longrightarrow> n < 64" using bit_imp_le_length [of w n] by simp
  have "bit (set_byte i b w) n \<longleftrightarrow>
      bit w n \<and> \<not> (8 * i \<le> n \<and> n - 8 * i < 8) \<or> 8 * i \<le> n \<and> n < 64 \<and> n - 8 * i < 8 \<and> bit b (n - 8 * i)"
    unfolding set_byte_def bit_or_iff bit_and_iff bit_not_iff w m b using n by auto
  then show ?thesis using i by auto
qed

lemma get_set_byte:
  assumes "i < 8"
  shows "get_byte j (set_byte i b w) = (if i = j then b else get_byte j w)"
proof (rule bit_eqI)
  fix n
  have "8 * i \<le> 8 * j + n \<and> 8 * j + n < 8 * i + 8 \<longleftrightarrow> i = j" if "n < 8" using that by linarith
  then show "bit (get_byte j (set_byte i b w)) n \<longleftrightarrow> bit (if i = j then b else get_byte j w) n"
    using assms bit_imp_le_length [of b n] by (auto simp: bit_get_byte bit_set_byte)
qed

section \<open>Access through a page table\<close>

text \<open>The frame, the word in it and the byte in the word that a virtual address names.\<close>

definition page_word :: "u64 \<Rightarrow> nat" where
  "page_word va = unat (va AND 0xFFF) div 8"

definition page_byte :: "u64 \<Rightarrow> nat" where
  "page_byte va = unat (va AND 0xFFF) mod 8"

definition load8 :: "u64 \<Rightarrow> u64 \<Rightarrow> pmem \<Rightarrow> u8 option" where
  "load8 cr3 va m =
    (case leaf_entry m cr3 va of
       None \<Rightarrow> None
     | Some e \<Rightarrow> Some (get_byte (page_byte va) (m (pte_addr e) (page_word va))))"

definition store8 :: "u64 \<Rightarrow> u64 \<Rightarrow> u8 \<Rightarrow> pmem \<Rightarrow> pmem option" where
  "store8 cr3 va b m =
    (case leaf_entry m cr3 va of
       None \<Rightarrow> None
     | Some e \<Rightarrow>
         if \<not> is_writable e then None
         else Some (put_entry (pte_addr e) (page_word va)
                      (set_byte (page_byte va) b (m (pte_addr e) (page_word va))) m))"

fun load_bytes :: "u64 \<Rightarrow> u64 \<Rightarrow> nat \<Rightarrow> pmem \<Rightarrow> bytes option" where
  "load_bytes cr3 va 0 m = Some []"
| "load_bytes cr3 va (Suc n) m =
    do { b \<leftarrow> load8 cr3 va m; bs \<leftarrow> load_bytes cr3 (va + 1) n m; Some (b # bs) }"

fun store_bytes :: "u64 \<Rightarrow> u64 \<Rightarrow> bytes \<Rightarrow> pmem \<Rightarrow> pmem option" where
  "store_bytes cr3 va [] m = Some m"
| "store_bytes cr3 va (b # bs) m = do { m1 \<leftarrow> store8 cr3 va b m; store_bytes cr3 (va + 1) bs m1 }"

definition copy_to_region_in :: "u64 \<Rightarrow> u64 \<Rightarrow> bytes \<Rightarrow> mm \<Rightarrow> mm option" where
  "copy_to_region_in cr3 dest bs m =
    map_option (\<lambda>p. m\<lparr>pg := (pg m)\<lparr>pmem := p\<rparr>\<rparr>) (store_bytes cr3 dest bs (pmem (pg m)))"

section \<open>Reading back what was written\<close>

text \<open>
  A range of user addresses is private when each of its bytes is a writable byte
  of a frame that holds none of the process's tables, and no two of them are the
  same physical byte.
\<close>

definition phys_byte :: "pmem \<Rightarrow> u64 \<Rightarrow> u64 \<Rightarrow> (u64 \<times> nat \<times> nat) option" where
  "phys_byte m cr3 va =
    map_option (\<lambda>e. (pte_addr e, page_word va, page_byte va)) (leaf_entry m cr3 va)"

definition data_byte :: "pmem \<Rightarrow> u64 \<Rightarrow> u64 \<Rightarrow> bool" where
  "data_byte m cr3 va \<longleftrightarrow>
    (\<exists>e. leaf_entry m cr3 va = Some e \<and> is_writable e
       \<and> (\<forall>q. tpath q \<longrightarrow> table_at m cr3 q \<noteq> Some (pte_addr e)))"

definition private_range :: "pmem \<Rightarrow> u64 \<Rightarrow> u64 set \<Rightarrow> bool" where
  "private_range m cr3 A \<longleftrightarrow> (\<forall>a \<in> A. data_byte m cr3 a) \<and> inj_on (phys_byte m cr3) A"

lemma page_byte_less [simp]: "page_byte va < 8"
  by (simp add: page_byte_def)

lemma table_at_data_write:
  assumes "\<And>q. tpath q \<Longrightarrow> table_at m r q \<noteq> Some f"
  shows "tpath q \<Longrightarrow> table_at (put_entry f i e m) r q = table_at m r q"
proof (induction q rule: rev_induct)
  case (snoc j q)
  then show ?case using assms [of q] by (auto simp: table_at_snoc put_entry_apply split: option.split)
qed simp

lemma leaf_entry_data_write:
  assumes "\<And>q. tpath q \<Longrightarrow> table_at m r q \<noteq> Some f"
  shows "leaf_entry (put_entry f i e m) r v = leaf_entry m r v"
proof -
  have "table_at m r (vpath v) \<noteq> Some f" using assms by simp
  moreover have "table_at (put_entry f i e m) r (vpath v) = table_at m r (vpath v)"
    using table_at_data_write [of m r f "vpath v" i e] assms by simp
  ultimately show ?thesis by (auto simp: leaf_entry_def put_entry_apply split: option.split)
qed

lemma store8_effect:
  assumes "data_byte m cr3 va"
  shows "\<exists>m'. store8 cr3 va b m = Some m'
    \<and> (\<forall>v. leaf_entry m' cr3 v = leaf_entry m cr3 v)
    \<and> (\<forall>q. tpath q \<longrightarrow> table_at m' cr3 q = table_at m cr3 q)
    \<and> load8 cr3 va m' = Some b
    \<and> (\<forall>v. phys_byte m cr3 v \<noteq> phys_byte m cr3 va \<longrightarrow> load8 cr3 v m' = load8 cr3 v m)"
proof -
  obtain e where e: "leaf_entry m cr3 va = Some e" "is_writable e"
      "\<And>q. tpath q \<Longrightarrow> table_at m cr3 q \<noteq> Some (pte_addr e)"
    using assms by (auto simp: data_byte_def)
  let ?m = "put_entry (pte_addr e) (page_word va) (set_byte (page_byte va) b (m (pte_addr e) (page_word va))) m"
  have leaf: "leaf_entry ?m cr3 v = leaf_entry m cr3 v" for v by (rule leaf_entry_data_write [OF e(3)])
  have "table_at ?m cr3 q = table_at m cr3 q" if "tpath q" for q by (rule table_at_data_write [OF e(3) that])
  moreover have "load8 cr3 va ?m = Some b"
    using e(1) leaf [of va] by (simp add: load8_def put_entry_apply get_set_byte)
  moreover have "load8 cr3 v ?m = load8 cr3 v m" if "phys_byte m cr3 v \<noteq> phys_byte m cr3 va" for v
  proof (cases "leaf_entry m cr3 v")
    case (Some e')
    then show ?thesis using that e(1) leaf [of v]
      by (auto simp: load8_def put_entry_apply get_set_byte phys_byte_def)
  qed (use leaf [of v] in \<open>simp add: load8_def\<close>)
  ultimately show ?thesis using e(1,2) leaf by (simp add: store8_def)
qed

lemma data_byte_cong:
  assumes "\<And>v. leaf_entry m' r v = leaf_entry m r v" "\<And>q. tpath q \<Longrightarrow> table_at m' r q = table_at m r q"
  shows "data_byte m' r v = data_byte m r v" "phys_byte m' r v = phys_byte m r v"
  using assms by (auto simp: data_byte_def phys_byte_def)

text \<open>The addresses of a range, and the range of a copy.\<close>

definition span :: "u64 \<Rightarrow> nat \<Rightarrow> u64 set" where
  "span va n = (\<lambda>i. va + of_nat i) ` {..<n}"

lemma span_Suc: "span va (Suc n) = insert va (span (va + 1) n)"
proof -
  have "(\<lambda>i. va + of_nat i) ` {..<Suc n} = insert va ((\<lambda>i. va + of_nat (Suc i)) ` {..<n})"
    by (simp only: lessThan_Suc_eq_insert_0 image_insert image_image) simp
  moreover have "va + of_nat (Suc i) = va + 1 + of_nat i" for i :: nat by (simp add: add.assoc)
  ultimately show ?thesis by (simp only: span_def)
qed

lemma store_bytes_effect:
  assumes "private_range m cr3 A" "span va (length bs) \<subseteq> A" "inj_on (\<lambda>i. va + of_nat i) {..<length bs}"
  shows "\<exists>m'. store_bytes cr3 va bs m = Some m'
    \<and> (\<forall>v. leaf_entry m' cr3 v = leaf_entry m cr3 v)
    \<and> (\<forall>q. tpath q \<longrightarrow> table_at m' cr3 q = table_at m cr3 q)
    \<and> (\<forall>i < length bs. load8 cr3 (va + of_nat i) m' = Some (bs ! i))
    \<and> (\<forall>v \<in> A - span va (length bs). load8 cr3 v m' = load8 cr3 v m)"
  using assms
proof (induction bs arbitrary: va m)
  case (Cons b bs)
  have va: "va \<in> A" "span (va + 1) (length bs) \<subseteq> A" using Cons.prems(2) by (auto simp: span_Suc)
  have not: "va \<notin> span (va + 1) (length bs)"
  proof
    assume "va \<in> span (va + 1) (length bs)"
    then obtain i where "i < length bs" "va = va + of_nat (Suc i)" by (auto simp: span_def add.assoc)
    then show False using Cons.prems(3) [THEN inj_onD, of 0 "Suc i"] by simp
  qed
  have inj: "inj_on (\<lambda>i. va + 1 + of_nat i) {..<length bs}"
  proof (rule inj_onI)
    fix i j assume ij: "i \<in> {..<length bs}" "j \<in> {..<length bs}" "va + 1 + of_nat i = va + 1 + (of_nat j :: u64)"
    then have "va + of_nat (Suc i) = va + of_nat (Suc j)" by (simp add: add.assoc)
    then show "i = j" using Cons.prems(3) [THEN inj_onD, of "Suc i" "Suc j"] ij by simp
  qed
  have "data_byte m cr3 va" using Cons.prems(1) va(1) by (simp add: private_range_def)
  from store8_effect [OF this, of b] obtain m1 where m1: "store8 cr3 va b m = Some m1"
    "\<And>v. leaf_entry m1 cr3 v = leaf_entry m cr3 v"
    "\<And>q. tpath q \<Longrightarrow> table_at m1 cr3 q = table_at m cr3 q" "load8 cr3 va m1 = Some b"
    "\<And>v. phys_byte m cr3 v \<noteq> phys_byte m cr3 va \<Longrightarrow> load8 cr3 v m1 = load8 cr3 v m" by blast
  note same = data_byte_cong [OF m1(2,3)]
  have "private_range m1 cr3 A" using Cons.prems(1) same by (simp add: private_range_def inj_on_def)
  from Cons.IH [OF this va(2) inj] obtain m' where m': "store_bytes cr3 (va + 1) bs m1 = Some m'"
    "\<forall>v. leaf_entry m' cr3 v = leaf_entry m1 cr3 v"
    "\<forall>q. tpath q \<longrightarrow> table_at m' cr3 q = table_at m1 cr3 q"
    "\<forall>i < length bs. load8 cr3 (va + 1 + of_nat i) m' = Some (bs ! i)"
    "\<forall>v \<in> A - span (va + 1) (length bs). load8 cr3 v m' = load8 cr3 v m1" by blast
  have other: "load8 cr3 v m1 = load8 cr3 v m" if "v \<in> A" "v \<noteq> va" for v
    using m1(5) that va(1) Cons.prems(1) by (auto simp: private_range_def dest: inj_onD)
  have "load8 cr3 (va + of_nat i) m' = Some ((b # bs) ! i)" if "i < length (b # bs)" for i
  proof (cases i)
    case 0
    then show ?thesis using m'(5) va(1) not m1(4) by simp
  next
    case (Suc j)
    then show ?thesis using m'(4) that by (simp add: add.assoc)
  qed
  moreover have "load8 cr3 v m' = load8 cr3 v m" if "v \<in> A - span va (length (b # bs))" for v
    using that m'(5) other by (simp add: span_Suc)
  ultimately show ?case using m1(1-3) m'(1-3) by simp
qed simp

lemma load_bytes_nth:
  "(\<And>i. i < n \<Longrightarrow> load8 cr3 (va + of_nat i) m = Some (f i)) \<Longrightarrow> load_bytes cr3 va n m = Some (map f [0..<n])"
proof (induction n arbitrary: va f)
  case (Suc n)
  have "load8 cr3 va m = Some (f 0)" using Suc.prems [of 0] by simp
  moreover have "load_bytes cr3 (va + 1) n m = Some (map (\<lambda>i. f (Suc i)) [0..<n])"
  proof (rule Suc.IH)
    fix i assume "i < n"
    then show "load8 cr3 (va + 1 + of_nat i) m = Some (f (Suc i))" using Suc.prems [of "Suc i"] by (simp add: add.assoc)
  qed
  moreover have "map f [0..<Suc n] = f 0 # map (\<lambda>i. f (Suc i)) [0..<n]"
    by (simp only: upt_conv_Cons map_Suc_upt [symmetric]) simp
  ultimately show ?case by simp
qed simp

lemma span_iff: "a \<in> span va (unat n) \<longleftrightarrow> a - va < n"
proof
  assume "a - va < n"
  then have "a = va + of_nat (unat (a - va))" "unat (a - va) < unat n" by (simp_all add: word_less_nat_alt)
  then show "a \<in> span va (unat n)" unfolding span_def by blast
qed (auto simp: span_def word_less_nat_alt unat_of_nat intro: le_less_trans [OF mod_less_eq_dividend])

lemma span_inj: "inj_on (\<lambda>i. va + of_nat i :: u64) {..<unat (n :: u64)}"
proof (rule inj_onI)
  fix i j assume ij: "i \<in> {..<unat n}" "j \<in> {..<unat n}" "va + of_nat i = va + (of_nat j :: u64)"
  have "unat n < 2 ^ 64" using unsigned_less [of n] by simp
  moreover have "unat (of_nat i :: u64) = i mod 2 ^ 64" "unat (of_nat j :: u64) = j mod 2 ^ 64"
    by (simp_all add: unat_of_nat)
  ultimately have "unat (of_nat i :: u64) = i" "unat (of_nat j :: u64) = j"
    using ij(1,2) by (simp_all del: power_numeral)
  moreover have "of_nat i = (of_nat j :: u64)" using ij(3) by simp
  ultimately show "i = j" by metis
qed

end
