(* ===== verification/Elf_Loader.thy ===== *)
theory Elf_Loader
  imports User_Memory
begin

text \<open>
  The ELF64 loader, \<open>proc/elf_loader.rs\<close>.  Headers are read at the offsets of the
  C layout of the structures; offsets are 64-bit and wrap.  A read of a header
  beyond the file is \<open>None\<close>.  What a load leaves in memory is shown in
  \<open>Elf_Image\<close>.
\<close>

definition ELFMAG :: bytes where [kdefs]: "ELFMAG = [0x7F, 0x45, 0x4C, 0x46]"
definition ELFCLASS64 :: u8 where [kdefs]: "ELFCLASS64 = 2"
definition ELFDATA2LSB :: u8 where [kdefs]: "ELFDATA2LSB = 1"
definition ET_EXEC :: u16 where [kdefs]: "ET_EXEC = 2"
definition EM_X86_64 :: u16 where [kdefs]: "EM_X86_64 = 0x3E"
definition PT_LOAD :: u32 where [kdefs]: "PT_LOAD = 1"

definition EHDR_SIZE :: nat where [kdefs]: "EHDR_SIZE = 64"
definition PHDR_SIZE :: nat where [kdefs]: "PHDR_SIZE = 56"

definition is_elf :: "bytes \<Rightarrow> bool" where
  "is_elf d \<longleftrightarrow> length d \<ge> 4 \<and> take 4 d = ELFMAG"

record Elf64Ehdr =
  e_ident :: bytes
  e_type :: u16
  e_machine :: u16
  e_entry :: u64
  e_phoff :: u64
  e_phentsize :: u16
  e_phnum :: u16

definition parse_ehdr :: "bytes \<Rightarrow> Elf64Ehdr" where
  "parse_ehdr d = \<lparr>e_ident = take 16 d, e_type = rd16 d 16, e_machine = rd16 d 18, e_entry = rd64 d 24,
    e_phoff = rd64 d 32, e_phentsize = rd16 d 54, e_phnum = rd16 d 56\<rparr>"

record Elf64Phdr =
  p_type :: u32
  p_flags :: u32
  p_offset :: u64
  p_vaddr :: u64
  p_filesz :: u64
  p_memsz :: u64

definition parse_phdr :: "bytes \<Rightarrow> nat \<Rightarrow> Elf64Phdr" where
  "parse_phdr d off = \<lparr>p_type = rd32 d off, p_flags = rd32 d (off + 4), p_offset = rd64 d (off + 8),
    p_vaddr = rd64 d (off + 16), p_filesz = rd64 d (off + 32), p_memsz = rd64 d (off + 40)\<rparr>"

text \<open>The checks of the header, in the order of the source; the error is their message.\<close>

definition check_ehdr :: "bytes \<Rightarrow> string option" where
  "check_ehdr d =
    (if length d < EHDR_SIZE then Some ''file too small''
     else (let h = parse_ehdr d in
       if take 4 (e_ident h) \<noteq> ELFMAG then Some ''bad ELF magic''
       else if e_ident h ! 4 \<noteq> ELFCLASS64 then Some ''not ELF64''
       else if e_ident h ! 5 \<noteq> ELFDATA2LSB then Some ''not little-endian''
       else if e_type h \<noteq> ET_EXEC then Some ''not an executable''
       else if e_machine h \<noteq> EM_X86_64 then Some ''not x86-64''
       else if unat (e_phentsize h) < PHDR_SIZE then Some ''phdr too small''
       else None))"

definition ph_off :: "Elf64Ehdr \<Rightarrow> nat \<Rightarrow> u64" where
  "ph_off h i = e_phoff h + of_nat i * ucast (e_phentsize h)"

definition is_load :: "Elf64Phdr \<Rightarrow> bool" where
  "is_load ph \<longleftrightarrow> \<not> (p_type ph \<noteq> PT_LOAD \<or> p_memsz ph = 0)"

definition va_start :: "Elf64Phdr \<Rightarrow> u64" where
  "va_start ph = p_vaddr ph AND NOT 0xFFF"

definition va_end :: "Elf64Phdr \<Rightarrow> u64" where
  "va_end ph = (p_vaddr ph + p_memsz ph + 0xFFF) AND NOT 0xFFF"

text \<open>
  Pass 1: the smallest range of pages that holds every segment whose header is
  inside the file.  The bound is compared after a wrapping addition, and the
  slice of the file is a panic when the offset itself lies beyond the end.
\<close>

fun load_range :: "bytes \<Rightarrow> Elf64Ehdr \<Rightarrow> nat list \<Rightarrow> u64 \<times> u64 \<Rightarrow> (u64 \<times> u64) option" where
  "load_range d h [] r = Some r"
| "load_range d h (i # is) r =
    (let off = ph_off h i in
     if off + of_nat PHDR_SIZE > of_nat (length d) then load_range d h is r
     else if unat off > length d then None
     else (let ph = parse_phdr d (unat off) in
       if \<not> is_load ph then load_range d h is r
       else load_range d h is (min (fst r) (va_start ph), max (snd r) (va_end ph))))"

text \<open>
  Pass 2: copy the file image of every segment.  The header is read without the
  check of pass 1, so a header that ends beyond the file has no value; nor has a
  segment whose end wraps around, for which the copy reads beyond the file.
\<close>

fun copy_segments :: "bytes \<Rightarrow> Elf64Ehdr \<Rightarrow> u64 \<Rightarrow> nat list \<Rightarrow> pmem \<Rightarrow> (string option \<times> pmem) option" where
  "copy_segments d h cr3 [] m = Some (None, m)"
| "copy_segments d h cr3 (i # is) m =
    (let off = unat (ph_off h i) in
     if off + PHDR_SIZE > length d then None
     else (let ph = parse_phdr d off in
       if \<not> is_load ph \<or> p_filesz ph = 0 then copy_segments d h cr3 is m
       else (let e = p_offset ph + p_filesz ph in
         if e > of_nat (length d) then Some (Some ''segment beyond EOF'', m)
         else if unat (p_offset ph) + unat (p_filesz ph) > length d then None
         else do { m' \<leftarrow> store_bytes cr3 (p_vaddr ph)
                           (take (unat (p_filesz ph)) (drop (unat (p_offset ph)) d)) m;
                   copy_segments d h cr3 is m' })))"

definition load_in :: "bytes \<Rightarrow> u64 \<Rightarrow> mm \<Rightarrow> ((string + u64) \<times> mm) option" where
  "load_in d cr3 m =
    (case check_ehdr d of
       Some e \<Rightarrow> Some (Inl e, m)
     | None \<Rightarrow>
        (let h = parse_ehdr d; phs = [0..<unat (e_phnum h)] in
         do { (min_va, max_va) \<leftarrow> load_range d h phs (- 1, 0);
              case (if min_va < max_va
                    then map_user_region_in cr3 min_va (unat ((max_va - min_va) div 4096)) True True m
                    else (Inr (), m)) of
                (Inl _, m1) \<Rightarrow> Some (Inl ''OOM: ELF segments'', m1)
              | (Inr _, m1) \<Rightarrow>
                  do { (err, p) \<leftarrow> copy_segments d h cr3 phs (pmem (pg m1));
                       Some (case err of Some e \<Rightarrow> Inl e | None \<Rightarrow> Inr (e_entry h),
                             m1\<lparr>pg := (pg m1)\<lparr>pmem := p\<rparr>\<rparr>) } }))"

end
