(* ===== verification/Scheduler.thy ===== *)
theory Scheduler
  imports Fd_Table Shm Elf_Loader
begin

text \<open>
  The scheduler, \<open>proc/scheduler.rs\<close>: eight task slots, round-robin choice,
  sleeping, waiting and blocked tasks, signals, \<open>spawn\<close> and \<open>fork\<close>.  A function of
  the source that never returns (\<open>-> !\<close>) leaves the kernel through
  \<open>exit_to_kernel\<close>: its result is the code that \<open>launch_at\<close> or
  \<open>resume_user_context\<close> then returns to \<open>tick\<close>.  What a task does between entering
  and leaving user mode is the parameter \<open>run\<close> of \<open>tick\<close>.  Serial output is left
  out.  That the choice is fair is shown in \<open>Fairness\<close>.
\<close>

section \<open>Constants\<close>

definition TICKS_PER_SLICE :: u64 where [kdefs]: "TICKS_PER_SLICE = 2"
definition EXIT_PREEMPTED :: int where [kdefs]: "EXIT_PREEMPTED = - (2 ^ 63)"
definition EXIT_SLEEPING :: int where [kdefs]: "EXIT_SLEEPING = - (2 ^ 63) + 1"

definition SIG_DFL :: u64 where [kdefs]: "SIG_DFL = 0"
definition SIG_IGN :: u64 where [kdefs]: "SIG_IGN = 1"
definition SIGINT :: u8 where [kdefs]: "SIGINT = 2"
definition SIGKILL :: u8 where [kdefs]: "SIGKILL = 9"
definition SIGALRM :: u8 where [kdefs]: "SIGALRM = 14"
definition SIGTERM :: u8 where [kdefs]: "SIGTERM = 15"
definition SIGCHLD :: u8 where [kdefs]: "SIGCHLD = 17"
definition SIGCONT :: u8 where [kdefs]: "SIGCONT = 18"
definition SIGSTOP :: u8 where [kdefs]: "SIGSTOP = 19"

definition USER_SIGTRAMP :: u64 where [kdefs]: "USER_SIGTRAMP = 0x900000"

definition SIGTRAMP_BYTES :: bytes where
  "SIGTRAMP_BYTES = [0x48, 0xc7, 0xc0, 95, 0, 0, 0, 0xcd, 0x80, 0x0f, 0x0b]"

section \<open>Captured output\<close>

text \<open>
  Valid UTF-8, as \<open>core::str::from_utf8\<close> accepts it: for every leading byte the
  ranges of the bytes that must follow.
\<close>

definition utf8_tail :: "u8 \<Rightarrow> (u8 \<times> u8) list option" where
  "utf8_tail b =
    (if b < 0x80 then Some []
     else if b < 0xC2 then None
     else if b < 0xE0 then Some [(0x80, 0xBF)]
     else if b = 0xE0 then Some [(0xA0, 0xBF), (0x80, 0xBF)]
     else if b = 0xED then Some [(0x80, 0x9F), (0x80, 0xBF)]
     else if b < 0xF0 then Some [(0x80, 0xBF), (0x80, 0xBF)]
     else if b = 0xF0 then Some [(0x90, 0xBF), (0x80, 0xBF), (0x80, 0xBF)]
     else if b < 0xF4 then Some [(0x80, 0xBF), (0x80, 0xBF), (0x80, 0xBF)]
     else if b = 0xF4 then Some [(0x80, 0x8F), (0x80, 0xBF), (0x80, 0xBF)]
     else None)"

function (sequential) valid_utf8 :: "bytes \<Rightarrow> bool" where
  "valid_utf8 [] = True"
| "valid_utf8 (b # bs) =
    (case utf8_tail b of
       None \<Rightarrow> False
     | Some rs \<Rightarrow> list_all2 (\<lambda>(lo, hi) c. lo \<le> c \<and> c \<le> hi) rs (take (length rs) bs)
                  \<and> valid_utf8 (drop (length rs) bs))"
  by pat_completeness auto
termination by (relation "measure length") auto

text \<open>Lines of a text, split at \<open>'\n'\<close>; the empty ones are dropped.\<close>

fun split_lines :: "bytes \<Rightarrow> bytes \<Rightarrow> bytes list" where
  "split_lines [] acc = [acc]"
| "split_lines (c # cs) acc = (if c = 10 then acc # split_lines cs [] else split_lines cs (acc @ [c]))"

definition output_drain_task :: "nat \<Rightarrow> kernel \<Rightarrow> bytes list \<times> kernel" where
  "output_drain_task idx k =
    (if idx \<ge> MAX_TASKS then ([], k)
     else (let t = tasks k ! idx; len = out_len t in
       if len = 0 then ([], k)
       else (let tmp = take len (out_buf t); txt = (if valid_utf8 tmp then tmp else []) in
             (filter (\<lambda>l. l \<noteq> []) (split_lines txt []), upd_task idx (\<lambda>t. t\<lparr>out_len := 0\<rparr>) k))))"

section \<open>The argument block of a new task\<close>

text \<open>The pointer and the string of every argument; the result is the offset behind the strings.\<close>

fun argv_fill :: "u64 \<Rightarrow> bytes list \<Rightarrow> nat \<Rightarrow> nat \<Rightarrow> bytes \<Rightarrow> nat \<times> bytes" where
  "argv_fill rsp [] i off buf = (off, buf)"
| "argv_fill rsp (a # as) i off buf =
    argv_fill rsp as (i + 1) (off + length a + 1)
      (blit off (a @ [0]) (blit (8 + i * 8) (le64 (rsp + of_nat off)) buf))"

text \<open>The pointers to the environment strings, found by scanning for their terminating zeros.\<close>

definition skip_string :: "bytes \<Rightarrow> nat \<Rightarrow> nat \<Rightarrow> nat" where
  "skip_string raw len scan = scan + length (takeWhile (\<lambda>b. b \<noteq> 0) (drop scan (take len raw))) + 1"

function envp_fill :: "u64 \<Rightarrow> nat \<Rightarrow> nat \<Rightarrow> nat \<Rightarrow> bytes \<Rightarrow> nat \<Rightarrow> nat \<Rightarrow> nat \<Rightarrow> bytes \<Rightarrow> bytes" where
  "envp_fill rsp base argc envc raw len scan ei buf =
    (if scan < len \<and> ei < envc
     then envp_fill rsp base argc envc raw len (skip_string raw len scan) (ei + 1)
            (blit (8 + (argc + 1 + ei) * 8) (le64 (rsp + of_nat (base + scan))) buf)
     else buf)"
  by pat_completeness auto
termination by (relation "measure (\<lambda>(rsp, base, argc, envc, raw, len, scan, ei, buf). envc - ei)") auto

declare envp_fill.simps [simp del]

definition argv_total :: "nat \<Rightarrow> nat" where
  "argv_total raw_total = (raw_total + 15) div 16 * 16 + 8"

definition write_argv_to_stack :: "u64 \<Rightarrow> u64 \<Rightarrow> bytes list \<Rightarrow> env \<Rightarrow> mm \<Rightarrow> (u64 \<times> mm) option" where
  "write_argv_to_stack cr3 stack_top args es m =
    (let argc = min (length args) 31; argv = take argc args;
         (envc, env_len, env_raw) = write_env_strings (replicate 1024 0) es;
         ptrs = 8 * (1 + argc + 1 + envc + 1);
         strs = sum_list (map (\<lambda>a. length a + 1) argv);
         tot = argv_total (ptrs + strs + env_len) in
     if tot > 2048 then Some (stack_top - 8, m)
     else (let rsp = stack_top - of_nat tot;
               buf = blit 0 (le64 (of_nat argc)) (replicate 2048 0);
               (off, buf) = argv_fill rsp argv 0 ptrs buf;
               buf = blit off (take env_len env_raw) buf;
               buf = envp_fill rsp off argc envc env_raw env_len 0 0 buf in
           map_option (\<lambda>m'. (rsp, m')) (copy_to_region_in cr3 rsp (take tot buf) m)))"

section \<open>Creating tasks\<close>

record TaskInfo =
  ti_pid :: u8
  ti_name :: bytes
  ti_name_len :: nat
  ti_state :: TaskState

definition task_infos :: "kernel \<Rightarrow> TaskInfo list" where
  "task_infos k = map (\<lambda>t. \<lparr>ti_pid = tpid t, ti_name = tname t, ti_name_len = tname_len t,
                           ti_state = tstate t\<rparr>) (tasks k)"

text \<open>The fields \<open>spawn\<close> sets; the others (\<open>pgid\<close>, \<open>cwd\<close>) keep what the slot held before.\<close>

definition spawn_task :: "u64 \<Rightarrow> u64 \<Rightarrow> u8 \<Rightarrow> Task \<Rightarrow> Task" where
  "spawn_task entry cr3 pid t =
    t\<lparr>tstate := Ready, first_run := True, ctx := context_zeroed, tentry := entry, tcr3 := cr3,
      tpid := pid, parent_pid := 0, fs_base := 0, heap_end := 0, mmap_end := 0, out_len := 0,
      fd_table := fd_table_new, pending_signals := 0, signal_mask := 0, saved_signal_mask := 0,
      in_sigsuspend := False, alarm_deadline := 0, signal_handlers := replicate NSIG 0,
      shm_attaches := replicate MAX_ATTACH shm_attach_empty,
      mmap_regions := replicate MAX_MMAP_REGIONS mmap_region_empty, mmap_nregions := 0\<rparr>"

definition stack_base :: u64 where
  "stack_base = USER_STACK_TOP - of_nat (USER_STACK_PAGES * 4096)"

text \<open>The code of a flat binary, or the segments of an ELF file; the result is the entry point.\<close>

definition load_program :: "bytes \<Rightarrow> u64 \<Rightarrow> mm \<Rightarrow> ((string + u64) \<times> mm) option" where
  "load_program code cr3 m =
    (if is_elf code then load_in code cr3 m
     else case map_user_region_in cr3 USER_CODE_ADDR ((length code + 4095) div 4096) True True m of
       (Inl _, m1) \<Rightarrow> Some (Inl ''OOM: code'', m1)
     | (Inr _, m1) \<Rightarrow> map_option (\<lambda>m2. (Inr USER_CODE_ADDR, m2)) (copy_to_region_in cr3 USER_CODE_ADDR code m1))"

definition map_sigtramp :: "u64 \<Rightarrow> mm \<Rightarrow> mm option" where
  "map_sigtramp cr3 m =
    (case map_user_region_in cr3 USER_SIGTRAMP 1 True True m of
       (Inl _, m1) \<Rightarrow> Some m1
     | (Inr _, m1) \<Rightarrow> copy_to_region_in cr3 USER_SIGTRAMP SIGTRAMP_BYTES m1)"

definition set_name :: "bytes \<Rightarrow> Task \<Rightarrow> Task" where
  "set_name name t = t\<lparr>tname := blit 0 (take 16 name) (tname t), tname_len := min (length name) 16\<rparr>"

definition spawn :: "bytes \<Rightarrow> bytes \<Rightarrow> kernel \<Rightarrow> ((string + u8) \<times> kernel) option" where
  "spawn code name k =
    (if code = [] then Some (Inl ''empty binary'', k)
     else case first_index (\<lambda>t. is_free_state (tstate t)) (tasks k) of
       None \<Rightarrow> Some (Inl ''max tasks reached (8)'', k)
     | Some slot \<Rightarrow>
      (case create_user_page_table (kmm k) of
         (None, m1) \<Rightarrow> Some (Inl ''OOM: cannot allocate page table'', k\<lparr>kmm := m1\<rparr>)
       | (Some cr3, m1) \<Rightarrow>
        (case map_user_region_in cr3 stack_base USER_STACK_PAGES True False m1 of
           (Inl _, m2) \<Rightarrow> Some (Inl ''OOM: stack'', k\<lparr>kmm := m2\<rparr>)
         | (Inr _, m2) \<Rightarrow>
             do { (res, m3) \<leftarrow> load_program code cr3 m2;
                  case res of
                    Inl e \<Rightarrow> Some (Inl e, k\<lparr>kmm := m3\<rparr>)
                  | Inr entry \<Rightarrow>
                     (let pid = of_nat (slot + 1) in
                      do { m4 \<leftarrow> map_sigtramp cr3 m3;
                           (rsp, m5) \<leftarrow> write_argv_to_stack cr3 USER_STACK_TOP [name] (kenv k) m4;
                           Some (Inr pid,
                             (upd_task slot (\<lambda>t. set_name name
                                ((spawn_task entry cr3 pid t)\<lparr>initial_rsp := rsp\<rparr>)) k)\<lparr>kmm := m5\<rparr>) }) })))"

section \<open>Leaving user mode\<close>

definition exit_to_kernel :: "int \<Rightarrow> kernel \<Rightarrow> int \<times> kernel" where
  "exit_to_kernel code k = (code, k\<lparr>syscall_ctx := None, user_active := False\<rparr>)"

definition preempt :: "TaskContext \<Rightarrow> kernel \<Rightarrow> int \<times> kernel" where
  "preempt c k = exit_to_kernel EXIT_PREEMPTED (upd_task (current k) (\<lambda>t. t\<lparr>ctx := c\<rparr>) k)"

definition block_task :: "nat \<Rightarrow> TaskState \<Rightarrow> TaskContext \<Rightarrow> kernel \<Rightarrow> int \<times> kernel" where
  "block_task i s c k =
    exit_to_kernel EXIT_SLEEPING (upd_task i (\<lambda>t. t\<lparr>ctx := c\<lparr>reg_rax := 0\<rparr>, tstate := s\<rparr>) k)"

definition sleep_task :: "u64 \<Rightarrow> TaskContext \<Rightarrow> kernel \<Rightarrow> int \<times> kernel" where
  "sleep_task wake_tick c k = block_task (current k) (Sleeping wake_tick) c k"

definition wait_for_pid :: "nat \<Rightarrow> u8 \<Rightarrow> TaskContext \<Rightarrow> kernel \<Rightarrow> int \<times> kernel" where
  "wait_for_pid i child_pid c k = block_task i (Waiting child_pid) c k"

definition wait_for_msg :: "u32 \<Rightarrow> u64 \<Rightarrow> TaskContext \<Rightarrow> kernel \<Rightarrow> int \<times> kernel" where
  "wait_for_msg queue_id msg_ptr c k = block_task (current k) (WaitingForMsg queue_id msg_ptr) c k"

section \<open>Signals\<close>

definition sig_bit :: "u8 \<Rightarrow> u32" where
  "sig_bit signum = push_bit (unat signum - 1) 1"

definition send_signal :: "u8 \<Rightarrow> u8 \<Rightarrow> kernel \<Rightarrow> bool \<times> kernel" where
  "send_signal pid signum k =
    (if signum = 0 \<or> unat signum \<ge> NSIG then (False, k)
     else case first_index (\<lambda>t. tpid t = pid) (tasks k) of
       None \<Rightarrow> (False, k)
     | Some i \<Rightarrow>
        (if is_free_state (tstate (tasks k ! i)) then (False, k)
         else if signum = SIGKILL
         then (True, upd_task i (\<lambda>t. t\<lparr>tstate := Dead (128 + uint signum)\<rparr>) k)
         else (True, upd_task i (\<lambda>t. t\<lparr>pending_signals := pending_signals t OR sig_bit signum,
                 tstate := (case tstate t of Sleeping _ \<Rightarrow> Ready | s \<Rightarrow> s)\<rparr>) k)))"

definition kill :: "u8 \<Rightarrow> kernel \<Rightarrow> bool \<times> kernel" where
  "kill pid k = send_signal pid SIGKILL k"

definition always_deliverable :: u32 where
  "always_deliverable = sig_bit SIGKILL OR sig_bit SIGSTOP"

definition deliverable :: "Task \<Rightarrow> u32" where
  "deliverable t = (pending_signals t AND NOT (signal_mask t)) OR (pending_signals t AND always_deliverable)"

text \<open>The saved registers, in the order of \<open>SignalFrame\<close>.\<close>

definition signal_frame :: "TaskContext \<Rightarrow> bytes" where
  "signal_frame c = concat (map le64
    [reg_rip c, reg_rax c, reg_rbx c, reg_rcx c, reg_rdx c, reg_rsi c, reg_rdi c, reg_r8 c, reg_r9 c,
     reg_r10 c, reg_r11 c, reg_r12 c, reg_r13 c, reg_r14 c, reg_r15 c, reg_rbp c, reg_rflags c])"

definition FRAME_SIZE :: u64 where [kdefs]: "FRAME_SIZE = 136"

definition frame_rsp :: "u64 \<Rightarrow> u64" where
  "frame_rsp rsp = (rsp - 8 - FRAME_SIZE) AND NOT 0xF"

definition enter_handler :: "nat \<Rightarrow> u8 \<Rightarrow> u64 \<Rightarrow> kernel \<Rightarrow> kernel option" where
  "enter_handler idx signum handler k =
    (let t = tasks k ! idx; rsp = reg_rsp (ctx t) - 8 in
     do { m1 \<leftarrow> copy_to_region_in (tcr3 t) rsp (le64 USER_SIGTRAMP) (kmm k);
          m2 \<leftarrow> copy_to_region_in (tcr3 t) (frame_rsp (reg_rsp (ctx t))) (signal_frame (ctx t)) m1;
          Some ((upd_task idx (\<lambda>t. t\<lparr>ctx := (ctx t)\<lparr>reg_rsp := frame_rsp (reg_rsp (ctx t)),
                   reg_rip := handler, reg_rdi := ucast signum\<rparr>\<rparr>) k)\<lparr>kmm := m2\<rparr>) })"

definition handler_of :: "u8 \<Rightarrow> Task \<Rightarrow> u64" where
  "handler_of signum t = (if unat signum < NSIG then signal_handlers t ! unat signum else SIG_DFL)"

text \<open>The loop over the set bits of \<open>to_deliver\<close>, the lowest first.\<close>

fun deliver_loop :: "nat list \<Rightarrow> nat \<Rightarrow> kernel \<Rightarrow> (bool \<times> kernel) option" where
  "deliver_loop [] idx k = Some (False, k)"
| "deliver_loop (b # bs) idx k =
    (let signum = of_nat (b + 1); handler = handler_of signum (tasks k ! idx) in
     if handler = SIG_IGN then deliver_loop bs idx k
     else if handler = SIG_DFL then
       (if signum = SIGCHLD \<or> signum = SIGCONT then deliver_loop bs idx k
        else Some (True, upd_task idx (\<lambda>t. t\<lparr>tstate := Dead (128 + uint signum)\<rparr>) k))
     else map_option (\<lambda>k'. (False, k')) (enter_handler idx signum handler k))"

definition deliver_pending_signals :: "nat \<Rightarrow> kernel \<Rightarrow> (bool \<times> kernel) option" where
  "deliver_pending_signals idx k =
    (let d = deliverable (tasks k ! idx) in
     if d = 0 then Some (False, k)
     else deliver_loop (filter (bit d) [0..<32]) idx
            (upd_task idx (\<lambda>t. t\<lparr>pending_signals := pending_signals t AND NOT d\<rparr>) k))"

section \<open>Fork\<close>

definition shm_range :: "ShmSegment list \<Rightarrow> ShmAttach \<Rightarrow> (u64 \<times> u64) list" where
  "shm_range segs a =
    (if \<not> at_active a then []
     else (let pages = segment_pages (at_shmid a) segs in
       if pages = 0 then [] else [(at_vaddr a, at_vaddr a + of_nat (pages * 4096))]))"

definition fork_child_task :: "TaskContext \<Rightarrow> u64 \<Rightarrow> u8 \<Rightarrow> Task \<Rightarrow> Task \<Rightarrow> Task" where
  "fork_child_task child_ctx child_cr3 child_pid p c =
    c\<lparr>tstate := Ready, ctx := child_ctx, first_run := False, tentry := tentry p, tcr3 := child_cr3,
      tpid := child_pid, parent_pid := tpid p, pgid := pgid p, heap_end := heap_end p,
      mmap_end := mmap_end p, out_len := 0, fd_table := fd_table p, cwd := cwd p, cwd_len := cwd_len p,
      pending_signals := 0, signal_mask := 0, saved_signal_mask := 0, in_sigsuspend := False,
      alarm_deadline := 0, signal_handlers := signal_handlers p,
      shm_attaches := replicate MAX_ATTACH shm_attach_empty, mmap_regions := mmap_regions p,
      mmap_nregions := mmap_nregions p, tname := tname p, tname_len := tname_len p\<rparr>"

definition addref_entries :: "FdTable \<Rightarrow> kernel \<Rightarrow> kernel" where
  "addref_entries t k =
    fold (\<lambda>slot k. case slot of None \<Rightarrow> k | Some e \<Rightarrow> dup2_addref e k) t k"

definition fork_task :: "nat \<Rightarrow> TaskContext \<Rightarrow> kernel \<Rightarrow> (string + u8) \<times> kernel" where
  "fork_task p child_ctx k =
    (case find (\<lambda>i. i \<noteq> p \<and> is_free_state (tstate (tasks k ! i))) [0..<MAX_TASKS] of
       None \<Rightarrow> (Inl ''max tasks reached'', k)
     | Some slot \<Rightarrow>
        (let t = tasks k ! p; shm_ranges = concat (map (shm_range (segtab k)) (shm_attaches t)) in
         case cow_fork_user_page_table (tcr3 t) (stack_base, USER_STACK_TOP) shm_ranges (kmm k) of
           (None, m1) \<Rightarrow> (Inl ''OOM: fork page table'', k\<lparr>kmm := m1\<rparr>)
         | (Some child_cr3, m1) \<Rightarrow>
             (let child_pid = of_nat (slot + 1);
                  k1 = (upd_task slot (fork_child_task child_ctx child_cr3 child_pid t) k)\<lparr>kmm := m1\<rparr> in
              (Inr child_pid, addref_entries (fd_table t) k1))))"

section \<open>One step of the scheduler\<close>

definition wake_sleeper :: "u64 \<Rightarrow> Task \<Rightarrow> Task" where
  "wake_sleeper now t =
    (case tstate t of Sleeping wake \<Rightarrow> if now \<ge> wake then t\<lparr>tstate := Ready\<rparr> else t | _ \<Rightarrow> t)"

definition fire_alarm :: "u64 \<Rightarrow> nat \<Rightarrow> kernel \<Rightarrow> kernel" where
  "fire_alarm now i k =
    (let t = tasks k ! i in
     if alarm_deadline t \<noteq> 0 \<and> now \<ge> alarm_deadline t
     then (let k1 = upd_task i (\<lambda>t. t\<lparr>alarm_deadline := 0\<rparr>) k in
           if tpid t \<noteq> 0 then snd (send_signal (tpid t) SIGALRM k1) else k1)
     else k)"

definition message_bytes :: "Message \<Rightarrow> bytes" where
  "message_bytes m = le32 (type_id m) @ le32 (msize m) @ mdata m"

text \<open>
  The step runs on the kernel's own page table, which \<open>exit_to_kernel\<close> restored, so
  the message goes to the address \<open>msg_ptr\<close> of that table.
\<close>

definition wake_receiver :: "nat \<Rightarrow> kernel \<Rightarrow> kernel option" where
  "wake_receiver i k =
    (case tstate (tasks k ! i) of
       WaitingForMsg queue_id msg_ptr \<Rightarrow>
         (case msgrcv queue_id message_empty (kqueues k) of
            (r, msg, qs) \<Rightarrow>
              if r = 0 then
                do { root \<leftarrow> kernel_l4 (kmm k);
                     m' \<leftarrow> copy_to_region_in root msg_ptr (message_bytes msg) (kmm k);
                     Some ((upd_task i (\<lambda>t. t\<lparr>ctx := (ctx t)\<lparr>reg_rax := 0\<rparr>, tstate := Ready\<rparr>) k)
                             \<lparr>kqueues := qs, kmm := m'\<rparr>) }
              else Some k)
     | _ \<Rightarrow> Some k)"

fun wake_receivers :: "nat list \<Rightarrow> kernel \<Rightarrow> kernel option" where
  "wake_receivers [] k = Some k"
| "wake_receivers (i # is) k = do { k1 \<leftarrow> wake_receiver i k; wake_receivers is k1 }"

definition reap :: "nat \<Rightarrow> kernel \<Rightarrow> kernel" where
  "reap j k = upd_task j (\<lambda>t. t\<lparr>tstate := Empty, tpid := 0, parent_pid := 0\<rparr>) k"

definition wake_waiter :: "nat \<Rightarrow> kernel \<Rightarrow> kernel" where
  "wake_waiter i k =
    (case tstate (tasks k ! i) of
       Waiting child_pid \<Rightarrow>
         (case first_index (\<lambda>t. tpid t = child_pid) (tasks k) of
            None \<Rightarrow> k
          | Some j \<Rightarrow>
             (case tstate (tasks k ! j) of
                Dead code \<Rightarrow>
                  reap j (upd_task i (\<lambda>t. t\<lparr>ctx := (ctx t)\<lparr>reg_rax := of_int code\<rparr>, tstate := Ready\<rparr>) k)
              | _ \<Rightarrow> k))
     | _ \<Rightarrow> k)"

text \<open>What \<open>tick\<close> does before it chooses a task.\<close>

definition wake_phase :: "kernel \<Rightarrow> kernel option" where
  "wake_phase k =
    (let now = ticks k;
         k1 = k\<lparr>tasks := map (wake_sleeper now) (tasks k)\<rparr>;
         k2 = fold (fire_alarm now) [0..<MAX_TASKS] k1 in
     map_option (fold wake_waiter [0..<MAX_TASKS]) (wake_receivers [0..<MAX_TASKS] k2))"

definition choose_task :: "kernel \<Rightarrow> nat option" where
  "choose_task k =
    find (\<lambda>idx. tstate (tasks k ! idx) = Ready)
      (map (\<lambda>i. ((current k + 1) mod MAX_TASKS + i) mod MAX_TASKS) [0..<MAX_TASKS])"

definition release_space :: "nat \<Rightarrow> kernel \<Rightarrow> kernel" where
  "release_space idx k =
    (let cr3 = tcr3 (tasks k ! idx) in
     if cr3 \<noteq> 0
     then (upd_task idx (\<lambda>t. t\<lparr>tcr3 := 0\<rparr>) k)\<lparr>kmm := free_user_page_table cr3 (kmm k)\<rparr>
     else k)"

datatype user_entry = Launch u64 u64 u64 | Resume TaskContext u64

definition enter_task :: "nat \<Rightarrow> kernel \<Rightarrow> user_entry \<times> kernel" where
  "enter_task idx k =
    (let t = tasks k ! idx;
         k1 = (upd_task idx (\<lambda>t. t\<lparr>tstate := Running\<rparr>) k)\<lparr>slice_remaining := TICKS_PER_SLICE, user_active := True\<rparr> in
     if first_run t then (Launch (tentry t) (initial_rsp t) (tcr3 t), upd_task idx (\<lambda>t. t\<lparr>first_run := False\<rparr>) k1)
     else (Resume (ctx t) (tcr3 t), k1))"

definition finish_task :: "nat \<Rightarrow> int \<Rightarrow> kernel \<Rightarrow> (u8 \<times> int) option \<times> kernel" where
  "finish_task idx code k =
    (if code = EXIT_PREEMPTED then (None, upd_task idx (\<lambda>t. t\<lparr>tstate := Ready\<rparr>) k)
     else if code = EXIT_SLEEPING then (None, k)
     else (let t = tasks k ! idx;
               k1 = release_space idx (upd_task idx (\<lambda>t. t\<lparr>tstate := Dead code\<rparr>) k) in
           (Some (tpid t, code),
            if parent_pid t \<noteq> 0 then snd (send_signal (parent_pid t) SIGCHLD k1) else k1)))"

definition deliver_phase :: "nat \<Rightarrow> kernel \<Rightarrow> (bool \<times> kernel) option" where
  "deliver_phase idx k =
    (if pending_signals (tasks k ! idx) \<noteq> 0 then deliver_pending_signals idx k else Some (False, k))"

definition tick ::
  "(user_entry \<Rightarrow> kernel \<Rightarrow> (int \<times> kernel) option) \<Rightarrow> kernel \<Rightarrow> ((u8 \<times> int) option \<times> kernel) option" where
  "tick run k =
    do { k1 \<leftarrow> wake_phase k;
         case choose_task k1 of
           None \<Rightarrow> Some (None, k1)
         | Some idx \<Rightarrow>
             do { (killed, k2) \<leftarrow> deliver_phase idx (k1\<lparr>current := idx, cur_idx := idx\<rparr>);
                  if killed
                  then (let code = (case exit_code (tstate (tasks k2 ! idx)) of Some c \<Rightarrow> c | None \<Rightarrow> - 1) in
                        Some (Some (tpid (tasks k2 ! idx), code), release_space idx k2))
                  else (let (entry, k3) = enter_task idx k2 in
                        do { (code, k4) \<leftarrow> run entry k3; Some (finish_task idx code k4) }) } }"

definition has_task :: "kernel \<Rightarrow> bool" where
  "has_task k \<longleftrightarrow> list_ex (\<lambda>t. \<not> is_free_state (tstate t)) (tasks k)"

definition task_count :: "kernel \<Rightarrow> nat" where
  "task_count k = length (filter (\<lambda>t. \<not> is_free_state (tstate t)) (tasks k))"

end
