(* ===== verification/Fairness.thy ===== *)
theory Fairness
  imports Scheduler
begin

text \<open>
  The choice of the next task in \<open>tick\<close> of \<open>proc/scheduler.rs\<close> is fair.  The search
  for a ready task starts after the slot that ran last, so the distance from that
  slot to a ready task that is passed over shrinks with every step; hence a task
  that stays ready is chosen within eight steps.
\<close>

section \<open>Ready tasks and distances\<close>

text \<open>The task a step enters, or would kill with a pending signal instead.\<close>

definition chosen :: "kernel \<Rightarrow> nat option" where
  "chosen k = do { k1 \<leftarrow> wake_phase k; choose_task k1 }"

definition is_ready :: "nat \<Rightarrow> kernel \<Rightarrow> bool" where
  "is_ready i k \<longleftrightarrow> i < length (tasks k) \<and> tstate (tasks k ! i) = Ready"

text \<open>How many slots a task is after the one that follows \<open>current\<close>.\<close>

definition ring_dist :: "nat \<Rightarrow> nat \<Rightarrow> nat" where
  "ring_dist cur i = (i + (MAX_TASKS - 1) - cur mod MAX_TASKS) mod MAX_TASKS"

lemma ring_dist_if:
  "i < MAX_TASKS \<Longrightarrow>
   ring_dist cur i = (if cur mod 8 < i then i - cur mod 8 - 1 else i + 7 - cur mod 8)"
proof -
  assume "i < MAX_TASKS"
  moreover have "cur mod 8 < 8" by simp
  ultimately show ?thesis by (auto simp: ring_dist_def MAX_TASKS_def mod_if [of "_ - _"])
qed

lemma slot_after:
  "j < MAX_TASKS \<Longrightarrow>
   ((cur + 1) mod MAX_TASKS + j) mod MAX_TASKS = (if cur mod 8 + j < 7 then cur mod 8 + j + 1 else cur mod 8 + j - 7)"
proof -
  assume "j < MAX_TASKS"
  moreover have "cur mod 8 < 8" by simp
  ultimately show ?thesis by (auto simp: MAX_TASKS_def mod_Suc mod_if [of "_ + _"])
qed

lemma ring_dist_less: "ring_dist cur i < MAX_TASKS"
  by (simp add: ring_dist_def MAX_TASKS_def)

lemma ring_dist_slot:
  assumes "i < MAX_TASKS"
  shows "((cur + 1) mod MAX_TASKS + ring_dist cur i) mod MAX_TASKS = i"
  using assms by (simp only: slot_after [OF ring_dist_less]) (auto simp: ring_dist_if MAX_TASKS_def)

lemma ring_dist_of_slot:
  assumes "j < MAX_TASKS"
  shows "ring_dist cur (((cur + 1) mod MAX_TASKS + j) mod MAX_TASKS) = j"
  using assms unfolding slot_after [OF assms] by (subst ring_dist_if) (auto simp: MAX_TASKS_def)

lemma ring_dist_step:
  assumes "i < MAX_TASKS" "j < MAX_TASKS" "ring_dist c j \<le> ring_dist c i" "j \<noteq> i"
  shows "ring_dist j i < ring_dist c i"
  using assms by (auto simp: ring_dist_if MAX_TASKS_def split: if_splits)

lemma choose_task_nearest:
  assumes "choose_task k = Some idx" "i < MAX_TASKS" "is_ready i k"
  shows "idx < MAX_TASKS" "ring_dist (current k) idx \<le> ring_dist (current k) i"
proof -
  let ?slot = "\<lambda>j. ((current k + 1) mod MAX_TASKS + j) mod MAX_TASKS"
  obtain j where j: "j < MAX_TASKS" "idx = ?slot j" "\<forall>j' < j. tstate (tasks k ! ?slot j') \<noteq> Ready"
    using assms(1) unfolding choose_task_def by (auto simp: find_Some_iff)
  then show "idx < MAX_TASKS" by (simp add: MAX_TASKS_def)
  have "j \<le> ring_dist (current k) i"
    using j(3) assms(3) ring_dist_slot [OF assms(2), of "current k"] unfolding is_ready_def by (metis not_le)
  then show "ring_dist (current k) idx \<le> ring_dist (current k) i" by (simp only: j(2) ring_dist_of_slot [OF j(1)])
qed

lemma choose_task_ready: "i < MAX_TASKS \<Longrightarrow> is_ready i k \<Longrightarrow> choose_task k \<noteq> None"
proof -
  assume i: "i < MAX_TASKS" "is_ready i k"
  have "i \<in> (\<lambda>j. ((current k + 1) mod MAX_TASKS + j) mod MAX_TASKS) ` {0..<MAX_TASKS}"
    using ring_dist_slot [OF i(1), of "current k"] ring_dist_less [of "current k" i]
    by (metis atLeastLessThan_iff image_eqI le0)
  then show ?thesis using i(2) by (auto simp: choose_task_def find_None_iff is_ready_def)
qed

lemma nth_update_read: "i < length xs \<Longrightarrow> xs[j := v] ! i = (if j = i then v else xs ! i)"
  by auto

text \<open>A ready task stays ready unless its own slot is written.\<close>

lemma ready_upd_task [simp]:
  "is_ready i k \<Longrightarrow> (j = i \<Longrightarrow> tstate (f (tasks k ! i)) = Ready) \<Longrightarrow> is_ready i (upd_task j f k)"
  by (auto simp: is_ready_def nth_update_read)

lemma ready_tasks_cong: "tasks k' = tasks k \<Longrightarrow> is_ready i k' = is_ready i k"
  by (simp add: is_ready_def)

lemma ready_send_signal:
  "is_ready i k \<Longrightarrow> signum \<noteq> SIGKILL \<Longrightarrow> is_ready i (snd (send_signal pid signum k))"
  by (auto simp: send_signal_def is_ready_def nth_update_read split: option.splits)

lemma ready_fire_alarm: "is_ready i k \<Longrightarrow> is_ready i (fire_alarm now j k)"
  by (auto simp: fire_alarm_def Let_def SIGALRM_def SIGKILL_def intro!: ready_send_signal ready_upd_task)
    (auto simp: is_ready_def)

lemma ready_wake_receiver: "wake_receiver j k = Some k' \<Longrightarrow> is_ready i k \<Longrightarrow> is_ready i k'"
  by (auto simp: wake_receiver_def is_ready_def nth_update_read
      split: TaskState.splits prod.splits if_splits option.splits bind_splits)

lemma ready_wake_receivers: "wake_receivers js k = Some k' \<Longrightarrow> is_ready i k \<Longrightarrow> is_ready i k'"
  by (induction js arbitrary: k) (auto split: bind_splits dest: ready_wake_receiver)

lemma ready_wake_waiter: "is_ready i k \<Longrightarrow> is_ready i (wake_waiter j k)"
  by (auto simp: wake_waiter_def reap_def is_ready_def nth_update_read split: TaskState.splits option.splits)

lemma ready_fold:
  assumes "\<And>j k. is_ready i k \<Longrightarrow> is_ready i (f j k)"
  shows "is_ready i k \<Longrightarrow> is_ready i (fold f js k)"
  by (induction js arbitrary: k) (simp_all add: assms)

lemma ready_wake_phase: "wake_phase k = Some k' \<Longrightarrow> is_ready i k \<Longrightarrow> is_ready i k'"
proof -
  assume w: "wake_phase k = Some k'" and r: "is_ready i k"
  let ?k1 = "k\<lparr>tasks := map (wake_sleeper (ticks k)) (tasks k)\<rparr>"
  have "is_ready i ?k1" using r by (simp add: is_ready_def wake_sleeper_def)
  then have "is_ready i (fold (fire_alarm (ticks k)) [0..<MAX_TASKS] ?k1)"
    by (intro ready_fold ready_fire_alarm)
  with w show ?thesis
    by (auto simp: wake_phase_def Let_def intro!: ready_fold ready_wake_waiter dest: ready_wake_receivers)
qed

lemma ready_enter_handler:
  "enter_handler idx signum h k = Some k' \<Longrightarrow> idx \<noteq> i \<Longrightarrow> is_ready i k \<Longrightarrow> is_ready i k'"
  by (auto simp: enter_handler_def Let_def is_ready_def split: bind_splits)

lemma ready_deliver_loop:
  "deliver_loop bs idx k = Some (b, k') \<Longrightarrow> idx \<noteq> i \<Longrightarrow> is_ready i k \<Longrightarrow> is_ready i k'"
  by (induction bs idx k rule: deliver_loop.induct)
    (auto simp: Let_def split: if_splits dest: ready_enter_handler)

lemma ready_deliver_phase:
  "deliver_phase idx k = Some (b, k') \<Longrightarrow> idx \<noteq> i \<Longrightarrow> is_ready i k \<Longrightarrow> is_ready i k'"
  by (auto simp: deliver_phase_def deliver_pending_signals_def Let_def split: if_splits
      elim!: ready_deliver_loop)

lemma ready_release_space: "idx \<noteq> i \<Longrightarrow> is_ready i k \<Longrightarrow> is_ready i (release_space idx k)"
  by (simp add: release_space_def Let_def is_ready_def)

lemma ready_enter_task: "enter_task idx k = (e, k') \<Longrightarrow> idx \<noteq> i \<Longrightarrow> is_ready i k \<Longrightarrow> is_ready i k'"
  by (auto simp: enter_task_def Let_def is_ready_def split: if_splits)

lemma ready_finish_task: "idx \<noteq> i \<Longrightarrow> is_ready i k \<Longrightarrow> is_ready i (snd (finish_task idx code k))"
  by (auto simp: finish_task_def Let_def SIGCHLD_def SIGKILL_def
      intro!: ready_send_signal ready_release_space ready_upd_task)

lemma current_fold: "(\<And>j k. current (f j k) = current k) \<Longrightarrow> current (fold f js k) = current k"
  by (induction js arbitrary: k) simp_all

lemma current_send_signal: "current (snd (send_signal pid s k)) = current k"
  by (simp add: send_signal_def split: option.split)

lemma current_wake_receivers: "wake_receivers js k = Some k' \<Longrightarrow> current k' = current k"
  by (induction js arbitrary: k)
    (auto simp: wake_receiver_def split: bind_splits TaskState.splits prod.splits if_splits)

lemma current_wake_phase: "wake_phase k = Some k' \<Longrightarrow> current k' = current k"
  by (auto simp: wake_phase_def Let_def wake_waiter_def fire_alarm_def reap_def current_send_signal
      split: TaskState.split option.split dest!: current_wake_receivers intro!: trans [OF current_fold])

lemma current_deliver_loop: "deliver_loop bs idx k = Some (b, k') \<Longrightarrow> current k' = current k"
  by (induction bs idx k rule: deliver_loop.induct)
    (auto simp: Let_def enter_handler_def split: if_splits bind_splits)

lemma current_deliver_phase: "deliver_phase idx k = Some (b, k') \<Longrightarrow> current k' = current k"
  by (auto simp: deliver_phase_def deliver_pending_signals_def Let_def split: if_splits
      dest!: current_deliver_loop)

lemma current_enter_task: "enter_task idx k = (e, k') \<Longrightarrow> current k' = current k"
  by (auto simp: enter_task_def Let_def split: if_splits)

lemma current_finish_task: "current (snd (finish_task idx code k)) = current k"
  by (simp add: finish_task_def Let_def current_send_signal release_space_def)

text \<open>What the theorem asks of a run of another task: it stays the current task and does not kill this one.\<close>

definition spares :: "nat \<Rightarrow> (user_entry \<Rightarrow> kernel \<Rightarrow> (int \<times> kernel) option) \<Rightarrow> bool" where
  "spares i run \<longleftrightarrow>
    (\<forall>e k c k'. run e k = Some (c, k') \<longrightarrow>
       current k' = current k \<and> (current k \<noteq> i \<and> is_ready i k \<longrightarrow> is_ready i k'))"

lemma tick_other:
  assumes "tick run k = Some (r, k')" "spares i run" "i < MAX_TASKS" "is_ready i k" "chosen k \<noteq> Some i"
  shows "is_ready i k' \<and> ring_dist (current k') i < ring_dist (current k) i"
proof -
  obtain k1 where k1: "wake_phase k = Some k1" using assms(1) by (auto simp: tick_def split: bind_splits)
  then have r1: "is_ready i k1" and c1: "current k1 = current k"
    using assms(4) by (auto dest: ready_wake_phase current_wake_phase)
  obtain idx where idx: "choose_task k1 = Some idx" using choose_task_ready [OF assms(3) r1] by blast
  with assms(5) k1 have ne: "idx \<noteq> i" by (auto simp: chosen_def)
  obtain killed k2 where k2: "deliver_phase idx (k1\<lparr>current := idx, cur_idx := idx\<rparr>) = Some (killed, k2)"
    using assms(1) by (auto simp: tick_def k1 idx split: bind_splits)
  then have r2: "is_ready i k2" and c2: "current k2 = idx"
    using ready_deliver_phase [OF k2 ne] current_deliver_phase [OF k2] r1 by (simp_all add: is_ready_def)
  have "is_ready i k' \<and> current k' = idx"
  proof (cases killed)
    case True
    with assms(1) have "k' = release_space idx k2" by (simp add: tick_def k1 idx k2 Let_def)
    then show ?thesis using r2 c2 ne by (simp add: ready_release_space) (simp add: release_space_def Let_def)
  next
    case False
    obtain e k3 where e: "enter_task idx k2 = (e, k3)" by (rule prod.exhaust)
    with assms(1) False obtain c k4 where "run e k3 = Some (c, k4)" and k': "k' = snd (finish_task idx c k4)"
      by (auto simp: tick_def k1 idx k2 split: bind_splits)
    with assms(2) e r2 c2 ne have "is_ready i k4" "current k4 = idx"
      unfolding spares_def by (metis current_enter_task ready_enter_task)+
    then show ?thesis using ne by (simp add: k' ready_finish_task current_finish_task)
  qed
  then show ?thesis
    using ring_dist_step [OF assms(3) choose_task_nearest(1) [OF idx assms(3) r1]
        choose_task_nearest(2) [OF idx assms(3) r1] ne] c1 by simp
qed

text \<open>
  No ready task starves.  Take eight consecutive steps of the scheduler, each
  of which returns, with any runs of user code that leave \<open>current\<close> alone and do not
  take away the readiness of the task in slot \<open>i\<close>.  If that task is ready before the
  first step, then one of the eight steps chooses it.
\<close>

lemma no_starvation:
  assumes "i < MAX_TASKS" "is_ready i (ks 0)"
    and steps: "\<And>n. n < MAX_TASKS \<Longrightarrow> \<exists>r. tick (runs n) (ks n) = Some (r, ks (Suc n))"
    and spared: "\<And>n. n < MAX_TASKS \<Longrightarrow> spares i (runs n)"
  shows "\<exists>n < MAX_TASKS. chosen (ks n) = Some i"
proof (rule ccontr)
  assume never: "\<not> (\<exists>n < MAX_TASKS. chosen (ks n) = Some i)"
  have "n \<le> MAX_TASKS \<Longrightarrow> is_ready i (ks n) \<and> ring_dist (current (ks n)) i + n < MAX_TASKS" for n
  proof (induction n)
    case 0 show ?case using assms(2) ring_dist_less by simp
  next
    case (Suc n)
    then have n: "n < MAX_TASKS" and IH: "is_ready i (ks n)" "ring_dist (current (ks n)) i + n < MAX_TASKS" by auto
    with never steps [OF n] obtain r where "tick (runs n) (ks n) = Some (r, ks (Suc n))" "chosen (ks n) \<noteq> Some i"
      by blast
    from tick_other [OF this(1) spared [OF n] assms(1) IH(1) this(2)] IH(2) show ?case by simp
  qed
  from this [of MAX_TASKS] show False by simp
qed

section \<open>A phase in which nothing wakes up\<close>

lemma fold_same: "(\<And>j. j \<in> set js \<Longrightarrow> f j k = k) \<Longrightarrow> fold f js k = k"
  by (induction js) simp_all

lemma wake_phase_same:
  assumes "length (tasks k) = MAX_TASKS"
    and ready: "\<And>i. i < MAX_TASKS \<Longrightarrow> tstate (tasks k ! i) = Ready \<and> alarm_deadline (tasks k ! i) = 0"
  shows "wake_phase k = Some k"
proof -
  have "map (wake_sleeper (ticks k)) (tasks k) = tasks k"
    using assms by (intro nth_equalityI) (simp_all add: wake_sleeper_def)
  then have m: "k\<lparr>tasks := map (wake_sleeper (ticks k)) (tasks k)\<rparr> = k" by simp
  have "fold (fire_alarm (ticks k)) [0..<MAX_TASKS] k = k" "fold wake_waiter [0..<MAX_TASKS] k = k"
    using ready by (auto intro!: fold_same simp: fire_alarm_def wake_waiter_def)
  moreover have "\<forall>i \<in> set js. i < MAX_TASKS \<Longrightarrow> wake_receivers js k = Some k" for js
    using ready by (induction js) (simp_all add: wake_receiver_def)
  ultimately show ?thesis by (simp add: wake_phase_def Let_def m)
qed

end
