(* ===== verification/Procfs.thy ===== *)
theory Procfs
  imports Kernel_State
begin

text \<open>
  The files the kernel generates in the in-memory tree: \<open>fs/procfs.rs\<close>
  (\<open>/proc\<close>, refreshed when it is opened) and \<open>fs/diskfs.rs\<close> (\<open>/diskinfo\<close> and a
  file \<open>/store/<id>\<close> for every record of the on-disk record store).  The theory
  shows that decimal numbers are printed and parsed back without loss and fit
  the fixed buffers of the source, and that a record written through
  \<open>diskfs\<close> is on disk and in its shadow file.
\<close>

section \<open>Decimal numbers\<close>

text \<open>
  The loop that fills a buffer from its end with the digits of a number, and
  the number itself when it is zero.  The source repeats it for each width.
\<close>

fun dec_loop :: "nat \<Rightarrow> bytes \<Rightarrow> bytes" where
  "dec_loop n acc = (if n = 0 then acc else dec_loop (n div 10) ((48 + of_nat (n mod 10)) # acc))"

declare dec_loop.simps [simp del]

definition push_u64 :: "bytes \<Rightarrow> u64 \<Rightarrow> bytes" where
  "push_u64 v n = (if n = 0 then v @ [48] else v @ dec_loop (unat n) [])"

definition push_str :: "bytes \<Rightarrow> string \<Rightarrow> bytes" where
  "push_str v s = v @ bstr s"

section \<open>\<open>/proc\<close>\<close>

text \<open>A newline and a tab in a literal.\<close>

abbreviation nl :: string where "nl \<equiv> [CHR 0x0A]"
abbreviation tab :: string where "tab \<equiv> [CHR 0x09]"

definition proc_cpuinfo :: bytes where
  "proc_cpuinfo = bstr (''processor'' @ tab @ '': 0'' @ nl @ ''vendor_id'' @ tab @ '': GenuineIntel'' @ nl
    @ ''cpu family'' @ tab @ '': 6'' @ nl @ ''model name'' @ tab @ '': OxideOS Virtual CPU @ 100Hz'' @ nl
    @ ''arch'' @ tab @ tab @ '': x86_64'' @ nl)"

definition proc_mounts :: bytes where
  "proc_mounts = bstr (''ramfs / ramfs rw 0 0'' @ nl @ ''fat16 /disk fat16 rw 0 0'' @ nl
    @ ''ext2 /ext2 ext2 rw 0 0'' @ nl @ ''devfs /dev devfs rw 0 0'' @ nl)"

definition procfs_populate :: "bytes \<Rightarrow> RamFs \<Rightarrow> RamFs" where
  "procfs_populate proc_version fs =
    (let fs = snd (create_dir ''/proc'' fs);
         fs = snd (write_file ''/proc/version'' proc_version fs);
         fs = snd (write_file ''/proc/cpuinfo'' proc_cpuinfo fs);
         fs = snd (write_file ''/proc/mounts'' proc_mounts fs);
         fs = snd (write_file ''/proc/uptime'' (bstr (''0.00 0.00'' @ nl)) fs)
     in snd (write_file ''/proc/meminfo'' (bstr (''MemTotal: 0 kB'' @ nl)) fs))"

definition write_proc_file :: "string \<Rightarrow> bytes \<Rightarrow> kernel \<Rightarrow> kernel" where
  "write_proc_file path d k =
    (case ramfs k of
       None \<Rightarrow> k
     | Some fs \<Rightarrow>
        (case resolve fs path of
           None \<Rightarrow> k
         | Some idx \<Rightarrow> k\<lparr>ramfs := Some (fs[idx := (fs ! idx)\<lparr>data := d\<rparr>])\<rparr>))"

definition uptime_text :: "u64 \<Rightarrow> bytes" where
  "uptime_text now =
    push_str (push_u64 (push_u64 [] (now div 100) @ [46]) ((now mod 100) div 10)) ('' 0.00'' @ nl)"

definition frame_stats :: "kernel \<Rightarrow> u64 \<times> u64" where
  "frame_stats k =
    (allocated_frames (frames (pg (kmm k))), of_nat (total_frames (frames (pg (kmm k)))))"

definition mem_line :: "string \<Rightarrow> u64 \<Rightarrow> bytes" where
  "mem_line label n = push_str (push_u64 (push_str [] label) n) ('' kB'' @ nl)"

definition meminfo_text :: "u64 \<Rightarrow> u64 \<Rightarrow> bytes" where
  "meminfo_text alloc tot =
    (let total_kb = tot * 4096 div 1024; used_kb = alloc * 4096 div 1024;
         free_kb = (if used_kb \<le> total_kb then total_kb - used_kb else 0) in
     mem_line ''MemTotal:     '' total_kb @ mem_line ''MemFree:      '' free_kb
     @ mem_line ''MemAvailable: '' free_kb @ mem_line ''MemUsed:      '' used_kb)"

definition procfs_refresh :: "string \<Rightarrow> kernel \<Rightarrow> kernel" where
  "procfs_refresh path k =
    (if path = ''/proc/uptime'' then write_proc_file ''/proc/uptime'' (uptime_text (ticks k)) k
     else if path = ''/proc/meminfo''
     then (let (alloc, tot) = frame_stats k in write_proc_file ''/proc/meminfo'' (meminfo_text alloc tot) k)
     else k)"

section \<open>The record store in the tree\<close>

definition id_text :: "u32 \<Rightarrow> bytes" where
  "id_text ident = (if ident = 0 then [48] else dec_loop (unat ident) [])"

definition record_path :: "u32 \<Rightarrow> string" where
  "record_path ident = ''/store/'' @ bytes_str (id_text ident)"

text \<open>One shadow file: the record's bytes, when the record can be read.\<close>

definition refresh_one :: "u32 \<Rightarrow> store \<Rightarrow> RamFs \<Rightarrow> RamFs" where
  "refresh_one ident s fs =
    (case read_record 0 ident (replicate RECORD_DATA_MAX 0) s of
       (Some len, buf) \<Rightarrow> snd (write_file (record_path ident) (take len buf) fs)
     | (None, _) \<Rightarrow> fs)"

definition refresh_record :: "u32 \<Rightarrow> kernel \<Rightarrow> kernel" where
  "refresh_record ident k =
    (case ramfs k of
       None \<Rightarrow> k
     | Some fs \<Rightarrow>
         if \<not> is_mounted 0 (kstore k) then k
         else k\<lparr>ramfs := Some (refresh_one ident (kstore k) fs)\<rparr>)"

definition refresh_all_records :: "kernel \<Rightarrow> kernel" where
  "refresh_all_records k =
    (case ramfs k of
       None \<Rightarrow> k
     | Some fs \<Rightarrow>
         if \<not> is_mounted 0 (kstore k) then k
         else (let (n, ids) = list_records 0 (replicate 255 0) (kstore k) in
               k\<lparr>ramfs := Some (fold (\<lambda>ident. refresh_one ident (kstore k)) (take n ids) fs)\<rparr>))"

definition diskfs_write_record :: "u32 \<Rightarrow> bytes \<Rightarrow> kernel \<Rightarrow> bool \<times> kernel" where
  "diskfs_write_record ident d k =
    (let (ok, s) = write_record 0 ident d (kstore k); k1 = set_kstore s k in
     if ok then
       (case ramfs k1 of
          None \<Rightarrow> (ok, k1)
        | Some fs \<Rightarrow> (ok, k1\<lparr>ramfs := Some (snd (write_file (record_path ident) d fs))\<rparr>))
     else (ok, k1))"

text \<open>The listing of ids for \<open>vfs_readdir\<close>: it stops at the first id that does not fit.\<close>

fun list_store_loop :: "u32 list \<Rightarrow> nat \<Rightarrow> bytes \<Rightarrow> nat \<times> bytes" where
  "list_store_loop [] pos buf = (pos, buf)"
| "list_store_loop (ident # ids) pos buf =
    (let s = id_text ident in
     if pos + length s + 1 \<ge> length buf then (pos, buf)
     else list_store_loop ids (pos + length s + 1) (blit pos (s @ [10]) buf))"

definition list_store_raw :: "bytes \<Rightarrow> kernel \<Rightarrow> int \<times> bytes" where
  "list_store_raw buf k =
    (if \<not> is_mounted 0 (kstore k) then (0, buf)
     else (let (n, ids) = list_records 0 (replicate 255 0) (kstore k);
               (pos, buf') = list_store_loop (take n ids) 0 buf in (int pos, buf')))"

text \<open>The digits are added with wrapping 32-bit arithmetic.\<close>

fun parse_digits :: "bytes \<Rightarrow> u32 \<Rightarrow> u32 option" where
  "parse_digits [] n = Some n"
| "parse_digits (c # cs) n =
    (if c < 48 \<or> c > 57 then None else parse_digits cs (n * 10 + ucast (c - 48)))"

definition parse_record_id :: "string \<Rightarrow> u32 option" where
  "parse_record_id path =
    (if \<not> starts_with ''/store/'' path then None
     else (let suffix = drop 7 path in
           if suffix = [] then None else parse_digits (bstr suffix) 0))"

section \<open>The disk summary\<close>

definition disk_labels :: "string list" where
  "disk_labels = [''disk0 (primary master)'', ''disk1 (primary slave)'',
                  ''disk2 (secondary master)'', ''disk3 (secondary slave)'']"

definition disk_mounts :: "string list" where
  "disk_mounts = [''/disk'', ''(no mount)'', ''/ext2'', ''(no mount)'']"

text \<open>
  One line of the summary.  The number of sectors of a drive comes from the
  identification of the hardware, the parameter \<open>sectors\<close>.
\<close>

definition disk_line :: "(nat \<Rightarrow> u64) \<Rightarrow> disks \<Rightarrow> nat \<Rightarrow> bytes" where
  "disk_line sectors ds i =
    bstr (''  '' @ disk_labels ! i @ '': '') @
    (case (if is_present_at i ds then ds i else None) of
       Some d \<Rightarrow> push_u64 [] (sectors i div 2048) @ bstr '' MB'' @ (if lba48 d then bstr '' LBA48'' else [])
                 @ bstr (''  mount='' @ disk_mounts ! i)
     | None \<Rightarrow> bstr ''not present'') @ bstr nl"

definition store_line :: "kernel \<Rightarrow> bytes" where
  "store_line k =
    bstr (nl @ ''Disk Record Store (/store):'' @ nl @ ''  Disk 0: '') @
    (if is_mounted 0 (kstore k)
     then push_u64 [] (of_nat (fst (list_records 0 (replicate 255 0) (kstore k)))) @ bstr '' record(s)''
     else bstr ''not mounted'') @ bstr nl"

definition mounts_text :: string where
  "mounts_text = nl @ ''Mount Points:'' @ nl
    @ ''  /        ramfs  (volatile, cleared on reboot)'' @ nl
    @ ''  /disk    fat16  (persistent, primary disk)'' @ nl
    @ ''  /ext2    ext2   (read-only, secondary disk)'' @ nl
    @ ''  /store   oxds   (persistent record store, primary disk)'' @ nl
    @ ''  /dev     devfs  (devices: null, tty)'' @ nl
    @ ''  /proc    procfs (runtime info: uptime, meminfo, ...)'' @ nl"

definition diskfs_populate :: "(nat \<Rightarrow> u64) \<Rightarrow> kernel \<Rightarrow> kernel" where
  "diskfs_populate sectors k =
    (case ramfs k of
       None \<Rightarrow> k
     | Some fs \<Rightarrow>
        (let fs = snd (create_dir ''/disk'' fs);
             fs = snd (create_dir ''/ext2'' fs);
             fs = snd (create_dir ''/store'' fs);
             info = bstr (''OxideOS Disk Summary'' @ nl @ ''===================='' @ nl @ nl @ ''ATA Drives:'' @ nl)
                    @ concat (map (disk_line sectors (kdisks k)) [0..<4]) @ store_line k @ bstr mounts_text;
             fs = snd (write_file ''/diskinfo'' info fs)
         in refresh_all_records (k\<lparr>ramfs := Some fs\<rparr>)))"

section \<open>Numbers survive printing\<close>

lemma dec_loop_acc: "dec_loop n acc = dec_loop n [] @ acc"
proof (induction n arbitrary: acc rule: less_induct)
  case (less n)
  show ?case
  proof (cases "n = 0")
    case False
    then have "n div 10 < n" by simp
    then have "dec_loop (n div 10) (d # bs) = dec_loop (n div 10) [] @ d # bs" for d bs using less by blast
    then show ?thesis using False by (simp add: dec_loop.simps [of n])
  qed (simp add: dec_loop.simps)
qed

lemma dec_loop_snoc: "0 < n \<Longrightarrow> dec_loop n [] = dec_loop (n div 10) [] @ [48 + of_nat (n mod 10)]"
  using dec_loop_acc [of "n div 10" "[48 + of_nat (n mod 10)]"] by (simp add: dec_loop.simps [of n])

lemma parse_digits_append: "parse_digits (xs @ ys) n = Option.bind (parse_digits xs n) (parse_digits ys)"
  by (induction xs arbitrary: n) simp_all

lemma digit_range:
  assumes "d < 10"
  shows "\<not> (48 + of_nat d :: u8) < 48" "\<not> 57 < (48 + of_nat d :: u8)" "ucast (of_nat d :: u8) = (of_nat d :: u32)"
proof -
  have u: "unat (48 + of_nat d :: u8) = 48 + d" using assms by (simp add: unat_word_ariths unat_of_nat_small)
  then show "\<not> (48 + of_nat d :: u8) < 48" "\<not> 57 < (48 + of_nat d :: u8)"
    using assms by (simp_all add: word_less_nat_alt)
  have "unat (ucast (of_nat d :: u8) :: u32) = unat (of_nat d :: u32)"
    using assms by (simp add: unat_ucast_up unat_of_nat_small)
  then show "ucast (of_nat d :: u8) = (of_nat d :: u32)" by (simp add: word_unat_eq_iff)
qed

lemma parse_dec: "parse_digits (dec_loop n []) 0 = Some (of_nat n)"
proof (induction n rule: less_induct)
  case (less n)
  show ?case
  proof (cases "n = 0")
    case False
    have "parse_digits (dec_loop (n div 10) []) 0 = Some (of_nat (n div 10))" using less False by simp
    moreover have "of_nat (n div 10) * 10 + of_nat (n mod 10) = (of_nat n :: u32)"
      by (metis of_nat_add of_nat_mult of_nat_numeral div_mult_mod_eq)
    ultimately show ?thesis
      using False digit_range [of "n mod 10"] by (simp add: dec_loop_snoc parse_digits_append)
  qed (simp add: dec_loop.simps)
qed

text \<open>The buffers of 20, 10 and 12 bytes of the source are large enough for every number of their width.\<close>

lemma dec_loop_length: "n < 10 ^ w \<Longrightarrow> length (dec_loop n []) \<le> w"
proof (induction w arbitrary: n)
  case (Suc w)
  show ?case
  proof (cases "n = 0")
    case False
    have "n div 10 < 10 ^ w" using Suc.prems by (simp add: less_mult_imp_div_less mult.commute)
    then show ?thesis using Suc.IH [of "n div 10"] False by (simp add: dec_loop_snoc)
  qed (simp add: dec_loop.simps)
qed (simp add: dec_loop.simps)

lemma u64_digits: "length (dec_loop (unat (n :: u64)) []) \<le> 20"
  using unsigned_less [of n, where ?'a = nat] by (intro dec_loop_length) simp

lemma u32_digits: "length (dec_loop (unat (n :: u32)) []) \<le> 10"
  using unsigned_less [of n, where ?'a = nat] by (intro dec_loop_length) simp

lemma dec_loop_digits: "c \<in> set (dec_loop n []) \<Longrightarrow> 48 \<le> c \<and> c \<le> 57"
proof (induction n rule: less_induct)
  case (less n)
  show ?case
  proof (cases "n = 0")
    case False
    then have "c \<in> set (dec_loop (n div 10) []) \<Longrightarrow> 48 \<le> c \<and> c \<le> 57"
      using less.IH [of "n div 10"] by simp
    then show ?thesis
      using less.prems False digit_range(1,2) [of "n mod 10"] by (auto simp: dec_loop_snoc not_less)
  qed (use less.prems in \<open>simp add: dec_loop.simps\<close>)
qed

lemma id_text_nonempty: "id_text ident \<noteq> []"
  using dec_loop_snoc [of "unat ident"] by (simp add: id_text_def unat_gt_0)

lemma parse_id_text: "parse_digits (id_text ident) 0 = Some ident"
  using parse_dec [of "unat ident"] by (simp add: id_text_def)

lemma slash_not_digit: "slash \<notin> set (bytes_str (id_text ident))"
proof
  assume "slash \<in> set (bytes_str (id_text ident))"
  then obtain b where b: "b \<in> set (id_text ident)" "char_of (unat b) = slash" by (auto simp: bytes_str_def)
  then have "48 \<le> b" using dec_loop_digits [of b "unat ident"] by (auto simp: id_text_def split: if_splits)
  moreover have "b = of_char slash" using b(2) of_char_unat [of b] by simp
  ultimately show False by simp
qed

lemma record_path_comps: "comps (record_path ident) = [''store'', bytes_str (id_text ident)]"
proof -
  have "comps (record_path ident) = comps ''/store'' @ comps (bytes_str (id_text ident))"
    using comps_append [of "''/store''" "bytes_str (id_text ident)"] by (simp add: record_path_def)
  moreover have "comps ''/store'' = [''store'']" by (simp add: comps_def)
  moreover have "bytes_str (id_text ident) \<noteq> []"
    using id_text_nonempty [of ident] by (simp add: bytes_str_def)
  ultimately show ?thesis using slash_not_digit by (simp add: comps_single)
qed

lemma parse_record_path: "parse_record_id (record_path ident) = Some ident"
  using id_text_nonempty [of ident] parse_id_text [of ident]
  by (simp add: parse_record_id_def record_path_def starts_with_def bytes_str_def Let_def)
    (simp flip: bytes_str_def)

section \<open>Records and their shadow files\<close>

text \<open>The place of a shadow file is free for one: its directory exists and no directory has its name.\<close>

definition shadow_place :: "u32 \<Rightarrow> RamFs \<Rightarrow> bool" where
  "shadow_place ident fs \<longleftrightarrow> room 1 fs \<and> is_dir ''/store'' fs \<and> \<not> is_dir (record_path ident) fs"

lemma shadow_written:
  assumes "shadow_place ident fs"
  shows "read_file (record_path ident) (snd (write_file (record_path ident) b fs)) = Some b"
    "p \<noteq> comps (record_path ident) \<Longrightarrow> view (snd (write_file (record_path ident) b fs)) p = view fs p"
proof -
  let ?p = "comps (record_path ident)"
  obtain r fs' where w: "write_file (record_path ident) b fs = (r, fs')" by (rule prod.exhaust)
  have spec: "fs_spec (WriteF (record_path ident) b) (view fs) = (ans r, view fs')"
    using write_file_step [of 0 fs "record_path ident" b r fs'] w assms by (simp add: shadow_place_def)
  have dir: "map_option fst (view fs [''store'']) = Some Directory" "map_option fst (view fs ?p) \<noteq> Some Directory"
    using assms by (auto simp: shadow_place_def is_dir_view comps_def)
  have "\<exists>m. view fs' = (view fs)(?p \<mapsto> (File, b, m))"
  proof (cases "view fs ?p")
    case None
    then have "view fs' = (view fs)(?p \<mapsto> (File, b, 0x1A4, 0, 0))"
      using spec dir(1) by (auto simp: spec_edit_def spec_add_def record_path_comps)
    then show ?thesis by blast
  next
    case (Some x)
    obtain k d m where x: "x = (k, d, m)" by (cases x) auto
    then have "k = File" using dir(2) Some by (cases k) auto
    then have "view fs' = (view fs)(?p \<mapsto> (File, b, m))" using spec Some x by (auto simp: spec_edit_def)
    then show ?thesis by blast
  qed
  then show "read_file (record_path ident) (snd (write_file (record_path ident) b fs)) = Some b"
    "p \<noteq> ?p \<Longrightarrow> view (snd (write_file (record_path ident) b fs)) p = view fs p"
    using w by (auto simp: read_file_view tree_file_def)
qed

lemma kstore_set [simp]: "kstore (set_kstore s k) = s" "ramfs (set_kstore s k) = ramfs k"
  by (simp_all add: kstore_def set_kstore_def set_kdisks_def kdisks_def)

lemma kstore_ramfs [simp]: "kstore (k\<lparr>ramfs := r\<rparr>) = kstore k"
  by (simp add: kstore_def kdisks_def)

lemma diskfs_write_stored:
  assumes inv: "store_inv 0 (kstore k)" and w: "diskfs_write_record ident d k = (True, k')"
  shows "store_inv 0 (kstore k')" "store_abs 0 (kstore k') ident = Some (take RECORD_DATA_MAX d)"
    "ramfs k' = map_option (\<lambda>fs. snd (write_file (record_path ident) d fs)) (ramfs k)"
proof -
  obtain ok s where st: "write_record 0 ident d (kstore k) = (ok, s)" by (rule prod.exhaust)
  have ok: "ok" "kstore k' = s"
    "ramfs k' = map_option (\<lambda>fs. snd (write_file (record_path ident) d fs)) (ramfs k)"
    using w st by (auto simp: diskfs_write_record_def Let_def split: if_splits option.splits)
  have "store_inv 0 s" "store_spec (SWrite ident d) (store_abs 0 (kstore k)) = (Flag True, store_abs 0 s)"
    using write_record_refines [OF inv st] ok(1) by simp_all
  then have "store_inv 0 s" "(store_abs 0 (kstore k))(ident \<mapsto> take RECORD_DATA_MAX d) = store_abs 0 s"
    by (auto split: if_splits)
  then show "store_inv 0 (kstore k')" "store_abs 0 (kstore k') ident = Some (take RECORD_DATA_MAX d)"
    using ok(2) by (simp_all, metis fun_upd_same)
  show "ramfs k' = map_option (\<lambda>fs. snd (write_file (record_path ident) d fs)) (ramfs k)" by (rule ok(3))
qed

lemma refresh_one_reads:
  assumes inv: "store_inv 0 s" and rec: "store_abs 0 s ident = Some d"
  shows "refresh_one ident s fs = snd (write_file (record_path ident) (take RECORD_DATA_MAX d) fs)"
  using read_record_refines [OF inv, of ident RECORD_DATA_MAX] rec
  by (auto simp: refresh_one_def Let_def split: prod.splits option.splits)

text \<open>C20. What \<open>diskfs::write_record\<close> reports as written is read back in two ways: at
  once as the file \<open>/store/<id>\<close>, and after a restart, in any kernel that mounts the
  same disk, by opening \<open>/store/<id>\<close>: the path parses back to the id and the refreshed
  file holds the first 496 bytes of the data.  No other path of the tree changes.\<close>
theorem record_persists:
  assumes "store_inv 0 (kstore k)" "diskfs_write_record ident d k = (True, k')"
    and "ramfs k = Some fs" "shadow_place ident fs"
    and "kstore k2 = kstore k'" "ramfs k2 = Some fs2" "shadow_place ident fs2"
  shows "parse_record_id (record_path ident) = Some ident
    \<and> (\<exists>fs'. ramfs k' = Some fs' \<and> read_file (record_path ident) fs' = Some d)
    \<and> (\<exists>fs'. ramfs (refresh_record ident k2) = Some fs'
         \<and> read_file (record_path ident) fs' = Some (take RECORD_DATA_MAX d)
         \<and> (\<forall>p. p \<noteq> comps (record_path ident) \<longrightarrow> view fs' p = view fs2 p))"
proof -
  note st = diskfs_write_stored [OF assms(1,2)]
  have "refresh_one ident (kstore k2) fs2 = snd (write_file (record_path ident) (take RECORD_DATA_MAX d) fs2)"
    using refresh_one_reads [OF st(1,2)] assms(5) by simp
  moreover have "is_mounted 0 (kstore k2)" using st(1) assms(5) by (simp add: store_inv_def is_mounted_def)
  ultimately have "ramfs (refresh_record ident k2)
      = Some (snd (write_file (record_path ident) (take RECORD_DATA_MAX d) fs2))"
    using assms(6) by (simp add: refresh_record_def)
  then show ?thesis
    using parse_record_path st(3) assms(3) shadow_written [OF assms(4)] shadow_written [OF assms(7)] by auto
qed

text \<open>A tree with the directory \<open>/store\<close>, and a kernel with an empty record store on a blank disk.\<close>

definition store_tree :: RamFs where
  "store_tree = snd (create_dir ''/store'' (ramfs_new []))"

lemma store_tree_ok: "shadow_place ident store_tree"
proof -
  have new: "room 2 (ramfs_new [])" "view (ramfs_new []) = boot_tree []"
    using ramfs_new_ok [of 2 "[]"] by (simp_all add: ROOT_PARENT_def)
  obtain r fs where c: "create_dir ''/store'' (ramfs_new []) = (r, fs)" by (rule prod.exhaust)
  have "room 1 fs" "fs_spec (MkDir ''/store'') (view (ramfs_new [])) = (ans r, view fs)"
    using create_dir_step [of 1 "ramfs_new []" "''/store''" r fs] new(1) c by (simp_all add: numeral_2_eq_2)
  note step = this
  have cs: "comps ''/store'' = [''store'']" by (simp add: comps_def)
  have tree: "map_option fst (boot_tree [] []) = Some Directory" "boot_tree [] [''store''] = None"
    "boot_tree [] [''store'', c] = None" for c by (simp_all add: boot_tree_def)
  have "view fs = (boot_tree [])([''store''] \<mapsto> (Directory, [], 0x1ED, 0, 0))"
    using step(2) spec_new_dir [OF cs tree(1,2)] new(2) by (simp del: fs_spec.simps)
  then show ?thesis
    using step(1) c tree(3) cs by (simp add: shadow_place_def store_tree_def is_dir_view record_path_comps)
qed

lemma blank_store:
  obtains s where "store_mount 0 (replicate 4 False, [0 \<mapsto> blank_drive]) = (True, s)" "store_inv 0 s"
    "store_abs 0 s = Map.empty"
  using mount_inv [of 0 "[0 \<mapsto> blank_drive]" "replicate 4 False"] blank_sound blank_fields by auto

theorem record_persists_witness:
  "\<exists>k k' fs' fs''. diskfs_write_record 42 [1, 2, 3] k = (True, k')
    \<and> ramfs k' = Some fs' \<and> read_file (record_path 42) fs' = Some [1, 2, 3]
    \<and> ramfs (refresh_record 42 (k'\<lparr>ramfs := Some store_tree\<rparr>)) = Some fs''
    \<and> read_file (record_path 42) fs'' = Some [1, 2, 3]"
proof -
  obtain s where s: "store_inv 0 s" "store_abs 0 s = Map.empty" by (rule blank_store)
  define k where "k = (set_kstore s (kernel_statics Map.empty undefined))\<lparr>ramfs := Some store_tree\<rparr>"
  obtain ok k' where w: "diskfs_write_record 42 [1, 2, 3] k = (ok, k')" by (rule prod.exhaust)
  obtain r s' where st: "write_record 0 42 [1, 2, 3] s = (r, s')" by (rule prod.exhaust)
  have ok: "ok" using write_record_refines [OF s(1) st] s(2) w st
    by (simp add: diskfs_write_record_def k_def Let_def MAX_RECORDS_def)
  note p = record_persists [of k 42 "[1, 2, 3]" k' store_tree "k'\<lparr>ramfs := Some store_tree\<rparr>" store_tree]
  show ?thesis using p w ok s(1) store_tree_ok by (auto simp: k_def RECORD_DATA_MAX_def)
qed

end
