(* ===== verification/Vfs.thy ===== *)
theory Vfs
  imports Fd_Table Procfs
begin

text \<open>
  The virtual file system, \<open>fs/vfs.rs\<close>: the mount table that sends a path to one
  of the backends, and the operations open, readdir, mkdir, chdir and the two
  forms of stat, each with every branch of the source.  A path is the sequence
  of its UTF-8 bytes, as a string for the in-memory tree and as bytes for the
  disk drivers.  The theory shows that the two forms of stat agree.
\<close>

section \<open>The mount table\<close>

datatype Resolved =
    At_RamFS string
  | At_Fat16 bytes
  | At_Ext2 bytes
  | At_Dev FdBackend
  | At_Proc string
  | At_DiskStore string

definition under_mount :: "string \<Rightarrow> string \<Rightarrow> bool" where
  "under_mount m path \<longleftrightarrow> path = m \<or> starts_with (m @ [slash]) path"

definition vfs_resolve :: "string \<Rightarrow> Resolved" where
  "vfs_resolve path =
    (if under_mount ''/dev'' path
     then (let dev_name = (if length path > 5 then drop 5 path else [])
           in At_Dev (if dev_name = ''tty'' then DevTty else DevNull))
     else if under_mount ''/disk'' path then At_Fat16 (bstr path)
     else if under_mount ''/ext2'' path then At_Ext2 (bstr path)
     else if under_mount ''/proc'' path then At_Proc path
     else if under_mount ''/store'' path then At_DiskStore path
     else At_RamFS path)"

section \<open>Open\<close>

text \<open>An operation on the descriptor table of the running task that keeps everything else.\<close>

definition on_fdt :: "(FdTable \<Rightarrow> int \<times> FdTable) \<Rightarrow> kernel \<Rightarrow> int \<times> kernel" where
  "on_fdt f k = (case f (fdt (cur_idx k) k) of (r, t) \<Rightarrow> (r, set_fdt (cur_idx k) t k))"

text \<open>\<open>FdTable::open\<close> on the in-memory tree, for the running task.\<close>

definition open_in_ramfs :: "string \<Rightarrow> u32 \<Rightarrow> RamFs \<Rightarrow> kernel \<Rightarrow> int \<times> kernel" where
  "open_in_ramfs path flags fs k =
    (case fd_open path flags fs (fdt (cur_idx k) k) of
       (r, fs', t) \<Rightarrow> (r, (set_fdt (cur_idx k) t k)\<lparr>ramfs := Some fs'\<rparr>))"

definition open_tree :: "string \<Rightarrow> u32 \<Rightarrow> kernel \<Rightarrow> int \<times> kernel" where
  "open_tree path flags k =
    (case ramfs k of
       None \<Rightarrow> (- 2, k)
     | Some fs \<Rightarrow>
         if list_dir path fs \<noteq> None then on_fdt (open_dir (bstr path)) k
         else open_in_ramfs path flags fs k)"

definition is_disk_root :: "bytes \<Rightarrow> bool" where
  "is_disk_root p \<longleftrightarrow> p = bstr ''/disk'' \<or> p = bstr ''/disk/''"

definition is_ext2_root :: "bytes \<Rightarrow> bool" where
  "is_ext2_root p \<longleftrightarrow> p = bstr ''/ext2'' \<or> p = bstr ''/ext2/''"

definition is_store_root :: "string \<Rightarrow> bool" where
  "is_store_root p \<longleftrightarrow> p = ''/store'' \<or> p = ''/store/''"

text \<open>\<open>fat::resolve_dir(path).is_some()\<close>, evaluated only when the path is not the root.\<close>

definition fat_names_dir :: "bytes \<Rightarrow> kernel \<Rightarrow> bool option" where
  "fat_names_dir p k =
    (if is_disk_root p then Some True
     else map_option (\<lambda>d. d \<noteq> None) (fat_resolve_dir p (fatfs k) (kdisks k)))"

definition kfat_open :: "bytes \<Rightarrow> u32 \<Rightarrow> kernel \<Rightarrow> (int \<times> kernel) option" where
  "kfat_open p flags k =
    do { (r, f, ds) \<leftarrow> fat_open p flags (fatfs k) (kdisks k);
         Some (r, (set_kdisks ds k)\<lparr>fatfs := f\<rparr>) }"

definition kext2_is_dir :: "bytes \<Rightarrow> kernel \<Rightarrow> (bool \<times> kernel) option" where
  "kext2_is_dir p k = do { (d, w) \<leftarrow> ext2_is_dir p (ext2 k); Some (d, k\<lparr>ext2 := w\<rparr>) }"

definition kext2_open :: "bytes \<Rightarrow> u32 \<Rightarrow> kernel \<Rightarrow> (int \<times> kernel) option" where
  "kext2_open p flags k = do { (r, w) \<leftarrow> ext2_open p flags (ext2 k); Some (r, k\<lparr>ext2 := w\<rparr>) }"

definition vfs_open :: "string \<Rightarrow> u32 \<Rightarrow> kernel \<Rightarrow> (int \<times> kernel) option" where
  "vfs_open path flags k =
    (case vfs_resolve path of
       At_Dev b \<Rightarrow> Some (on_fdt (open_dev b) k)
     | At_Fat16 p \<Rightarrow>
         if \<not> is_present (kdisks k) then Some (- 19, k)
         else do {
           d \<leftarrow> fat_names_dir p k;
           if d then Some (on_fdt (open_dir p) k)
           else do {
             (raw, k1) \<leftarrow> kfat_open p flags k;
             Some (if raw < 0 then (raw, k1) else on_fdt (open_fat raw (wants_write flags)) k1) } }
     | At_Ext2 p \<Rightarrow>
         if \<not> ext2_is_ready (ext2 k) then Some (- 19, k)
         else do {
           (d, k1) \<leftarrow> kext2_is_dir p k;
           if d then Some (on_fdt (open_dir p) k1)
           else do {
             (raw, k2) \<leftarrow> kext2_open p flags k1;
             Some (if raw < 0 then (raw, k2) else on_fdt (open_ext2 raw (wants_write flags)) k2) } }
     | At_RamFS p \<Rightarrow> Some (open_tree p flags k)
     | At_Proc p \<Rightarrow> Some (open_tree p flags (procfs_refresh p k))
     | At_DiskStore p \<Rightarrow>
         Some (if is_store_root p
               then (let k1 = refresh_all_records k in
                     case ramfs k1 of None \<Rightarrow> (- 2, k1) | Some _ \<Rightarrow> on_fdt (open_dir (bstr p)) k1)
               else (case parse_record_id p of
                       None \<Rightarrow> (- 2, k)
                     | Some ident \<Rightarrow>
                        (let k1 = refresh_record ident k in
                         case ramfs k1 of None \<Rightarrow> (- 2, k1) | Some fs \<Rightarrow> open_in_ramfs p flags fs k1))))"

section \<open>Directories\<close>

definition vfs_readdir :: "string \<Rightarrow> bytes \<Rightarrow> kernel \<Rightarrow> (int \<times> bytes \<times> kernel) option" where
  "vfs_readdir path buf k =
    (case vfs_resolve path of
       At_Dev _ \<Rightarrow>
         (let listing = bstr (''null'' @ nl @ ''tty'' @ nl); n = min (length listing) (length buf)
          in Some (int n, blit 0 (take n listing) buf, k))
     | At_Fat16 p \<Rightarrow>
         do { d \<leftarrow> fat_resolve_dir p (fatfs k) (kdisks k);
              (case d of
                 None \<Rightarrow> Some (- 7, buf, k)
               | Some loc \<Rightarrow> do { (r, buf') \<leftarrow> fat_list_dir_raw loc buf (fatfs k) (kdisks k); Some (r, buf', k) }) }
     | At_Ext2 p \<Rightarrow>
         if \<not> ext2_is_ready (ext2 k) then Some (- 19, buf, k)
         else do { (r, buf', w) \<leftarrow> ext2_list_dir_raw p buf (ext2 k); Some (r, buf', k\<lparr>ext2 := w\<rparr>) }
     | At_RamFS p \<Rightarrow>
         (case ramfs k of None \<Rightarrow> Some (- 2, buf, k)
          | Some fs \<Rightarrow> (case read_dir_raw p buf fs of (r, buf') \<Rightarrow> Some (r, buf', k)))
     | At_Proc p \<Rightarrow>
         (case ramfs k of None \<Rightarrow> Some (- 2, buf, k)
          | Some fs \<Rightarrow> (case read_dir_raw p buf fs of (r, buf') \<Rightarrow> Some (r, buf', k)))
     | At_DiskStore _ \<Rightarrow> (case list_store_raw buf k of (r, buf') \<Rightarrow> Some (r, buf', k)))"

definition vfs_mkdir :: "string \<Rightarrow> kernel \<Rightarrow> (int \<times> kernel) option" where
  "vfs_mkdir path k =
    (case vfs_resolve path of
       At_Fat16 p \<Rightarrow>
         if \<not> is_present (kdisks k) then Some (- 19, k)
         else do { (r, ds) \<leftarrow> fat_mkdir p (fatfs k) (kdisks k); Some (r, set_kdisks ds k) }
     | At_Ext2 p \<Rightarrow>
         if \<not> ext2_is_ready (ext2 k) then Some (- 19, k)
         else do { (r, w) \<leftarrow> ext2_mkdir p (ext2 k); Some (r, k\<lparr>ext2 := w\<rparr>) }
     | At_Dev _ \<Rightarrow> Some (- 1, k)
     | At_Proc _ \<Rightarrow> Some (- 1, k)
     | At_DiskStore _ \<Rightarrow> Some (- 1, k)
     | At_RamFS p \<Rightarrow>
         (case ramfs k of
            None \<Rightarrow> Some (- 2, k)
          | Some fs \<Rightarrow>
             (case create_dir p fs of
                (Inr _, fs') \<Rightarrow> Some (0, k\<lparr>ramfs := Some fs'\<rparr>)
              | (Inl _, fs') \<Rightarrow> Some (- 1, k\<lparr>ramfs := Some fs'\<rparr>))))"

text \<open>
  Whether the path can become a working directory; \<open>Inl\<close> is the early return
  when the primary disk is absent.
\<close>

definition chdir_target :: "string \<Rightarrow> kernel \<Rightarrow> ((int + bool) \<times> kernel) option" where
  "chdir_target path k =
    (case vfs_resolve path of
       At_Fat16 p \<Rightarrow>
         if \<not> is_present (kdisks k) then Some (Inl (- 19), k)
         else do { d \<leftarrow> fat_names_dir p k; Some (Inr d, k) }
     | At_Ext2 p \<Rightarrow>
         if \<not> ext2_is_ready (ext2 k) then Some (Inr False, k)
         else if is_ext2_root p then Some (Inr True, k)
         else do { (d, k1) \<leftarrow> kext2_is_dir p k; Some (Inr d, k1) }
     | At_RamFS p \<Rightarrow>
         Some (Inr (p = ''/'' \<or> (case ramfs k of None \<Rightarrow> False | Some fs \<Rightarrow> list_dir p fs \<noteq> None)), k)
     | At_Dev _ \<Rightarrow> Some (Inr False, k)
     | At_Proc p \<Rightarrow>
         Some (Inr (p = ''/proc'' \<or> (case ramfs k of None \<Rightarrow> False | Some fs \<Rightarrow> list_dir p fs \<noteq> None)), k)
     | At_DiskStore p \<Rightarrow> Some (Inr (is_store_root p), k))"

text \<open>The path cut to the buffer, with a slash at its end where there is room for one.\<close>

definition cwd_text :: "string \<Rightarrow> bytes" where
  "cwd_text path =
    (let len = min (length path) (CWD_MAX - 1); norm = blit 0 (take len (bstr path)) (replicate CWD_MAX 0) in
     if norm ! (len - 1) = 47 then take len norm
     else if len < CWD_MAX - 1 then take (len + 1) (norm[len := 47])
     else take len norm)"

definition vfs_chdir :: "string \<Rightarrow> kernel \<Rightarrow> (int \<times> kernel) option" where
  "vfs_chdir path k =
    do { (r, k1) \<leftarrow> chdir_target path k;
         (case r of
            Inl e \<Rightarrow> Some (e, k1)
          | Inr False \<Rightarrow> Some (- 7, k1)
          | Inr True \<Rightarrow>
              Some (0, upd_task (cur_idx k1) (\<lambda>t. t\<lparr>cwd := blit 0 (cwd_text path) (cwd t),
                                                    cwd_len := length (cwd_text path)\<rparr>) k1)) }"

section \<open>Stat\<close>

definition VS_IFREG :: u32 where [kdefs]: "VS_IFREG = 0x8000"
definition VS_IFDIR :: u32 where [kdefs]: "VS_IFDIR = 0x4000"
definition VS_IFCHR :: u32 where [kdefs]: "VS_IFCHR = 0x2000"

datatype StatKind = SFile | SDirectory | SDevice

record FileStat =
  fst_size :: u64
  fst_kind :: StatKind

record LinuxStat =
  st_dev :: u64
  st_ino :: u64
  st_nlink :: u64
  st_mode :: u32
  st_uid :: u32
  st_gid :: u32
  st_size :: u64
  st_blksize :: u64
  st_blocks :: u64

definition stat_zeroed :: LinuxStat where
  "stat_zeroed = \<lparr>st_dev = 0, st_ino = 0, st_nlink = 0, st_mode = 0, st_uid = 0, st_gid = 0,
    st_size = 0, st_blksize = 0, st_blocks = 0\<rparr>"

definition fill_file :: "u64 \<Rightarrow> u64 \<Rightarrow> LinuxStat" where
  "fill_file sz ino = stat_zeroed\<lparr>st_dev := 1, st_ino := ino, st_nlink := 1, st_mode := VS_IFREG OR 0x1A4,
    st_uid := 1000, st_gid := 1000, st_size := sz, st_blksize := 512, st_blocks := (sz + 511) div 512\<rparr>"

definition fill_dir :: "u64 \<Rightarrow> LinuxStat" where
  "fill_dir ino = stat_zeroed\<lparr>st_dev := 1, st_ino := ino, st_nlink := 2, st_mode := VS_IFDIR OR 0x1ED,
    st_uid := 1000, st_gid := 1000, st_blksize := 512\<rparr>"

definition fill_chardev :: "u64 \<Rightarrow> LinuxStat" where
  "fill_chardev ino = stat_zeroed\<lparr>st_dev := 1, st_ino := ino, st_nlink := 1, st_mode := VS_IFCHR OR 0x1B6,
    st_uid := 1000, st_gid := 1000\<rparr>"

text \<open>The size of a FAT file, found by opening it; left is the error of the open.\<close>

definition fat_stat_size :: "bytes \<Rightarrow> kernel \<Rightarrow> ((int + u64) \<times> kernel) option" where
  "fat_stat_size p k =
    do { (fd, k1) \<leftarrow> kfat_open p 0 k;
         if fd < 0 then Some (Inl fd, k1)
         else (let sz = ucast (fat_file_size fd (fatfs k1)) in
               case fat_close fd (fatfs k1) (kdisks k1) of
                 (_, f, ds) \<Rightarrow> Some (Inr sz, (set_kdisks ds k1)\<lparr>fatfs := f\<rparr>)) }"

text \<open>The size of an ext2 file, found by reading it in pieces of 512 bytes until a read returns nothing.\<close>

partial_function (option) ext2_measure :: "int \<Rightarrow> bytes \<Rightarrow> u64 \<Rightarrow> Ext2.Ext2 \<Rightarrow> (u64 \<times> Ext2.Ext2) option" where
  "ext2_measure fd tmp sz w =
    do { (n, tmp', w1) \<leftarrow> ext2_read_fd fd tmp w;
         if n \<le> 0 then Some (sz, w1) else ext2_measure fd tmp' (sz + of_int n) w1 }"

definition ext2_stat_size :: "bytes \<Rightarrow> kernel \<Rightarrow> ((int + u64) \<times> kernel) option" where
  "ext2_stat_size p k =
    do { (fd, k1) \<leftarrow> kext2_open p 0 k;
         if fd < 0 then Some (Inl fd, k1)
         else do { (sz, w) \<leftarrow> ext2_measure fd (replicate 512 0) 0 (ext2 k1);
                   Some (Inr sz, k1\<lparr>ext2 := snd (ext2_close fd w)\<rparr>) } }"

definition record_size :: "u32 \<Rightarrow> kernel \<Rightarrow> nat option" where
  "record_size ident k = fst (read_record 0 ident (replicate RECORD_DATA_MAX 0) (kstore k))"

definition vfs_stat_linux :: "string \<Rightarrow> kernel \<Rightarrow> (int \<times> LinuxStat \<times> kernel) option" where
  "vfs_stat_linux path k =
    (case vfs_resolve path of
       At_Dev _ \<Rightarrow> Some (0, fill_chardev 1, k)
     | At_Fat16 p \<Rightarrow>
         if \<not> is_present (kdisks k) then Some (- 19, stat_zeroed, k)
         else do {
           d \<leftarrow> fat_names_dir p k;
           if d then Some (0, fill_dir 2, k)
           else do {
             (r, k1) \<leftarrow> fat_stat_size p k;
             Some (case r of Inl _ \<Rightarrow> (- 2, stat_zeroed, k1)
                   | Inr sz \<Rightarrow> (0, fill_file sz (100 + of_nat (length p)), k1)) } }
     | At_Ext2 p \<Rightarrow>
         if \<not> ext2_is_ready (ext2 k) then Some (- 19, stat_zeroed, k)
         else do {
           (d, k1) \<leftarrow> (if is_ext2_root p then Some (True, k) else kext2_is_dir p k);
           if d then Some (0, fill_dir 4, k1)
           else do {
             (r, k2) \<leftarrow> ext2_stat_size p k1;
             Some (case r of Inl _ \<Rightarrow> (- 2, stat_zeroed, k2)
                   | Inr sz \<Rightarrow> (0, fill_file sz (200 + of_nat (length p)), k2)) } }
     | At_RamFS p \<Rightarrow>
         (case ramfs k of
            None \<Rightarrow> Some (- 2, stat_zeroed, k)
          | Some fs \<Rightarrow>
             (case read_file p fs of
                Some d \<Rightarrow> Some (0, fill_file (of_nat (length d)) (300 + of_nat (length p)), k)
              | None \<Rightarrow>
                  if list_dir p fs \<noteq> None then Some (0, fill_dir (400 + of_nat (length p)), k)
                  else Some (- 2, stat_zeroed, k)))
     | At_Proc p \<Rightarrow>
         (let k1 = procfs_refresh p k in
          case ramfs k1 of
            None \<Rightarrow> Some (- 2, stat_zeroed, k1)
          | Some fs \<Rightarrow>
             (case read_file p fs of
                Some d \<Rightarrow> Some (0, fill_file (of_nat (length d)) (500 + of_nat (length p)), k1)
              | None \<Rightarrow>
                  if list_dir p fs \<noteq> None then Some (0, fill_dir (600 + of_nat (length p)), k1)
                  else Some (- 2, stat_zeroed, k1)))
     | At_DiskStore p \<Rightarrow>
         if is_store_root p then Some (0, fill_dir 700, k)
         else (case parse_record_id p of
                 None \<Rightarrow> Some (- 2, stat_zeroed, k)
               | Some ident \<Rightarrow>
                  (case record_size ident k of
                     None \<Rightarrow> Some (- 2, stat_zeroed, k)
                   | Some len \<Rightarrow> Some (0, fill_file (of_nat len) (700 + ucast ident), k))))"

text \<open>\<open>vfs_stat\<close> writes its buffer only when it succeeds: the result carries \<open>None\<close> otherwise.\<close>

definition vfs_stat :: "string \<Rightarrow> kernel \<Rightarrow> (int \<times> FileStat option \<times> kernel) option" where
  "vfs_stat path k =
    (case vfs_resolve path of
       At_Dev _ \<Rightarrow> Some (0, Some \<lparr>fst_size = 0, fst_kind = SDevice\<rparr>, k)
     | At_Fat16 p \<Rightarrow>
         if \<not> is_present (kdisks k) then Some (- 19, None, k)
         else do {
           d \<leftarrow> fat_names_dir p k;
           if d then Some (0, Some \<lparr>fst_size = 0, fst_kind = SDirectory\<rparr>, k)
           else do {
             (r, k1) \<leftarrow> fat_stat_size p k;
             Some (case r of Inl _ \<Rightarrow> (- 7, None, k1)
                   | Inr sz \<Rightarrow> (0, Some \<lparr>fst_size = sz, fst_kind = SFile\<rparr>, k1)) } }
     | At_Ext2 p \<Rightarrow>
         if \<not> ext2_is_ready (ext2 k) then Some (- 19, None, k)
         else do {
           (d, k1) \<leftarrow> (if is_ext2_root p then Some (True, k) else kext2_is_dir p k);
           if d then Some (0, Some \<lparr>fst_size = 0, fst_kind = SDirectory\<rparr>, k1)
           else do {
             (r, k2) \<leftarrow> ext2_stat_size p k1;
             Some (case r of Inl _ \<Rightarrow> (- 7, None, k2)
                   | Inr sz \<Rightarrow> (0, Some \<lparr>fst_size = sz, fst_kind = SFile\<rparr>, k2)) } }
     | At_RamFS p \<Rightarrow>
         (case ramfs k of
            None \<Rightarrow> Some (- 2, None, k)
          | Some fs \<Rightarrow>
             (case read_file p fs of
                Some d \<Rightarrow> Some (0, Some \<lparr>fst_size = of_nat (length d), fst_kind = SFile\<rparr>, k)
              | None \<Rightarrow>
                  if list_dir p fs \<noteq> None then Some (0, Some \<lparr>fst_size = 0, fst_kind = SDirectory\<rparr>, k)
                  else Some (- 7, None, k)))
     | At_Proc p \<Rightarrow>
         (let k1 = procfs_refresh p k in
          case ramfs k1 of
            None \<Rightarrow> Some (- 2, None, k1)
          | Some fs \<Rightarrow>
             (case read_file p fs of
                Some d \<Rightarrow> Some (0, Some \<lparr>fst_size = of_nat (length d), fst_kind = SFile\<rparr>, k1)
              | None \<Rightarrow>
                  if list_dir p fs \<noteq> None then Some (0, Some \<lparr>fst_size = 0, fst_kind = SDirectory\<rparr>, k1)
                  else Some (- 7, None, k1)))
     | At_DiskStore p \<Rightarrow>
         if is_store_root p then Some (0, Some \<lparr>fst_size = 0, fst_kind = SDirectory\<rparr>, k)
         else (case parse_record_id p of
                 None \<Rightarrow> Some (- 7, None, k)
               | Some ident \<Rightarrow>
                  (case record_size ident k of
                     None \<Rightarrow> Some (- 7, None, k)
                   | Some len \<Rightarrow> Some (0, Some \<lparr>fst_size = of_nat len, fst_kind = SFile\<rparr>, k))))"

section \<open>The two forms of stat\<close>

definition mode_of :: "StatKind \<Rightarrow> u32" where
  "mode_of kd = (case kd of SFile \<Rightarrow> VS_IFREG OR 0x1A4 | SDirectory \<Rightarrow> VS_IFDIR OR 0x1ED
                 | SDevice \<Rightarrow> VS_IFCHR OR 0x1B6)"

text \<open>What the results of the two forms have in common.\<close>

fun same_stat :: "int \<times> LinuxStat \<times> kernel \<Rightarrow> int \<times> FileStat option \<times> kernel \<Rightarrow> bool" where
  "same_stat (r, s, k1) (r', None, k2) \<longleftrightarrow> k1 = k2 \<and> r < 0 \<and> r' < 0 \<and> (r = - 19 \<longleftrightarrow> r' = - 19) \<and> s = stat_zeroed"
| "same_stat (r, s, k1) (r', Some f, k2) \<longleftrightarrow> k1 = k2 \<and> r = 0 \<and> r' = 0 \<and> st_size s = fst_size f
    \<and> st_mode s = mode_of (fst_kind f)"

lemma rel_option_bind:
  "(\<And>x. x0 = Some x \<Longrightarrow> rel_option R (f x) (g x)) \<Longrightarrow> rel_option R (Option.bind x0 f) (Option.bind x0 g)"
  by (cases x0) auto

lemmas stat_fields = fill_file_def fill_dir_def fill_chardev_def stat_zeroed_def mode_of_def

text \<open>C31. \<open>vfs_stat\<close> and \<open>vfs_stat_linux\<close> are two views of one query: on every path and in
  every state they both return or both fail to return, leave the same state behind,
  succeed together, and then report the same size and the same kind of file; a missing
  disk is -19 in both.\<close>
theorem stat_forms_agree: "rel_option same_stat (vfs_stat_linux path k) (vfs_stat path k)"
proof (cases "vfs_resolve path")
  case (At_RamFS p)
  then show ?thesis
    by (auto simp: vfs_stat_linux_def vfs_stat_def stat_fields split: option.split)
next
  case (At_Fat16 p)
  then show ?thesis
    by (auto simp: vfs_stat_linux_def vfs_stat_def stat_fields split: option.split sum.split
        intro!: rel_option_bind)
next
  case (At_Ext2 p)
  then show ?thesis
    by (auto simp: vfs_stat_linux_def vfs_stat_def stat_fields split: option.split sum.split
        intro!: rel_option_bind)
next
  case (At_Proc p)
  then show ?thesis
    by (auto simp: vfs_stat_linux_def vfs_stat_def stat_fields Let_def split: option.split)
next
  case (At_DiskStore p)
  then show ?thesis
    by (auto simp: vfs_stat_linux_def vfs_stat_def stat_fields split: option.split)
qed (simp add: vfs_stat_linux_def vfs_stat_def stat_fields)

end
