(* ===== verification/Sys_Base.thy ===== *)
theory Sys_Base
  imports Scheduler Vfs
begin

text \<open>
  What every system call uses: results, the check of user pointers, access to
  the memory of the calling task, and the primitive services of the kernel
  (\<open>sys/syscall_core.rs\<close> and the first part of \<open>sys/syscall.rs\<close>).  A call either
  returns a result to the task or leaves the task through \<open>exit_to_kernel\<close>.  The
  system call runs on the page table of the calling task.  The theory shows which
  ranges \<open>validate_user_range\<close> accepts; paths whose length the kernel computes
  itself are the subject of \<open>Sys_Paths\<close>.
\<close>

section \<open>Results\<close>

record SyscallResult =
  sr_value :: int
  sr_error :: bool

definition ok :: "int \<Rightarrow> SyscallResult" where "ok v = \<lparr>sr_value = v, sr_error = False\<rparr>"
definition err :: "int \<Rightarrow> SyscallResult" where "err v = \<lparr>sr_value = v, sr_error = True\<rparr>"

datatype sysout = Ret SyscallResult | Exit int

definition sysret :: "int \<Rightarrow> sysout" where
  "sysret r = Ret (if r < 0 then err r else ok r)"

definition leave :: "int \<times> kernel \<Rightarrow> (sysout \<times> kernel) option" where
  "leave ck = Some (Exit (fst ck), snd ck)"

definition TIMER_HZ :: u64 where [kdefs]: "TIMER_HZ = 100"
definition USER_SPACE_START :: u64 where [kdefs]: "USER_SPACE_START = 0x1000"
definition KERNEL_SPACE_BASE :: u64 where [kdefs]: "KERNEL_SPACE_BASE = 0xFFFF800000000000"

text \<open>The error codes of the dispatcher differ from those of the file systems.\<close>

definition SC_EINVAL :: int where [kdefs]: "SC_EINVAL = - 1"
definition SC_ENOSYS :: int where [kdefs]: "SC_ENOSYS = - 2"
definition SC_EBADF :: int where [kdefs]: "SC_EBADF = - 5"

section \<open>User memory\<close>

text \<open>\<open>checked_add\<close> fails when the exact sum does not fit into 64 bits.\<close>

definition validate_user_range :: "u64 \<Rightarrow> u64 \<Rightarrow> int option" where
  "validate_user_range ptr len =
    (if len = 0 then None
     else if ptr < USER_SPACE_START then Some SC_EINVAL
     else if uint ptr + uint (len - 1) \<ge> 2 ^ 64 then Some SC_EINVAL
     else if ptr + (len - 1) \<ge> KERNEL_SPACE_BASE then Some SC_EINVAL
     else None)"

definition cur_task :: "kernel \<Rightarrow> Task" where
  "cur_task k = tasks k ! cur_idx k"

definition uread :: "u64 \<Rightarrow> nat \<Rightarrow> kernel \<Rightarrow> bytes option" where
  "uread ptr n k = load_bytes (tcr3 (cur_task k)) ptr n (pmem (pg (kmm k)))"

definition uwrite :: "u64 \<Rightarrow> bytes \<Rightarrow> kernel \<Rightarrow> kernel option" where
  "uwrite ptr bs k =
    map_option (\<lambda>m. k\<lparr>kmm := m\<rparr>) (copy_to_region_in (tcr3 (cur_task k)) ptr bs (kmm k))"

definition uread64 :: "u64 \<Rightarrow> kernel \<Rightarrow> u64 option" where
  "uread64 ptr k = map_option (\<lambda>bs. rd64 bs 0) (uread ptr 8 k)"

definition write_user_value :: "u64 \<Rightarrow> bytes \<Rightarrow> kernel \<Rightarrow> (int option \<times> kernel) option" where
  "write_user_value ptr bs k =
    (case validate_user_range ptr (of_nat (length bs)) of
       Some e \<Rightarrow> Some (Some e, k)
     | None \<Rightarrow> map_option (\<lambda>k1. (None, k1)) (uwrite ptr bs k))"

text \<open>
  The scan of a string: the page of an address is looked up once, when the scan
  enters it, and the first argument counts the bytes that are left.
\<close>

fun strnlen_loop :: "nat \<Rightarrow> u64 \<Rightarrow> nat \<Rightarrow> u64 \<Rightarrow> u64 \<Rightarrow> pmem \<Rightarrow> nat option" where
  "strnlen_loop 0 ptr i checked cr3 m = Some i"
| "strnlen_loop (Suc n) ptr i checked cr3 m =
    (let addr = ptr + of_nat i; page = addr AND NOT 0xFFF in
     if page \<noteq> checked \<and> \<not> is_page_mapped_current cr3 addr m then Some 0
     else case load8 cr3 addr m of
       None \<Rightarrow> None
     | Some b \<Rightarrow> if b = 0 then Some (i + 1) else strnlen_loop n ptr (i + 1) page cr3 m)"

definition strnlen_user :: "u64 \<Rightarrow> nat \<Rightarrow> kernel \<Rightarrow> u64 option" where
  "strnlen_user ptr mx k =
    map_option of_nat (strnlen_loop mx ptr 0 (- 1) (tcr3 (cur_task k)) (pmem (pg (kmm k))))"

text \<open>A slice of user memory as a path; the error of a text that is not UTF-8 is given by the caller.\<close>

definition with_str :: "bytes \<Rightarrow> int \<Rightarrow> kernel \<Rightarrow> (string \<Rightarrow> (int \<times> kernel) option) \<Rightarrow> (int \<times> kernel) option" where
  "with_str p e k f = (if valid_utf8 p then f (bytes_str p) else Some (e, k))"

section \<open>Primitive services\<close>

definition current_pid :: "kernel \<Rightarrow> u64" where
  "current_pid k = ucast (tpid (cur_task k))"

definition write_console :: "bytes \<Rightarrow> kernel \<Rightarrow> kernel" where
  "write_console bs k = (if user_active k then output_write bs k else k)"

definition system_info :: "kernel \<Rightarrow> bytes" where
  "system_info k =
    le64 (128 * 1024 * 1024) @ le64 (64 * 1024 * 1024) @ le64 (ticks k * 1000 div TIMER_HZ) @ le32 1
      @ replicate 4 0"

text \<open>
  Without a saved context, or without a live task, the source waits with \<open>hlt\<close> for
  the timer, with interrupts disabled by the entry of the system call.
\<close>

definition sleep_until_tick :: "u64 \<Rightarrow> kernel \<Rightarrow> (sysout option \<times> kernel) option" where
  "sleep_until_tick target k =
    (let k1 = k\<lparr>syscall_ctx := None\<rparr> in
     case syscall_ctx k of
       Some c \<Rightarrow>
         if has_task k1 then map_option (\<lambda>(out, k2). (Some out, k2)) (leave (sleep_task target c k1))
         else if ticks k < target then None else Some (None, k1)
     | None \<Rightarrow> if ticks k < target then None else Some (None, k1))"

definition get_char :: "kernel \<Rightarrow> int \<times> kernel" where
  "get_char k =
    (case stdin_pop (stdin k) of
       Some (ch, s) \<Rightarrow> (uint ch, k\<lparr>stdin := s\<rparr>)
     | None \<Rightarrow> (- 6, k))"

definition sys_exit :: "u32 \<Rightarrow> kernel \<Rightarrow> (sysout \<times> kernel) option" where
  "sys_exit code k = (if user_active k then leave (exit_to_kernel (sint code) k) else None)"

definition fs_open :: "bytes \<Rightarrow> u32 \<Rightarrow> kernel \<Rightarrow> (int \<times> kernel) option" where
  "fs_open p flags k = with_str p (- 22) k (\<lambda>s. vfs_open s flags k)"

definition fs_close :: "int \<Rightarrow> kernel \<Rightarrow> int \<times> kernel" where
  "fs_close fd k = fd_close (cur_idx k) fd k"

definition fs_read :: "int \<Rightarrow> bytes \<Rightarrow> kernel \<Rightarrow> (int \<times> bytes \<times> kernel) option" where
  "fs_read fd buf k =
    (case ramfs k of None \<Rightarrow> Some (- 2, buf, k) | Some fs \<Rightarrow> read_fd (cur_idx k) fd buf fs k)"

definition fs_write_file :: "int \<Rightarrow> bytes \<Rightarrow> kernel \<Rightarrow> (int \<times> kernel) option" where
  "fs_write_file fd buf k =
    (case ramfs k of None \<Rightarrow> Some (- 2, k) | Some fs \<Rightarrow> write_fd (cur_idx k) fd buf fs k)"

text \<open>
  A read into a slice of user memory.  Only the bytes that the result counts are
  written.
\<close>

definition fs_read_user :: "int \<Rightarrow> u64 \<Rightarrow> u64 \<Rightarrow> kernel \<Rightarrow> (int \<times> kernel) option" where
  "fs_read_user fd ptr cnt k =
    do { (r, buf, k1) \<leftarrow> fs_read fd (replicate (unat cnt) 0) k;
         k2 \<leftarrow> uwrite ptr (take (nat r) buf) k1;
         Some (r, k2) }"

section \<open>Which ranges are user ranges\<close>

text \<open>C30. \<open>validate_user_range\<close> accepts a range exactly when it is empty or lies, as a range of
  unbounded integers, between the first page and the base of the kernel half: no sum wraps around,
  and no byte of an accepted range is an address of the kernel.\<close>

theorem validate_user_range_exact:
  "validate_user_range ptr len = None \<longleftrightarrow>
    len = 0 \<or> uint USER_SPACE_START \<le> uint ptr \<and> uint ptr + uint len \<le> uint KERNEL_SPACE_BASE"
proof (cases "len = 0")
  case False
  have "uint len \<noteq> 0" using False by (simp add: word_uint_eq_iff)
  then have pos: "1 \<le> uint len" using uint_ge_0 [of len] by linarith
  have small: "uint len < 2 ^ 64" "uint ptr < 2 ^ 64" using uint_lt2p [of len] uint_lt2p [of ptr] by simp_all
  have len: "uint (len - 1) = uint len - 1"
    using pos small by (simp add: uint_word_ariths)
  have sum: "uint (ptr + (len - 1)) = uint ptr + (uint len - 1)" if "uint ptr + (uint len - 1) < 2 ^ 64"
    using that small pos by (simp add: uint_word_ariths(1) len)
  show ?thesis
    using False pos len sum unfolding validate_user_range_def
    by (auto simp: word_le_def word_less_def kdefs not_less not_le)
qed (simp add: validate_user_range_def)

end
