(* ===== verification/Sys_Files.thy ===== *)
theory Sys_Files
  imports Sys_Base
begin

text \<open>
  The file operations of the kernel's system call runtime, \<open>sys/syscall.rs\<close>:
  descriptors, directories, vectored and positioned transfers, \<open>poll\<close> and \<open>select\<close>,
  and the calls that remove and rename.  Readiness of a socket is the parameter
  \<open>sock\<close>.  The theory shows that removing a file keeps every other open descriptor
  of every task on its file.
\<close>

section \<open>Descriptors\<close>

definition fd_entry_of :: "int \<Rightarrow> kernel \<Rightarrow> FdEntry option" where
  "fd_entry_of fd k = fd_lookup fd (fdt (cur_idx k) k)"

definition set_entry :: "int \<Rightarrow> FdEntry \<Rightarrow> kernel \<Rightarrow> kernel" where
  "set_entry fd e k = set_fdt (cur_idx k) ((fdt (cur_idx k) k)[nat fd := Some e]) k"

definition seek_target :: "int \<Rightarrow> int \<Rightarrow> int \<Rightarrow> u32 \<Rightarrow> int option" where
  "seek_target sz cur offset whence =
    (if whence = 0 then Some offset else if whence = 1 then Some (i64 (cur + offset))
     else if whence = 2 then Some (i64 (sz + offset)) else None)"

definition lseek_impl :: "int \<Rightarrow> int \<Rightarrow> u32 \<Rightarrow> kernel \<Rightarrow> (int \<times> kernel) option" where
  "lseek_impl fd offset whence k =
    (case fd_entry_of fd k of
       None \<Rightarrow> Some (- 9, k)
     | Some e \<Rightarrow>
        (case backend e of
           Fat16 \<Rightarrow> (case fat_file_seek (raw_fd e) offset whence (fatfs k) of
                       (r, f) \<Rightarrow> Some (r, k\<lparr>fatfs := f\<rparr>))
         | RamFS \<Rightarrow>
            (case ramfs k of
               None \<Rightarrow> Some (- 9, k)
             | Some fs \<Rightarrow>
                 if inode_idx e \<ge> length fs then None
                 else (case seek_target (int (length (data (fs ! inode_idx e)))) (int (fd_offset e)) offset whence of
                         None \<Rightarrow> Some (- 22, k)
                       | Some off \<Rightarrow>
                           if off < 0 then Some (- 22, k)
                           else Some (off, set_entry fd (e\<lparr>fd_offset := nat off\<rparr>) k)))
         | _ \<Rightarrow> Some (- 29, k)))"

definition dup_impl :: "int \<Rightarrow> kernel \<Rightarrow> int \<times> kernel" where
  "dup_impl fd k =
    (case fd_entry_of fd k of
       None \<Rightarrow> (- 9, k)
     | Some e \<Rightarrow>
        (case first_index (\<lambda>s. s = None) (fdt (cur_idx k) k) of
           None \<Rightarrow> (- 24, k)
         | Some new_fd \<Rightarrow> (int new_fd, set_entry (int new_fd) e k)))"

definition dup2_impl :: "int \<Rightarrow> int \<Rightarrow> kernel \<Rightarrow> int \<times> kernel" where
  "dup2_impl old_fd new_fd k = dup2 (cur_idx k) old_fd new_fd k"

text \<open>\<open>fd as usize\<close> of a negative descriptor is beyond every table.\<close>

definition fcntl_impl :: "int \<Rightarrow> u64 \<Rightarrow> u64 \<Rightarrow> kernel \<Rightarrow> int \<times> kernel" where
  "fcntl_impl fd cmd arg k =
    (if cmd = 1 then
       (case fd_entry_of fd k of
          None \<Rightarrow> (- 9, k)
        | Some e \<Rightarrow>
           (case find (\<lambda>i. fdt (cur_idx k) k ! i = None) [unat arg..<MAX_FD] of
              None \<Rightarrow> (- 24, k)
            | Some new_fd \<Rightarrow> (int new_fd, set_entry (int new_fd) e k)))
     else if cmd = 3 then (2, k) else (0, k))"

definition ftruncate_impl :: "int \<Rightarrow> u64 \<Rightarrow> kernel \<Rightarrow> (int \<times> kernel) option" where
  "ftruncate_impl fd len k =
    (case fd_entry_of fd k of
       None \<Rightarrow> Some (- 9, k)
     | Some e \<Rightarrow>
         if backend e = Ext2
         then map_option (\<lambda>(r, w). (r, k\<lparr>ext2 := w\<rparr>)) (ext2_truncate (raw_fd e) (ucast len) (ext2 k))
         else Some (0, k))"

definition truncate_impl :: "int \<Rightarrow> u64 \<Rightarrow> kernel \<Rightarrow> (int \<times> kernel) option" where
  "truncate_impl fd len k =
    (case fd_entry_of fd k of
       None \<Rightarrow> Some (- 9, k)
     | Some e \<Rightarrow>
        (case backend e of
           RamFS \<Rightarrow>
             (case ramfs k of
                None \<Rightarrow> Some (- 2, k)
              | Some fs \<Rightarrow> Some (0, k\<lparr>ramfs := Some (truncate_by_idx (inode_idx e) (unat len) fs)\<rparr>))
         | Ext2 \<Rightarrow> map_option (\<lambda>(r, w). (r, k\<lparr>ext2 := w\<rparr>)) (ext2_truncate (raw_fd e) (ucast len) (ext2 k))
         | _ \<Rightarrow> Some (- 38, k)))"

section \<open>Vectored and positioned transfers\<close>

text \<open>\<open>iovcnt\<close> entries of sixteen bytes; the list holds their indices.\<close>

fun readv_loop :: "u64 list \<Rightarrow> int \<Rightarrow> u64 \<Rightarrow> int \<Rightarrow> kernel \<Rightarrow> (int \<times> kernel) option" where
  "readv_loop [] fd iov tot k = Some (tot, k)"
| "readv_loop (i # is) fd iov tot k =
    do { base \<leftarrow> uread64 (iov + i * 16) k;
         len \<leftarrow> uread64 (iov + i * 16 + 8) k;
         if len = 0 then readv_loop is fd iov tot k
         else do { (r, k1) \<leftarrow> fs_read_user fd base len k;
                   if r < 0 then Some (if tot > 0 then tot else r, k1)
                   else if r < sint len then Some (tot + r, k1)
                   else readv_loop is fd iov (tot + r) k1 } }"

definition iov_indices :: "u32 \<Rightarrow> u64 list" where
  "iov_indices n = map of_nat [0..<unat n]"

definition readv_impl :: "int \<Rightarrow> u64 \<Rightarrow> u32 \<Rightarrow> kernel \<Rightarrow> (int \<times> kernel) option" where
  "readv_impl fd iov iovcnt k = readv_loop (iov_indices iovcnt) fd iov 0 k"

fun writev_loop :: "u64 list \<Rightarrow> int \<Rightarrow> u64 \<Rightarrow> int \<Rightarrow> kernel \<Rightarrow> (int \<times> kernel) option" where
  "writev_loop [] fd iov tot k = Some (tot, k)"
| "writev_loop (i # is) fd iov tot k =
    do { base \<leftarrow> uread64 (iov + i * 16) k;
         len \<leftarrow> uread64 (iov + i * 16 + 8) k;
         if len = 0 then writev_loop is fd iov tot k
         else do { buf \<leftarrow> uread base (unat len) k;
                   (r, k1) \<leftarrow> (if fd = 1 \<or> fd = 2 then Some (sint len, write_console buf k)
                              else fs_write_file fd buf k);
                   if r < 0 then Some (if tot > 0 then tot else r, k1)
                   else writev_loop is fd iov (tot + r) k1 } }"

definition writev_impl :: "int \<Rightarrow> u64 \<Rightarrow> u32 \<Rightarrow> kernel \<Rightarrow> (int \<times> kernel) option" where
  "writev_impl fd iov iovcnt k = writev_loop (iov_indices iovcnt) fd iov 0 k"

text \<open>Seek, transfer, and seek back; the result of the last seek is dropped.\<close>

definition positioned ::
  "int \<Rightarrow> int \<Rightarrow> (kernel \<Rightarrow> (int \<times> kernel) option) \<Rightarrow> kernel \<Rightarrow> (int \<times> kernel) option" where
  "positioned fd offset transfer k =
    do { (saved, k1) \<leftarrow> lseek_impl fd 0 1 k;
         if saved < 0 then Some (saved, k1)
         else do { (r, k2) \<leftarrow> lseek_impl fd offset 0 k1;
                   if r < 0 then Some (r, k2)
                   else do { (n, k3) \<leftarrow> transfer k2;
                             (_, k4) \<leftarrow> lseek_impl fd saved 0 k3;
                             Some (n, k4) } } }"

definition pread64_impl :: "int \<Rightarrow> u64 \<Rightarrow> u64 \<Rightarrow> int \<Rightarrow> kernel \<Rightarrow> (int \<times> kernel) option" where
  "pread64_impl fd ptr cnt offset k = positioned fd offset (fs_read_user fd ptr cnt) k"

definition pwrite64_impl :: "int \<Rightarrow> u64 \<Rightarrow> u64 \<Rightarrow> int \<Rightarrow> kernel \<Rightarrow> (int \<times> kernel) option" where
  "pwrite64_impl fd ptr cnt offset k =
    positioned fd offset (\<lambda>k. do { buf \<leftarrow> uread ptr (unat cnt) k; fs_write_file fd buf k }) k"

section \<open>Status\<close>

definition S_IFIFO :: u32 where [kdefs]: "S_IFIFO = 0x1000"

definition stat_bytes :: "LinuxStat \<Rightarrow> bytes" where
  "stat_bytes s =
    le64 (st_dev s) @ le64 (st_ino s) @ le64 (st_nlink s) @ le32 (st_mode s) @ le32 (st_uid s)
      @ le32 (st_gid s) @ le32 0 @ le64 0 @ le64 (st_size s) @ le64 (st_blksize s) @ le64 (st_blocks s)
      @ replicate 72 0"

definition stat_impl :: "bytes \<Rightarrow> u64 \<Rightarrow> kernel \<Rightarrow> (int \<times> kernel) option" where
  "stat_impl p buf k =
    with_str p (- 22) k (\<lambda>path. do { (r, s, k1) \<leftarrow> vfs_stat_linux path k;
                                    k2 \<leftarrow> uwrite buf (stat_bytes s) k1;
                                    Some (r, k2) })"

definition access_impl :: "bytes \<Rightarrow> kernel \<Rightarrow> (int \<times> kernel) option" where
  "access_impl p k =
    with_str p (- 22) k (\<lambda>path. do { (r, s, k1) \<leftarrow> vfs_stat_linux path k; Some (r, k1) })"

definition fstat_of :: "int \<Rightarrow> FdEntry \<Rightarrow> kernel \<Rightarrow> LinuxStat option" where
  "fstat_of fd e k =
    (case backend e of
       DevNull \<Rightarrow> Some (fill_chardev (of_int fd + 1))
     | DevTty \<Rightarrow> Some (fill_chardev (of_int fd + 1))
     | Fat16 \<Rightarrow> Some (fill_file (ucast (fat_file_size (raw_fd e) (fatfs k))) (100 + of_int (raw_fd e)))
     | RamFS \<Rightarrow>
        (case ramfs k of
           None \<Rightarrow> Some (fill_file 0 (300 + of_nat (inode_idx e)))
         | Some fs \<Rightarrow>
             if inode_idx e \<ge> length fs then None
             else Some (fill_file (of_nat (length (data (fs ! inode_idx e)))) (300 + of_nat (inode_idx e))))
     | Pipe \<Rightarrow> Some (stat_zeroed\<lparr>st_mode := S_IFIFO OR 0x1B6, st_ino := 500 + of_int fd\<rparr>)
     | Ext2 \<Rightarrow> Some (fill_file 0 (200 + of_int (raw_fd e)))
     | Dir \<Rightarrow> Some (fill_dir (600 + of_int fd)))"

definition fstat_impl :: "int \<Rightarrow> u64 \<Rightarrow> kernel \<Rightarrow> (int \<times> kernel) option" where
  "fstat_impl fd buf k =
    (case fd_entry_of fd k of
       None \<Rightarrow> Some (- 9, k)
     | Some e \<Rightarrow> do { s \<leftarrow> fstat_of fd e k; k1 \<leftarrow> uwrite buf (stat_bytes s) k; Some (0, k1) })"

section \<open>Directories\<close>

definition dirent :: "u64 \<Rightarrow> nat \<Rightarrow> bool \<Rightarrow> bytes \<Rightarrow> bytes" where
  "dirent ino d_off is_directory name =
    (let base = 19 + length name + 1; reclen = (base + 7) div 8 * 8 in
     le64 ino @ le64 (of_nat d_off) @ le16 (of_nat reclen) @ [if is_directory then 4 else 8]
       @ name @ replicate (1 + (reclen - base)) 0)"

text \<open>Fills at most \<open>cap\<close> bytes; the result is the records and how much of the listing they cover.\<close>

fun dirents :: "bytes list \<Rightarrow> nat \<Rightarrow> nat \<Rightarrow> nat \<Rightarrow> u64 \<Rightarrow> bytes \<Rightarrow> bytes \<times> nat" where
  "dirents [] cap start consumed ino out = (out, consumed)"
| "dirents (line # ls) cap start consumed ino out =
    (if line = [] then dirents ls cap start (consumed + 1) ino out
     else (let is_directory = last line = 47;
               name = (if is_directory then butlast line else line);
               rec = dirent ino (start + consumed + length line + 1) is_directory name in
           if length out + length rec > cap then (out, consumed)
           else dirents ls cap start (consumed + length line + 1) (ino + 1) (out @ rec)))"

definition getdents64_impl :: "int \<Rightarrow> u64 \<Rightarrow> u64 \<Rightarrow> kernel \<Rightarrow> (int \<times> kernel) option" where
  "getdents64_impl fd buf cnt k =
    (case fd_entry_of fd k of
       None \<Rightarrow> Some (- 9, k)
     | Some e \<Rightarrow>
         if backend e \<noteq> Dir then Some (- 20, k)
         else with_str (take (dir_path_len e) (dir_path e)) (- 22) k (\<lambda>path.
           do { (n, names, k1) \<leftarrow> vfs_readdir path (replicate 2048 0) k;
                if n < 0 then Some (n, k1)
                else if fd_offset e \<ge> nat n then Some (0, k1)
                else (let start = fd_offset e;
                          (out, consumed) = dirents (split_lines (drop start (take (nat n) names)) [])
                                              (unat cnt) start 0 (1000 + of_nat start) [] in
                      do { k2 \<leftarrow> uwrite buf out k1;
                           Some (int (length out), set_entry fd (e\<lparr>fd_offset := start + consumed\<rparr>) k2) }) }))"

definition readdir_impl :: "bytes \<Rightarrow> u64 \<Rightarrow> u64 \<Rightarrow> kernel \<Rightarrow> (int \<times> kernel) option" where
  "readdir_impl p buf len k =
    with_str p (- 22) k (\<lambda>path.
      do { (r, out, k1) \<leftarrow> vfs_readdir path (replicate (unat len) 0) k;
           k2 \<leftarrow> uwrite buf (take (nat r) out) k1;
           Some (r, k2) })"

definition mkdir_impl :: "bytes \<Rightarrow> kernel \<Rightarrow> (int \<times> kernel) option" where
  "mkdir_impl p k = with_str p (- 22) k (\<lambda>path. vfs_mkdir path k)"

definition chdir_impl :: "bytes \<Rightarrow> kernel \<Rightarrow> (int \<times> kernel) option" where
  "chdir_impl p k = with_str p (- 22) k (\<lambda>path. vfs_chdir path k)"

definition getcwd_impl :: "u64 \<Rightarrow> u64 \<Rightarrow> kernel \<Rightarrow> (int \<times> kernel) option" where
  "getcwd_impl buf len k =
    (let n = min (cwd_len (cur_task k)) (unat len) in
     map_option (\<lambda>k1. (int n, k1)) (uwrite buf (take n (cwd (cur_task k))) k))"

section \<open>Removing, renaming and attributes\<close>

text \<open>The change of the file's inode by \<open>chmod\<close> and \<open>chown\<close>.\<close>

definition set_attr :: "bytes \<Rightarrow> (INode \<Rightarrow> INode) \<Rightarrow> kernel \<Rightarrow> (int \<times> kernel) option" where
  "set_attr p f k =
    with_str p (- 22) k (\<lambda>path.
      case ramfs k of
        None \<Rightarrow> Some (- 2, k)
      | Some fs \<Rightarrow>
         (case resolve fs path of
            None \<Rightarrow> Some (- 7, k)
          | Some idx \<Rightarrow> Some (0, k\<lparr>ramfs := Some (fs[idx := f (fs ! idx)])\<rparr>)))"

definition chmod_impl :: "bytes \<Rightarrow> u16 \<Rightarrow> kernel \<Rightarrow> (int \<times> kernel) option" where
  "chmod_impl p md k = set_attr p (\<lambda>n. n\<lparr>mode := md\<rparr>) k"

definition chown_impl :: "bytes \<Rightarrow> u32 \<Rightarrow> u32 \<Rightarrow> kernel \<Rightarrow> (int \<times> kernel) option" where
  "chown_impl p u g k = set_attr p (\<lambda>n. n\<lparr>uid := u, gid := g\<rparr>) k"

definition is_fat_path :: "string \<Rightarrow> bool" where
  "is_fat_path path = (case vfs_resolve path of At_Fat16 _ \<Rightarrow> True | _ \<Rightarrow> False)"

definition is_ext2_path :: "string \<Rightarrow> bool" where
  "is_ext2_path path = (case vfs_resolve path of At_Ext2 _ \<Rightarrow> True | _ \<Rightarrow> False)"

definition drop_inode :: "nat \<Rightarrow> kernel \<Rightarrow> kernel" where
  "drop_inode idx k = k\<lparr>tasks := map (fd_table_update (on_inode_removed idx)) (tasks k)\<rparr>"

definition unlink_impl :: "bytes \<Rightarrow> kernel \<Rightarrow> (int \<times> kernel) option" where
  "unlink_impl p k =
    with_str p (- 22) k (\<lambda>path.
      if is_fat_path path then
        (if \<not> is_present (kdisks k) then Some (- 19, k)
         else map_option (\<lambda>(r, ds). (r, set_kdisks ds k)) (fat_unlink p (fatfs k) (kdisks k)))
      else if is_ext2_path path then
        (if \<not> ext2_is_ready (ext2 k) then Some (- 19, k)
         else map_option (\<lambda>(r, w). (r, k\<lparr>ext2 := w\<rparr>)) (ext2_unlink p (ext2 k)))
      else (case ramfs k of
              None \<Rightarrow> Some (- 2, k)
            | Some fs \<Rightarrow>
               (case remove_file path fs of
                  (Inr idx, fs') \<Rightarrow> Some (0, drop_inode idx (k\<lparr>ramfs := Some fs'\<rparr>))
                | (Inl e, fs') \<Rightarrow> Some (e, k\<lparr>ramfs := Some fs'\<rparr>))))"

definition rename_impl :: "bytes \<Rightarrow> bytes \<Rightarrow> kernel \<Rightarrow> (int \<times> kernel) option" where
  "rename_impl p q k =
    with_str p (- 22) k (\<lambda>old. with_str q (- 22) k (\<lambda>new.
      if is_fat_path old \<and> is_fat_path new then
        (if \<not> is_present (kdisks k) then Some (- 19, k)
         else map_option (\<lambda>(r, ds). (r, set_kdisks ds k)) (fat_rename p q (fatfs k) (kdisks k)))
      else if is_ext2_path old \<and> is_ext2_path new then
        (if \<not> ext2_is_ready (ext2 k) then Some (- 19, k)
         else map_option (\<lambda>(r, w). (r, k\<lparr>ext2 := w\<rparr>)) (ext2_rename p q (ext2 k)))
      else if is_fat_path old \<noteq> is_fat_path new \<or> is_ext2_path old \<noteq> is_ext2_path new then Some (- 22, k)
      else (case ramfs k of
              None \<Rightarrow> Some (- 2, k)
            | Some fs \<Rightarrow>
               (case ramfs_rename old new fs of
                  (r, fs') \<Rightarrow> Some (case r of Inr _ \<Rightarrow> 0 | Inl e \<Rightarrow> e, k\<lparr>ramfs := Some fs'\<rparr>)))))"

section \<open>Readiness\<close>

definition POLLIN :: u16 where [kdefs]: "POLLIN = 1"
definition POLLOUT :: u16 where [kdefs]: "POLLOUT = 4"
definition POLLHUP :: u16 where [kdefs]: "POLLHUP = 0x10"

definition flag_if :: "bool \<Rightarrow> u16 \<Rightarrow> u16 \<Rightarrow> u16" where
  "flag_if c events f = (if events AND f \<noteq> 0 \<and> c then f else 0)"

definition poll_entry :: "FdEntry \<Rightarrow> u16 \<Rightarrow> kernel \<Rightarrow> u16" where
  "poll_entry e events k =
    (case backend e of
       DevTty \<Rightarrow> flag_if (stdin_available (stdin k) > 0) events POLLIN OR flag_if True events POLLOUT
     | Pipe \<Rightarrow>
         if fd_writable e then flag_if True events POLLOUT
         else flag_if (pipe_read_ready (kpipes k) (raw_fd e)) events POLLIN
     | _ \<Rightarrow> flag_if True events POLLIN OR flag_if True events POLLOUT)"

text \<open>The events of one descriptor, and whether it counts as ready.\<close>

definition poll_one :: "(int \<Rightarrow> bool) \<Rightarrow> int \<Rightarrow> u16 \<Rightarrow> kernel \<Rightarrow> u16" where
  "poll_one sock fd events k =
    (if fd < 0 then 0
     else if fd \<ge> 200 then flag_if (sock fd) events POLLIN OR flag_if True events POLLOUT
     else if nat fd \<ge> MAX_FD then 0
     else case fdt (cur_idx k) k ! nat fd of
       None \<Rightarrow> POLLHUP
     | Some e \<Rightarrow> poll_entry e events k)"

fun poll_loop :: "(int \<Rightarrow> bool) \<Rightarrow> u64 list \<Rightarrow> u64 \<Rightarrow> int \<Rightarrow> kernel \<Rightarrow> (int \<times> kernel) option" where
  "poll_loop sock [] ptr ready k = Some (ready, k)"
| "poll_loop sock (i # is) ptr ready k =
    do { pfd \<leftarrow> uread (ptr + i * 8) 8 k;
         let revents = poll_one sock (sint (rd32 pfd 0)) (rd16 pfd 4) k in
         do { k1 \<leftarrow> uwrite (ptr + i * 8 + 6) (le16 revents) k;
              poll_loop sock is ptr (if revents \<noteq> 0 then ready + 1 else ready) k1 } }"

definition wait_ticks :: "int \<Rightarrow> u64" where
  "wait_ticks timeout_ms = (if timeout_ms < 0 then 2 else max 1 (of_int timeout_ms * TIMER_HZ div 1000))"

text \<open>The end of \<open>poll\<close> and \<open>select\<close>: the count of ready descriptors, or a nap.\<close>

definition ready_or_sleep :: "int \<Rightarrow> int \<Rightarrow> kernel \<Rightarrow> (sysout \<times> kernel) option" where
  "ready_or_sleep ready timeout_ms k =
    (if ready > 0 \<or> timeout_ms = 0 then Some (sysret ready, k)
     else do { (out, k1) \<leftarrow> sleep_until_tick (ticks k + wait_ticks timeout_ms) k;
               Some (case out of Some x \<Rightarrow> x | None \<Rightarrow> sysret 0, k1) })"

definition poll_impl :: "(int \<Rightarrow> bool) \<Rightarrow> u64 \<Rightarrow> u64 \<Rightarrow> int \<Rightarrow> kernel \<Rightarrow> (sysout \<times> kernel) option" where
  "poll_impl sock fds nfds timeout_ms k =
    (if nfds = 0 then Some (sysret 0, k)
     else if nfds > 64 \<or> fds < 0x1000 then Some (sysret (- 22), k)
     else do { (ready, k1) \<leftarrow> poll_loop sock (map of_nat [0..<unat nfds]) fds 0 k;
               ready_or_sleep ready timeout_ms k1 })"

definition read_from_fdset :: "u64 \<Rightarrow> nat \<Rightarrow> kernel \<Rightarrow> u64 option" where
  "read_from_fdset ptr n k =
    (if ptr < 0x1000 \<or> n = 0 then Some 0
     else do { w0 \<leftarrow> uread64 ptr k; w1 \<leftarrow> uread64 (ptr + 8) k; Some w0 })"

definition clear_fdset :: "u64 \<Rightarrow> kernel \<Rightarrow> kernel option" where
  "clear_fdset ptr k = (if ptr < 0x1000 then Some k else uwrite ptr (replicate 128 0) k)"

definition set_fdset_bit :: "u64 \<Rightarrow> nat \<Rightarrow> kernel \<Rightarrow> kernel option" where
  "set_fdset_bit ptr fd k =
    (if ptr < 0x1000 then Some k
     else (let p = ptr + of_nat (fd div 64 * 8) in
           do { w \<leftarrow> uread64 p k; uwrite p (le64 (w OR push_bit (fd mod 64) 1)) k }))"

definition fd_read_ready :: "(int \<Rightarrow> bool) \<Rightarrow> nat \<Rightarrow> kernel \<Rightarrow> bool" where
  "fd_read_ready sock fd k =
    (if fd \<ge> 200 then sock (int fd)
     else if fd \<ge> MAX_FD then False
     else case fdt (cur_idx k) k ! fd of
       None \<Rightarrow> True
     | Some e \<Rightarrow>
         if backend e = DevTty then stdin_available (stdin k) > 0
         else if backend e = Pipe \<and> \<not> fd_writable e then pipe_read_ready (kpipes k) (raw_fd e)
         else True)"

text \<open>Only the first 64 descriptors are looked at, all in the first word of the sets.\<close>

fun select_loop ::
  "(int \<Rightarrow> bool) \<Rightarrow> nat list \<Rightarrow> u64 \<Rightarrow> u64 \<Rightarrow> u64 \<Rightarrow> u64 \<Rightarrow> int \<Rightarrow> kernel \<Rightarrow> (int \<times> kernel) option" where
  "select_loop sock [] rd wr rptr wptr ready k = Some (ready, k)"
| "select_loop sock (fd # fds) rd wr rptr wptr ready k =
    do { (r1, k1) \<leftarrow> (if bit rd fd \<and> fd_read_ready sock fd k
                     then map_option (\<lambda>k1. (ready + 1, k1)) (set_fdset_bit rptr fd k)
                     else Some (ready, k));
         (r2, k2) \<leftarrow> (if bit wr fd then map_option (\<lambda>k2. (r1 + 1, k2)) (set_fdset_bit wptr fd k1)
                     else Some (r1, k1));
         select_loop sock fds rd wr rptr wptr r2 k2 }"

definition select_timeout :: "u64 \<Rightarrow> kernel \<Rightarrow> (int + int) option" where
  "select_timeout ptr k =
    (if ptr = 0 then Some (Inr (- 1))
     else if ptr < 0x1000 then Some (Inl (- 22))
     else do { s \<leftarrow> uread64 ptr k; us \<leftarrow> uread64 (ptr + 8) k;
               Some (Inr (i64 (sint s * 1000 + (sgn (sint us) * (\<bar>sint us\<bar> div 1000))))) })"

definition select_impl ::
  "(int \<Rightarrow> bool) \<Rightarrow> u64 \<Rightarrow> u64 \<Rightarrow> u64 \<Rightarrow> u64 \<Rightarrow> kernel \<Rightarrow> (sysout \<times> kernel) option" where
  "select_impl sock nfds rptr wptr tptr k =
    (if nfds > 1024 then Some (sysret (- 22), k)
     else do { t \<leftarrow> select_timeout tptr k;
       case t of
         Inl e \<Rightarrow> Some (sysret e, k)
       | Inr timeout_ms \<Rightarrow>
          (let n = unat (min nfds 64) in
           do { rd \<leftarrow> read_from_fdset rptr n k;
                wr \<leftarrow> read_from_fdset wptr n k;
                k1 \<leftarrow> clear_fdset rptr k;
                k2 \<leftarrow> clear_fdset wptr k1;
                (ready, k3) \<leftarrow> select_loop sock [0..<n] rd wr rptr wptr 0 k2;
                ready_or_sleep ready timeout_ms k3 }) })"

section \<open>Removing a file under open descriptors\<close>

lemma resolve_parts_less: "resolve_parts fs i cs = Some j \<Longrightarrow> i < length fs \<Longrightarrow> j < length fs"
  by (induction cs arbitrary: i)
    (auto simp: find_child_def split: if_splits option.splits dest!: first_index_SomeD)

lemma resolve_less: "resolve fs path = Some j \<Longrightarrow> fs \<noteq> [] \<Longrightarrow> j < length fs"
  by (auto simp: resolve_def Let_def split: if_splits dest!: resolve_parts_less)

lemma on_inode_removed_nth:
  "j < length t \<Longrightarrow> on_inode_removed g t ! j =
    (case t ! j of
       None \<Rightarrow> None
     | Some e \<Rightarrow> if backend e \<noteq> RamFS then Some e else if inode_idx e = g then None
                else Some (e\<lparr>inode_idx := close_gap g (inode_idx e)\<rparr>))"
  by (auto simp: on_inode_removed_def close_gap_def split: option.split)

lemma unlink_tree:
  assumes "unlink_impl p k = Some (0, k')" "ramfs k = Some fs"
    and "\<not> is_fat_path (bytes_str p)" "\<not> is_ext2_path (bytes_str p)"
  obtains g where "resolve fs (bytes_str p) = Some g" "k' = drop_inode g (k\<lparr>ramfs := Some (without g fs)\<rparr>)"
  using assms
  by (auto simp: unlink_impl_def with_str_def remove_file_def without_def kdefs split: if_splits option.splits)

text \<open>C12. Removing a file closes the descriptors that refer to it and no other: in every task, a
  descriptor of the tree that was open on another file is still open, with the same position and
  access, on an inode with the same name, kind and contents, although the indices of the inodes have
  moved; descriptors of other backends are untouched.\<close>

theorem unlink_keeps_descriptors:
  assumes "unlink_impl p k = Some (0, k')" "ramfs k = Some fs"
    and "\<not> is_fat_path (bytes_str p)" "\<not> is_ext2_path (bytes_str p)"
    and "i < length (tasks k)" "j < length (fdt i k)" "fdt i k ! j = Some e" "inode_idx e < length fs"
  shows "\<exists>gone fs'. resolve fs (bytes_str p) = Some gone \<and> ramfs k' = Some fs' \<and>
    (if backend e \<noteq> RamFS then fdt i k' ! j = Some e
     else if inode_idx e = gone then fdt i k' ! j = None
     else \<exists>idx < length fs'. fdt i k' ! j = Some (e\<lparr>inode_idx := idx\<rparr>)
            \<and> iname (fs' ! idx) = iname (fs ! inode_idx e) \<and> kind (fs' ! idx) = kind (fs ! inode_idx e)
            \<and> data (fs' ! idx) = data (fs ! inode_idx e))"
proof -
  obtain g where g: "resolve fs (bytes_str p) = Some g"
      "k' = drop_inode g (k\<lparr>ramfs := Some (without g fs)\<rparr>)" by (rule unlink_tree [OF assms(1-4)])
  have "fs \<noteq> []" using assms(8) by auto
  then have less: "g < length fs" by (rule resolve_less [OF g(1)])
  have "fdt i k' ! j = (if backend e \<noteq> RamFS then Some e else if inode_idx e = g then None
                        else Some (e\<lparr>inode_idx := close_gap g (inode_idx e)\<rparr>))"
    using assms(5-7) g(2) by (simp add: fdt_def drop_inode_def on_inode_removed_nth)
  moreover have "ramfs k' = Some (without g fs)" using g(2) by (simp add: drop_inode_def)
  ultimately show ?thesis
    using g(1) without_nth [OF assms(8) _ less] less by auto
qed

text \<open>A tree of the root and two files, and a task with a descriptor on the second file.\<close>

definition two_files :: RamFs where
  "two_files =
    [\<lparr>iname = ''/'', parent_idx = ROOT_PARENT, kind = Directory, data = [], mode = 0x1ED, uid = 0, gid = 0\<rparr>,
     \<lparr>iname = ''a'', parent_idx = 0, kind = File, data = [1], mode = 0x1A4, uid = 0, gid = 0\<rparr>,
     \<lparr>iname = ''b'', parent_idx = 0, kind = File, data = [2], mode = 0x1A4, uid = 0, gid = 0\<rparr>]"

definition two_file_kernel :: kernel where
  "two_file_kernel =
    upd_task 0 (\<lambda>t. t\<lparr>fd_table := fd_table_new[3 := Some (fd_entry RamFS 2 0 5 False False)]\<rparr>)
      ((kernel_statics Map.empty ex_mm)\<lparr>ramfs := Some two_files\<rparr>)"

lemma two_file_kernel_fields:
  "ramfs two_file_kernel = Some two_files" "length (tasks two_file_kernel) = 8"
  "fdt 0 two_file_kernel = fd_table_new[3 := Some (fd_entry RamFS 2 0 5 False False)]"
  by (simp_all add: two_file_kernel_def kernel_statics_def fdt_def MAX_TASKS_def)

lemma slash_a: "valid_utf8 (bstr ''/a'')" "vfs_resolve ''/a'' = At_RamFS ''/a''" "resolve two_files ''/a'' = Some 1"
  by (simp_all add: bstr_def utf8_tail_def vfs_resolve_def under_mount_def starts_with_def resolve_def
      find_child_def two_files_def)

theorem unlink_keeps_descriptors_witness:
  "\<exists>k'. unlink_impl (bstr ''/a'') two_file_kernel = Some (0, k')
    \<and> (\<exists>idx fs'. ramfs k' = Some fs' \<and> fdt 0 k' ! 3 = Some (fd_entry RamFS idx 0 5 False False)
         \<and> iname (fs' ! idx) = ''b'' \<and> data (fs' ! idx) = [2])"
proof -
  have u: "\<exists>k'. unlink_impl (bstr ''/a'') two_file_kernel = Some (0, k')"
    by (simp add: unlink_impl_def with_str_def slash_a is_fat_path_def is_ext2_path_def
        two_file_kernel_fields(1) remove_file_def) (simp add: two_files_def)
  then obtain k' where k': "unlink_impl (bstr ''/a'') two_file_kernel = Some (0, k')" by blast
  have "3 < length (fdt 0 two_file_kernel)" "fdt 0 two_file_kernel ! 3 = Some (fd_entry RamFS 2 0 5 False False)"
    by (simp_all add: two_file_kernel_fields(3) fd_table_new_def MAX_FD_def)
  moreover have "length two_files = 3" "iname (two_files ! 2) = ''b''" "data (two_files ! 2) = [2]"
    by (simp_all add: two_files_def)
  moreover have "backend (fd_entry RamFS 2 0 5 False False) = RamFS"
    "inode_idx (fd_entry RamFS 2 0 5 False False) = 2"
    "(fd_entry RamFS 2 0 5 False False)\<lparr>inode_idx := idx\<rparr> = fd_entry RamFS idx 0 5 False False" for idx
    by (simp_all add: fd_entry_def)
  ultimately show ?thesis
    using k' unlink_keeps_descriptors [of "bstr ''/a''" two_file_kernel k' two_files 0 3 "fd_entry RamFS 2 0 5 False False"]
    by (auto simp: slash_a is_fat_path_def is_ext2_path_def two_file_kernel_fields(1,2))
qed

end
