(* ===== verification/Sys_Process.thy ===== *)
theory Sys_Process
  imports Sys_Base
begin

text \<open>
  The process, memory, signal and communication operations of the kernel's
  system call runtime, \<open>sys/syscall.rs\<close>.  The table of programs built into the
  kernel image is the parameter \<open>programs\<close>; the GS base register is the parameter
  \<open>gs\<close>.
\<close>

section \<open>Processes\<close>

definition upd_cur :: "(Task \<Rightarrow> Task) \<Rightarrow> kernel \<Rightarrow> kernel" where
  "upd_cur f k = upd_task (cur_idx k) f k"

definition fork_child :: "kernel \<Rightarrow> int \<times> kernel" where
  "fork_child k =
    (case syscall_ctx k of
       None \<Rightarrow> (- 1, k)
     | Some c \<Rightarrow>
        (case fork_task (cur_idx k) (c\<lparr>reg_rax := 0\<rparr>) k of
           (Inr pid, k1) \<Rightarrow> (uint pid, k1)
         | (Inl _, k1) \<Rightarrow> (- 4, k1)))"

definition waitpid_impl :: "u64 \<Rightarrow> kernel \<Rightarrow> (sysout \<times> kernel) option" where
  "waitpid_impl pid k =
    (let target = ucast pid; me = tpid (cur_task k) in
     case first_index (\<lambda>t. tpid t = target \<and> parent_pid t = me) (tasks k) of
       None \<Rightarrow> Some (sysret (- 3), k)
     | Some i \<Rightarrow>
        (case tstate (tasks k ! i) of
           Dead code \<Rightarrow> Some (sysret code, reap i k)
         | _ \<Rightarrow>
           (let k1 = k\<lparr>syscall_ctx := None\<rparr> in
            case syscall_ctx k of
              Some c \<Rightarrow> leave (wait_for_pid (cur_idx k) target c k1)
            | None \<Rightarrow> Some (sysret (- 6), k1))))"

definition kill_pid_sig :: "u64 \<Rightarrow> u8 \<Rightarrow> kernel \<Rightarrow> int \<times> kernel" where
  "kill_pid_sig pid signum k =
    (case send_signal (ucast pid) signum k of (done, k1) \<Rightarrow> (if done then 0 else - 3, k1))"

definition getppid_impl :: "kernel \<Rightarrow> int" where
  "getppid_impl k = uint (parent_pid (cur_task k))"

definition getpgid_impl :: "u32 \<Rightarrow> kernel \<Rightarrow> int" where
  "getpgid_impl pid k =
    (let target = (if pid = 0 then cur_idx k
                   else case first_index (\<lambda>t. tpid t = ucast pid) (tasks k) of
                     Some i \<Rightarrow> i | None \<Rightarrow> cur_idx k);
         t = tasks k ! target in
     uint (if pgid t = 0 then tpid t else pgid t))"

definition setpgid_impl :: "u32 \<Rightarrow> u32 \<Rightarrow> kernel \<Rightarrow> int \<times> kernel" where
  "setpgid_impl pid grp k =
    (let target = (if pid = 0 then ucast (tpid (cur_task k)) else pid);
         new = (if grp = 0 then ucast target else ucast grp) in
     case first_index (\<lambda>t. tpid t = ucast target) (tasks k) of
       Some i \<Rightarrow> (0, upd_task i (\<lambda>t. t\<lparr>pgid := new\<rparr>) k)
     | None \<Rightarrow> (- 3, k))"

definition arch_prctl_impl :: "u64 \<Rightarrow> u64 \<Rightarrow> u64 \<Rightarrow> kernel \<Rightarrow> (int \<times> kernel) option" where
  "arch_prctl_impl gs code addr k =
    (if code = 0x1002 then Some (0, upd_cur (\<lambda>t. t\<lparr>fs_base := addr\<rparr>) k)
     else if code = 0x1003 then
       (if addr = 0 then Some (- 14, k)
        else map_option (\<lambda>k1. (0, k1)) (uwrite addr (le64 (fs_base (cur_task k))) k))
     else if code = 0x1001 then Some (0, k)
     else if code = 0x1004 then
       (if addr = 0 then Some (- 14, k) else map_option (\<lambda>k1. (0, k1)) (uwrite addr (le64 gs) k))
     else Some (- 22, k))"

section \<open>Replacing the program\<close>

definition trim_slashes :: "string \<Rightarrow> string" where
  "trim_slashes s = rev (dropWhile (\<lambda>c. c = slash) (rev s))"

definition base_name :: "string \<Rightarrow> string" where
  "base_name path = last (split_on slash (trim_slashes path))"

function trim_bin :: "string \<Rightarrow> string" where
  "trim_bin s = (if starts_with ''bin/'' s then trim_bin (drop 4 s) else s)"
  by pat_completeness auto
termination
proof (relation "measure length")
  fix s assume "starts_with ''bin/'' s"
  then have "s \<noteq> []" by (auto simp: starts_with_def)
  then show "(drop 4 s, s) \<in> measure length" by simp
qed simp

declare trim_bin.simps [simp del]

definition is_ascii_ws :: "u8 \<Rightarrow> bool" where
  "is_ascii_ws b \<longleftrightarrow> b \<in> {32, 9, 10, 12, 13}"

fun split_ws :: "bytes \<Rightarrow> bytes \<Rightarrow> bytes list" where
  "split_ws [] acc = (if acc = [] then [] else [acc])"
| "split_ws (c # cs) acc =
    (if is_ascii_ws c then (if acc = [] then split_ws cs [] else acc # split_ws cs [])
     else split_ws cs (acc @ [c]))"

text \<open>The fields \<open>exec_binary\<close> replaces; signal handlers, memory regions and the rest stay.\<close>

definition exec_task :: "u64 \<Rightarrow> u64 \<Rightarrow> u64 \<Rightarrow> Task \<Rightarrow> Task" where
  "exec_task cr3 entry rsp t =
    t\<lparr>tcr3 := cr3, tentry := entry, first_run := True, initial_rsp := rsp,
      fd_table := take 3 (fd_table t) @ drop 3 fd_table_new, out_len := 0\<rparr>"

definition exec_binary :: "bytes \<Rightarrow> bytes \<Rightarrow> bytes \<Rightarrow> kernel \<Rightarrow> (sysout \<times> kernel) option" where
  "exec_binary binary prog_name extra k =
    (case create_user_page_table (kmm k) of
       (None, m1) \<Rightarrow> Some (Ret (err (- 4)), k\<lparr>kmm := m1\<rparr>)
     | (Some cr3, m1) \<Rightarrow>
      (case map_user_region_in cr3 stack_base USER_STACK_PAGES True False m1 of
         (Inl _, m2) \<Rightarrow> Some (Ret (err (- 4)), k\<lparr>kmm := m2\<rparr>)
       | (Inr _, m2) \<Rightarrow>
          do { m3 \<leftarrow> map_sigtramp cr3 m2;
               (res, m4) \<leftarrow> load_program binary cr3 m3;
               case res of
                 Inl _ \<Rightarrow> Some (Ret (err (if is_elf binary then - 1 else - 4)), k\<lparr>kmm := m4\<rparr>)
               | Inr entry \<Rightarrow>
                   do { (rsp, m5) \<leftarrow> write_argv_to_stack cr3 USER_STACK_TOP
                                        (prog_name # take 30 (split_ws extra [])) (kenv k) m4;
                        let old = tcr3 (cur_task k);
                            k1 = (upd_cur (exec_task cr3 entry rsp) k)
                                   \<lparr>kmm := (if old \<noteq> 0 then free_user_page_table old m5 else m5)\<rparr> in
                        leave (exit_to_kernel EXIT_PREEMPTED k1) } }))"

text \<open>All bytes of an open FAT file, read in pieces of 512 bytes until a read returns nothing.\<close>

partial_function (option) fat_slurp :: "int \<Rightarrow> bytes \<Rightarrow> bytes \<Rightarrow> FatFs \<Rightarrow> disks \<Rightarrow> (bytes \<times> FatFs) option" where
  "fat_slurp fd tmp buf f ds =
    (case fat_read_fd fd tmp f ds of
       (n, tmp', f') \<Rightarrow>
         if n \<le> 0 then Some (buf, f') else fat_slurp fd tmp' (buf @ take (nat n) tmp') f' ds)"

definition exec_fat :: "bytes \<Rightarrow> bytes \<Rightarrow> kernel \<Rightarrow> (sysout \<times> kernel) option" where
  "exec_fat p extra k =
    do { (fd, k1) \<leftarrow> kfat_open p 0 k;
         if fd < 0 then Some (Ret (err (- 2)), k1)
         else do { (buf, f) \<leftarrow> fat_slurp fd (replicate 512 0) [] (fatfs k1) (kdisks k1);
                   case fat_close fd f (kdisks k1) of
                     (_, f2, ds) \<Rightarrow>
                       (let k2 = (set_kdisks ds k1)\<lparr>fatfs := f2\<rparr>;
                            path = (if valid_utf8 p then bytes_str p else []) in
                        if buf = [] then Some (Ret (err (- 2)), k2)
                        else exec_binary buf (bstr (base_name path)) extra k2) } }"

text \<open>A further lookup is tried when the one before reports that there is no such file.\<close>

definition or_else ::
  "(sysout \<times> kernel) option \<Rightarrow> (kernel \<Rightarrow> (sysout \<times> kernel) option) \<Rightarrow> (sysout \<times> kernel) option" where
  "or_else r f = do { (out, k) \<leftarrow> r; if out = Ret (err (- 2)) then f k else Some (out, k) }"

definition exec_resolve ::
  "(string \<Rightarrow> bytes option) \<Rightarrow> bytes \<Rightarrow> bytes \<Rightarrow> kernel \<Rightarrow> (sysout \<times> kernel) option" where
  "exec_resolve programs p extra k =
    (if \<not> valid_utf8 p then Some (Ret (err (- 1)), k)
     else (let path = bytes_str p; name = bstr (base_name path);
               short = trim_bin (dropWhile (\<lambda>c. c = slash) path);
               file = (case ramfs k of None \<Rightarrow> [] | Some fs \<Rightarrow>
                         (case read_file path fs of None \<Rightarrow> [] | Some d \<Rightarrow> d)) in
       case programs short of
         Some b \<Rightarrow> exec_binary b name extra k
       | None \<Rightarrow>
           if file \<noteq> [] then exec_binary file name extra k
           else if starts_with ''/disk/'' path then exec_fat p extra k
           else if slash \<in> set path then Some (Ret (err (- 2)), k)
           else or_else (exec_fat (bstr ''/disk/'' @ p) extra k) (\<lambda>k1.
                  exec_fat (bstr ''/disk/'' @ p @ bstr ''.elf'') extra k1)))"

section \<open>Memory\<close>

definition USER_HEAP_BASE :: u64 where [kdefs]: "USER_HEAP_BASE = 0x1000000"
definition USER_MMAP_BASE :: u64 where [kdefs]: "USER_MMAP_BASE = 0x8000000"

definition page_up :: "u64 \<Rightarrow> u64" where
  "page_up a = (a + 4095) AND NOT 4095"

definition brk_program :: "u64 \<Rightarrow> kernel \<Rightarrow> int \<times> kernel" where
  "brk_program new_end k =
    (let t = cur_task k; cur_end = (if heap_end t = 0 then USER_HEAP_BASE else heap_end t);
         first_page = page_up cur_end; last_page = page_up new_end;
         k_end = upd_cur (\<lambda>t. t\<lparr>heap_end := new_end\<rparr>) in
     if new_end = 0 \<or> new_end < USER_HEAP_BASE \<or> new_end \<le> cur_end then (sint cur_end, k)
     else if last_page > first_page then
       (case map_user_region_in (tcr3 t) first_page (unat ((last_page - first_page) div 4096)) True False (kmm k) of
          (Inl _, m) \<Rightarrow> (- 4, k\<lparr>kmm := m\<rparr>)
        | (Inr _, m) \<Rightarrow> (sint new_end, k_end (k\<lparr>kmm := m\<rparr>)))
     else (sint new_end, k_end k))"

definition record_region :: "u64 \<Rightarrow> nat \<Rightarrow> Task \<Rightarrow> Task" where
  "record_region base pages t =
    (let nr = mmap_nregions t; t1 = t\<lparr>mmap_end := base + of_nat pages * 4096\<rparr> in
     if nr < MAX_MMAP_REGIONS
     then t1\<lparr>mmap_regions := (mmap_regions t)[nr := \<lparr>mr_virt = base, mr_pages = of_nat pages\<rparr>],
             mmap_nregions := nr + 1\<rparr>
     else t1)"

definition mmap_anon :: "u64 \<Rightarrow> kernel \<Rightarrow> int \<times> kernel" where
  "mmap_anon len k =
    (if len = 0 then (- 22, k)
     else (let t = cur_task k; base = (if mmap_end t = 0 then USER_MMAP_BASE else mmap_end t);
               pages = unat ((len + 4095) div 4096) in
       case map_user_region_in (tcr3 t) base pages True False (kmm k) of
         (Inl _, m) \<Rightarrow> (- 12, k\<lparr>kmm := m\<rparr>)
       | (Inr _, m) \<Rightarrow> (sint base, upd_cur (record_region base pages) (k\<lparr>kmm := m\<rparr>))))"

definition forget_region :: "u64 \<Rightarrow> Task \<Rightarrow> Task" where
  "forget_region addr t =
    (let nr = mmap_nregions t; rs = mmap_regions t in
     case first_index (\<lambda>r. mr_virt r = addr) (take nr rs) of
       None \<Rightarrow> t
     | Some i \<Rightarrow> t\<lparr>mmap_regions := (rs[i := rs ! (nr - 1)])[nr - 1 := mmap_region_empty],
                   mmap_nregions := nr - 1\<rparr>)"

definition munmap_impl :: "u64 \<Rightarrow> u64 \<Rightarrow> kernel \<Rightarrow> int \<times> kernel" where
  "munmap_impl addr len k =
    (if len = 0 then (- 22, k)
     else (0, upd_cur (forget_region addr)
            (k\<lparr>kmm := unmap_user_region_in (tcr3 (cur_task k)) addr (unat ((len + 4095) div 4096)) (kmm k)\<rparr>)))"

section \<open>Information\<close>

definition utsname :: bytes where
  "utsname = concat (map (\<lambda>s. bstr s @ replicate (65 - length s) 0)
    [''OxideOS'', ''oxideos'', ''0.1.0'', ''#1 SMP'', ''x86_64'', ''(none)''])"

definition uname_impl :: "u64 \<Rightarrow> kernel \<Rightarrow> (int \<times> kernel) option" where
  "uname_impl buf k = (if buf = 0 then Some (- 14, k) else map_option (\<lambda>k1. (0, k1)) (uwrite buf utsname k))"

definition clock_gettime_impl :: "u64 \<Rightarrow> kernel \<Rightarrow> (int \<times> kernel) option" where
  "clock_gettime_impl tp k =
    (if tp = 0 then Some (- 14, k)
     else map_option (\<lambda>k1. (0, k1))
            (uwrite tp (le64 (ticks k div 100) @ le64 (ticks k mod 100 * 10000000)) k))"

definition getrlimit_impl :: "u64 \<Rightarrow> kernel \<Rightarrow> (int \<times> kernel) option" where
  "getrlimit_impl p k =
    (if p = 0 then Some (- 22, k) else map_option (\<lambda>k1. (0, k1)) (uwrite p (le64 (- 1) @ le64 (- 1)) k))"

definition getrusage_impl :: "u64 \<Rightarrow> kernel \<Rightarrow> (int \<times> kernel) option" where
  "getrusage_impl p k =
    (if p = 0 then Some (- 22, k) else map_option (\<lambda>k1. (0, k1)) (uwrite p (replicate 144 0) k))"

definition sysinfo_impl :: "u64 \<Rightarrow> kernel \<Rightarrow> (int \<times> kernel) option" where
  "sysinfo_impl p k =
    (if p = 0 then Some (- 22, k)
     else map_option (\<lambda>k1. (0, k1))
            (uwrite p (le64 (ticks k div 100) @ le64 (128 * 1024 * 1024) @ le64 (64 * 1024 * 1024)
                         @ replicate 80 0 @ le32 4096 @ replicate 4 0) k))"

section \<open>Environment, pipes, queues and shared memory\<close>

definition getenv_impl :: "bytes \<Rightarrow> u64 \<Rightarrow> u64 \<Rightarrow> kernel \<Rightarrow> (int \<times> kernel) option" where
  "getenv_impl key buf len k =
    (case getenv key (kenv k) of
       None \<Rightarrow> Some (- 7, k)
     | Some v \<Rightarrow> (let n = min (length v) (unat len) in
                 map_option (\<lambda>k1. (int n, k1)) (uwrite buf (take n v) k)))"

definition setenv_impl :: "bytes \<Rightarrow> bytes \<Rightarrow> kernel \<Rightarrow> int \<times> kernel" where
  "setenv_impl key v k =
    (case setenv key v (kenv k) of (done, es) \<Rightarrow> (if done then 0 else - 1, k\<lparr>kenv := es\<rparr>))"

definition pipe_alloc_impl :: "u64 \<Rightarrow> u64 \<Rightarrow> kernel \<Rightarrow> (int \<times> kernel) option" where
  "pipe_alloc_impl rptr wptr k =
    (case pipe_alloc (kpipes k) of
       (None, ps) \<Rightarrow> Some (- 6, k\<lparr>kpipes := ps\<rparr>)
     | (Some (raw_r, raw_w), ps) \<Rightarrow>
        (case open_pipe raw_r raw_w (fdt (cur_idx k) k) of
           (Some (r, w), t) \<Rightarrow>
             do { k1 \<leftarrow> uwrite rptr (le32 (of_nat r)) (set_fdt (cur_idx k) t (k\<lparr>kpipes := ps\<rparr>));
                  k2 \<leftarrow> uwrite wptr (le32 (of_nat w)) k1;
                  Some (0, k2) }
         | (None, t) \<Rightarrow>
             Some (- 24, (set_fdt (cur_idx k) t k)
                     \<lparr>kpipes := snd (pipe_close raw_w (snd (pipe_close raw_r ps)))\<rparr>)))"

definition msgrcv_impl :: "u32 \<Rightarrow> u64 \<Rightarrow> kernel \<Rightarrow> (int \<times> kernel) option" where
  "msgrcv_impl ident out k =
    (case msgrcv ident message_empty (kqueues k) of
       (r, msg, qs) \<Rightarrow>
         (let k1 = k\<lparr>kqueues := qs\<rparr> in
          if r = 0 then map_option (\<lambda>k2. (r, k2)) (uwrite out (message_bytes msg) k1) else Some (r, k1)))"

definition msgrcv_wait_impl :: "u32 \<Rightarrow> u64 \<Rightarrow> kernel \<Rightarrow> (sysout \<times> kernel) option" where
  "msgrcv_wait_impl ident out k =
    do { (r, k1) \<leftarrow> msgrcv_impl ident out k;
         if r = 0 then Some (sysret 0, k1)
         else (let k2 = k1\<lparr>syscall_ctx := None\<rparr> in
               case syscall_ctx k of
                 Some c \<Rightarrow> leave (wait_for_msg ident out c k2)
               | None \<Rightarrow> Some (sysret (- 11), k2)) }"

definition shmget_impl :: "u32 \<Rightarrow> u64 \<Rightarrow> kernel \<Rightarrow> int \<times> kernel" where
  "shmget_impl key sz k =
    (case shmget key sz (segtab k) (kmm k) of (r, segs, m) \<Rightarrow> (r, k\<lparr>segtab := segs, kmm := m\<rparr>))"

definition shmat_impl :: "u32 \<Rightarrow> kernel \<Rightarrow> int \<times> kernel" where
  "shmat_impl shmid k =
    (case shmat shmid (tcr3 (cur_task k)) (shm_attaches (cur_task k)) (segtab k) (kmm k) of
       (r, atts, segs, m) \<Rightarrow> (r, upd_cur (\<lambda>t. t\<lparr>shm_attaches := atts\<rparr>) (k\<lparr>segtab := segs, kmm := m\<rparr>)))"

definition shmdt_impl :: "u64 \<Rightarrow> kernel \<Rightarrow> int \<times> kernel" where
  "shmdt_impl addr k =
    (case shmdt addr (shm_attaches (cur_task k)) (segtab k) of
       (r, atts, segs) \<Rightarrow> (r, upd_cur (\<lambda>t. t\<lparr>shm_attaches := atts\<rparr>) (k\<lparr>segtab := segs\<rparr>)))"

section \<open>Signals\<close>

definition sigaction_impl :: "u32 \<Rightarrow> u64 \<Rightarrow> u64 \<Rightarrow> kernel \<Rightarrow> (int \<times> kernel) option" where
  "sigaction_impl signum handler old_ptr k =
    (if signum = 0 \<or> unat signum \<ge> NSIG then Some (- 22, k)
     else if old_ptr \<noteq> 0 \<and> validate_user_range old_ptr 8 \<noteq> None then Some (- 14, k)
     else do { k1 \<leftarrow> (if old_ptr \<noteq> 0
                      then uwrite old_ptr (le64 (signal_handlers (cur_task k) ! unat signum)) k
                      else Some k);
               Some (0, upd_cur (\<lambda>t. t\<lparr>signal_handlers := (signal_handlers t)[unat signum := handler]\<rparr>) k1) })"

definition frame_context :: "bytes \<Rightarrow> u64 \<Rightarrow> TaskContext \<Rightarrow> TaskContext" where
  "frame_context bs rsp c =
    (let w = (\<lambda>i. rd64 bs (8 * i)) in
     c\<lparr>reg_rip := w 0, reg_rax := w 1, reg_rbx := w 2, reg_rcx := w 3, reg_rdx := w 4, reg_rsi := w 5,
       reg_rdi := w 6, reg_r8 := w 7, reg_r9 := w 8, reg_r10 := w 9, reg_r11 := w 10, reg_r12 := w 11,
       reg_r13 := w 12, reg_r14 := w 13, reg_r15 := w 14, reg_rbp := w 15, reg_rflags := w 16,
       reg_rsp := rsp + FRAME_SIZE + 8\<rparr>)"

definition sigreturn_impl :: "kernel \<Rightarrow> (int \<times> kernel) option" where
  "sigreturn_impl k =
    (let rsp = reg_rsp (ctx (cur_task k)) in
     do { bs \<leftarrow> uread rsp (unat FRAME_SIZE) k;
          Some (0, upd_cur (\<lambda>t. (if in_sigsuspend t
                                 then t\<lparr>in_sigsuspend := False, signal_mask := saved_signal_mask t\<rparr>
                                 else t)\<lparr>ctx := frame_context bs rsp (ctx t)\<rparr>) k) })"

definition sigprocmask_impl :: "u32 \<Rightarrow> u64 \<Rightarrow> u64 \<Rightarrow> kernel \<Rightarrow> (int \<times> kernel) option" where
  "sigprocmask_impl how set_ptr old_ptr k =
    do { k1 \<leftarrow> (if old_ptr \<noteq> 0 then uwrite old_ptr (le64 (ucast (signal_mask (cur_task k)))) k else Some k);
         if set_ptr = 0 then Some (0, k1)
         else do { raw \<leftarrow> uread64 set_ptr k1;
                   let new = ucast raw AND NOT always_deliverable in
                   if how = 0 then Some (0, upd_cur (\<lambda>t. t\<lparr>signal_mask := signal_mask t OR new\<rparr>) k1)
                   else if how = 1 then Some (0, upd_cur (\<lambda>t. t\<lparr>signal_mask := signal_mask t AND NOT new\<rparr>) k1)
                   else if how = 2 then Some (0, upd_cur (\<lambda>t. t\<lparr>signal_mask := new\<rparr>) k1)
                   else Some (- 22, k1) } }"

definition alarm_impl :: "u32 \<Rightarrow> kernel \<Rightarrow> int \<times> kernel" where
  "alarm_impl seconds k =
    (let now = ticks k; dl = alarm_deadline (cur_task k) in
     (sint (if dl > now then (dl - now) div 100 else 0),
      upd_cur (\<lambda>t. t\<lparr>alarm_deadline := (if seconds = 0 then 0 else now + ucast seconds * 100)\<rparr>) k))"

definition sigpending_impl :: "u64 \<Rightarrow> kernel \<Rightarrow> (int \<times> kernel) option" where
  "sigpending_impl set_ptr k =
    (if set_ptr = 0 then Some (- 14, k)
     else map_option (\<lambda>k1. (0, k1))
            (uwrite set_ptr (le64 (ucast (pending_signals (cur_task k) AND signal_mask (cur_task k)))) k))"

definition sigsuspend_impl :: "u64 \<Rightarrow> kernel \<Rightarrow> (int \<times> kernel) option" where
  "sigsuspend_impl mask_ptr k =
    do { raw \<leftarrow> (if mask_ptr \<noteq> 0 then uread64 mask_ptr k else Some 0);
         Some (- 4, upd_cur (\<lambda>t. t\<lparr>saved_signal_mask := signal_mask t, in_sigsuspend := True,
                 signal_mask := ucast raw AND NOT always_deliverable,
                 tstate := Sleeping ((2 ^ 64 - 1) div 2)\<rparr>) k) }"

end
