(* ===== verification/Syscalls.thy ===== *)
theory Syscalls
  imports Sys_Files Sys_Process
begin

text \<open>
  The dispatcher of system calls, \<open>sys/syscall_core.rs\<close>, with the kernel's runtime
  (\<open>sys/syscall.rs\<close>) filled in.  \<open>Syscall::from\<close> and the \<open>match\<close> of \<open>dispatch\<close> together
  are the table from numbers to handlers.  Sockets, windows, terminal control,
  name resolution and the installer are the parameter \<open>hw_ext\<close>.  A slice of user
  memory is read when it is built; the source reads it when it is used, which
  differs only for a call that fails before it looks at an unmapped slice.
\<close>

section \<open>Requests\<close>

record SyscallRequest =
  arg1 :: u64
  arg2 :: u64
  arg3 :: u64
  arg4 :: u64
  arg5 :: u64

record machine_env =
  hw_sock :: "int \<Rightarrow> bool"
  hw_programs :: "string \<Rightarrow> bytes option"
  hw_gs :: u64
  hw_irq :: "nat \<Rightarrow> kernel \<Rightarrow> kernel"
  hw_ext :: "u64 \<Rightarrow> SyscallRequest \<Rightarrow> kernel \<Rightarrow> (SyscallResult \<times> kernel) option"

type_synonym handler = "machine_env \<Rightarrow> SyscallRequest \<Rightarrow> kernel \<Rightarrow> (sysout \<times> kernel) option"

definition fd_arg :: "u64 \<Rightarrow> int" where
  "fd_arg a = sint (ucast a :: u32)"

definition reply :: "int \<times> kernel \<Rightarrow> (sysout \<times> kernel) option" where
  "reply rk = Some (sysret (fst rk), snd rk)"

definition reply_opt :: "(int \<times> kernel) option \<Rightarrow> (sysout \<times> kernel) option" where
  "reply_opt r = map_option (\<lambda>(v, k). (sysret v, k)) r"

definition reply_ok :: "int \<Rightarrow> kernel \<Rightarrow> (sysout \<times> kernel) option" where
  "reply_ok v k = Some (Ret (ok v), k)"

definition reject :: "int \<Rightarrow> kernel \<Rightarrow> (sysout \<times> kernel) option" where
  "reject e k = Some (Ret (err e), k)"

section \<open>Slices of user memory\<close>

definition checked :: "u64 \<Rightarrow> u64 \<Rightarrow> kernel \<Rightarrow> (sysout \<times> kernel) option \<Rightarrow> (sysout \<times> kernel) option" where
  "checked ptr len k f = (case validate_user_range ptr len of Some e \<Rightarrow> reject e k | None \<Rightarrow> f)"

definition with_slice ::
  "u64 \<Rightarrow> u64 \<Rightarrow> kernel \<Rightarrow> (bytes \<Rightarrow> (sysout \<times> kernel) option) \<Rightarrow> (sysout \<times> kernel) option" where
  "with_slice ptr len k f = checked ptr len k (do { bs \<leftarrow> uread ptr (unat len) k; f bs })"

text \<open>A path whose length the kernel finds itself, by \<open>strnlen_user\<close>.\<close>

definition with_cpath ::
  "u64 \<Rightarrow> kernel \<Rightarrow> (bytes \<Rightarrow> (sysout \<times> kernel) option) \<Rightarrow> (sysout \<times> kernel) option" where
  "with_cpath ptr k f =
    do { len \<leftarrow> strnlen_user ptr 4096 k;
         if len = 0 then reject SC_EINVAL k else with_slice ptr len k f }"

section \<open>The system calls\<close>

definition sys_open :: "u64 \<Rightarrow> u64 \<Rightarrow> kernel \<Rightarrow> (sysout \<times> kernel) option" where
  "sys_open path_ptr flags k = with_cpath path_ptr k (\<lambda>path. reply_opt (fs_open path (ucast flags) k))"

definition sys_read :: "int \<Rightarrow> u64 \<Rightarrow> u64 \<Rightarrow> kernel \<Rightarrow> (sysout \<times> kernel) option" where
  "sys_read fd ptr cnt k =
    (if cnt = 0 then reply_ok 0 k
     else checked ptr cnt k
       (do { (r, k1) \<leftarrow> fs_read_user fd ptr cnt k;
             if fd \<noteq> 0 \<or> r \<noteq> SC_EBADF then reply (r, k1)
             else (case get_char k1 of
                     (c, k2) \<Rightarrow>
                       if c < 0 then reject c k2
                       else do { k3 \<leftarrow> uwrite ptr [of_int c] k2; reply_ok 1 k3 }) }))"

definition sys_write :: "int \<Rightarrow> u64 \<Rightarrow> u64 \<Rightarrow> kernel \<Rightarrow> (sysout \<times> kernel) option" where
  "sys_write fd ptr cnt k =
    (if fd < 0 then reject SC_EBADF k
     else with_slice ptr cnt k (\<lambda>buf.
       if fd = 1 \<or> fd = 2 then
         do { (r, k1) \<leftarrow> fs_write_file fd buf k;
              if r \<noteq> EBADF then reply (r, k1) else reply_ok (sint cnt) (write_console buf k1) }
       else if fd \<ge> 3 then reply_opt (fs_write_file fd buf k)
       else reject SC_EBADF k))"

definition sys_print :: "u64 \<Rightarrow> u64 \<Rightarrow> kernel \<Rightarrow> (sysout \<times> kernel) option" where
  "sys_print ptr len k = with_slice ptr len k (\<lambda>msg. reply_ok (sint len) (write_console msg k))"

definition sat_add64 :: "u64 \<Rightarrow> u64 \<Rightarrow> u64" where
  "sat_add64 a b = (if uint a + uint b \<ge> 2 ^ 64 then - 1 else a + b)"

definition sat_mul64 :: "u64 \<Rightarrow> u64 \<Rightarrow> u64" where
  "sat_mul64 a b = (if uint a * uint b \<ge> 2 ^ 64 then - 1 else a * b)"

definition sys_sleep :: "u64 \<Rightarrow> kernel \<Rightarrow> (sysout \<times> kernel) option" where
  "sys_sleep ms k =
    do { (out, k1) \<leftarrow> sleep_until_tick (sat_add64 (ticks k) (sat_mul64 ms TIMER_HZ div 1000)) k;
         Some (case out of Some x \<Rightarrow> x | None \<Rightarrow> Ret (ok 0), k1) }"

definition sys_get_system_info :: "u64 \<Rightarrow> kernel \<Rightarrow> (sysout \<times> kernel) option" where
  "sys_get_system_info ptr k =
    do { (e, k1) \<leftarrow> write_user_value ptr (system_info k) k;
         case e of None \<Rightarrow> reply_ok 0 k1 | Some c \<Rightarrow> reject c k1 }"

definition sys_exec :: "(string \<Rightarrow> bytes option) \<Rightarrow> u64 \<Rightarrow> u64 \<Rightarrow> kernel \<Rightarrow> (sysout \<times> kernel) option" where
  "sys_exec programs path_ptr a2 k =
    do { len \<leftarrow> (if a2 \<ge> 4096 \<or> a2 = 0 then strnlen_user path_ptr 4096 k else Some a2);
         if len = 0 then reject SC_EINVAL k
         else with_slice path_ptr len k (\<lambda>path. exec_resolve programs path [] k) }"

definition sys_exec_args ::
  "(string \<Rightarrow> bytes option) \<Rightarrow> u64 \<Rightarrow> u64 \<Rightarrow> u64 \<Rightarrow> u64 \<Rightarrow> kernel \<Rightarrow> (sysout \<times> kernel) option" where
  "sys_exec_args programs path_ptr path_len args_ptr args_len k =
    with_slice path_ptr path_len k (\<lambda>path.
      if path_len = 0 then reject SC_EINVAL k
      else with_slice args_ptr args_len k (\<lambda>args.
        exec_resolve programs path (if valid_utf8 args then args else []) k))"

definition sys_pipe :: "u64 \<Rightarrow> u64 \<Rightarrow> kernel \<Rightarrow> (sysout \<times> kernel) option" where
  "sys_pipe rptr wptr k = checked rptr 4 k (checked wptr 4 k (reply_opt (pipe_alloc_impl rptr wptr k)))"

definition sys_kill :: "u64 \<Rightarrow> u64 \<Rightarrow> kernel \<Rightarrow> (sysout \<times> kernel) option" where
  "sys_kill pid signum k = reply (kill_pid_sig pid (ucast (if signum = 0 then 9 else signum)) k)"

definition sys_readdir :: "u64 \<Rightarrow> u64 \<Rightarrow> u64 \<Rightarrow> u64 \<Rightarrow> kernel \<Rightarrow> (sysout \<times> kernel) option" where
  "sys_readdir path_ptr path_len buf len k =
    checked path_ptr path_len k (checked buf len k
      (with_slice path_ptr path_len k (\<lambda>path. reply_opt (readdir_impl path buf len k))))"

definition sys_mkdir :: "u64 \<Rightarrow> u64 \<Rightarrow> kernel \<Rightarrow> (sysout \<times> kernel) option" where
  "sys_mkdir path_ptr path_len k = with_slice path_ptr path_len k (\<lambda>path. reply_opt (mkdir_impl path k))"

definition sys_chdir :: "u64 \<Rightarrow> kernel \<Rightarrow> (sysout \<times> kernel) option" where
  "sys_chdir path_ptr k = with_cpath path_ptr k (\<lambda>path. reply_opt (chdir_impl path k))"

definition sys_getcwd :: "u64 \<Rightarrow> u64 \<Rightarrow> kernel \<Rightarrow> (sysout \<times> kernel) option" where
  "sys_getcwd buf len k = checked buf len k (reply_opt (getcwd_impl buf len k))"

text \<open>A second argument that looks like a pointer is the buffer of the Linux form.\<close>

definition sys_stat :: "u64 \<Rightarrow> u64 \<Rightarrow> u64 \<Rightarrow> kernel \<Rightarrow> (sysout \<times> kernel) option" where
  "sys_stat path_ptr a2 a3 k =
    do { len \<leftarrow> (if a2 \<ge> 4096 then strnlen_user path_ptr 4096 k else Some a2);
         let buf = (if a2 \<ge> 4096 then a2 else a3) in
         if len = 0 then reject SC_EINVAL k
         else checked path_ptr len k (checked buf 144 k
                (with_slice path_ptr len k (\<lambda>path. reply_opt (stat_impl path buf k)))) }"

definition sys_getenv :: "u64 \<Rightarrow> u64 \<Rightarrow> u64 \<Rightarrow> u64 \<Rightarrow> kernel \<Rightarrow> (sysout \<times> kernel) option" where
  "sys_getenv key_ptr klen buf len k =
    checked key_ptr klen k (checked buf len k
      (with_slice key_ptr klen k (\<lambda>key. reply_opt (getenv_impl key buf len k))))"

definition sys_setenv :: "u64 \<Rightarrow> u64 \<Rightarrow> u64 \<Rightarrow> u64 \<Rightarrow> kernel \<Rightarrow> (sysout \<times> kernel) option" where
  "sys_setenv key_ptr klen val_ptr vlen k =
    with_slice key_ptr klen k (\<lambda>key. with_slice val_ptr vlen k (\<lambda>v. reply (setenv_impl key v k)))"

definition sys_msgsnd :: "u32 \<Rightarrow> u32 \<Rightarrow> u64 \<Rightarrow> u64 \<Rightarrow> kernel \<Rightarrow> (sysout \<times> kernel) option" where
  "sys_msgsnd ident ty ptr len k =
    with_slice ptr len k (\<lambda>d. case msgsnd ident ty d (kqueues k) of (r, qs) \<Rightarrow> reply (r, k\<lparr>kqueues := qs\<rparr>))"

definition MESSAGE_SIZE :: u64 where [kdefs]: "MESSAGE_SIZE = 264"

definition sys_msgrcv :: "u32 \<Rightarrow> u64 \<Rightarrow> kernel \<Rightarrow> (sysout \<times> kernel) option" where
  "sys_msgrcv ident out k = checked out MESSAGE_SIZE k (reply_opt (msgrcv_impl ident out k))"

definition sys_msgrcv_wait :: "u32 \<Rightarrow> u64 \<Rightarrow> kernel \<Rightarrow> (sysout \<times> kernel) option" where
  "sys_msgrcv_wait ident out k = checked out MESSAGE_SIZE k (msgrcv_wait_impl ident out k)"

definition sys_msgq_create :: "u32 \<Rightarrow> kernel \<Rightarrow> (sysout \<times> kernel) option" where
  "sys_msgq_create ident k = (case msgq_create ident (kqueues k) of (r, qs) \<Rightarrow> reply (r, k\<lparr>kqueues := qs\<rparr>))"

definition sys_msgq_destroy :: "u32 \<Rightarrow> kernel \<Rightarrow> (sysout \<times> kernel) option" where
  "sys_msgq_destroy ident k = (case msgq_destroy ident (kqueues k) of (r, qs) \<Rightarrow> reply (r, k\<lparr>kqueues := qs\<rparr>))"

definition sys_unlink :: "u64 \<Rightarrow> u64 \<Rightarrow> kernel \<Rightarrow> (sysout \<times> kernel) option" where
  "sys_unlink ptr len k = with_slice ptr len k (\<lambda>path. reply_opt (unlink_impl path k))"

definition sys_rename :: "u64 \<Rightarrow> u64 \<Rightarrow> u64 \<Rightarrow> u64 \<Rightarrow> kernel \<Rightarrow> (sysout \<times> kernel) option" where
  "sys_rename optr olen nptr nlen k =
    checked optr olen k (checked nptr nlen k
      (with_slice optr olen k (\<lambda>old. with_slice nptr nlen k (\<lambda>new. reply_opt (rename_impl old new k)))))"

section \<open>The table\<close>

definition file_calls :: "(u64 \<times> handler) list" where
  "file_calls =
    [(0, \<lambda>h r k. sys_read (fd_arg (arg1 r)) (arg2 r) (arg3 r) k),
     (1, \<lambda>h r k. sys_write (fd_arg (arg1 r)) (arg2 r) (arg3 r) k),
     (2, \<lambda>h r k. sys_open (arg1 r) (arg2 r) k),
     (3, \<lambda>h r k. reply (fs_close (fd_arg (arg1 r)) k)),
     (4, \<lambda>h r k. sys_stat (arg1 r) (arg2 r) (arg3 r) k),
     (5, \<lambda>h r k. reply_opt (fstat_impl (fd_arg (arg1 r)) (arg2 r) k)),
     (6, \<lambda>h r k. sys_stat (arg1 r) (arg2 r) (arg3 r) k),
     (7, \<lambda>h r k. poll_impl (hw_sock h) (arg1 r) (arg2 r) (sint (arg3 r)) k),
     (8, \<lambda>h r k. reply_opt (lseek_impl (fd_arg (arg1 r)) (sint (arg2 r)) (ucast (arg3 r)) k)),
     (17, \<lambda>h r k. reply_opt (pread64_impl (fd_arg (arg1 r)) (arg2 r) (arg3 r) (sint (arg4 r)) k)),
     (18, \<lambda>h r k. reply_opt (pwrite64_impl (fd_arg (arg1 r)) (arg2 r) (arg3 r) (sint (arg4 r)) k)),
     (19, \<lambda>h r k. reply_opt (readv_impl (fd_arg (arg1 r)) (arg2 r) (ucast (arg3 r)) k)),
     (20, \<lambda>h r k. reply_opt (writev_impl (fd_arg (arg1 r)) (arg2 r) (ucast (arg3 r)) k)),
     (21, \<lambda>h r k. with_cpath (arg1 r) k (\<lambda>path. reply_opt (access_impl path k))),
     (22, \<lambda>h r k. sys_pipe (arg1 r) (arg2 r) k),
     (23, \<lambda>h r k. select_impl (hw_sock h) (arg1 r) (arg2 r) (arg3 r) (arg5 r) k),
     (32, \<lambda>h r k. reply (dup_impl (fd_arg (arg1 r)) k)),
     (33, \<lambda>h r k. reply (dup2_impl (fd_arg (arg1 r)) (fd_arg (arg2 r)) k)),
     (72, \<lambda>h r k. reply (fcntl_impl (fd_arg (arg1 r)) (arg2 r) (arg3 r) k)),
     (76, \<lambda>h r k. reply_opt (truncate_impl (fd_arg (arg1 r)) (arg2 r) k)),
     (77, \<lambda>h r k. reply_opt (ftruncate_impl (fd_arg (arg1 r)) (arg2 r) k)),
     (78, \<lambda>h r k. if arg1 r < 4096
            then checked (arg2 r) (arg3 r) k (reply_opt (getdents64_impl (fd_arg (arg1 r)) (arg2 r) (arg3 r) k))
            else sys_readdir (arg1 r) (arg2 r) (arg3 r) (arg4 r) k),
     (79, \<lambda>h r k. sys_getcwd (arg1 r) (arg2 r) k),
     (80, \<lambda>h r k. sys_chdir (arg1 r) k),
     (82, \<lambda>h r k. sys_rename (arg1 r) (arg2 r) (arg3 r) (arg4 r) k),
     (83, \<lambda>h r k. sys_mkdir (arg1 r) (arg2 r) k),
     (84, \<lambda>h r k. sys_unlink (arg1 r) (arg2 r) k),
     (85, \<lambda>h r k. with_slice (arg1 r) (arg2 r) k (\<lambda>path. reply_opt (fs_open path 0x241 k))),
     (87, \<lambda>h r k. sys_unlink (arg1 r) (arg2 r) k),
     (89, \<lambda>h r k. with_cpath (arg1 r) k (\<lambda>path. reject (- 22) k)),
     (90, \<lambda>h r k. with_slice (arg1 r) (arg2 r) k (\<lambda>path. reply_opt (chmod_impl path (ucast (arg3 r)) k))),
     (92, \<lambda>h r k. with_slice (arg1 r) (arg2 r) k
            (\<lambda>path. reply_opt (chown_impl path (ucast (arg3 r)) (ucast (arg4 r)) k))),
     (94, \<lambda>h r k. checked (arg1 r) (arg2 r) k (reply_ok 0 k)),
     (257, \<lambda>h r k. with_cpath (arg2 r) k (\<lambda>path. reply_opt (fs_open path (ucast (arg3 r)) k))),
     (270, \<lambda>h r k. select_impl (hw_sock h) (arg1 r) (arg2 r) (arg3 r) (arg5 r) k),
     (293, \<lambda>h r k. sys_pipe (arg1 r) (arg2 r) k)]"

definition process_calls :: "(u64 \<times> handler) list" where
  "process_calls =
    [(9, \<lambda>h r k. reply (mmap_anon (arg2 r) k)),
     (11, \<lambda>h r k. reply (munmap_impl (arg1 r) (arg2 r) k)),
     (12, \<lambda>h r k. reply (brk_program (arg1 r) k)),
     (13, \<lambda>h r k. reply_opt (sigaction_impl (ucast (arg1 r)) (arg2 r) (arg3 r) k)),
     (14, \<lambda>h r k. reply_opt (sigprocmask_impl (ucast (arg1 r)) (arg2 r) (arg3 r) k)),
     (15, \<lambda>h r k. reply_opt (sigreturn_impl k)),
     (29, \<lambda>h r k. reply (shmget_impl (ucast (arg1 r)) (arg2 r) k)),
     (30, \<lambda>h r k. reply (shmat_impl (ucast (arg1 r)) k)),
     (35, \<lambda>h r k. sys_sleep (arg1 r) k),
     (37, \<lambda>h r k. case alarm_impl (ucast (arg1 r)) k of (v, k1) \<Rightarrow> reply_ok v k1),
     (39, \<lambda>h r k. reply_ok (sint (current_pid k)) k),
     (57, \<lambda>h r k. reply (fork_child k)),
     (58, \<lambda>h r k. reply (fork_child k)),
     (59, \<lambda>h r k. sys_exec (hw_programs h) (arg1 r) (arg2 r) k),
     (60, \<lambda>h r k. sys_exit (ucast (arg1 r)) k),
     (61, \<lambda>h r k. waitpid_impl (arg1 r) k),
     (62, \<lambda>h r k. sys_kill (arg1 r) (arg2 r) k),
     (63, \<lambda>h r k. reply_opt (uname_impl (arg1 r) k)),
     (67, \<lambda>h r k. reply (shmdt_impl (arg1 r) k)),
     (96, \<lambda>h r k. reply_ok (sint (ticks k)) k),
     (97, \<lambda>h r k. reply_opt (getrlimit_impl (arg2 r) k)),
     (98, \<lambda>h r k. reply_opt (getrusage_impl (arg2 r) k)),
     (99, \<lambda>h r k. reply_opt (sysinfo_impl (arg1 r) k)),
     (109, \<lambda>h r k. case setpgid_impl (ucast (arg1 r)) (ucast (arg2 r)) k of (v, k1) \<Rightarrow> reply_ok v k1),
     (110, \<lambda>h r k. reply_ok (getppid_impl k) k),
     (111, \<lambda>h r k. reply_ok (getpgid_impl 0 k) k),
     (112, \<lambda>h r k. reply_ok (sint (current_pid k)) k),
     (121, \<lambda>h r k. reply_ok (getpgid_impl (ucast (arg1 r)) k) k),
     (127, \<lambda>h r k. reply_opt (sigpending_impl (arg1 r) k)),
     (130, \<lambda>h r k. reply_opt (sigsuspend_impl (arg1 r) k)),
     (158, \<lambda>h r k. reply_opt (arch_prctl_impl (hw_gs h) (arg1 r) (arg2 r) k)),
     (186, \<lambda>h r k. reply_ok (sint (current_pid k)) k),
     (218, \<lambda>h r k. reply_ok (sint (current_pid k)) k),
     (228, \<lambda>h r k. reply_opt (clock_gettime_impl (arg2 r) k)),
     (231, \<lambda>h r k. sys_exit (ucast (arg1 r)) k),
     (400, \<lambda>h r k. sys_print (arg1 r) (arg2 r) k),
     (401, \<lambda>h r k. reply (get_char k)),
     (402, \<lambda>h r k. sys_get_system_info (arg1 r) k),
     (403, \<lambda>h r k. sys_getenv (arg1 r) (arg2 r) (arg3 r) (arg4 r) k),
     (404, \<lambda>h r k. sys_setenv (arg1 r) (arg2 r) (arg3 r) (arg4 r) k),
     (405, \<lambda>h r k. sys_exec_args (hw_programs h) (arg1 r) (arg2 r) (arg3 r) (arg4 r) k),
     (415, \<lambda>h r k. sys_msgq_create (ucast (arg1 r)) k),
     (416, \<lambda>h r k. sys_msgsnd (ucast (arg1 r)) (ucast (arg2 r)) (arg3 r) (arg4 r) k),
     (417, \<lambda>h r k. sys_msgrcv (ucast (arg1 r)) (arg2 r) k),
     (418, \<lambda>h r k. sys_msgq_destroy (ucast (arg1 r)) k),
     (419, \<lambda>h r k. sys_msgrcv_wait (ucast (arg1 r)) (arg2 r) k),
     (420, \<lambda>h r k. reply (msgq_len (ucast (arg1 r)) (kqueues k), k))]"

text \<open>Calls whose runtime only returns a constant.\<close>

definition stub_calls :: "(u64 \<times> int) list" where
  "stub_calls =
    [(10, 0), (24, 0), (25, - 12), (26, 0), (27, - 12), (28, 0), (31, 0), (34, - 4), (36, 0), (38, 0),
     (40, SC_ENOSYS), (73, 0), (74, 0), (75, 0), (81, 0), (91, 0), (93, 0), (95, 18), (100, 0), (102, 1000),
     (103, 0), (104, 1000), (105, 0), (106, 0), (107, 1000), (108, 1000), (113, 0), (114, 0), (115, 0),
     (117, 0), (118, 0), (119, 0), (120, 0), (162, 0), (202, 0), (302, 0)]"

text \<open>Ioctl, sockets, windows, the installer and name resolution.\<close>

definition ext_calls :: "u64 list" where
  "ext_calls = [16, 41, 42, 43, 44, 45, 49, 50, 406, 407, 408, 425, 426, 427, 428, 429, 430, 431, 432, 433, 434, 435]"

definition dispatch :: "machine_env \<Rightarrow> u64 \<Rightarrow> SyscallRequest \<Rightarrow> kernel \<Rightarrow> (sysout \<times> kernel) option" where
  "dispatch h num r k =
    (case map_of (file_calls @ process_calls) num of
       Some f \<Rightarrow> f h r k
     | None \<Rightarrow>
        (case map_of stub_calls num of
           Some v \<Rightarrow> Some (sysret v, k)
         | None \<Rightarrow>
             if num \<in> set ext_calls then map_option (\<lambda>(res, k1). (Ret res, k1)) (hw_ext h num r k)
             else reject SC_ENOSYS k))"

end
