(* ===== verification/Machine.thy ===== *)
theory Machine
  imports Syscalls
begin

text \<open>
  Entry from user mode, \<open>arch/interrupts.rs\<close> and \<open>sys/syscall_handler.rs\<close>: the
  dispatcher of interrupts, the timer, CPU exceptions with copy-on-write faults,
  and the two ways to make a system call.  A run of user code is the list of what
  the processor does for it that the kernel can notice: traps and stores to
  memory.  \<open>run_user\<close> is then the function that \<open>tick\<close> uses to run a task.
\<close>

section \<open>Interrupts\<close>

definition from_user :: "TaskContext \<Rightarrow> bool" where
  "from_user c \<longleftrightarrow> reg_cs c AND 3 = 3"

text \<open>A trap ends with the context to resume, or with the code that leaves user mode.\<close>

type_synonym trap_result = "((TaskContext + int) \<times> kernel) option"

definition left_user :: "int \<times> kernel \<Rightarrow> trap_result" where
  "left_user ck = Some (Inr (fst ck), snd ck)"

definition handle_timer_interrupt :: "TaskContext \<Rightarrow> kernel \<Rightarrow> trap_result" where
  "handle_timer_interrupt c k =
    (let k1 = k\<lparr>ticks := ticks k + 1\<rparr> in
     if \<not> from_user c then Some (Inl c, k1)
     else (let k2 = k1\<lparr>slice_remaining := (if slice_remaining k1 > 0 then slice_remaining k1 - 1 else 0)\<rparr> in
       if slice_remaining k2 = 0 \<and> tstate (tasks k2 ! current k2) = Running then left_user (preempt c k2)
       else Some (Inl c, k2)))"

definition request_of :: "TaskContext \<Rightarrow> SyscallRequest" where
  "request_of c = \<lparr>arg1 = reg_rdi c, arg2 = reg_rsi c, arg3 = reg_rdx c, arg4 = reg_r10 c, arg5 = reg_r8 c\<rparr>"

definition handle_system_call :: "machine_env \<Rightarrow> TaskContext \<Rightarrow> kernel \<Rightarrow> trap_result" where
  "handle_system_call h c k =
    do { (out, k1) \<leftarrow> dispatch h (reg_rax c) (request_of c) (k\<lparr>syscall_ctx := Some c\<rparr>);
         Some (case out of
                 Ret r \<Rightarrow> (Inl (c\<lparr>reg_rax := of_int (sr_value r)\<rparr>), k1\<lparr>syscall_ctx := None\<rparr>)
               | Exit code \<Rightarrow> (Inr code, k1)) }"

text \<open>
  An exception of user code ends the task.  The handler first prints six words of
  the user stack, read without a check that they are mapped; an exception in the
  kernel halts the machine.
\<close>

definition handle_cpu_exception_64 :: "nat \<Rightarrow> TaskContext \<Rightarrow> kernel \<Rightarrow> trap_result" where
  "handle_cpu_exception_64 int_no c k =
    (if from_user c \<and> user_active k
     then do { _ \<leftarrow> (if reg_rsp c \<ge> 0x1000 \<and> reg_rsp c < 0x800000 then uread (reg_rsp c) 48 k else Some []);
               left_user (exit_to_kernel (if int_no \<in> {0, 16, 19} then - 8 else - 11) k) }
     else None)"

definition isr_common_handler ::
  "machine_env \<Rightarrow> nat \<Rightarrow> u64 \<Rightarrow> u64 \<Rightarrow> TaskContext \<Rightarrow> kernel \<Rightarrow> trap_result" where
  "isr_common_handler h int_no err_code cr2 c k =
    (if int_no < 32 then
       (if int_no = 14 \<and> from_user c \<and> err_code AND 3 = 3
        then (case try_resolve_cow_fault (tcr3 (cur_task k)) cr2 (pg (kmm k)) of
                (resolved, s) \<Rightarrow>
                  (let k1 = k\<lparr>kmm := (kmm k)\<lparr>pg := s\<rparr>\<rparr> in
                   if resolved then Some (Inl c, k1) else handle_cpu_exception_64 int_no c k1))
        else handle_cpu_exception_64 int_no c k)
     else if int_no = 32 then handle_timer_interrupt c k
     else if int_no = 128 then handle_system_call h c k
     else if int_no < 256 then Some (Inl c, hw_irq h int_no k)
     else None)"

section \<open>The syscall instruction\<close>

text \<open>
  The wrapper prints the path of three calls, at most 64 bytes up to the
  terminating zero, before anything is checked.
\<close>

fun print_path :: "nat \<Rightarrow> u64 \<Rightarrow> kernel \<Rightarrow> unit option" where
  "print_path 0 p k = Some ()"
| "print_path (Suc n) p k =
    do { b \<leftarrow> load8 (tcr3 (cur_task k)) p (pmem (pg (kmm k)));
         if b = 0 then Some () else print_path n (p + 1) k }"

definition logged_path :: "u64 \<Rightarrow> SyscallRequest \<Rightarrow> u64 option" where
  "logged_path num r =
    (let p = (if num = 257 then arg2 r else arg1 r) in
     if num \<in> {2, 59, 257} \<and> p \<ge> 0x1000 \<and> p < 0x800000000000 then Some p else None)"

definition syscall_handler_wrapper :: "machine_env \<Rightarrow> TaskContext \<Rightarrow> kernel \<Rightarrow> trap_result" where
  "syscall_handler_wrapper h c k =
    (let r = request_of c in
     do { _ \<leftarrow> (case logged_path (reg_rax c) r of None \<Rightarrow> Some () | Some p \<Rightarrow> print_path 64 p k);
          (out, k1) \<leftarrow> dispatch h (reg_rax c) r k;
          Some (case out of
                  Ret res \<Rightarrow> (Inl (c\<lparr>reg_rax := of_int (sr_value res)\<rparr>), k1)
                | Exit code \<Rightarrow> (Inr code, k1)) })"

section \<open>Running user code\<close>

datatype trap =
    Interrupt nat u64 u64 TaskContext
  | Syscall_Instr TaskContext
  | Store u64 u8 TaskContext

text \<open>
  A store goes through the page table of the task.  Where the page is not
  writable the processor raises a page fault and, when the handler returns,
  executes the store again.
\<close>

definition user_store :: "u64 \<Rightarrow> u8 \<Rightarrow> kernel \<Rightarrow> kernel option" where
  "user_store va b k = uwrite va [b] k"

definition store_step :: "machine_env \<Rightarrow> u64 \<Rightarrow> u8 \<Rightarrow> TaskContext \<Rightarrow> kernel \<Rightarrow> trap_result" where
  "store_step h va b c k =
    (case user_store va b k of
       Some k1 \<Rightarrow> Some (Inl c, k1)
     | None \<Rightarrow>
         (let present = leaf_entry (pmem (pg (kmm k))) (tcr3 (cur_task k)) va \<noteq> None in
          do { (res, k1) \<leftarrow> isr_common_handler h 14 (if present then 7 else 6) va c k;
               case res of
                 Inl c1 \<Rightarrow> map_option (\<lambda>k2. (Inl c1, k2)) (user_store va b k1)
               | Inr code \<Rightarrow> Some (Inr code, k1) }))"

fun trap_step :: "machine_env \<Rightarrow> trap \<Rightarrow> kernel \<Rightarrow> trap_result" where
  "trap_step h (Interrupt int_no err_code cr2 c) k = isr_common_handler h int_no err_code cr2 c k"
| "trap_step h (Syscall_Instr c) k = syscall_handler_wrapper h c k"
| "trap_step h (Store va b c) k = store_step h va b c k"

text \<open>The list is a complete run: it ends with the trap that leaves user mode.\<close>

fun run_user :: "machine_env \<Rightarrow> trap list \<Rightarrow> kernel \<Rightarrow> (int \<times> kernel) option" where
  "run_user h [] k = None"
| "run_user h (t # ts) k =
    do { (res, k1) \<leftarrow> trap_step h t k;
         case res of Inr code \<Rightarrow> Some (code, k1) | Inl _ \<Rightarrow> run_user h ts k1 }"

end
