(* ===== verification/Kernel_Inv.thy ===== *)
theory Kernel_Inv
  imports Fairness Machine
begin

text \<open>
  The shape of the kernel's statics as one invariant: no table ever changes its
  length, and every counter stays within its table; with it the relations \<open>steady\<close>
  (the invariant and the running task are kept) and \<open>keeps\<close> (in addition, other live
  tasks change only in the ways of \<open>foreign_change\<close>), and their elementary lemmas.
\<close>

section \<open>The invariant\<close>

definition task_ok :: "Task \<Rightarrow> bool" where
  "task_ok t \<longleftrightarrow>
    length (fd_table t) = MAX_FD
    \<and> length (out_buf t) = TASK_OUTPUT_CAP \<and> out_len t \<le> TASK_OUTPUT_CAP
    \<and> length (cwd t) = CWD_MAX \<and> cwd_len t \<le> CWD_MAX
    \<and> length (tname t) = 16 \<and> tname_len t \<le> 16
    \<and> length (signal_handlers t) = NSIG \<and> length (shm_attaches t) = MAX_ATTACH
    \<and> length (mmap_regions t) = MAX_MMAP_REGIONS \<and> mmap_nregions t \<le> MAX_MMAP_REGIONS"

definition pipes_shape :: "pipes \<Rightarrow> bool" where
  "pipes_shape ps \<longleftrightarrow> length ps = PIPE_COUNT \<and> list_all pipe_invar ps"

definition kernel_ok :: "kernel \<Rightarrow> bool" where
  "kernel_ok k \<longleftrightarrow>
    length (tasks k) = MAX_TASKS \<and> list_all task_ok (tasks k)
    \<and> cur_idx k < MAX_TASKS \<and> current k = cur_idx k
    \<and> pipes_shape (kpipes k) \<and> stdin_invar (stdin k) \<and> queues_inv (kqueues k) \<and> env_inv (kenv k)
    \<and> length (segtab k) = MAX_SEGMENTS"

text \<open>
  What may happen to a live task while another one runs, short of being killed: its
  state, its pending signals, its group and its descriptors may change; it stays
  alive, and a ready task stays ready.
\<close>

definition foreign_change :: "Task \<Rightarrow> Task \<Rightarrow> bool" where
  "foreign_change t t' \<longleftrightarrow>
    t' = t\<lparr>tstate := tstate t', pending_signals := pending_signals t', pgid := pgid t', fd_table := fd_table t'\<rparr>
    \<and> \<not> is_free_state (tstate t') \<and> (tstate t = Ready \<longrightarrow> tstate t' = Ready)"

definition steady :: "kernel \<Rightarrow> kernel \<Rightarrow> bool" where
  "steady k k' \<longleftrightarrow> (kernel_ok k \<longrightarrow> kernel_ok k' \<and> cur_idx k' = cur_idx k)"

definition keeps :: "kernel \<Rightarrow> kernel \<Rightarrow> bool" where
  "keeps k k' \<longleftrightarrow> steady k k' \<and>
    (kernel_ok k \<longrightarrow> (\<forall>i < MAX_TASKS. i \<noteq> cur_idx k \<longrightarrow> \<not> is_free_state (tstate (tasks k ! i)) \<longrightarrow>
       foreign_change (tasks k ! i) (tasks k' ! i)))"

lemma foreign_refl [simp]: "foreign_change t t \<longleftrightarrow> \<not> is_free_state (tstate t)"
  by (simp add: foreign_change_def)

lemma foreign_trans: "foreign_change t u \<Longrightarrow> foreign_change u v \<Longrightarrow> foreign_change t v"
  unfolding foreign_change_def by (cases t; cases u; cases v) simp

lemma steady_refl [simp]: "steady k k"
  by (simp add: steady_def)

lemma keeps_refl [simp]: "keeps k k"
  by (simp add: keeps_def)

lemma steady_trans: "steady k k1 \<Longrightarrow> steady k1 k2 \<Longrightarrow> steady k k2"
  by (simp add: steady_def)

lemma keeps_steady: "keeps k k' \<Longrightarrow> steady k k'"
  by (simp add: keeps_def)

lemma keeps_trans: "keeps k k1 \<Longrightarrow> keeps k1 k2 \<Longrightarrow> keeps k k2"
  unfolding keeps_def steady_def using foreign_trans by (metis foreign_change_def)

text \<open>The parts of the kernel the invariant does not speak about.\<close>

lemma kernel_ok_other [simp]:
  "kernel_ok (k\<lparr>ramfs := a\<rparr>) = kernel_ok k" "kernel_ok (k\<lparr>fatfs := b\<rparr>) = kernel_ok k"
  "kernel_ok (k\<lparr>ext2 := c\<rparr>) = kernel_ok k" "kernel_ok (k\<lparr>kmm := d\<rparr>) = kernel_ok k"
  "kernel_ok (k\<lparr>syscall_ctx := e\<rparr>) = kernel_ok k" "kernel_ok (k\<lparr>user_active := f\<rparr>) = kernel_ok k"
  "kernel_ok (k\<lparr>store_mounted := g\<rparr>) = kernel_ok k" "kernel_ok (k\<lparr>ticks := h\<rparr>) = kernel_ok k"
  "kernel_ok (k\<lparr>slice_remaining := j\<rparr>) = kernel_ok k"
  by (simp_all add: kernel_ok_def)

lemma keeps_other [simp]:
  "keeps k (k1\<lparr>ramfs := a\<rparr>) = keeps k k1" "keeps k (k1\<lparr>fatfs := b\<rparr>) = keeps k k1"
  "keeps k (k1\<lparr>ext2 := c\<rparr>) = keeps k k1" "keeps k (k1\<lparr>kmm := d\<rparr>) = keeps k k1"
  "keeps k (k1\<lparr>syscall_ctx := e\<rparr>) = keeps k k1" "keeps k (k1\<lparr>user_active := f\<rparr>) = keeps k k1"
  "keeps k (k1\<lparr>store_mounted := g\<rparr>) = keeps k k1" "keeps k (k1\<lparr>ticks := h\<rparr>) = keeps k k1"
  "keeps k (k1\<lparr>slice_remaining := j\<rparr>) = keeps k k1" "keeps k (set_kdisks ds k1) = keeps k k1"
  by (simp_all add: keeps_def steady_def set_kdisks_def)

lemma keeps_from_other [simp]:
  "keeps (k\<lparr>kmm := d\<rparr>) k1 = keeps k k1" "keeps (k\<lparr>syscall_ctx := e\<rparr>) k1 = keeps k k1"
  "keeps (k\<lparr>ticks := h\<rparr>) k1 = keeps k k1" "keeps (k\<lparr>slice_remaining := j\<rparr>) k1 = keeps k k1"
  by (simp_all add: keeps_def steady_def)

section \<open>Elementary steps\<close>

text \<open>A change of one table, after steps that kept the invariant.\<close>

lemma keeps_tables:
  "keeps k k1 \<Longrightarrow> (pipes_shape (kpipes k1) \<Longrightarrow> pipes_shape ps) \<Longrightarrow> keeps k (k1\<lparr>kpipes := ps\<rparr>)"
  "keeps k k1 \<Longrightarrow> (stdin_invar (stdin k1) \<Longrightarrow> stdin_invar s) \<Longrightarrow> keeps k (k1\<lparr>stdin := s\<rparr>)"
  "keeps k k1 \<Longrightarrow> (queues_inv (kqueues k1) \<Longrightarrow> queues_inv qs) \<Longrightarrow> keeps k (k1\<lparr>kqueues := qs\<rparr>)"
  "keeps k k1 \<Longrightarrow> (env_inv (kenv k1) \<Longrightarrow> env_inv es) \<Longrightarrow> keeps k (k1\<lparr>kenv := es\<rparr>)"
  "keeps k k1 \<Longrightarrow> (length (segtab k1) = MAX_SEGMENTS \<Longrightarrow> length segs = MAX_SEGMENTS) \<Longrightarrow>
     keeps k (k1\<lparr>segtab := segs\<rparr>)"
  by (auto simp: keeps_def steady_def kernel_ok_def)

lemma kernel_ok_upd_task:
  "kernel_ok k \<Longrightarrow> (task_ok (tasks k ! i) \<Longrightarrow> task_ok (f (tasks k ! i))) \<Longrightarrow> kernel_ok (upd_task i f k)"
  by (cases "i < MAX_TASKS") (auto simp: kernel_ok_def list_all_update list_all_nth not_less list_update_beyond)

lemma keeps_cur:
  assumes "keeps k k1" "i = cur_idx k1 \<or> i = current k1"
    and "task_ok (tasks k1 ! i) \<Longrightarrow> task_ok (f (tasks k1 ! i))"
  shows "keeps k (upd_task i f k1)"
proof -
  have "keeps k1 (upd_task i f k1)"
    using assms(2,3) kernel_ok_upd_task [of k1 i f] by (auto simp: keeps_def steady_def kernel_ok_def)
  then show ?thesis using assms(1) keeps_trans by blast
qed

lemma keeps_foreign:
  assumes "keeps k k1" "kernel_ok k1 \<Longrightarrow> task_ok (tasks k1 ! i) \<Longrightarrow> task_ok (f (tasks k1 ! i))"
    and "\<not> is_free_state (tstate (tasks k1 ! i)) \<Longrightarrow> foreign_change (tasks k1 ! i) (f (tasks k1 ! i))"
  shows "keeps k (upd_task i f k1)"
proof -
  have "keeps k1 (upd_task i f k1)"
    using assms(2,3) kernel_ok_upd_task [of k1 i f]
    by (auto simp: keeps_def steady_def kernel_ok_def nth_update_read)
  then show ?thesis using assms(1) keeps_trans by blast
qed

lemma task_ok_fields [simp]:
  "task_ok (t\<lparr>tstate := a\<rparr>) = task_ok t" "task_ok (t\<lparr>ctx := b\<rparr>) = task_ok t"
  "task_ok (t\<lparr>first_run := c\<rparr>) = task_ok t" "task_ok (t\<lparr>tentry := d\<rparr>) = task_ok t"
  "task_ok (t\<lparr>tcr3 := d\<rparr>) = task_ok t" "task_ok (t\<lparr>tpid := e\<rparr>) = task_ok t"
  "task_ok (t\<lparr>parent_pid := e\<rparr>) = task_ok t" "task_ok (t\<lparr>pgid := e\<rparr>) = task_ok t"
  "task_ok (t\<lparr>fs_base := d\<rparr>) = task_ok t" "task_ok (t\<lparr>heap_end := d\<rparr>) = task_ok t"
  "task_ok (t\<lparr>mmap_end := d\<rparr>) = task_ok t" "task_ok (t\<lparr>pending_signals := f\<rparr>) = task_ok t"
  "task_ok (t\<lparr>signal_mask := f\<rparr>) = task_ok t" "task_ok (t\<lparr>saved_signal_mask := f\<rparr>) = task_ok t"
  "task_ok (t\<lparr>in_sigsuspend := c\<rparr>) = task_ok t" "task_ok (t\<lparr>alarm_deadline := d\<rparr>) = task_ok t"
  "task_ok (t\<lparr>initial_rsp := d\<rparr>) = task_ok t"
  by (simp_all add: task_ok_def)

lemma task_ok_tables:
  "task_ok t \<Longrightarrow> length ft = MAX_FD \<Longrightarrow> task_ok (t\<lparr>fd_table := ft\<rparr>)"
  "task_ok t \<Longrightarrow> length hs = NSIG \<Longrightarrow> task_ok (t\<lparr>signal_handlers := hs\<rparr>)"
  "task_ok t \<Longrightarrow> length at = MAX_ATTACH \<Longrightarrow> task_ok (t\<lparr>shm_attaches := at\<rparr>)"
  by (simp_all add: task_ok_def)

lemma keeps_fdt:
  assumes "keeps k k1" "i = cur_idx k1" "length (fdt i k1) = MAX_FD \<Longrightarrow> length t = MAX_FD"
  shows "keeps k (set_fdt i t k1)"
  unfolding set_fdt_def using assms by (intro keeps_cur) (auto simp: task_ok_def fdt_def)

section \<open>Pipes and other tables\<close>

lemma pipes_shape_update: "pipes_shape ps \<Longrightarrow> pipe_invar p \<Longrightarrow> pipes_shape (ps[i := p])"
  by (simp add: pipes_shape_def list_all_update)

lemma pipes_shape_nth: "pipes_shape ps \<Longrightarrow> is_pipe_fd fd \<Longrightarrow> pipe_invar (ps ! pipe_index fd)"
  using is_pipe_fd_index [of fd] by (simp add: pipes_shape_def list_all_nth)

lemma pipe_alloc_shape: "pipes_shape ps \<Longrightarrow> pipe_alloc ps = (r, ps') \<Longrightarrow> pipes_shape ps'"
  by (auto simp: pipe_alloc_def Let_def pipes_shape_def pipe_invar_def list_all_length nth_list_update
      dest!: first_index_bound split: option.splits)

lemma pipe_close_shape: "pipes_shape ps \<Longrightarrow> pipes_shape (snd (pipe_close fd ps))"
  using pipes_shape_nth [of ps fd]
  by (auto simp: pipe_close_def Let_def pipe_invar_def intro!: pipes_shape_update)

lemma pipe_addref_shape: "pipes_shape ps \<Longrightarrow> pipes_shape (pipe_addref fd ps)"
  using pipes_shape_nth [of ps fd]
  by (auto simp: pipe_addref_def Let_def pipe_invar_def intro!: pipes_shape_update)

lemma pipe_write_shape: "pipes_shape ps \<Longrightarrow> pipe_write fd bs ps = (r, ps') \<Longrightarrow> pipes_shape ps'"
  using pipes_shape_nth [of ps fd]
  by (auto simp: pipe_write_def Let_def pipe_write_loop_puts split: if_splits
      intro!: pipes_shape_update pq.puts_invar)

lemma pipe_read_shape: "pipes_shape ps \<Longrightarrow> pipe_read fd buf ps = (r, buf', ps') \<Longrightarrow> pipes_shape ps'"
proof -
  assume sh: "pipes_shape ps" and rd: "pipe_read fd buf ps = (r, buf', ps')"
  let ?p = "ps ! pipe_index fd"
  obtain out p' where dr: "fifo_drain pipe_get (length buf) ?p = (out, p')" by (rule prod.exhaust)
  have "pipe_read_loop 0 buf ?p = (length out, blit 0 out buf, p')"
    using pipe_read_loop_drain [of 0 buf ?p out p'] dr by simp
  moreover have "pipe_invar p'" if "is_pipe_fd fd"
    using pq.drain_spec [OF pipes_shape_nth [OF sh that], of "length buf"] dr by simp
  ultimately show ?thesis
    using sh rd by (auto simp: pipe_read_def Let_def intro!: pipes_shape_update split: if_splits)
qed

lemma stdin_pop_inv: "stdin_pop s = Some (c, s') \<Longrightarrow> stdin_invar s \<Longrightarrow> stdin_invar s'"
  by (auto simp: stdin_pop_def stdin_invar_def Let_def split: if_splits)

lemmas table_steps = pipe_alloc_shape pipe_close_shape pipe_addref_shape pipe_write_shape pipe_read_shape
  stdin_pop_inv

section \<open>Descriptors\<close>

lemma fd_open_length: "fd_open path flags fs t = (r, fs', t') \<Longrightarrow> length t' = length t"
  by (auto simp: fd_open_def Let_def split: option.splits prod.splits)

lemma open_raw_length: "open_raw e t = (r, t') \<Longrightarrow> length t' = length t"
  by (auto simp: open_raw_def split: option.splits)

lemma open_pipe_length: "open_pipe a b t = (r, t') \<Longrightarrow> length t' = length t"
  by (auto simp: open_pipe_def Let_def split: option.splits)

lemma keeps_output [simp]: "keeps k (output_write bs k)"
  unfolding output_write_def output_write_for_task_def
  by (auto intro!: keeps_cur simp: task_ok_def Let_def length_blit)

lemma keeps_close_backend [simp]: "keeps k (close_backend e k)"
  by (auto simp: close_backend_def intro: keeps_tables pipe_close_shape split: FdBackend.split prod.split)

lemma keeps_fs_close: "keeps k (snd (fs_close fd k))"
  unfolding fs_close_def fd_close_def
  by (auto split: option.split intro!: keeps_trans [OF keeps_fdt keeps_close_backend])

lemma ramfs_read_length: "ramfs_read_fd fd e fs buf t = (r, buf', t') \<Longrightarrow> length t' = length t"
  by (auto simp: ramfs_read_fd_def Let_def split: if_splits)

lemma ramfs_write_length: "ramfs_write_fd fd e buf fs t = (r, fs', t') \<Longrightarrow> length t' = length t"
  by (auto simp: ramfs_write_fd_def Let_def split: if_splits)

lemma keeps_fs_read: "fs_read fd buf k = Some (r, buf', k') \<Longrightarrow> keeps k k'"
  by (auto simp: fs_read_def read_fd_def split: option.splits FdBackend.splits prod.splits if_splits bind_splits
      dest: table_steps intro!: keeps_tables keeps_fdt dest!: ramfs_read_length)

lemma keeps_fs_write: "fs_write_file fd buf k = Some (r, k') \<Longrightarrow> keeps k k'"
  by (auto simp: fs_write_file_def write_fd_def
      split: option.splits FdBackend.splits prod.splits if_splits bind_splits
      dest: table_steps intro!: keeps_tables keeps_fdt dest!: ramfs_write_length)

lemma keeps_on_fdt: "(\<And>t r t'. f t = (r, t') \<Longrightarrow> length t' = length t) \<Longrightarrow> keeps k (snd (on_fdt f k))"
  by (auto simp: on_fdt_def split: prod.split intro!: keeps_fdt)

lemma keeps_open_raw [simp]:
  "keeps k (snd (on_fdt (open_dir p) k))" "keeps k (snd (on_fdt (open_fat raw w) k))"
  "keeps k (snd (on_fdt (open_ext2 raw w) k))" "keeps k (snd (on_fdt (open_dev b) k))"
  by (auto intro!: keeps_on_fdt dest!: open_raw_length simp: open_dir_def open_fat_def open_ext2_def open_dev_def Let_def)

lemma keeps_open_in_ramfs [simp]: "keeps k (snd (open_in_ramfs path flags fs k))"
  by (auto simp: open_in_ramfs_def split: prod.split intro!: keeps_fdt dest!: fd_open_length)

lemma keeps_open_tree [simp]: "keeps k (snd (open_tree path flags k))"
  by (simp add: open_tree_def split: option.split)

lemma keeps_kfat_open: "kfat_open p flags k = Some (r, k') \<Longrightarrow> keeps k k'"
  by (auto simp: kfat_open_def split: bind_splits)

lemma keeps_kext2_is_dir: "kext2_is_dir p k = Some (r, k') \<Longrightarrow> keeps k k'"
  by (auto simp: kext2_is_dir_def split: bind_splits)

lemma keeps_kext2_open: "kext2_open p flags k = Some (r, k') \<Longrightarrow> keeps k k'"
  by (auto simp: kext2_open_def split: bind_splits)

lemma keeps_write_proc [simp]: "keeps k (write_proc_file path bs k)"
  by (simp add: write_proc_file_def split: option.split)


end
