(* ===== verification/Syscall_Inv.thy ===== *)
theory Syscall_Inv
  imports Kernel_Inv
begin

text \<open>
  Every system call keeps the invariant of \<open>Kernel_Inv\<close>, operation by operation in the
  order of \<open>Vfs\<close>, \<open>Sys_Base\<close>, \<open>Sys_Files\<close>, \<open>Sys_Process\<close> and \<open>Syscalls\<close>.
\<close>

section \<open>Virtual file system\<close>

lemma keeps_refresh [simp]:
  "keeps k (procfs_refresh p k)" "keeps k (refresh_record ident k)" "keeps k (refresh_all_records k)"
  by (simp_all add: procfs_refresh_def refresh_record_def refresh_all_records_def Let_def
      split: option.split prod.split)

lemma keeps_snd: "f = (r, k') \<Longrightarrow> keeps k (snd f) \<Longrightarrow> keeps k k'"
  by simp

lemma keeps_vfs_open: "vfs_open path flags k = Some (r, k') \<Longrightarrow> keeps k k'"
proof (cases "vfs_resolve path")
  case (At_DiskStore p)
  moreover assume "vfs_open path flags k = Some (r, k')"
  ultimately show ?thesis
    by (auto simp: vfs_open_def Let_def split: if_splits option.splits elim!: keeps_snd
        intro: keeps_trans [OF keeps_refresh(2) keeps_open_in_ramfs] keeps_trans [OF keeps_refresh(3) keeps_open_raw(1)])
next
  case (At_Proc p)
  moreover assume "vfs_open path flags k = Some (r, k')"
  ultimately show ?thesis
    by (auto simp: vfs_open_def elim!: keeps_snd intro: keeps_trans [OF keeps_refresh(1) keeps_open_tree])
next
  case (At_Fat16 p)
  moreover assume "vfs_open path flags k = Some (r, k')"
  ultimately show ?thesis
    by (auto simp: vfs_open_def split: if_splits bind_splits elim!: keeps_snd
        dest!: keeps_kfat_open intro: keeps_trans [OF _ keeps_open_raw(2)])
next
  case (At_Ext2 p)
  moreover assume "vfs_open path flags k = Some (r, k')"
  ultimately show ?thesis
    by (auto simp: vfs_open_def split: if_splits bind_splits elim!: keeps_snd
        dest!: keeps_kext2_open keeps_kext2_is_dir) (blast intro: keeps_trans keeps_open_raw)+
qed (auto simp: vfs_open_def elim!: keeps_snd)

lemma keeps_vfs_readdir: "vfs_readdir path buf k = Some (r, buf', k') \<Longrightarrow> keeps k k'"
  by (auto simp: vfs_readdir_def Let_def split: Resolved.splits if_splits bind_splits option.splits prod.splits)

lemma keeps_vfs_mkdir: "vfs_mkdir path k = Some (r, k') \<Longrightarrow> keeps k k'"
  by (auto simp: vfs_mkdir_def split: Resolved.splits if_splits bind_splits option.splits prod.splits sum.splits)

lemma keeps_chdir_target: "chdir_target path k = Some (r, k') \<Longrightarrow> keeps k k'"
  by (auto simp: chdir_target_def split: Resolved.splits if_splits bind_splits dest!: keeps_kext2_is_dir)

lemma length_cwd_text: "length (cwd_text path) \<le> CWD_MAX"
  by (auto simp: cwd_text_def Let_def CWD_MAX_def)

lemma keeps_vfs_chdir: "vfs_chdir path k = Some (r, k') \<Longrightarrow> keeps k k'"
  by (auto simp: vfs_chdir_def task_ok_def length_cwd_text split: bind_splits sum.splits bool.splits
      dest!: keeps_chdir_target intro!: keeps_cur)

lemma keeps_fat_stat_size: "fat_stat_size p k = Some (r, k') \<Longrightarrow> keeps k k'"
  by (auto simp: fat_stat_size_def Let_def split: bind_splits if_splits prod.splits dest!: keeps_kfat_open)

lemma keeps_ext2_stat_size: "ext2_stat_size p k = Some (r, k') \<Longrightarrow> keeps k k'"
  by (auto simp: ext2_stat_size_def split: bind_splits if_splits dest!: keeps_kext2_open)

lemma keeps_vfs_stat: "vfs_stat_linux path k = Some (r, s, k') \<Longrightarrow> keeps k k'"
  by (auto simp: vfs_stat_linux_def Let_def split: Resolved.splits if_splits bind_splits option.splits
      prod.splits sum.splits dest!: keeps_fat_stat_size keeps_ext2_stat_size keeps_kext2_is_dir intro: keeps_trans)

section \<open>User memory and primitive services\<close>

lemma keeps_uwrite: "uwrite p bs k = Some k' \<Longrightarrow> keeps k k'"
  by (auto simp: uwrite_def)

lemma keeps_write_user_value: "write_user_value p bs k = Some (r, k') \<Longrightarrow> keeps k k'"
  by (auto simp: write_user_value_def split: option.splits dest!: keeps_uwrite)

lemma keeps_with_str: "with_str p e k f = Some (r, k') \<Longrightarrow> (\<And>s. f s = Some (r, k') \<Longrightarrow> keeps k k') \<Longrightarrow> keeps k k'"
  by (auto simp: with_str_def split: if_splits)

lemma keeps_write_console [simp]: "keeps k (write_console bs k)"
  by (simp add: write_console_def)

lemma keeps_exit_to_kernel [simp]: "keeps k (snd (exit_to_kernel code k1)) = keeps k k1"
  by (simp add: exit_to_kernel_def)

lemma keeps_leave: "leave ck = Some (r, k') \<Longrightarrow> keeps k (snd ck) \<Longrightarrow> keeps k k'"
  by (auto simp: leave_def)

lemma keeps_block:
  "keeps k k1 \<Longrightarrow> i = cur_idx k1 \<or> i = current k1 \<Longrightarrow> keeps k (snd (block_task i s c k1))"
  by (auto simp: block_task_def intro!: keeps_cur)

lemma keeps_sleep_until: "sleep_until_tick target k = Some (r, k') \<Longrightarrow> keeps k k'"
  unfolding sleep_until_tick_def Let_def sleep_task_def
  by (auto split: option.splits if_splits elim!: keeps_leave intro!: keeps_block)

lemma keeps_get_char: "keeps k (snd (get_char k))"
  by (auto simp: get_char_def split: option.split intro: keeps_tables dest: stdin_pop_inv)

lemma keeps_sys_exit: "sys_exit code k = Some (r, k') \<Longrightarrow> keeps k k'"
  by (auto simp: sys_exit_def split: if_splits elim!: keeps_leave)

lemma keeps_fs_open: "fs_open p flags k = Some (r, k') \<Longrightarrow> keeps k k'"
  by (auto simp: fs_open_def elim!: keeps_with_str dest: keeps_vfs_open)

lemma keeps_fs_read_user: "fs_read_user fd ptr cnt k = Some (r, k') \<Longrightarrow> keeps k k'"
  by (auto simp: fs_read_user_def split: bind_splits dest!: keeps_fs_read keeps_uwrite intro: keeps_trans)

section \<open>Files\<close>

lemma keeps_set_entry [simp]: "keeps k (set_entry fd e k)"
  by (auto simp: set_entry_def intro!: keeps_fdt)

lemma keeps_lseek: "lseek_impl fd off w k = Some (r, k') \<Longrightarrow> keeps k k'"
  by (auto simp: lseek_impl_def split: option.splits FdBackend.splits prod.splits if_splits)

lemma keeps_dup: "keeps k (snd (dup_impl fd k))"
  by (simp add: dup_impl_def split: option.split)

lemma keeps_dup2_addref [simp]: "keeps k (dup2_addref e k)"
  by (auto simp: dup2_addref_def intro: keeps_tables pipe_addref_shape)

lemma keeps_dup2_release [simp]: "keeps k (dup2_release e k)"
  by (auto simp: dup2_release_def intro: keeps_tables pipe_close_shape split: option.split FdBackend.split prod.split)

lemma cur_idx_dup2 [simp]: "cur_idx (dup2_release s k) = cur_idx k" "cur_idx (dup2_addref e k) = cur_idx k"
  "tasks (dup2_release s k) = tasks k" "tasks (dup2_addref e k) = tasks k"
  by (simp_all add: dup2_release_def dup2_addref_def set_kdisks_def split: option.split FdBackend.split prod.split)

lemma keeps_dup2: "keeps k (snd (dup2_impl a b k))"
  unfolding dup2_impl_def dup2_def
  by (auto simp: Let_def fdt_def split: option.split
      intro!: keeps_fdt keeps_trans [OF keeps_dup2_addref keeps_dup2_release])

lemma keeps_fcntl: "keeps k (snd (fcntl_impl fd cmd arg k))"
  by (simp add: fcntl_impl_def split: option.split)

lemma keeps_truncate:
  "ftruncate_impl fd len k = Some (r, k') \<Longrightarrow> keeps k k'" "truncate_impl fd len k = Some (r, k') \<Longrightarrow> keeps k k'"
  by (auto simp: ftruncate_impl_def truncate_impl_def split: option.splits FdBackend.splits if_splits)

lemma keeps_readv_loop: "readv_loop is fd iov tot k = Some (r, k') \<Longrightarrow> keeps k k'"
  by (induction "is" arbitrary: tot k)
    (auto split: bind_splits if_splits dest!: keeps_fs_read_user, (blast intro: keeps_trans)+)

lemma keeps_writev_loop: "writev_loop is fd iov tot k = Some (r, k') \<Longrightarrow> keeps k k'"
  by (induction "is" arbitrary: tot k)
    (auto split: bind_splits if_splits dest!: keeps_fs_write, (blast intro: keeps_trans keeps_write_console)+)

lemma keeps_positioned:
  assumes "positioned fd off f k = Some (r, k')" "\<And>k r k'. f k = Some (r, k') \<Longrightarrow> keeps k k'"
  shows "keeps k k'"
  using assms(1) unfolding positioned_def
  by (auto split: bind_splits if_splits dest!: keeps_lseek assms(2)) (blast intro: keeps_trans)+

lemma keeps_pread: "pread64_impl fd ptr cnt off k = Some (r, k') \<Longrightarrow> keeps k k'"
  unfolding pread64_impl_def by (erule keeps_positioned) (rule keeps_fs_read_user)

lemma keeps_pwrite: "pwrite64_impl fd ptr cnt off k = Some (r, k') \<Longrightarrow> keeps k k'"
  unfolding pwrite64_impl_def by (erule keeps_positioned) (auto split: bind_splits dest!: keeps_fs_write)

lemma keeps_stat: "stat_impl p buf k = Some (r, k') \<Longrightarrow> keeps k k'"
  by (auto simp: stat_impl_def elim!: keeps_with_str split: bind_splits dest!: keeps_vfs_stat keeps_uwrite)
    (blast intro: keeps_trans)

lemma keeps_access: "access_impl p k = Some (r, k') \<Longrightarrow> keeps k k'"
  by (auto simp: access_impl_def elim!: keeps_with_str split: bind_splits dest!: keeps_vfs_stat)

lemma keeps_fstat: "fstat_impl fd buf k = Some (r, k') \<Longrightarrow> keeps k k'"
  by (auto simp: fstat_impl_def split: option.splits bind_splits dest!: keeps_uwrite)

lemma keeps_getdents: "getdents64_impl fd buf cnt k = Some (r, k') \<Longrightarrow> keeps k k'"
  by (auto simp: getdents64_impl_def Let_def elim!: keeps_with_str split: option.splits bind_splits if_splits prod.splits
      dest!: keeps_vfs_readdir keeps_uwrite) (blast intro: keeps_trans keeps_set_entry)

lemma keeps_readdir: "readdir_impl p buf len k = Some (r, k') \<Longrightarrow> keeps k k'"
  by (auto simp: readdir_impl_def elim!: keeps_with_str split: bind_splits
      dest!: keeps_vfs_readdir keeps_uwrite) (blast intro: keeps_trans)

lemma keeps_mkdir: "mkdir_impl p k = Some (r, k') \<Longrightarrow> keeps k k'"
  by (auto simp: mkdir_impl_def elim!: keeps_with_str dest: keeps_vfs_mkdir)

lemma keeps_chdir: "chdir_impl p k = Some (r, k') \<Longrightarrow> keeps k k'"
  by (auto simp: chdir_impl_def elim!: keeps_with_str dest: keeps_vfs_chdir)

lemma keeps_getcwd: "getcwd_impl buf len k = Some (r, k') \<Longrightarrow> keeps k k'"
  by (auto simp: getcwd_impl_def Let_def dest!: keeps_uwrite)

lemma keeps_attr: "chmod_impl p m k = Some (r, k') \<Longrightarrow> keeps k k'" "chown_impl p u g k = Some (r, k') \<Longrightarrow> keeps k k'"
  by (auto simp: chmod_impl_def chown_impl_def set_attr_def elim!: keeps_with_str split: option.splits)

lemma keeps_drop_inode: "keeps k (drop_inode idx k)"
  by (auto simp: keeps_def steady_def kernel_ok_def drop_inode_def task_ok_def on_inode_removed_def
      list_all_length foreign_change_def)

lemma keeps_unlink: "unlink_impl p k = Some (r, k') \<Longrightarrow> keeps k k'"
  by (auto simp: unlink_impl_def elim!: keeps_with_str split: if_splits option.splits prod.splits sum.splits
      intro!: keeps_trans [OF _ keeps_drop_inode])

lemma keeps_rename: "rename_impl p q k = Some (r, k') \<Longrightarrow> keeps k k'"
  by (auto simp: rename_impl_def elim!: keeps_with_str split: if_splits option.splits prod.splits)

lemma keeps_poll_loop: "poll_loop sock is ptr n k = Some (r, k') \<Longrightarrow> keeps k k'"
  by (induction "is" arbitrary: n k)
    (auto simp: Let_def split: bind_splits dest!: keeps_uwrite, (blast intro: keeps_trans)+)

lemma keeps_ready_or_sleep: "ready_or_sleep n t k = Some (r, k') \<Longrightarrow> keeps k k'"
  by (auto simp: ready_or_sleep_def split: if_splits bind_splits option.splits dest!: keeps_sleep_until)

lemma keeps_poll: "poll_impl sock fds n t k = Some (r, k') \<Longrightarrow> keeps k k'"
  by (auto simp: poll_impl_def split: if_splits bind_splits
      dest!: keeps_poll_loop keeps_ready_or_sleep intro: keeps_trans)

lemma keeps_fdset: "clear_fdset p k = Some k' \<Longrightarrow> keeps k k'" "set_fdset_bit p fd k = Some k' \<Longrightarrow> keeps k k'"
  by (auto simp: clear_fdset_def set_fdset_bit_def Let_def split: if_splits bind_splits dest!: keeps_uwrite)

lemma keeps_select_loop: "select_loop sock fds rd wr rp wp n k = Some (r, k') \<Longrightarrow> keeps k k'"
  by (induction fds arbitrary: n k)
    (auto split: bind_splits if_splits dest!: keeps_fdset, (blast intro: keeps_trans)+)

lemma keeps_select: "select_impl sock n rp wp tp k = Some (r, k') \<Longrightarrow> keeps k k'"
  by (auto simp: select_impl_def Let_def split: if_splits bind_splits sum.splits
      dest!: keeps_fdset keeps_select_loop keeps_ready_or_sleep) (blast intro: keeps_trans)+

section \<open>Processes\<close>

lemma keeps_upd_cur: "(\<And>t. task_ok t \<Longrightarrow> task_ok (f t)) \<Longrightarrow> keeps k k1 \<Longrightarrow> keeps k (upd_cur f k1)"
  by (simp add: upd_cur_def keeps_cur)

lemma keeps_addref_entries: "keeps k (addref_entries t k)"
  by (induction t arbitrary: k) (auto simp: addref_entries_def split: option.split
      intro: keeps_trans [OF keeps_dup2_addref])

lemma task_ok_nth: "kernel_ok k \<Longrightarrow> i < MAX_TASKS \<Longrightarrow> task_ok (tasks k ! i)"
  by (simp add: kernel_ok_def list_all_nth)

lemma kernel_ok_idx: "kernel_ok k \<Longrightarrow> cur_idx k < MAX_TASKS"
  by (simp add: kernel_ok_def)

lemma task_ok_fork_child: "task_ok p \<Longrightarrow> task_ok c \<Longrightarrow> task_ok (fork_child_task x cr3 pid p c)"
  by (simp add: task_ok_def fork_child_task_def)

lemma keeps_fork_task: "p < MAX_TASKS \<Longrightarrow> keeps k (snd (fork_task p c k))"
  unfolding fork_task_def
  by (auto simp: Let_def split: option.split prod.split dest!: find_upt_Some
      intro!: keeps_trans [OF _ keeps_addref_entries] keeps_foreign task_ok_fork_child task_ok_nth)

lemma keeps_fork_child: "keeps k (snd (fork_child k))"
proof (cases "cur_idx k < MAX_TASKS")
  case True
  show ?thesis
  proof (cases "syscall_ctx k")
    case (Some c)
    obtain r k1 where "fork_task (cur_idx k) (c\<lparr>reg_rax := 0\<rparr>) k = (r, k1)" by (rule prod.exhaust)
    then show ?thesis
      using keeps_fork_task [OF True, of k "c\<lparr>reg_rax := 0\<rparr>"] Some by (simp add: fork_child_def split: sum.split)
  qed (simp add: fork_child_def)
qed (auto simp: keeps_def steady_def kernel_ok_def)

lemma keeps_reap: "is_free_state (tstate (tasks k ! i)) \<Longrightarrow> keeps k (reap i k)"
  by (auto simp: reap_def intro!: keeps_foreign)

lemma keeps_waitpid: "waitpid_impl pid k = Some (r, k') \<Longrightarrow> keeps k k'"
  unfolding waitpid_impl_def Let_def wait_for_pid_def
  by (auto split: option.splits TaskState.splits elim!: keeps_leave intro!: keeps_block keeps_reap
      simp: is_free_state_def)

lemma keeps_send_signal: "signum \<noteq> SIGKILL \<Longrightarrow> keeps k (snd (send_signal pid signum k))"
  by (auto simp: send_signal_def foreign_change_def is_free_state_def split: option.split TaskState.split
      intro!: keeps_foreign)

lemma steady_send_signal: "steady k (snd (send_signal pid signum k))"
  by (auto simp: send_signal_def steady_def split: option.split intro: kernel_ok_upd_task)

lemma keeps_kill: "signum \<noteq> SIGKILL \<Longrightarrow> keeps k (snd (kill_pid_sig pid signum k))"
  using keeps_send_signal [of signum k "ucast pid"] by (simp add: kill_pid_sig_def split_beta)

lemma steady_kill: "steady k (snd (kill_pid_sig pid signum k))"
  using steady_send_signal [of k "ucast pid" signum] by (simp add: kill_pid_sig_def split_beta)

lemma keeps_setpgid: "keeps k (snd (setpgid_impl pid grp k))"
  by (auto simp: setpgid_impl_def Let_def foreign_change_def split: option.split intro!: keeps_foreign)

lemma keeps_arch_prctl: "arch_prctl_impl gs code addr k = Some (r, k') \<Longrightarrow> keeps k k'"
  by (auto simp: arch_prctl_impl_def split: if_splits dest!: keeps_uwrite intro!: keeps_upd_cur)

lemma length_fd_table_new [simp]: "length fd_table_new = MAX_FD"
  by (simp add: fd_table_new_def)

lemma task_ok_exec: "task_ok t \<Longrightarrow> task_ok (exec_task cr3 entry rsp t)"
  by (simp add: task_ok_def exec_task_def MAX_FD_def)

lemma keeps_exec_binary: "exec_binary b name extra k = Some (r, k') \<Longrightarrow> keeps k k'"
  unfolding exec_binary_def Let_def
  by (auto split: prod.splits option.splits sum.splits bind_splits elim!: keeps_leave
      intro!: keeps_upd_cur task_ok_exec)

lemma keeps_exec_fat: "exec_fat p extra k = Some (r, k') \<Longrightarrow> keeps k k'"
  unfolding exec_fat_def Let_def
  by (auto split: bind_splits if_splits prod.splits dest!: keeps_kfat_open keeps_exec_binary)
    (blast intro: keeps_trans keeps_other [THEN iffD2])+

lemma keeps_or_else:
  assumes "or_else m f = Some (r, k')" "\<And>r k1. m = Some (r, k1) \<Longrightarrow> keeps k k1"
    and "\<And>k1 r k2. f k1 = Some (r, k2) \<Longrightarrow> keeps k1 k2"
  shows "keeps k k'"
  using assms(1) unfolding or_else_def
  by (auto split: bind_splits if_splits dest: assms(2,3)) (meson assms(2,3) keeps_trans)+

lemma keeps_exec_resolve: "exec_resolve programs p extra k = Some (r, k') \<Longrightarrow> keeps k k'"
  unfolding exec_resolve_def Let_def
  by (auto split: if_splits option.splits dest: keeps_exec_binary keeps_exec_fat elim!: keeps_or_else)

section \<open>Memory, tables and signals\<close>

lemma keeps_brk: "keeps k (snd (brk_program e k))"
  by (auto simp: brk_program_def Let_def split: prod.split sum.split intro!: keeps_upd_cur)

lemma task_ok_record_region: "task_ok t \<Longrightarrow> task_ok (record_region base pages t)"
  by (simp add: task_ok_def record_region_def Let_def)

lemma keeps_mmap: "keeps k (snd (mmap_anon len k))"
  by (auto simp: mmap_anon_def Let_def split: prod.split sum.split intro!: keeps_upd_cur task_ok_record_region)

lemma task_ok_forget_region: "task_ok t \<Longrightarrow> task_ok (forget_region addr t)"
  by (auto simp: task_ok_def forget_region_def Let_def split: option.split)

lemma keeps_munmap: "keeps k (snd (munmap_impl addr len k))"
  by (auto simp: munmap_impl_def intro!: keeps_upd_cur task_ok_forget_region)

lemma keeps_info:
  "uname_impl p k = Some (r, k') \<Longrightarrow> keeps k k'" "clock_gettime_impl p k = Some (r, k') \<Longrightarrow> keeps k k'"
  "getrlimit_impl p k = Some (r, k') \<Longrightarrow> keeps k k'" "getrusage_impl p k = Some (r, k') \<Longrightarrow> keeps k k'"
  "sysinfo_impl p k = Some (r, k') \<Longrightarrow> keeps k k'" "sigpending_impl p k = Some (r, k') \<Longrightarrow> keeps k k'"
  by (auto simp: uname_impl_def clock_gettime_impl_def getrlimit_impl_def getrusage_impl_def sysinfo_impl_def
      sigpending_impl_def split: if_splits dest!: keeps_uwrite)

lemma keeps_getenv: "getenv_impl key buf len k = Some (r, k') \<Longrightarrow> keeps k k'"
  by (auto simp: getenv_impl_def Let_def split: option.splits dest!: keeps_uwrite)

lemma keeps_setenv: "keeps k (snd (setenv_impl key v k))"
proof -
  have "env_inv (kenv k) \<Longrightarrow> env_inv (snd (setenv key v (kenv k)))" by (simp add: setenv_refines)
  then show ?thesis by (auto simp: setenv_impl_def split: prod.split intro!: keeps_tables)
qed

lemma keeps_pipe_alloc: "pipe_alloc_impl rp wp k = Some (r, k') \<Longrightarrow> keeps k k'"
proof -
  assume call: "pipe_alloc_impl rp wp k = Some (r, k')"
  obtain ends ps where ps: "pipe_alloc (kpipes k) = (ends, ps)" by (rule prod.exhaust)
  then have k1: "keeps k (k\<lparr>kpipes := ps\<rparr>)" by (auto intro!: keeps_tables dest: pipe_alloc_shape)
  show ?thesis
  proof (cases ends)
    case None
    then show ?thesis using call ps k1 by (simp add: pipe_alloc_impl_def)
  next
    case (Some ab)
    obtain slots t where t: "open_pipe (fst ab) (snd ab) (fdt (cur_idx k) k) = (slots, t)" by (rule prod.exhaust)
    then have len: "length t = length (fdt (cur_idx k) k)" by (rule open_pipe_length)
    then have k2: "keeps k (set_fdt (cur_idx k) t (k\<lparr>kpipes := ps\<rparr>))"
      by (intro keeps_fdt k1) (simp_all add: fdt_def)
    have k3: "keeps k ((set_fdt (cur_idx k) t k)\<lparr>kpipes := snd (pipe_close a (snd (pipe_close b ps)))\<rparr>)" for a b
      using ps len by (auto intro!: keeps_tables keeps_fdt pipe_close_shape dest: pipe_alloc_shape)
    show ?thesis
      using call ps Some t k3
      by (auto simp: pipe_alloc_impl_def split: option.splits prod.splits bind_splits dest!: keeps_uwrite)
        (blast intro: keeps_trans k2)
  qed
qed

lemma keeps_msgrcv: "msgrcv_impl ident out k = Some (r, k') \<Longrightarrow> keeps k k'"
proof -
  assume call: "msgrcv_impl ident out k = Some (r, k')"
  obtain v msg qs where q: "msgrcv ident message_empty (kqueues k) = (v, msg, qs)" by (cases rule: prod_cases3)
  then have "keeps k (k\<lparr>kqueues := qs\<rparr>)" by (auto intro!: keeps_tables dest: msgrcv_refines)
  then show ?thesis
    using call q by (auto simp: msgrcv_impl_def Let_def split: if_splits dest!: keeps_uwrite intro: keeps_trans)
qed

lemma keeps_msgrcv_wait: "msgrcv_wait_impl ident out k = Some (r, k') \<Longrightarrow> keeps k k'"
  unfolding msgrcv_wait_impl_def Let_def wait_for_msg_def
  by (auto split: bind_splits if_splits option.splits dest!: keeps_msgrcv elim!: keeps_leave intro!: keeps_block)

lemma shmget_length: "shmget key sz segs m = (r, segs', m') \<Longrightarrow> length segs' = length segs"
  by (auto simp: shmget_def Let_def split: if_splits option.splits prod.splits)

lemma shmat_length:
  "shmat ident cr3 atts segs m = (r, atts', segs', m') \<Longrightarrow> length atts' = length atts \<and> length segs' = length segs"
  by (auto simp: shmat_def Let_def split: if_splits option.splits prod.splits sum.splits)

lemma shmdt_length:
  "shmdt addr atts segs = (r, atts', segs') \<Longrightarrow> length atts' = length atts \<and> length segs' = length segs"
  by (auto simp: shmdt_def Let_def split: if_splits option.splits)

lemma keeps_shmget: "keeps k (snd (shmget_impl key sz k))"
  by (auto simp: shmget_impl_def split: prod.split dest!: shmget_length intro!: keeps_tables)

lemma keeps_attaches:
  assumes "length atts = length (shm_attaches (cur_task k))" "length segs = length (segtab k)"
  shows "keeps k (upd_cur (\<lambda>t. t\<lparr>shm_attaches := atts\<rparr>) (k\<lparr>segtab := segs, kmm := m\<rparr>))"
    "keeps k (upd_cur (\<lambda>t. t\<lparr>shm_attaches := atts\<rparr>) (k\<lparr>segtab := segs\<rparr>))"
  using assms unfolding upd_cur_def cur_task_def
  by (auto intro!: keeps_cur keeps_tables simp: task_ok_def)

lemma keeps_shmat: "keeps k (snd (shmat_impl ident k))"
  by (auto simp: shmat_impl_def split: prod.split dest!: shmat_length intro!: keeps_attaches)

lemma keeps_shmdt: "keeps k (snd (shmdt_impl addr k))"
  by (auto simp: shmdt_impl_def split: prod.split dest!: shmdt_length intro!: keeps_attaches)

lemma keeps_sigaction: "sigaction_impl signum h old k = Some (r, k') \<Longrightarrow> keeps k k'"
  by (auto simp: sigaction_impl_def task_ok_def split: if_splits bind_splits dest!: keeps_uwrite
      intro!: keeps_upd_cur)

lemma keeps_sigreturn: "sigreturn_impl k = Some (r, k') \<Longrightarrow> keeps k k'"
  by (auto simp: sigreturn_impl_def Let_def split: bind_splits intro!: keeps_upd_cur)

lemma keeps_sigprocmask: "sigprocmask_impl how sp op k = Some (r, k') \<Longrightarrow> keeps k k'"
  by (auto simp: sigprocmask_impl_def Let_def split: if_splits bind_splits dest!: keeps_uwrite
      intro!: keeps_upd_cur)

lemma keeps_alarm: "keeps k (snd (alarm_impl secs k))"
  by (auto simp: alarm_impl_def Let_def intro!: keeps_upd_cur)

lemma keeps_sigsuspend: "sigsuspend_impl mp k = Some (r, k') \<Longrightarrow> keeps k k'"
  by (auto simp: sigsuspend_impl_def split: if_splits bind_splits intro!: keeps_upd_cur)

section \<open>The dispatcher\<close>

text \<open>A call keeps the invariant whenever it returns.\<close>

definition call_keeps :: "kernel \<Rightarrow> (sysout \<times> kernel) option \<Rightarrow> bool" where
  "call_keeps k m \<longleftrightarrow> (\<forall>out k'. m = Some (out, k') \<longrightarrow> keeps k k')"

lemma call_keepsI: "(\<And>out k'. m = Some (out, k') \<Longrightarrow> keeps k k') \<Longrightarrow> call_keeps k m"
  by (simp add: call_keeps_def)

lemma call_keeps_replies:
  "keeps k (snd rk) \<Longrightarrow> call_keeps k (reply rk)"
  "(\<And>r k'. m = Some (r, k') \<Longrightarrow> keeps k k') \<Longrightarrow> call_keeps k (reply_opt m)"
  "keeps k k1 \<Longrightarrow> call_keeps k (reply_ok v k1)" "keeps k k1 \<Longrightarrow> call_keeps k (reject e k1)"
  by (auto simp: call_keeps_def reply_def reply_opt_def reply_ok_def reject_def)

lemma call_keeps_checked: "call_keeps k f \<Longrightarrow> call_keeps k (checked ptr len k f)"
  by (auto simp: checked_def call_keeps_replies split: option.split)

lemma call_keeps_bind: "(\<And>x. m = Some x \<Longrightarrow> call_keeps k (f x)) \<Longrightarrow> call_keeps k (m \<bind> f)"
  by (cases m) (simp_all add: call_keeps_def)

lemma call_keeps_slice: "(\<And>bs. call_keeps k (f bs)) \<Longrightarrow> call_keeps k (with_slice ptr len k f)"
  by (simp add: with_slice_def call_keeps_checked call_keeps_bind)

lemma call_keeps_cpath: "(\<And>bs. call_keeps k (f bs)) \<Longrightarrow> call_keeps k (with_cpath ptr k f)"
  by (simp add: with_cpath_def call_keeps_replies call_keeps_slice call_keeps_bind)

lemmas call_rules = call_keeps_replies call_keeps_checked call_keeps_slice call_keeps_cpath

lemma call_whole:
  "call_keeps k (exec_resolve programs p extra k)" "call_keeps k (poll_impl sock fds n t k)"
  "call_keeps k (select_impl sock m rp wp tp k)" "call_keeps k (waitpid_impl pid k)"
  "call_keeps k (msgrcv_wait_impl ident out k)" "call_keeps k (sys_exit code k)"
  by (auto intro!: call_keepsI dest: keeps_exec_resolve keeps_poll keeps_select keeps_waitpid
      keeps_msgrcv_wait keeps_sys_exit)

lemma call_sys_read: "call_keeps k (sys_read fd ptr cnt k)"
proof -
  have "call_keeps k (case get_char k1 of (c, k2) \<Rightarrow>
        if c < 0 then reject c k2 else do { k3 \<leftarrow> uwrite ptr [of_int c] k2; reply_ok 1 k3 })" if "keeps k k1" for k1
    using keeps_trans [OF that keeps_get_char]
    by (auto split: prod.split intro!: call_keeps_bind call_rules dest!: keeps_uwrite intro: keeps_trans)
  then show ?thesis unfolding sys_read_def
    by (auto intro!: call_rules call_keeps_bind dest!: keeps_fs_read_user)
qed

lemma call_sys_write: "call_keeps k (sys_write fd ptr cnt k)"
  unfolding sys_write_def
  by (auto intro!: call_rules call_keeps_bind keeps_trans [OF _ keeps_write_console] dest!: keeps_fs_write)

lemma call_sys_print: "call_keeps k (sys_print ptr len k)"
  by (simp add: sys_print_def call_rules)

lemma call_sys_sleep: "call_keeps k (sys_sleep ms k)"
  by (auto simp: sys_sleep_def intro!: call_keepsI split: bind_splits dest!: keeps_sleep_until)

lemma call_sys_info: "call_keeps k (sys_get_system_info ptr k)"
  by (auto simp: sys_get_system_info_def intro!: call_keeps_bind call_rules split: option.split
      dest!: keeps_write_user_value)

lemma call_sys_exec: "call_keeps k (sys_exec programs p a k)" "call_keeps k (sys_exec_args programs p a q b k)"
  by (auto simp: sys_exec_def sys_exec_args_def intro!: call_rules call_keeps_bind call_whole(1))

lemma call_sys_queues:
  "call_keeps k (sys_msgsnd ident ty ptr len k)" "call_keeps k (sys_msgq_create ident k)"
  "call_keeps k (sys_msgq_destroy ident k)"
  by (auto simp: sys_msgsnd_def sys_msgq_create_def sys_msgq_destroy_def split: prod.split intro!: call_rules keeps_tables)
    (metis msgsnd_refines msgq_create_refines msgq_destroy_refines)+

lemma call_file_calls: "list_all (\<lambda>(num, f). call_keeps k (f h r k)) file_calls"
  unfolding file_calls_def sys_stat_def sys_open_def sys_pipe_def sys_readdir_def sys_mkdir_def sys_chdir_def
    sys_getcwd_def sys_unlink_def sys_rename_def readv_impl_def writev_impl_def Let_def
  by (simp only: list.pred_inject prod.case, intro conjI TrueI)
    (auto intro!: call_rules call_keeps_bind call_sys_read call_sys_write call_whole
      keeps_fs_close keeps_dup keeps_dup2 keeps_fcntl
      dest: keeps_fs_open keeps_stat keeps_fstat keeps_lseek keeps_pread keeps_pwrite keeps_readv_loop
        keeps_writev_loop keeps_access keeps_pipe_alloc keeps_truncate keeps_getdents keeps_readdir keeps_getcwd
        keeps_chdir keeps_rename keeps_mkdir keeps_unlink keeps_attr)

lemma call_process_calls:
  "list_all (\<lambda>(num, f). num = 62 \<or> call_keeps k (f h r k)) process_calls"
  unfolding process_calls_def sys_getenv_def sys_setenv_def sys_msgrcv_def sys_msgrcv_wait_def split_beta
  by (simp only: list.pred_inject fst_conv snd_conv, intro conjI TrueI)
    (auto intro!: call_rules call_whole call_sys_sleep call_sys_exec call_sys_print call_sys_info call_sys_queues
      keeps_mmap keeps_munmap keeps_brk keeps_shmget keeps_shmat keeps_shmdt keeps_fork_child keeps_alarm
      keeps_setpgid keeps_get_char keeps_setenv
      dest: keeps_sigaction keeps_sigprocmask keeps_sigreturn keeps_info keeps_arch_prctl keeps_sigsuspend
        keeps_getenv keeps_msgrcv)

text \<open>
  What the dispatcher and the interrupt handlers rely on from the parts that are
  parameters, and the one call that may end another task.
\<close>

definition env_ok :: "machine_env \<Rightarrow> bool" where
  "env_ok h \<longleftrightarrow>
    (\<forall>num r k res k'. hw_ext h num r k = Some (res, k') \<longrightarrow> keeps k k') \<and> (\<forall>n k. keeps k (hw_irq h n k))"

definition kills :: "u64 \<Rightarrow> SyscallRequest \<Rightarrow> bool" where
  "kills num r \<longleftrightarrow> num = 62 \<and> (arg2 r = 0 \<or> (ucast (arg2 r) :: u8) = SIGKILL)"

lemma dispatch_keeps:
  assumes env: "env_ok h" and "\<not> kills num r" and call: "dispatch h num r k = Some (out, k')"
  shows "keeps k k'"
proof (cases "num = 62")
  case True
  then have "dispatch h num r k = reply (kill_pid_sig (arg1 r) (ucast (arg2 r)) k)"
    using assms(2) by (simp add: dispatch_def file_calls_def process_calls_def sys_kill_def kills_def)
  moreover have "ucast (arg2 r) \<noteq> SIGKILL" using assms(2) True by (simp add: kills_def)
  ultimately show ?thesis using call keeps_kill [of "ucast (arg2 r)" k "arg1 r"] by (auto simp: reply_def)
next
  case False
  have table: "call_keeps k (f h r k)" if "map_of (file_calls @ process_calls) num = Some f" for f
    using call_file_calls [of k h r] call_process_calls [of k h r] map_of_SomeD [OF that] False
    by (auto simp: list_all_iff)
  then show ?thesis
    using call env unfolding dispatch_def env_ok_def
    by (auto split: option.splits if_splits simp: call_keeps_def reject_def)
qed

lemma dispatch_steady:
  assumes "env_ok h" "dispatch h num r k = Some (out, k')"
  shows "steady k k'"
proof (cases "kills num r")
  case True
  then obtain s where "dispatch h num r k = reply (kill_pid_sig (arg1 r) s k)"
    by (auto simp: dispatch_def file_calls_def process_calls_def sys_kill_def kills_def)
  then show ?thesis using assms(2) steady_kill [of k "arg1 r" s] by (auto simp: reply_def)
qed (use assms dispatch_keeps keeps_steady in blast)

section \<open>Traps\<close>

lemma keeps_preempt: "keeps k k1 \<Longrightarrow> keeps k (snd (preempt c k1))"
  by (auto simp: preempt_def intro!: keeps_cur)

lemma keeps_timer: "handle_timer_interrupt c k = Some (r, k') \<Longrightarrow> keeps k k'"
  by (auto simp: handle_timer_interrupt_def Let_def left_user_def split: if_splits intro!: keeps_preempt)

lemma keeps_exception: "handle_cpu_exception_64 n c k = Some (r, k') \<Longrightarrow> keeps k k'"
  by (auto simp: handle_cpu_exception_64_def left_user_def split: if_splits bind_splits)

text \<open>The system call a trap makes.\<close>

fun trap_call :: "trap \<Rightarrow> (u64 \<times> SyscallRequest) option" where
  "trap_call (Interrupt int_no err_code cr2 c) =
    (if int_no = 128 then Some (reg_rax c, request_of c) else None)"
| "trap_call (Syscall_Instr c) = Some (reg_rax c, request_of c)"
| "trap_call (Store va b c) = None"

definition trap_kills :: "trap \<Rightarrow> bool" where
  "trap_kills t \<longleftrightarrow> (case trap_call t of None \<Rightarrow> False | Some (num, r) \<Rightarrow> kills num r)"

lemma system_call_dispatch:
  "handle_system_call h c k = Some (res, k') \<Longrightarrow>
   \<exists>out k1. dispatch h (reg_rax c) (request_of c) (k\<lparr>syscall_ctx := Some c\<rparr>) = Some (out, k1)
     \<and> (k' = k1 \<or> k' = k1\<lparr>syscall_ctx := None\<rparr>)"
  by (auto simp: handle_system_call_def split: bind_splits sysout.splits)

lemma wrapper_dispatch:
  "syscall_handler_wrapper h c k = Some (res, k') \<Longrightarrow> \<exists>out. dispatch h (reg_rax c) (request_of c) k = Some (out, k')"
  by (auto simp: syscall_handler_wrapper_def Let_def split: bind_splits sysout.splits)

lemma isr_cases:
  assumes "isr_common_handler h n e cr2 c k = Some (res, k')" "env_ok h"
  shows "keeps k k' \<or> n = 128 \<and> handle_system_call h c k = Some (res, k')"
  using assms unfolding isr_common_handler_def Let_def env_ok_def
  by (auto split: if_splits prod.splits dest!: keeps_timer keeps_exception)

lemma store_keeps:
  assumes "store_step h va b c k = Some (res, k')" "env_ok h"
  shows "keeps k k'"
proof -
  have isr: "keeps k k1" if "isr_common_handler h 14 e va c k = Some (r, k1)" for e r k1
    using isr_cases [OF that assms(2)] by simp
  show ?thesis
    using assms(1) unfolding store_step_def user_store_def Let_def
    by (auto split: option.splits bind_splits sum.splits dest!: isr keeps_uwrite intro: keeps_trans)
qed

lemma trap_step_cases:
  assumes "trap_step h t k = Some (res, k')" "env_ok h"
  shows "steady k k' \<and> (\<not> trap_kills t \<longrightarrow> keeps k k')"
proof -
  have call: "steady k k' \<and> (\<not> kills (reg_rax c) (request_of c) \<longrightarrow> keeps k k')"
    if "handle_system_call h c k = Some (res, k')" for c
    using system_call_dispatch [OF that] dispatch_steady [OF assms(2)] dispatch_keeps [OF assms(2)]
    by (fastforce simp: steady_def)
  show ?thesis
  proof (cases t)
    case (Interrupt n e cr2 c)
    then have "isr_common_handler h n e cr2 c k = Some (res, k')" using assms(1) by simp
    from isr_cases [OF this assms(2)] show ?thesis
      using call [of c] by (auto simp: Interrupt trap_kills_def dest: keeps_steady)
  next
    case (Syscall_Instr c)
    then obtain out where "dispatch h (reg_rax c) (request_of c) k = Some (out, k')"
      using assms(1) wrapper_dispatch by fastforce
    then show ?thesis
      using dispatch_steady [OF assms(2)] dispatch_keeps [OF assms(2)] by (auto simp: Syscall_Instr trap_kills_def)
  next
    case (Store va b c)
    then show ?thesis using assms store_keeps by (auto dest!: store_keeps intro: keeps_steady)
  qed
qed

lemma run_user_steady: "run_user h ts k = Some (code, k') \<Longrightarrow> env_ok h \<Longrightarrow> steady k k'"
  by (induction ts arbitrary: k)
    (auto split: bind_splits sum.splits dest!: trap_step_cases, (blast intro: steady_trans)+)

lemma run_user_keeps:
  "run_user h ts k = Some (code, k') \<Longrightarrow> env_ok h \<Longrightarrow> list_all (\<lambda>t. \<not> trap_kills t) ts \<Longrightarrow> keeps k k'"
  by (induction ts arbitrary: k)
    (auto split: bind_splits sum.splits dest!: trap_step_cases, (blast intro: keeps_trans)+)

end
