(* ===== verification/Elf_Image.thy ===== *)
theory Elf_Image
  imports Elf_Loader
begin

text \<open>
  What a program finds in its memory after the loader of \<open>proc/elf_loader.rs\<close>
  returns.  Freshly mapped pages form a private range; copying the segments into
  it yields the image of the file, a function of the file alone.
\<close>

section \<open>Freshly mapped pages are private\<close>

text \<open>No two pages of a mapped range share a frame.\<close>

lemma map_user_pages_inj:
  "\<lbrakk>pt_inv r s; flags AND PRESENT \<noteq> 0; map_user_pages r virt flags ks s = (Inr (), s'); distinct ks\<rbrakk>
    \<Longrightarrow> inj_on (\<lambda>k. map_option pte_addr (leaf_entry (pmem s') r (virt + of_nat (k * 4096)))) (set ks)"
proof (induction ks arbitrary: s)
  case (Cons k ks)
  obtain s2 where s2: "pages_mapped r virt flags {k} s s2" "map_user_pages r virt flags ks s2 = (Inr (), s')"
    using map_user_pages_step [OF Cons.prems(1-3)] .
  have inv: "pt_inv r s2" using s2(1) by (simp add: pages_mapped_def)
  have rest: "pages_mapped r virt flags (set ks) s2 s'" by (rule map_user_pages_mapped [OF inv Cons.prems(2) s2(2)])
  obtain g where g: "g < FRAMES" "\<not> is_free g (frames s2)"
      "leaf_entry (pmem s2) r (virt + of_nat (k * 4096)) = Some (pte_set (frame_addr g) flags)"
    using s2(1) by (auto simp: pages_mapped_def is_free_def)
  then have k: "leaf_entry (pmem s') r (virt + of_nat (k * 4096)) = Some (pte_set (frame_addr g) flags)"
    using rest unfolding pages_mapped_def by blast
  have "map_option pte_addr (leaf_entry (pmem s') r (virt + of_nat (l * 4096))) \<noteq> Some (frame_addr g)"
    if l: "l \<in> set ks" for l
  proof -
    obtain j where j: "is_free j (frames s2)"
        "leaf_entry (pmem s') r (virt + of_nat (l * 4096)) = Some (pte_set (frame_addr j) flags)"
      using rest l unfolding pages_mapped_def by blast
    then have "j < FRAMES" "j \<noteq> g" using g(2) by (auto simp: is_free_def)
    then show ?thesis using j(2) g(1) by (simp add: frame_addr_inj)
  qed
  then have "\<forall>l \<in> set ks. map_option pte_addr (leaf_entry (pmem s') r (virt + of_nat (l * 4096)))
      \<noteq> map_option pte_addr (leaf_entry (pmem s') r (virt + of_nat (k * 4096)))"
    using k g(1) by simp
  then show ?case using Cons.IH [OF inv Cons.prems(2) s2(2)] Cons.prems(4) by (auto simp: inj_on_def)
qed simp

text \<open>The page of an address in a range of whole pages.\<close>

definition page_of :: "u64 \<Rightarrow> u64 \<Rightarrow> nat" where
  "page_of lo a = unat (a - lo) div 4096"

lemma aligned_unat: "lo AND 0xFFF = (0 :: u64) \<Longrightarrow> unat lo mod 4096 = 0"
proof -
  assume "lo AND 0xFFF = 0"
  moreover have "lo AND 0xFFF = take_bit 12 lo" by (simp add: take_bit_eq_mask mask_eq_exp_minus_1)
  ultimately have "unat (take_bit 12 lo) = 0" by simp
  then show ?thesis by (simp add: take_bit_eq_mod unat_mod)
qed

lemma page_of_range:
  assumes "lo AND 0xFFF = 0" "lo \<le> a"
  shows "drop_bit 12 (lo + of_nat (page_of lo a * 4096)) = drop_bit 12 a"
proof -
  have lo: "unat lo mod 4096 = 0" by (rule aligned_unat [OF assms(1)])
  have sub: "unat (a - lo) = unat a - unat lo" using assms(2) by (rule unat_sub)
  have le: "unat lo \<le> unat a" using assms(2) by (simp add: word_le_nat_alt)
  define p where "p = page_of lo a * 4096"
  have p: "p \<le> unat a - unat lo" unfolding p_def page_of_def sub by simp
  have "unat a < 2 ^ 64" using unsigned_less [of a] by simp
  then have "unat lo + p < 2 ^ 64" using p le by simp
  then have "unat (lo + of_nat p) = unat lo + p"
    by (simp add: unat_word_ariths unat_of_nat)
  moreover have "(unat lo + p) div 4096 = unat a div 4096"
  proof -
    have "unat a = unat lo + (unat a - unat lo)" using le by simp
    then have "unat a div 4096 = unat lo div 4096 + (unat a - unat lo) div 4096"
      using lo by (metis div_plus_div_distrib_dvd_left mod_eq_0_iff_dvd)
    moreover have "(unat lo + p) div 4096 = unat lo div 4096 + page_of lo a"
      unfolding p_def using lo by simp
    ultimately show ?thesis by (simp add: page_of_def sub)
  qed
  ultimately have "unat (drop_bit 12 (lo + of_nat p)) = unat (drop_bit 12 a)"
    by (simp add: drop_bit_eq_div unat_div)
  then show ?thesis unfolding p_def by (simp add: word_unat_eq_iff)
qed

lemma same_page_drop: "drop_bit 12 v = drop_bit 12 w \<Longrightarrow> same_page v w"
proof -
  assume eq: "drop_bit 12 v = drop_bit 12 w"
  have "drop_bit (n + 12) v = drop_bit (n + 12) w" for n
    by (simp only: drop_bit_drop_bit [symmetric] eq)
  from this [of 9] this [of 18] this [of 27] show ?thesis
    using eq by (simp add: same_page_def vpath_def l4_index_def l3_index_def l2_index_def l1_index_def)
qed

lemma page_of_less:
  assumes "lo AND 0xFFF = 0" "hi AND 0xFFF = 0" "lo \<le> a" "a < hi"
  shows "page_of lo a < unat ((hi - lo) div 4096)"
proof -
  have le: "unat lo \<le> unat a" "unat a < unat hi" "lo \<le> hi" using assms(3,4) by (simp_all add: word_le_nat_alt word_less_nat_alt)
  have "unat (hi - lo) mod 4096 = 0"
    using aligned_unat [OF assms(1)] aligned_unat [OF assms(2)] le by (simp add: unat_sub mod_eq_0_iff_dvd)
  moreover have "unat (a - lo) < unat (hi - lo)" using le assms(3) by (simp add: unat_sub)
  ultimately show ?thesis unfolding page_of_def unat_div by (auto simp: div_less_iff_less_mult)
qed

lemma same_address:
  assumes "drop_bit 12 a = drop_bit 12 (b :: u64)" "page_word a = page_word b" "page_byte a = page_byte b"
  shows "a = b"
proof -
  have "unat (a AND 0xFFF) = unat (b AND 0xFFF)"
    using assms(2,3) unfolding page_word_def page_byte_def by (metis div_mult_mod_eq)
  then have "a AND 0xFFF = b AND 0xFFF" by (simp add: word_unat_eq_iff)
  then have "take_bit 12 a = take_bit 12 b" by (simp add: take_bit_eq_mask mask_eq_exp_minus_1)
  then show ?thesis using assms(1) by (metis bits_ident)
qed

lemma region_private:
  assumes inv: "pt_inv r s" and run: "map_user_pages r lo (user_flags True x) [0..<unat ((hi - lo) div 4096)] s = (Inr (), s')"
    and al: "lo AND 0xFFF = 0" "hi AND 0xFFF = 0"
  shows "private_range (pmem s') r {lo..<hi}"
    and "a \<in> {lo..<hi} \<Longrightarrow> load8 r a (pmem s') = Some 0"
    and "a \<in> {lo..<hi} \<Longrightarrow> \<exists>g e. is_free g (frames s) \<and> leaf_entry (pmem s') r a = Some e \<and> pte_addr e = frame_addr g"
proof -
  let ?n = "unat ((hi - lo) div 4096)"
  have mapped: "pages_mapped r lo (user_flags True x) {0..<?n} s s'"
    using map_user_pages_mapped [OF inv user_flags_present run] by simp
  have inj: "inj_on (\<lambda>k. map_option pte_addr (leaf_entry (pmem s') r (lo + of_nat (k * 4096)))) {0..<?n}"
    using map_user_pages_inj [OF inv user_flags_present run] by simp
  have page: "leaf_entry (pmem s') r (lo + of_nat (page_of lo a * 4096)) = leaf_entry (pmem s') r a"
      "page_of lo a < ?n" if "a \<in> {lo..<hi}" for a
    using that leaf_entry_same_page [OF same_page_drop [OF page_of_range [OF al(1), of a]]] page_of_less [OF al, of a] by auto
  have g: "\<exists>g. is_free g (frames s) \<and> foreign r s' (frame_addr g) \<and> g < FRAMES
      \<and> leaf_entry (pmem s') r a = Some (pte_set (frame_addr g) (user_flags True x)) \<and> (\<forall>i. pmem s' (frame_addr g) i = 0)"
    if "a \<in> {lo..<hi}" for a
    using mapped page [OF that] unfolding pages_mapped_def is_free_def by (metis atLeastLessThan_iff zero_le)
  have wr: "is_writable (pte_set p (user_flags True x))" for p
    by (simp add: is_writable_def pte_set_def user_flags_def Let_def bit.conj_disj_distrib2 bit.conj_disj_distrib
        and.assoc ADDR_MASK_def PRESENT_def USER_def WRITABLE_def NO_EXECUTE_def)
  show "load8 r a (pmem s') = Some 0" if "a \<in> {lo..<hi}" for a
    using g [OF that] by (auto simp: load8_def get_byte_def)
  show "\<exists>g e. is_free g (frames s) \<and> leaf_entry (pmem s') r a = Some e \<and> pte_addr e = frame_addr g"
    if "a \<in> {lo..<hi}" for a using g [OF that] by auto
  have "data_byte (pmem s') r a" if "a \<in> {lo..<hi}" for a
  proof -
    from g [OF that] obtain g where "foreign r s' (frame_addr g)" "g < FRAMES"
        "leaf_entry (pmem s') r a = Some (pte_set (frame_addr g) (user_flags True x))" by blast
    then show ?thesis using wr unfolding data_byte_def foreign_def by simp
  qed
  moreover have "a = b" if ab: "a \<in> {lo..<hi}" "b \<in> {lo..<hi}" "phys_byte (pmem s') r a = phys_byte (pmem s') r b" for a b
  proof (rule same_address)
    from g [OF ab(1)] g [OF ab(2)] obtain e e'
      where e: "leaf_entry (pmem s') r a = Some e" "leaf_entry (pmem s') r b = Some e'" by blast
    then have "pte_addr e = pte_addr e'" and w: "page_word a = page_word b" "page_byte a = page_byte b"
      using ab(3) by (auto simp: phys_byte_def)
    then have "page_of lo a = page_of lo b"
      using inj_onD [OF inj, of "page_of lo a" "page_of lo b"] page [OF ab(1)] page [OF ab(2)] e by simp
    then show "drop_bit 12 a = drop_bit 12 b"
      using page_of_range [OF al(1), of a] page_of_range [OF al(1), of b] ab(1,2) by simp
    show "page_word a = page_word b" "page_byte a = page_byte b" by (rule w)+
  qed
  ultimately show "private_range (pmem s') r {lo..<hi}"
    unfolding private_range_def by (blast intro: inj_onI)
qed

text \<open>Frames that hold no byte of the range are untouched by a copy into it.\<close>

lemma store_bytes_frames:
  assumes "private_range m cr3 A" "span va (length bs) \<subseteq> A" "store_bytes cr3 va bs m = Some m'"
    and "\<And>a. a \<in> A \<Longrightarrow> map_option pte_addr (leaf_entry m cr3 a) \<noteq> Some u"
  shows "m' u = m u"
  using assms
proof (induction bs arbitrary: va m)
  case (Cons b bs)
  have va: "va \<in> A" "span (va + 1) (length bs) \<subseteq> A" using Cons.prems(2) by (auto simp: span_Suc)
  then have data: "data_byte m cr3 va" using Cons.prems(1) by (simp add: private_range_def)
  from store8_effect [OF this, of b] obtain m1 where m1: "store8 cr3 va b m = Some m1"
    "\<And>v. leaf_entry m1 cr3 v = leaf_entry m cr3 v" "\<And>q. tpath q \<Longrightarrow> table_at m1 cr3 q = table_at m cr3 q" by blast
  have "private_range m1 cr3 A" using Cons.prems(1) data_byte_cong [OF m1(2,3)] by (simp add: private_range_def inj_on_def)
  moreover have "store_bytes cr3 (va + 1) bs m1 = Some m'" using Cons.prems(3) m1(1) by simp
  ultimately have "m' u = m1 u" using Cons.IH [OF _ va(2)] Cons.prems(4) m1(2) by simp
  also have "m1 u = m u"
    using m1(1) data Cons.prems(4) [OF va(1)] by (auto simp: store8_def data_byte_def put_entry_def)
  finally show ?case .
qed simp

section \<open>The image of a file\<close>

definition seg :: "bytes \<Rightarrow> nat \<Rightarrow> Elf64Phdr" where
  "seg d i = parse_phdr d (unat (ph_off (parse_ehdr d) i))"

definition seg_count :: "bytes \<Rightarrow> nat" where
  "seg_count d = unat (e_phnum (parse_ehdr d))"

text \<open>
  What the format promises of a file: the program headers lie in the file, and a
  loaded segment does not wrap around the address space, has its image in the file
  and is not shorter than its image.
\<close>

definition seg_ok :: "bytes \<Rightarrow> Elf64Phdr \<Rightarrow> bool" where
  "seg_ok d ph \<longleftrightarrow> p_filesz ph \<le> p_memsz ph \<and> unat (p_vaddr ph) + unat (p_memsz ph) + 0xFFF < 2 ^ 64
    \<and> unat (p_offset ph) + unat (p_filesz ph) \<le> length d"

definition elf_ok :: "bytes \<Rightarrow> bool" where
  "elf_ok d \<longleftrightarrow> check_ehdr d = None \<and> length d < 2 ^ 63
    \<and> (\<forall>i < seg_count d. unat (ph_off (parse_ehdr d) i) + PHDR_SIZE \<le> length d)
    \<and> (\<forall>i < seg_count d. is_load (seg d i) \<longrightarrow> seg_ok d (seg d i))"

text \<open>The byte at an address: that of the last segment whose image covers it, and zero elsewhere.\<close>

fun image :: "bytes \<Rightarrow> Elf64Phdr list \<Rightarrow> (u64 \<Rightarrow> u8) \<Rightarrow> u64 \<Rightarrow> u8" where
  "image d [] f = f"
| "image d (ph # phs) f = image d phs
     (\<lambda>a. if is_load ph \<and> a - p_vaddr ph < p_filesz ph
          then d ! (unat (p_offset ph) + unat (a - p_vaddr ph)) else f a)"

definition elf_image :: "bytes \<Rightarrow> u64 \<Rightarrow> u8" where
  "elf_image d = image d (map (seg d) [0..<seg_count d]) (\<lambda>_. 0)"

lemma copy_segments_image:
  assumes "private_range m cr3 A" "\<And>a. a \<in> A \<Longrightarrow> load8 cr3 a m = Some (f a)"
    and "\<And>i. i \<in> set is \<Longrightarrow> unat (ph_off (parse_ehdr d) i) + PHDR_SIZE \<le> length d"
    and "\<And>i. i \<in> set is \<Longrightarrow> is_load (seg d i) \<Longrightarrow>
      seg_ok d (seg d i) \<and> span (p_vaddr (seg d i)) (unat (p_filesz (seg d i))) \<subseteq> A"
    and "length d < 2 ^ 63"
  shows "\<exists>m'. copy_segments d (parse_ehdr d) cr3 is m = Some (None, m')
    \<and> (\<forall>v. leaf_entry m' cr3 v = leaf_entry m cr3 v)
    \<and> (\<forall>a \<in> A. load8 cr3 a m' = Some (image d (map (seg d) is) f a))
    \<and> (\<forall>u. (\<forall>a \<in> A. map_option pte_addr (leaf_entry m cr3 a) \<noteq> Some u) \<longrightarrow> m' u = m u)"
  using assms
proof (induction "is" arbitrary: m f)
  case (Cons i "is")
  let ?ph = "seg d i"
  have inside: "\<not> unat (ph_off (parse_ehdr d) i) + PHDR_SIZE > length d" using Cons.prems(3) [of i] by simp
  show ?case
  proof (cases "is_load ?ph \<and> p_filesz ?ph \<noteq> 0")
    case False
    then have "image d (map (seg d) (i # is)) f = image d (map (seg d) is) f" by auto
    then show ?thesis using False inside Cons.IH [OF Cons.prems(1,2) Cons.prems(3,4,5)] by (auto simp: seg_def [symmetric] Let_def)
  next
    case True
    let ?bs = "take (unat (p_filesz ?ph)) (drop (unat (p_offset ?ph)) d)"
    have ok: "seg_ok d ?ph" "span (p_vaddr ?ph) (unat (p_filesz ?ph)) \<subseteq> A" using Cons.prems(4) [of i] True by auto
    then have len: "length ?bs = unat (p_filesz ?ph)" by (simp add: seg_ok_def min_absorb2 le_diff_conv2)
    have nth: "j < unat (p_filesz ?ph) \<Longrightarrow> ?bs ! j = d ! (unat (p_offset ?ph) + j)" for j using ok(1) by (simp add: seg_ok_def)
    from store_bytes_effect [OF Cons.prems(1), of "p_vaddr ?ph" ?bs, unfolded len, OF ok(2) span_inj]
    obtain m1 where m1: "store_bytes cr3 (p_vaddr ?ph) ?bs m = Some m1"
      "\<And>v. leaf_entry m1 cr3 v = leaf_entry m cr3 v" "\<And>q. tpath q \<Longrightarrow> table_at m1 cr3 q = table_at m cr3 q"
      "\<And>i. i < unat (p_filesz ?ph) \<Longrightarrow> load8 cr3 (p_vaddr ?ph + of_nat i) m1 = Some (?bs ! i)"
      "\<And>v. v \<in> A - span (p_vaddr ?ph) (unat (p_filesz ?ph)) \<Longrightarrow> load8 cr3 v m1 = load8 cr3 v m" by blast
    let ?f = "\<lambda>a. if is_load ?ph \<and> a - p_vaddr ?ph < p_filesz ?ph
        then d ! (unat (p_offset ?ph) + unat (a - p_vaddr ?ph)) else f a"
    have bytes: "load8 cr3 a m1 = Some (?f a)" if "a \<in> A" for a
    proof (cases "a - p_vaddr ?ph < p_filesz ?ph")
      case True
      then show ?thesis using m1(4) [of "unat (a - p_vaddr ?ph)"] nth \<open>is_load ?ph \<and> _\<close> by (simp add: word_less_nat_alt)
    next
      case False
      then show ?thesis using m1(5) [of a] Cons.prems(2) that by (simp add: span_iff)
    qed
    have priv: "private_range m1 cr3 A"
      using Cons.prems(1) data_byte_cong [OF m1(2,3)] by (simp add: private_range_def inj_on_def)
    have fr: "m1 u = m u" if "\<And>a. a \<in> A \<Longrightarrow> map_option pte_addr (leaf_entry m cr3 a) \<noteq> Some u" for u
      by (rule store_bytes_frames [OF Cons.prems(1) _ m1(1) that]) (use ok(2) len in auto)
    have e: "\<not> p_offset ?ph + p_filesz ?ph > of_nat (length d)" "\<not> unat (p_offset ?ph) + unat (p_filesz ?ph) > length d"
      using ok(1) Cons.prems(5) by (auto simp: seg_ok_def word_less_nat_alt unat_word_ariths unat_of_nat)
    have "copy_segments d (parse_ehdr d) cr3 (i # is) m = copy_segments d (parse_ehdr d) cr3 is m1"
      using inside True e m1(1) by (simp add: seg_def [symmetric] Let_def)
    then show ?thesis
      using Cons.IH [OF priv bytes Cons.prems(3,4,5)] m1(2) fr by auto
  qed
qed simp

lemma page_start: "unat (x AND NOT 0xFFF :: u64) = unat x div 4096 * 4096"
proof -
  have "x AND NOT 0xFFF = x - (x AND 0xFFF)"
    by (subst disjunctive_diff_eq_and_not) (simp_all add: bit.de_Morgan_conj bit.conj_disj_distrib and.assoc [symmetric])
  moreover have m: "x AND 0xFFF = x mod 4096"
    using take_bit_eq_mask [of 12 x] take_bit_eq_mod [of 12 x] by (simp add: mask_eq_exp_minus_1)
  ultimately have "x AND NOT 0xFFF = x - x mod 4096" by simp
  moreover have "x mod 4096 \<le> x" by (simp add: word_le_nat_alt unat_mod)
  ultimately have "unat (x AND NOT 0xFFF) = unat x - unat x mod 4096"
    by (simp only: unat_sub) (simp add: unat_mod)
  then show ?thesis by (simp only: minus_mod_eq_div_mult)
qed

lemma page_start_aligned: "va_start ph AND 0xFFF = 0" "va_end ph AND 0xFFF = 0"
  by (simp_all only: va_start_def va_end_def and.assoc) simp_all

lemma unat_va_start: "unat (va_start ph) = unat (p_vaddr ph) div 4096 * 4096"
  by (simp only: va_start_def page_start)

text \<open>The pages of a segment hold all its bytes.\<close>

lemma seg_pages:
  assumes "seg_ok d ph" "a - p_vaddr ph < p_memsz ph"
  shows "va_start ph \<le> a" "a < va_end ph"
proof -
  have fits: "unat (p_vaddr ph) + unat (p_memsz ph) + 0xFFF < 2 ^ 64" using assms(1) by (simp add: seg_ok_def)
  have less: "unat (a - p_vaddr ph) < unat (p_memsz ph)" using assms(2) by (simp add: word_less_nat_alt)
  have "unat (p_vaddr ph + (a - p_vaddr ph)) = unat (p_vaddr ph) + unat (a - p_vaddr ph)"
    by (rule unat_add_lem [THEN iffD1]) (use fits less in simp)
  then have a: "unat a = unat (p_vaddr ph) + unat (a - p_vaddr ph)" by simp
  show "va_start ph \<le> a" using a by (simp add: word_le_nat_alt unat_va_start)
  have "unat (p_vaddr ph + p_memsz ph + 0xFFF) = unat (p_vaddr ph) + unat (p_memsz ph) + 0xFFF"
    using fits by (simp add: unat_word_ariths)
  then have "unat (va_end ph) = (unat (p_vaddr ph) + unat (p_memsz ph) + 0xFFF) div 4096 * 4096"
    by (simp only: va_end_def page_start)
  then show "a < va_end ph" using a less unfolding word_less_nat_alt by simp
qed

lemma load_range_spec:
  assumes "\<And>i. i \<in> set is \<Longrightarrow> unat (ph_off (parse_ehdr d) i) + PHDR_SIZE \<le> length d" "length d < 2 ^ 63"
    and "fst r = - 1 \<or> fst r AND 0xFFF = 0" "snd r AND 0xFFF = 0"
  shows "\<exists>lo hi. load_range d (parse_ehdr d) is r = Some (lo, hi) \<and> lo \<le> fst r \<and> snd r \<le> hi
    \<and> (lo = - 1 \<or> lo AND 0xFFF = 0) \<and> hi AND 0xFFF = 0
    \<and> (\<forall>i \<in> set is. is_load (seg d i) \<longrightarrow> lo \<le> va_start (seg d i) \<and> va_end (seg d i) \<le> hi)"
  using assms
proof (induction "is" arbitrary: r)
  case Nil
  then show ?case by (cases r) simp
next
  case (Cons i "is")
  let ?off = "ph_off (parse_ehdr d) i"
  have off: "unat ?off + PHDR_SIZE \<le> length d" using Cons.prems(1) by simp
  have "unat (?off + of_nat PHDR_SIZE) = unat ?off + PHDR_SIZE" "unat (of_nat (length d) :: u64) = length d"
    using off Cons.prems(2) by (simp_all add: unat_word_ariths unat_of_nat PHDR_SIZE_def)
  then have inside: "\<not> ?off + of_nat PHDR_SIZE > of_nat (length d)" "\<not> unat ?off > length d"
    using off by (simp_all add: word_less_nat_alt)
  define r' where "r' = (if is_load (seg d i) then (min (fst r) (va_start (seg d i)), max (snd r) (va_end (seg d i))) else r)"
  have step: "load_range d (parse_ehdr d) (i # is) r = load_range d (parse_ehdr d) is r'"
    using inside by (simp add: r'_def seg_def [symmetric] Let_def)
  have "fst r' = - 1 \<or> fst r' AND 0xFFF = 0" "snd r' AND 0xFFF = 0"
    using Cons.prems(3,4) by (auto simp: r'_def min_def max_def page_start_aligned)
  from Cons.IH [OF Cons.prems(1,2) this] obtain lo hi where
    "load_range d (parse_ehdr d) is r' = Some (lo, hi)" "lo \<le> fst r'" "snd r' \<le> hi"
    "lo = - 1 \<or> lo AND 0xFFF = 0" "hi AND 0xFFF = 0"
    "\<forall>i \<in> set is. is_load (seg d i) \<longrightarrow> lo \<le> va_start (seg d i) \<and> va_end (seg d i) \<le> hi" by auto
  then show ?case unfolding step by (intro exI [of _ lo] exI [of _ hi]) (auto simp: r'_def split: if_splits)
qed

text \<open>Mapping the pages of a file and copying its segments into them.\<close>

lemma map_and_copy:
  assumes "elf_ok d" "pt_inv cr3 (pg m)" and al: "lo AND 0xFFF = 0" "hi AND 0xFFF = 0"
    and run: "map_user_region_in cr3 lo (unat ((hi - lo) div 4096)) True True m = (Inr (), m1)"
    and segs: "\<And>i. i < seg_count d \<Longrightarrow> is_load (seg d i) \<Longrightarrow> lo \<le> va_start (seg d i) \<and> va_end (seg d i) \<le> hi"
  shows "\<exists>p. copy_segments d (parse_ehdr d) cr3 [0..<seg_count d] (pmem (pg m1)) = Some (None, p)
    \<and> (\<forall>a \<in> {lo..<hi}. load8 cr3 a p = Some (elf_image d a))
    \<and> (\<forall>w e. leaf_entry (pmem (pg m)) cr3 w = Some e \<longrightarrow> leaf_entry p cr3 w = Some e)
    \<and> (\<forall>u. foreign cr3 (pg m) u \<longrightarrow> p u = pmem (pg m) u)"
proof -
  let ?n = "unat ((hi - lo) div 4096)" and ?A = "{lo..<hi}"
  have pages: "map_user_pages cr3 lo (user_flags True True) [0..<?n] (pg m) = (Inr (), pg m1)"
    using run by (auto simp: map_user_region_in_def split: if_splits option.splits prod.splits)
  have mapped: "pages_mapped cr3 lo (user_flags True True) {0..<?n} (pg m) (pg m1)"
    using map_user_pages_mapped [OF assms(2) user_flags_present pages] by simp
  note new = region_private [OF assms(2) pages al]
  have seg: "seg_ok d (seg d i) \<and> span (p_vaddr (seg d i)) (unat (p_filesz (seg d i))) \<subseteq> ?A"
    if i: "i \<in> set [0..<seg_count d]" "is_load (seg d i)" for i
  proof
    show ok: "seg_ok d (seg d i)" using assms(1) i by (simp add: elf_ok_def)
    show "span (p_vaddr (seg d i)) (unat (p_filesz (seg d i))) \<subseteq> ?A"
    proof
      fix a assume "a \<in> span (p_vaddr (seg d i)) (unat (p_filesz (seg d i)))"
      then have "a - p_vaddr (seg d i) < p_memsz (seg d i)" using ok by (auto simp: span_iff seg_ok_def)
      then show "a \<in> ?A" using seg_pages [OF ok] segs [of i] i by fastforce
    qed
  qed
  have hdr: "unat (ph_off (parse_ehdr d) i) + PHDR_SIZE \<le> length d" if "i \<in> set [0..<seg_count d]" for i
    using assms(1) that by (simp add: elf_ok_def)
  have "length d < 2 ^ 63" using assms(1) by (simp add: elf_ok_def)
  from copy_segments_image [OF new(1), of "\<lambda>_. 0", OF new(2) hdr seg this] obtain p where
    p: "copy_segments d (parse_ehdr d) cr3 [0..<seg_count d] (pmem (pg m1)) = Some (None, p)"
      "\<And>v. leaf_entry p cr3 v = leaf_entry (pmem (pg m1)) cr3 v" "\<And>a. a \<in> ?A \<Longrightarrow> load8 cr3 a p = Some (elf_image d a)"
      "\<And>u. (\<forall>a \<in> ?A. map_option pte_addr (leaf_entry (pmem (pg m1)) cr3 a) \<noteq> Some u) \<Longrightarrow> p u = pmem (pg m1) u"
    unfolding elf_image_def by blast
  have "p u = pmem (pg m) u" if u: "foreign cr3 (pg m) u" for u
  proof -
    have "map_option pte_addr (leaf_entry (pmem (pg m1)) cr3 a) \<noteq> Some u" if "a \<in> ?A" for a
      using new(3) [OF that] u by (auto simp: foreign_def is_free_def)
    then have "p u = pmem (pg m1) u" using p(4) by blast
    then show ?thesis using mapped u unfolding pages_mapped_def by simp
  qed
  moreover have "leaf_entry p cr3 w = Some e" if "leaf_entry (pmem (pg m)) cr3 w = Some e" for w e
    using mapped that p(2) unfolding pages_mapped_def by simp
  ultimately show ?thesis using p(1,3) by blast
qed

lemma copy_no_segments:
  assumes "elf_ok d" "\<And>i. i < seg_count d \<Longrightarrow> \<not> is_load (seg d i)"
  shows "copy_segments d (parse_ehdr d) cr3 [0..<seg_count d] p = Some (None, p)"
proof -
  have "\<exists>p'. copy_segments d (parse_ehdr d) cr3 [0..<seg_count d] p = Some (None, p') \<and> (\<forall>u. p' u = p u)"
    using copy_segments_image [of p cr3 "{}" "\<lambda>_. 0" "[0..<seg_count d]" d] assms
    by (auto simp: elf_ok_def private_range_def)
  then show ?thesis by (auto simp: fun_eq_iff)
qed

text \<open>The range of the first pass, and what the loader does with it.\<close>

lemma load_in_range:
  assumes "elf_ok d"
  obtains lo hi where "lo < hi \<Longrightarrow> lo AND 0xFFF = 0" "hi AND 0xFFF = 0"
    "\<And>i. i < seg_count d \<Longrightarrow> is_load (seg d i) \<Longrightarrow> lo \<le> va_start (seg d i) \<and> va_end (seg d i) \<le> hi"
    "\<And>m. load_in d cr3 m =
      (case if lo < hi then map_user_region_in cr3 lo (unat ((hi - lo) div 4096)) True True m else (Inr (), m) of
         (Inl _, m1) \<Rightarrow> Some (Inl ''OOM: ELF segments'', m1)
       | (Inr _, m1) \<Rightarrow> do { (err, p) \<leftarrow> copy_segments d (parse_ehdr d) cr3 [0..<seg_count d] (pmem (pg m1));
           Some (case err of Some e \<Rightarrow> Inl e | None \<Rightarrow> Inr (e_entry (parse_ehdr d)), m1\<lparr>pg := (pg m1)\<lparr>pmem := p\<rparr>\<rparr>) })"
proof -
  have chk: "check_ehdr d = None" "length d < 2 ^ 63"
    and hdr: "\<And>i. i \<in> set [0..<seg_count d] \<Longrightarrow> unat (ph_off (parse_ehdr d) i) + PHDR_SIZE \<le> length d"
    using assms by (simp_all add: elf_ok_def)
  from load_range_spec [of "[0..<seg_count d]" d "(- 1, 0)", OF hdr chk(2)] obtain lo hi where
    rng: "load_range d (parse_ehdr d) [0..<seg_count d] (- 1, 0) = Some (lo, hi)" "lo = - 1 \<or> lo AND 0xFFF = 0" "hi AND 0xFFF = 0"
      "\<And>i. i < seg_count d \<Longrightarrow> is_load (seg d i) \<Longrightarrow> lo \<le> va_start (seg d i) \<and> va_end (seg d i) \<le> hi" by auto
  show thesis
  proof (rule that [of lo hi])
    show "lo < hi \<Longrightarrow> lo AND 0xFFF = 0" using rng(2) by auto
  qed (simp_all only: load_in_def chk(1) option.case Let_def seg_count_def [symmetric] rng(1,3,4) bind.bind_lunit prod.case)
qed

lemma seg_inside:
  assumes "elf_ok d" "i < seg_count d" "is_load (seg d i)" "a - p_vaddr (seg d i) < p_memsz (seg d i)"
    and "lo \<le> va_start (seg d i) \<and> va_end (seg d i) \<le> hi"
  shows "a \<in> {lo..<hi}"
proof -
  have "seg_ok d (seg d i)" using assms(1-3) by (simp add: elf_ok_def)
  then show ?thesis using seg_pages [OF _ assms(4)] assms(5) by fastforce
qed

text \<open>
  C6. Loading a well-formed ELF file either fails because its pages cannot be mapped,
  or returns the entry point of the file, and then the process finds in its memory
  the image of the file: at every address of a loaded segment the byte of the file,
  and zero beyond the part that is in the file, even where segments share a page.
  Translations that existed before are kept, and no frame in use by anyone else
  changes.  The loader never reads outside the file and never faults.
\<close>

theorem load_in_image:
  assumes "elf_ok d" "pt_inv cr3 (pg m)"
  shows "\<exists>res m'. load_in d cr3 m = Some (res, m')
    \<and> (res = Inl ''OOM: ELF segments'' \<and> (\<exists>lo n e. map_user_region_in cr3 lo n True True m = (Inl e, m'))
     \<or> res = Inr (e_entry (parse_ehdr d))
       \<and> (\<forall>i < seg_count d. \<forall>a. is_load (seg d i) \<longrightarrow> a - p_vaddr (seg d i) < p_memsz (seg d i) \<longrightarrow>
            load8 cr3 a (pmem (pg m')) = Some (elf_image d a))
       \<and> (\<forall>w e. leaf_entry (pmem (pg m)) cr3 w = Some e \<longrightarrow> leaf_entry (pmem (pg m')) cr3 w = Some e)
       \<and> (\<forall>u. foreign cr3 (pg m) u \<longrightarrow> pmem (pg m') u = pmem (pg m) u))"
proof -
  obtain lo hi where al: "lo < hi \<Longrightarrow> lo AND 0xFFF = 0" "hi AND 0xFFF = 0"
    and segs: "\<And>i. i < seg_count d \<Longrightarrow> is_load (seg d i) \<Longrightarrow> lo \<le> va_start (seg d i) \<and> va_end (seg d i) \<le> hi"
    and load: "load_in d cr3 m =
      (case if lo < hi then map_user_region_in cr3 lo (unat ((hi - lo) div 4096)) True True m else (Inr (), m) of
         (Inl _, m1) \<Rightarrow> Some (Inl ''OOM: ELF segments'', m1)
       | (Inr _, m1) \<Rightarrow> do { (err, p) \<leftarrow> copy_segments d (parse_ehdr d) cr3 [0..<seg_count d] (pmem (pg m1));
           Some (case err of Some e \<Rightarrow> Inl e | None \<Rightarrow> Inr (e_entry (parse_ehdr d)), m1\<lparr>pg := (pg m1)\<lparr>pmem := p\<rparr>\<rparr>) })"
    by (rule load_in_range [OF assms(1), of cr3]) blast
  note inside = seg_inside [OF assms(1) _ _ _ segs]
  obtain r m1 where run: "map_user_region_in cr3 lo (unat ((hi - lo) div 4096)) True True m = (r, m1)" by (rule prod.exhaust)
  consider (none) "\<not> lo < hi" | (fail) e where "lo < hi" "r = Inl e" | (ok) "lo < hi" "r = Inr ()" by (cases r) auto
  then show ?thesis
  proof cases
    case none
    then have "\<not> is_load (seg d i)" if "i < seg_count d" for i
      using inside [OF that, of "p_vaddr (seg d i)"] that by (auto simp: is_load_def word_neq_0_conv)
    then show ?thesis using load none copy_no_segments [OF assms(1)] by simp
  next
    case fail
    then show ?thesis using load run by auto
  next
    case ok
    from map_and_copy [OF assms al(1) [OF ok(1)] al(2) run [unfolded ok(2)] segs] obtain p where
      "copy_segments d (parse_ehdr d) cr3 [0..<seg_count d] (pmem (pg m1)) = Some (None, p)"
      "\<forall>a \<in> {lo..<hi}. load8 cr3 a p = Some (elf_image d a)"
      "\<forall>w e. leaf_entry (pmem (pg m)) cr3 w = Some e \<longrightarrow> leaf_entry p cr3 w = Some e"
      "\<forall>u. foreign cr3 (pg m) u \<longrightarrow> p u = pmem (pg m) u" by auto
    then show ?thesis using load run ok inside by simp
  qed
qed

section \<open>A small file\<close>

text \<open>One segment of four bytes at \<open>0x401000\<close>, sixteen bytes long in memory.\<close>

definition tiny_elf :: bytes where
  "tiny_elf =
    [0x7F, 0x45, 0x4C, 0x46, 2, 1, 1, 0, 0, 0, 0, 0, 0, 0, 0, 0,
     2, 0, 0x3E, 0, 1, 0, 0, 0, 0, 0x10, 0x40, 0, 0, 0, 0, 0,
     64, 0, 0, 0, 0, 0, 0, 0, 0, 0, 0, 0, 0, 0, 0, 0,
     0, 0, 0, 0, 64, 0, 56, 0, 1, 0, 0, 0, 0, 0, 0, 0,
     1, 0, 0, 0, 7, 0, 0, 0, 120, 0, 0, 0, 0, 0, 0, 0,
     0, 0x10, 0x40, 0, 0, 0, 0, 0, 0, 0x10, 0x40, 0, 0, 0, 0, 0,
     4, 0, 0, 0, 0, 0, 0, 0, 16, 0, 0, 0, 0, 0, 0, 0,
     0, 0x10, 0, 0, 0, 0, 0, 0, 0xB8, 0x3C, 0x0F, 0x05]"

lemma tiny_ehdr:
  "parse_ehdr tiny_elf = \<lparr>e_ident = take 16 tiny_elf, e_type = 2, e_machine = 0x3E, e_entry = 0x401000,
     e_phoff = 64, e_phentsize = 56, e_phnum = 1\<rparr>"
  by (simp add: parse_ehdr_def) (code_simp)

lemma tiny_seg:
  "seg tiny_elf 0 = \<lparr>p_type = 1, p_flags = 7, p_offset = 120, p_vaddr = 0x401000, p_filesz = 4, p_memsz = 16\<rparr>"
  by (simp add: seg_def ph_off_def tiny_ehdr parse_phdr_def) code_simp

lemma tiny_length: "length tiny_elf = 124"
  by (simp add: tiny_elf_def)

lemma tiny_ok: "elf_ok tiny_elf" "seg_count tiny_elf = 1"
proof -
  have "check_ehdr tiny_elf = None" unfolding check_ehdr_def
    by (simp add: tiny_ehdr tiny_length kdefs Let_def) (simp add: tiny_elf_def)
  then show "elf_ok tiny_elf" "seg_count tiny_elf = 1"
    by (simp_all add: elf_ok_def seg_count_def tiny_ehdr tiny_seg tiny_length seg_ok_def ph_off_def PHDR_SIZE_def)
qed

lemma tiny_image: "elf_image tiny_elf 0x401002 = 0x0F" "elf_image tiny_elf 0x401009 = 0"
  by (simp_all add: elf_image_def tiny_ok tiny_seg is_load_def PT_LOAD_def) (simp add: tiny_elf_def)

theorem load_in_image_witness:
  "\<exists>m'. load_in tiny_elf 0 ex_mm = Some (Inr 0x401000, m')
    \<and> load8 0 0x401002 (pmem (pg m')) = Some 0x0F \<and> load8 0 0x401009 (pmem (pg m')) = Some 0"
proof -
  obtain m1 where m1: "map_user_region_in 0 0x401000 1 True True ex_mm = (Inr (), m1)" using ex_region_mapped by blast
  have phs: "[0..<unat (1 :: u16)] = [0]" by simp
  have "check_ehdr tiny_elf = None" using tiny_ok(1) by (simp add: elf_ok_def)
  moreover have "load_range tiny_elf (parse_ehdr tiny_elf) [0] (- 1, 0) = Some (0x401000, 0x402000)"
    using tiny_seg by (simp add: seg_def ph_off_def tiny_ehdr tiny_length PHDR_SIZE_def is_load_def PT_LOAD_def va_start_def va_end_def)
  ultimately have "load_in tiny_elf 0 ex_mm \<noteq> Some (Inl ''OOM: ELF segments'', m')" for m'
    using m1 tiny_seg by (simp add: load_in_def tiny_ehdr seg_def ph_off_def tiny_length PHDR_SIZE_def is_load_def PT_LOAD_def
        split: bind_splits)
  then show ?thesis
    using load_in_image [OF tiny_ok(1) ex_mm_inv] tiny_image by (auto simp: tiny_ok tiny_seg tiny_ehdr is_load_def PT_LOAD_def)
qed

end
