(* ===== verification/Sys_Paths.thy ===== *)
theory Sys_Paths
  imports Syscalls
begin

text \<open>
  Paths whose length the kernel finds itself.  \<open>strnlen_user\<close> of \<open>sys/syscall_core.rs\<close>
  counts the terminating zero, and \<open>sys_open\<close>, \<open>openat\<close>, \<open>chdir\<close>, \<open>access\<close> and \<open>stat\<close> pass
  that many bytes on as the path, so the last component of the path ends with a
  zero byte.  The theory shows what this does to \<open>open\<close>.
\<close>

section \<open>The length of a user string\<close>

lemma load8_page_mapped:
  "load8 cr3 va m = Some b \<Longrightarrow> cr3 AND ADDR_MASK = cr3 \<Longrightarrow> is_page_mapped_current cr3 va m"
  by (auto simp: load8_def leaf_entry_def vpath_def is_page_mapped_current_def pte_is_present_def pte_addr_def
      PRESENT_def Let_def split: option.splits if_splits)

lemma strnlen_loop_string:
  assumes "load_bytes cr3 (ptr + of_nat i) (length p + 1) m = Some (p @ [0])" "0 \<notin> set p" "length p < n"
    and "cr3 AND ADDR_MASK = cr3"
  shows "strnlen_loop n ptr i page cr3 m = Some (i + length p + 1)"
  using assms(1-3)
proof (induction p arbitrary: i n page)
  case Nil
  then obtain n' where "n = Suc n'" by (cases n) auto
  moreover have "load8 cr3 (ptr + of_nat i) m = Some 0" using Nil.prems(1) by (auto split: bind_splits)
  ultimately show ?case using load8_page_mapped [OF _ assms(4)] by (simp add: Let_def)
next
  case (Cons b p)
  then obtain n' where n: "n = Suc n'" by (cases n) auto
  have b: "load8 cr3 (ptr + of_nat i) m = Some b"
    and rest: "load_bytes cr3 (ptr + of_nat (Suc i)) (length p + 1) m = Some (p @ [0])"
    using Cons.prems(1) by (auto split: bind_splits simp: ac_simps)
  have "strnlen_loop n' ptr (Suc i) ((ptr + of_nat i) AND NOT 0xFFF) cr3 m = Some (Suc i + length p + 1)"
    using Cons.IH [OF rest] Cons.prems n by simp
  then show ?case using b load8_page_mapped [OF b assms(4)] Cons.prems(2) by (simp add: n Let_def)
qed

lemma strnlen_user_string:
  assumes "uread ptr (length p + 1) k = Some (p @ [0])" "0 \<notin> set p" "length p < 4096"
    and "tcr3 (cur_task k) AND ADDR_MASK = tcr3 (cur_task k)"
  shows "strnlen_user ptr 4096 k = Some (of_nat (length p + 1))"
  using strnlen_loop_string [of _ ptr 0 p _ 4096] assms by (simp add: strnlen_user_def uread_def)

text \<open>A call that measures the path itself works on the path with the zero byte.\<close>

lemma with_cpath_string:
  assumes "uread ptr (length p + 1) k = Some (p @ [0])" "0 \<notin> set p" "length p < 4096"
    and "tcr3 (cur_task k) AND ADDR_MASK = tcr3 (cur_task k)"
    and "validate_user_range ptr (of_nat (length p + 1)) = None"
  shows "with_cpath ptr k f = f (p @ [0])"
proof -
  have "unat (of_nat (length p + 1) :: u64) = length p + 1" using assms(3) by (intro unat_of_nat_small) simp
  moreover from this have "(of_nat (length p + 1) :: u64) \<noteq> 0" by (metis add_eq_0_iff_both_eq_0 unat_0 zero_neq_one)
  ultimately show ?thesis
    using assms(1,5) strnlen_user_string [OF assms(1-4)]
    by (simp add: with_cpath_def with_slice_def checked_def del: of_nat_add of_nat_Suc)
qed

section \<open>A name that ends with a zero byte\<close>

lemma split_on_snoc: "c \<noteq> d \<Longrightarrow> split_on d (p @ [c]) = butlast (split_on d p) @ [last (split_on d p) @ [c]]"
  by (induction p) (auto split: list.split)

lemma walk_absent: "c \<in> set cs \<Longrightarrow> \<forall>n \<in> set fs. iname n \<noteq> c \<Longrightarrow> walk fs i cs = None"
proof (induction cs arbitrary: i)
  case (Cons d cs)
  have "find_child fs i c = None" using Cons.prems(2) by (simp add: find_child_def first_index_None)
  then show ?case using Cons by (auto split: option.split)
qed simp

lemma resolve_zero_ended:
  assumes "\<forall>n \<in> set fs. CHR 0x00 \<notin> set (iname n)"
  shows "resolve fs (path @ [CHR 0x00]) = None"
proof -
  have "last (split_on slash path) @ [CHR 0x00] \<in> set (comps (path @ [CHR 0x00]))"
    by (simp add: comps_def split_on_snoc)
  then show ?thesis using assms unfolding resolve_walk by (intro walk_absent) auto
qed

text \<open>
  C35. Opening an existing file with the \<open>open\<close> system call fails.  Let the caller's
  memory hold a path followed by its terminating zero, in mapped memory of the user
  half, that names a place in the in-memory tree, and let no file of the tree have a
  zero byte in its name, as is the case for every file the kernel creates.  Then
  \<open>open\<close> without \<open>O_CREAT\<close> reports that there is no such file, whether or not the file
  exists, because the kernel takes the terminating zero for the last byte of the
  name.
\<close>

theorem open_never_finds:
  assumes "uread ptr (length p + 1) k = Some (p @ [0])" "0 \<notin> set p" "length p < 4096"
    and "tcr3 (cur_task k) AND ADDR_MASK = tcr3 (cur_task k)"
    and "validate_user_range ptr (of_nat (length p + 1)) = None"
    and utf: "valid_utf8 (p @ [0])" and tree: "vfs_resolve (bytes_str (p @ [0])) = At_RamFS (bytes_str (p @ [0]))"
    and fs: "ramfs k = Some fs" "\<forall>n \<in> set fs. CHR 0x00 \<notin> set (iname n)"
    and flags: "(ucast flags :: u32) AND O_CREAT = 0"
  shows "sys_open ptr flags k = Some (Ret (err ENOENT), k)"
proof -
  have none: "resolve fs (bytes_str (p @ [0])) = None"
    using resolve_zero_ended [OF fs(2), of "bytes_str p"] by (simp add: bytes_str_def char_of_def)
  then have "fd_open (bytes_str (p @ [0])) (ucast flags) fs t = (ENOENT, fs, t)" for t
    using flags by (simp add: fd_open_def open_inode_idx_def)
  then have "open_tree (bytes_str (p @ [0])) (ucast flags) k = (ENOENT, k)"
    using fs(1) none by (simp add: open_tree_def list_dir_def open_in_ramfs_def set_fdt_def upd_task_def fdt_def)
  then have "fs_open (p @ [0]) (ucast flags) k = Some (ENOENT, k)"
    using utf tree by (simp add: fs_open_def with_str_def vfs_open_def)
  then show ?thesis
    using with_cpath_string [OF assms(1-5)] by (simp add: sys_open_def reply_opt_def sysret_def ENOENT_def)
qed

section \<open>A file that exists\<close>

text \<open>Every page is the same frame, which starts with the bytes of \<open>/a\<close> and a zero.\<close>

definition one_page :: pmem where
  "one_page f w = (if f = 0x1000 then 0x2007 else if f = 0x2000 then 0x3007 else if f = 0x3000 then 0x4007
    else if f = 0x4000 then 0x5007 else if f = 0x5000 \<and> w = 0 then 0x612F else 0)"

definition one_page_kernel :: kernel where
  "one_page_kernel =
    upd_task 0 (\<lambda>t. t\<lparr>tcr3 := 0x1000\<rparr>)
      ((kernel_statics Map.empty (ex_mm\<lparr>pg := (pg ex_mm)\<lparr>pmem := one_page\<rparr>\<rparr>))\<lparr>ramfs := Some two_files\<rparr>)"

lemma one_page_load:
  "load8 0x1000 va one_page = Some (get_byte (page_byte va) (if page_word va = 0 then 0x612F else 0))"
  by (simp add: load8_def leaf_entry_def vpath_def one_page_def pte_is_present_def pte_addr_def PRESENT_def ADDR_MASK_def)

lemma one_page_bytes: "load_bytes 0x1000 0x400000 (Suc (Suc (Suc 0))) one_page = Some [0x2F, 0x61, 0]"
  by (simp add: one_page_load page_word_def page_byte_def get_byte_def)

lemma one_page_fields:
  "cur_task one_page_kernel = task_empty\<lparr>tcr3 := 0x1000\<rparr>" "pmem (pg (kmm one_page_kernel)) = one_page"
  "ramfs one_page_kernel = Some two_files" "bstr ''/a'' = [0x2F, 0x61]"
  by (simp_all add: one_page_kernel_def cur_task_def kernel_statics_def MAX_TASKS_def bstr_def)

theorem open_never_finds_witness:
  "resolve two_files ''/a'' = Some 1 \<and> uread 0x400000 3 one_page_kernel = Some (bstr ''/a'' @ [0])
    \<and> sys_open 0x400000 0 one_page_kernel = Some (Ret (err ENOENT), one_page_kernel)"
proof (intro conjI)
  show r: "resolve two_files ''/a'' = Some 1" by (rule slash_a(3))
  show mem: "uread 0x400000 3 one_page_kernel = Some (bstr ''/a'' @ [0])"
    using one_page_bytes by (simp add: uread_def one_page_fields numeral_3_eq_3)
  show "sys_open 0x400000 0 one_page_kernel = Some (Ret (err ENOENT), one_page_kernel)"
  proof (rule open_never_finds [where p = "bstr ''/a''" and fs = two_files])
    show "uread 0x400000 (length (bstr ''/a'') + 1) one_page_kernel = Some (bstr ''/a'' @ [0])" using mem by (simp add: numeral_3_eq_3)
    show "validate_user_range 0x400000 (of_nat (length (bstr ''/a'') + 1)) = None"
      by (simp add: validate_user_range_def kdefs)
    show "valid_utf8 (bstr ''/a'' @ [0])" by (simp add: one_page_fields utf8_tail_def)
    show "vfs_resolve (bytes_str (bstr ''/a'' @ [0])) = At_RamFS (bytes_str (bstr ''/a'' @ [0]))"
      by (simp add: bytes_str_def one_page_fields vfs_resolve_def under_mount_def starts_with_def char_of_def)
    show "\<forall>n \<in> set two_files. CHR 0x00 \<notin> set (iname n)" by (simp add: two_files_def)
  qed (simp_all add: one_page_fields ADDR_MASK_def)
qed

end
