(* ===== verification/Pipe_Transfer.thy ===== *)
theory Pipe_Transfer
  imports Kernel_Safety Sys_Paths
begin

text \<open>
  Two tasks and a pipe: the bytes one task hands to the \<open>write\<close> system call are the
  bytes another finds in its memory after \<open>read\<close>.  The system call, the descriptor
  table, the ring buffer of the pipe and the copies from and to user memory are
  those of the component theories.
\<close>

section \<open>The pipe of a whole table\<close>

lemma pipe_write_all:
  assumes "pipes_shape ps" "i < PIPE_COUNT" "write_open (ps ! i)"
    and "length (pipe_contents (ps ! i)) + length bs < PIPE_BUF"
  shows "\<exists>p. pipe_write (write_end i) bs ps = (int (length bs), ps[i := p]) \<and> pipe_invar p
    \<and> pipe_contents p = pipe_contents (ps ! i) @ bs \<and> read_open p = read_open (ps ! i)"
proof -
  let ?p = "ps ! i"
  have inv: "pipe_invar ?p" using assms(1,2) by (auto simp: pipes_shape_def list_all_length)
  have "pipe_invar (fold pipe_put bs ?p)" using pq.puts_invar [OF inv, of bs] by simp
  moreover have "pipe_contents (fold pipe_put bs ?p) = pipe_contents ?p @ bs"
    using pq.puts_contents [OF inv, of bs] assms(4) by simp
  moreover have "read_open (fold pipe_put bs ?p) = read_open ?p" using same_ends_puts [of ?p bs] by (simp add: same_ends_def)
  ultimately show ?thesis
    using assms(2-4) pipe_write_loop_puts [OF inv, of bs 0]
    by (intro exI [of _ "fold pipe_put bs ?p"]) (simp add: pipe_write_def Let_def)
qed

lemma pipe_read_all:
  assumes "pipe_invar (ps ! i)" "i < PIPE_COUNT" "read_open (ps ! i)" "pipe_contents (ps ! i) \<noteq> []"
  shows "\<exists>p. pipe_read (read_end i) buf ps =
      (int (min (length buf) (length (pipe_contents (ps ! i)))),
       blit 0 (take (length buf) (pipe_contents (ps ! i))) buf, ps[i := p])
    \<and> pipe_contents p = drop (length buf) (pipe_contents (ps ! i))"
proof -
  obtain p where p: "fifo_drain pipe_get (length buf) (ps ! i) = (take (length buf) (pipe_contents (ps ! i)), p)"
      "pipe_contents p = drop (length buf) (pipe_contents (ps ! i))"
    using pq.drain_spec [of "ps ! i" "length buf"] assms(1) by auto
  then show ?thesis
    using assms pipe_read_loop_drain [of 0 buf "ps ! i"] by (auto simp: pipe_read_def Let_def min.commute)
qed

section \<open>The system calls\<close>

text \<open>The running task holds an end of a pipe under a descriptor.\<close>

definition holds_end :: "int \<Rightarrow> int \<Rightarrow> kernel \<Rightarrow> bool" where
  "holds_end fd raw k \<longleftrightarrow> (case fd_lookup fd (fdt (cur_idx k) k) of
     None \<Rightarrow> False | Some e \<Rightarrow> backend e = Pipe \<and> raw_fd e = raw)"

lemma holds_end_nonneg: "holds_end fd raw k \<Longrightarrow> 0 \<le> fd"
  by (auto simp: holds_end_def fd_lookup_def split: if_splits)

lemma fs_write_pipe:
  assumes "holds_end fd raw k" "ramfs k \<noteq> None"
  shows "fs_write_file fd bs k = (case pipe_write raw bs (kpipes k) of (r, ps) \<Rightarrow> Some (r, k\<lparr>kpipes := ps\<rparr>))"
  using assms by (auto simp: holds_end_def fs_write_file_def write_fd_def split: option.splits)

lemma fs_read_pipe:
  assumes "holds_end fd raw k" "ramfs k \<noteq> None"
  shows "fs_read fd buf k = (case pipe_read raw buf (kpipes k) of (r, buf', ps) \<Rightarrow> Some (r, buf', k\<lparr>kpipes := ps\<rparr>))"
  using assms by (auto simp: holds_end_def fs_read_def read_fd_def split: option.splits)

lemma load_bytes_length: "load_bytes cr3 va n m = Some bs \<Longrightarrow> length bs = n"
  by (induction n arbitrary: va bs) (auto split: bind_splits)

lemma write_to_pipe:
  assumes "kernel_ok k" "ramfs k \<noteq> None" "holds_end fd (write_end i) k" "1 \<le> fd"
    and "i < PIPE_COUNT" "write_open (kpipes k ! i)"
    and "validate_user_range ptr n = None" "uread ptr (unat n) k = Some bs"
    and "length (pipe_contents (kpipes k ! i)) + length bs < PIPE_BUF"
  shows "\<exists>p. sys_write fd ptr n k = Some (Ret (ok (uint n)), k\<lparr>kpipes := (kpipes k)[i := p]\<rparr>) \<and> pipe_invar p
    \<and> pipe_contents p = pipe_contents (kpipes k ! i) @ bs \<and> read_open p = read_open (kpipes k ! i)"
proof -
  have shape: "pipes_shape (kpipes k)" using assms(1) by (simp add: kernel_ok_def)
  obtain p where p: "pipe_write (write_end i) bs (kpipes k) = (int (length bs), (kpipes k)[i := p])" "pipe_invar p"
      "pipe_contents p = pipe_contents (kpipes k ! i) @ bs" "read_open p = read_open (kpipes k ! i)"
    using pipe_write_all [OF shape assms(5,6,9)] by blast
  have "length bs = unat n" using assms(8) load_bytes_length by (auto simp: uread_def)
  then have w: "fs_write_file fd bs k = Some (uint n, k\<lparr>kpipes := (kpipes k)[i := p]\<rparr>)"
    using fs_write_pipe [OF assms(3,2), of bs] p(1) by simp
  have nonneg: "\<not> uint n < 0" by (simp add: not_less)
  then have "uint n \<noteq> EBADF" by (auto simp: EBADF_def simp del: uint_lt_0)
  note nonneg = nonneg this
  then have "sys_write fd ptr n k = Some (Ret (ok (uint n)), k\<lparr>kpipes := (kpipes k)[i := p]\<rparr>)"
    using assms(4,7,8) w nonneg
    by (cases "fd = 1 \<or> fd = 2") (auto simp: sys_write_def with_slice_def checked_def reply_def reply_opt_def sysret_def)
  then show ?thesis using p by blast
qed

lemma read_from_pipe:
  assumes "ramfs k \<noteq> None" "holds_end fd (read_end i) k"
    and "i < PIPE_COUNT" "pipe_invar (kpipes k ! i)" "read_open (kpipes k ! i)" "length (kpipes k) = PIPE_COUNT"
    and "pipe_contents (kpipes k ! i) \<noteq> []" "n \<noteq> 0" "validate_user_range ptr n = None"
    and mem: "private_range (pmem (pg (kmm k))) (tcr3 (cur_task k)) (span ptr (unat n))"
    and "r = min (unat n) (length (pipe_contents (kpipes k ! i)))"
  shows "\<exists>k'. sys_read fd ptr n k = Some (Ret (ok (int r)), k')
    \<and> uread ptr r k' = Some (take r (pipe_contents (kpipes k ! i)))
    \<and> pipe_contents (kpipes k' ! i) = drop r (pipe_contents (kpipes k ! i))"
proof -
  let ?c = "pipe_contents (kpipes k ! i)" and ?m = "pmem (pg (kmm k))" and ?cr3 = "tcr3 (cur_task k)"
  obtain p where p: "pipe_read (read_end i) (replicate (unat n) 0) (kpipes k) =
      (int r, blit 0 (take (unat n) ?c) (replicate (unat n) 0), (kpipes k)[i := p])" "pipe_contents p = drop (unat n) ?c"
    using pipe_read_all [OF assms(4,3,5,7), of "replicate (unat n) 0"] assms(11) by auto
  have bytes: "take r (blit 0 (take (unat n) ?c) (replicate (unat n) 0)) = take r ?c" "length (take r ?c) = r"
    using assms(11) by (simp_all add: blit_def min_def)
  have sub: "span ptr r \<subseteq> span ptr (unat n)" using assms(11) by (auto simp: span_def)
  have "inj_on (\<lambda>i. ptr + of_nat i) {..<unat n}" by (rule span_inj)
  then have inj: "inj_on (\<lambda>i. ptr + of_nat i) {..<r}" by (rule inj_on_subset) (use assms(11) in auto)
  from store_bytes_effect [OF mem, of ptr "take r ?c", unfolded bytes(2), OF sub inj] obtain m' where
    m': "store_bytes ?cr3 ptr (take r ?c) ?m = Some m'"
      "\<And>j. j < r \<Longrightarrow> load8 ?cr3 (ptr + of_nat j) m' = Some (take r ?c ! j)" by blast
  let ?k = "k\<lparr>kpipes := (kpipes k)[i := p], kmm := (kmm k)\<lparr>pg := (pg (kmm k))\<lparr>pmem := m'\<rparr>\<rparr>\<rparr>"
  have "fs_read_user fd ptr n k = Some (int r, ?k)"
    using fs_read_pipe [OF assms(2,1), of "replicate (unat n) 0"] p(1) bytes(1) m'(1)
    by (simp add: fs_read_user_def uwrite_def copy_to_region_in_def cur_task_def)
  moreover have "int r \<noteq> SC_EBADF" by (simp add: SC_EBADF_def)
  ultimately have "sys_read fd ptr n k = Some (Ret (ok (int r)), ?k)"
    using assms(8,9) by (simp add: sys_read_def checked_def reply_def sysret_def)
  moreover have "map ((!) (take r ?c)) [0..<r] = take r ?c" using bytes(2) map_nth [of "take r ?c"] by simp
  then have "uread ptr r ?k = Some (take r ?c)"
    using load_bytes_nth [of r ?cr3 ptr m' "\<lambda>j. take r ?c ! j"] m'(2) by (simp add: uread_def cur_task_def)
  moreover have "drop r ?c = drop (unat n) ?c" using assms(11) by (simp add: min_def)
  ultimately show ?thesis using p(2) assms(3,6) by (intro exI [of _ ?k]) simp
qed

text \<open>
  C3. A pipe carries bytes from one task to another.  Let the running task hold the
  open write end of pipe \<open>i\<close> under a descriptor other than 0, and let the bytes it
  passes to \<open>write\<close> fit into the pipe.  The call returns their number and
  changes nothing but the pipes, and whichever task later calls \<open>read\<close> on the read end, with a private buffer and before anyone
  else uses the pipe, gets the bytes that were in the pipe followed by the bytes
  written, as many as its buffer holds, into its memory; the rest stays in the pipe.
\<close>

theorem pipe_transfer:
  assumes "kernel_ok k" "ramfs k \<noteq> None" "holds_end wfd (write_end i) k" "1 \<le> wfd"
    and "i < PIPE_COUNT" "write_open (kpipes k ! i)" "read_open (kpipes k ! i)"
    and "validate_user_range ptr n = None" "uread ptr (unat n) k = Some bs" "n \<noteq> 0"
    and "pipe_contents (kpipes k ! i) = old" "length (old @ bs) < PIPE_BUF"
  shows "\<exists>k1. sys_write wfd ptr n k = Some (Ret (ok (uint n)), k1) \<and> k1 = k\<lparr>kpipes := kpipes k1\<rparr>
    \<and> (\<forall>k2 rfd buf cnt. kpipes k2 = kpipes k1 \<and> ramfs k2 \<noteq> None \<and> holds_end rfd (read_end i) k2
         \<and> cnt \<noteq> 0 \<and> validate_user_range buf cnt = None
         \<and> private_range (pmem (pg (kmm k2))) (tcr3 (cur_task k2)) (span buf (unat cnt)) \<longrightarrow>
         (\<exists>k3. sys_read rfd buf cnt k2 = Some (Ret (ok (int (min (unat cnt) (length (old @ bs))))), k3)
            \<and> uread buf (min (unat cnt) (length (old @ bs))) k3 = Some (take (unat cnt) (old @ bs))
            \<and> pipe_contents (kpipes k3 ! i) = drop (unat cnt) (old @ bs)))"
proof -
  have room: "length (pipe_contents (kpipes k ! i)) + length bs < PIPE_BUF" using assms(11,12) by simp
  obtain p where w: "sys_write wfd ptr n k = Some (Ret (ok (uint n)), k\<lparr>kpipes := (kpipes k)[i := p]\<rparr>)"
    and p: "pipe_invar p" "pipe_contents p = old @ bs" "read_open p"
    using write_to_pipe [OF assms(1-6,8,9) room] assms(7,11) by blast
  have "length bs = unat n" using assms(9) load_bytes_length by (auto simp: uread_def)
  then have ne: "old @ bs \<noteq> []" using assms(10) by (auto simp: unat_eq_0)
  have "length (kpipes k) = PIPE_COUNT" using assms(1) by (simp add: kernel_ok_def pipes_shape_def)
  then have tab: "(kpipes k)[i := p] ! i = p" "length ((kpipes k)[i := p]) = PIPE_COUNT" using assms(5) by simp_all
  have "\<exists>k3. sys_read rfd buf cnt k2 = Some (Ret (ok (int (min (unat cnt) (length (old @ bs))))), k3)
      \<and> uread buf (min (unat cnt) (length (old @ bs))) k3 = Some (take (unat cnt) (old @ bs))
      \<and> pipe_contents (kpipes k3 ! i) = drop (unat cnt) (old @ bs)"
    if "kpipes k2 = (kpipes k)[i := p]" "ramfs k2 \<noteq> None" "holds_end rfd (read_end i) k2" "cnt \<noteq> 0"
      "validate_user_range buf cnt = None"
      "private_range (pmem (pg (kmm k2))) (tcr3 (cur_task k2)) (span buf (unat cnt))" for k2 rfd buf cnt
  proof -
    have cut: "take (min x (length (old @ bs))) (old @ bs) = take x (old @ bs)"
      "drop (min x (length (old @ bs))) (old @ bs) = drop x (old @ bs)" for x by (simp_all only: min_def) simp_all
    show ?thesis
      using read_from_pipe [OF that(2,3) assms(5) _ _ _ _ that(4,5,6) refl] that(1) tab p ne
      by (simp only: cut simp_thms)
  qed
  then show ?thesis using w by (intro exI [of _ "k\<lparr>kpipes := (kpipes k)[i := p]\<rparr>"]) simp
qed

section \<open>A pipe in use\<close>

text \<open>One task holds both ends of the first pipe, under the descriptors 3 and 4.\<close>

definition piped_kernel :: kernel where
  "piped_kernel =
    set_fdt 0 (fd_table_new[3 := Some (fd_entry Pipe 0 (read_end 0) 0 False False),
                            4 := Some (fd_entry Pipe 0 (write_end 0) 0 True False)])
      (one_page_kernel\<lparr>kpipes := pipes1\<rparr>)"

lemma piped_fields:
  "ramfs piped_kernel = Some two_files" "kpipes piped_kernel = pipes1" "tcr3 (cur_task piped_kernel) = 0x1000"
  "pmem (pg (kmm piped_kernel)) = one_page"
  "holds_end 3 (read_end 0) piped_kernel" "holds_end 4 (write_end 0) piped_kernel"
  by (simp_all add: piped_kernel_def one_page_kernel_def cur_task_def kernel_statics_def MAX_TASKS_def set_fdt_def fdt_def
      holds_end_def fd_lookup_def fd_table_new_def MAX_FD_def fd_entry_def)

lemma piped_ok: "kernel_ok piped_kernel"
proof -
  have "pipes_shape pipes1"
    using pipe_reach_inv [OF pipes1_facts(1)] by (auto simp: pipes_shape_def pipes_inv_def list_all_iff pipe_ok_def)
  then show ?thesis
    using ok_boot [of Map.empty "ex_mm\<lparr>pg := (pg ex_mm)\<lparr>pmem := one_page\<rparr>\<rparr>"] task_ok_empty
    by (simp add: kernel_ok_def piped_kernel_def one_page_kernel_def set_fdt_def kernel_statics_def MAX_TASKS_def
        task_ok_def list_all_length nth_list_update fd_table_new_def)
qed

lemma one_page_tables: "table_at one_page 0x1000 q \<noteq> Some 0x5000" if "tpath q"
proof -
  have "length q \<le> 3" using that by (simp add: tpath_def)
  then consider "q = []" | a where "q = [a]" | a b where "q = [a, b]" | a b c where "q = [a, b, c]"
    by (cases q rule: remdups_adj.cases; auto simp: le_Suc_eq length_Suc_conv numeral_3_eq_3)
  then show ?thesis
    by cases (simp_all add: one_page_def pte_is_present_def pte_addr_def PRESENT_def ADDR_MASK_def)
qed

lemma one_page_private: "private_range one_page 0x1000 (span 0x400100 2)"
proof -
  have leaf: "leaf_entry one_page 0x1000 v = Some 0x5007" "pte_addr 0x5007 = 0x5000" for v
    by (simp_all add: leaf_entry_def vpath_def one_page_def pte_is_present_def pte_addr_def PRESENT_def ADDR_MASK_def)
  have "span 0x400100 2 = {0x400100, 0x400101}" by (auto simp: span_def numeral_2_eq_2 lessThan_Suc)
  moreover have "data_byte one_page 0x1000 v" for v
    using one_page_tables by (simp add: data_byte_def leaf is_writable_def WRITABLE_def)
  ultimately show ?thesis by (simp add: private_range_def phys_byte_def leaf page_byte_def)
qed

lemma piped_memory: "uread 0x400000 2 piped_kernel = Some [0x2F, 0x61]"
proof -
  have "load_bytes 0x1000 0x400000 (Suc (Suc 0)) one_page = Some [0x2F, 0x61]"
    by (simp add: one_page_load page_word_def page_byte_def get_byte_def)
  then show ?thesis by (simp add: uread_def piped_fields numeral_2_eq_2)
qed

lemma piped_pipe:
  "pipe_contents (kpipes piped_kernel ! 0) = []" "write_open (kpipes piped_kernel ! 0)" "read_open (kpipes piped_kernel ! 0)"
proof -
  have "0 < length pipes1" using pipe_reach_inv [OF pipes1_facts(1)] by (simp add: pipes_inv_def PIPE_COUNT_def)
  then show "pipe_contents (kpipes piped_kernel ! 0) = []" using pipes1_facts(5) by (simp add: piped_fields abs_pipe_def)
qed (use pipes1_facts in \<open>simp_all add: piped_fields\<close>)

theorem pipe_transfer_witness:
  "\<exists>k1 k3. sys_write 4 0x400000 2 piped_kernel = Some (Ret (ok 2), k1)
    \<and> sys_read 3 0x400100 2 k1 = Some (Ret (ok 2), k3) \<and> uread 0x400100 2 k3 = Some [0x2F, 0x61]"
proof -
  have range: "validate_user_range 0x400000 2 = None" "validate_user_range 0x400100 2 = None"
    by (simp_all add: validate_user_range_def kdefs)
  have ram: "ramfs piped_kernel \<noteq> None" and four: "1 \<le> (4 :: int)" and nz: "(2 :: u64) \<noteq> 0" and two: "unat (2 :: u64) = 2"
    by (simp_all add: piped_fields)
  have zero: "0 < PIPE_COUNT" "length ([] @ [0x2F, 0x61 :: u8]) < PIPE_BUF" by (simp_all add: PIPE_COUNT_def PIPE_BUF_def)
  obtain k1 where k1: "sys_write 4 0x400000 2 piped_kernel = Some (Ret (ok (uint (2 :: u64))), k1)"
      "k1 = piped_kernel\<lparr>kpipes := kpipes k1\<rparr>"
    and rd: "\<And>k2 rfd buf cnt. kpipes k2 = kpipes k1 \<and> ramfs k2 \<noteq> None \<and> holds_end rfd (read_end 0) k2
         \<and> cnt \<noteq> 0 \<and> validate_user_range buf cnt = None
         \<and> private_range (pmem (pg (kmm k2))) (tcr3 (cur_task k2)) (span buf (unat cnt)) \<Longrightarrow>
         (\<exists>k3. sys_read rfd buf cnt k2 = Some (Ret (ok (int (min (unat cnt) (length ([] @ [0x2F, 0x61 :: u8]))))), k3)
            \<and> uread buf (min (unat cnt) (length ([] @ [0x2F, 0x61 :: u8]))) k3 = Some (take (unat cnt) ([] @ [0x2F, 0x61])))"
    using pipe_transfer [OF piped_ok ram piped_fields(6) four zero(1) piped_pipe(2,3) range(1) piped_memory [folded two] nz piped_pipe(1) zero(2)]
    by blast
  have "ramfs k1 = Some two_files" "holds_end 3 (read_end 0) k1" "pmem (pg (kmm k1)) = one_page" "tcr3 (cur_task k1) = 0x1000"
    using piped_fields by (subst k1(2), simp add: holds_end_def fdt_def cur_task_def)+
  then show ?thesis
    using k1(1) rd [of k1 3 2 "0x400100"] range(2) one_page_private by (auto simp: numeral_2_eq_2 [symmetric])
qed

end
