(* ===== verification/Fat_Correct.thy ===== *)
theory Fat_Correct
  imports Fat
begin

text \<open>
  What the FAT16 driver guarantees on a drive without faults: both copies of
  the allocation table stay equal to one table, an allocation takes a free
  cluster and only that one, freeing a chain always ends and frees exactly the
  chain, reading delivers the bytes of the chain in order, and 8.3 names
  survive encoding and printing.
\<close>

section \<open>Table entries\<close>

definition in_fat :: "Bpb \<Rightarrow> u16 \<Rightarrow> bool" where
  "in_fat b c \<longleftrightarrow> unat c div 256 < unat (fat_size_16 b)"

definition fat_geometry :: "Bpb \<Rightarrow> bool" where
  "fat_geometry b \<longleftrightarrow> 0 < unat (fat_count b) \<and> unat (fat_size_16 b) \<le> 256
    \<and> unat (fat_start_lba b) + unat (fat_count b) * unat (fat_size_16 b) \<le> 2 ^ 32"

definition copy_lba :: "Bpb \<Rightarrow> nat \<Rightarrow> u16 \<Rightarrow> u32" where
  "copy_lba b k c = fat_sector_of b c + of_nat k * ucast (fat_size_16 b)"

definition fat_entry :: "Bpb \<Rightarrow> nat \<Rightarrow> u16 \<Rightarrow> disks \<Rightarrow> u16" where
  "fat_entry b k c ds = rd16 (content 0 ds (copy_lba b k c)) (fat_byte_of c)"

lemma ucast16_double: "unat (ucast (c :: u16) * 2 :: u32) = 2 * unat c"
proof -
  have "unat c < 65536" using unsigned_less [of c, where ?'a = nat] by simp
  then show ?thesis by (simp add: unat_word_ariths unat_ucast_up)
qed

lemma fat_byte_of_nat: "fat_byte_of c = 2 * (unat c mod 256)"
  by (simp add: fat_byte_of_def unat_mod ucast16_double mult_mod_right)

lemma fat_sector_of_nat: "fat_sector_of b c = fat_start_lba b + of_nat (unat c div 256)"
proof -
  have "unat ((ucast c * 2 :: u32) div 512) = unat c div 256" by (simp add: unat_div ucast16_double)
  then have "(ucast c * 2 :: u32) div 512 = of_nat (unat c div 256)" by (metis of_nat_unat ucast_id)
  then show ?thesis by (simp add: fat_sector_of_def)
qed

lemma fat_byte_fits: "fat_byte_of c + 2 \<le> 512"
proof -
  have "unat c mod 256 < 256" by simp
  then show ?thesis unfolding fat_byte_of_nat by linarith
qed

lemma fat_byte_apart: "fat_byte_of c \<noteq> fat_byte_of c' \<Longrightarrow> fat_byte_of c' + 2 \<le> fat_byte_of c \<or> fat_byte_of c + 2 \<le> fat_byte_of c'"
  unfolding fat_byte_of_nat by (cases "unat c mod 256 < unat c' mod 256") auto

lemma copy_lba_nat:
  assumes "fat_geometry b" "in_fat b c" "k < unat (fat_count b)"
  shows "unat (copy_lba b k c) = unat (fat_start_lba b) + (k * unat (fat_size_16 b) + unat c div 256)"
proof -
  let ?f = "unat (fat_size_16 b)" and ?s = "unat c div 256"
  have "Suc k * ?f \<le> unat (fat_count b) * ?f" using assms(3) by (intro mult_le_mono1) simp
  then have small: "unat (fat_start_lba b) + (k * ?f + ?s) < 2 ^ 32"
    using assms(1,2) by (simp add: fat_geometry_def in_fat_def)
  have "copy_lba b k c = of_nat (unat (fat_start_lba b) + (k * ?f + ?s))"
    by (simp add: copy_lba_def fat_sector_of_nat)
  then show ?thesis using unat_of_nat_small [where 'a = 32, of "unat (fat_start_lba b) + (k * ?f + ?s)"] small
    by (simp del: of_nat_add of_nat_mult)
qed

lemma copy_lba_inj:
  assumes "fat_geometry b" "in_fat b c" "in_fat b c'" "k < unat (fat_count b)" "k' < unat (fat_count b)"
    "copy_lba b k c = copy_lba b k' c'"
  shows "k = k' \<and> unat c div 256 = unat c' div 256"
proof -
  let ?f = "unat (fat_size_16 b)"
  have eq: "k * ?f + unat c div 256 = k' * ?f + unat c' div 256"
    using copy_lba_nat [OF assms(1,2,4)] copy_lba_nat [OF assms(1,3,5)] assms(6) by simp
  have lt: "unat c div 256 < ?f" "unat c' div 256 < ?f" using assms(2,3) by (auto simp: in_fat_def)
  have "k = (k * ?f + unat c div 256) div ?f" "k' = (k' * ?f + unat c' div 256) div ?f" using lt by auto
  then show ?thesis using eq by simp
qed

lemma cluster_eq_iff: "c = c' \<longleftrightarrow> unat c div 256 = unat c' div 256 \<and> fat_byte_of c = fat_byte_of (c' :: u16)"
proof -
  have "unat c = 256 * (unat c div 256) + unat c mod 256" "unat c' = 256 * (unat c' div 256) + unat c' mod 256" by simp_all
  then show ?thesis unfolding fat_byte_of_nat by (metis mult_cancel1 word_unat_eq_iff zero_neq_numeral)
qed

section \<open>Writing an entry\<close>

lemma blit_idem: "off + length src \<le> length dst \<Longrightarrow> blit off src (blit off src dst) = blit off src dst"
  by (simp add: blit_def)

lemma write_copies_ok:
  assumes "byte + 2 \<le> 512"
  shows "sound 0 ds \<Longrightarrow> \<exists>ds'. fat_write_copies ls byte v ds = (True, ds') \<and> sound 0 ds'
    \<and> content 0 ds' = (\<lambda>a. if a \<in> set ls then blit byte (le16 v) (content 0 ds a) else content 0 ds a)"
proof (induction ls arbitrary: ds)
  case (Cons l ls)
  let ?b = "blit byte (le16 v) (content 0 ds l)"
  have "length ?b = 512" using assms sound_len [OF Cons.prems] by simp
  then obtain d1 where d1: "write_sector 0 l ?b ds = (True, d1)" "sound 0 d1" "content 0 d1 = (content 0 ds)(l := ?b)"
    using sound_write [OF Cons.prems] by blast
  obtain d2 where d2: "fat_write_copies ls byte v d1 = (True, d2)" "sound 0 d2"
    "content 0 d2 = (\<lambda>a. if a \<in> set ls then blit byte (le16 v) (content 0 d1 a) else content 0 d1 a)"
    using Cons.IH [OF d1(2)] by blast
  have "fat_write_copies (l # ls) byte v ds = (True, d2)"
    using d1(1) d2(1) sound_read [OF Cons.prems] by (simp add: read_sector_buf_def write_sector_buf_def)
  moreover have "content 0 d2 = (\<lambda>a. if a \<in> set (l # ls) then blit byte (le16 v) (content 0 ds a) else content 0 ds a)"
    using d1(3) d2(3) assms sound_len [OF Cons.prems] blit_idem [of byte "le16 v" "content 0 ds l"] by (auto simp: fun_eq_iff)
  ultimately show ?case using d2(2) by blast
qed simp

lemma write_entry_ok:
  assumes "sound 0 ds"
  shows "\<exists>ds'. fat_write_entry b c v ds = (True, ds') \<and> sound 0 ds'
    \<and> content 0 ds' = (\<lambda>a. if a \<in> set (fat_copies b c) then blit (fat_byte_of c) (le16 v) (content 0 ds a) else content 0 ds a)"
  unfolding fat_write_entry_def using write_copies_ok [OF fat_byte_fits assms] .

lemma write_entry_fat:
  assumes s: "sound 0 ds" and g: "fat_geometry b" and c: "in_fat b c" and c': "in_fat b c'" and k: "k < unat (fat_count b)"
  shows "fat_entry b k c' (snd (fat_write_entry b c v ds)) = (if c' = c then v else fat_entry b k c' ds)"
proof -
  obtain ds' where ds': "fat_write_entry b c v ds = (True, ds')"
    "content 0 ds' = (\<lambda>a. if a \<in> set (fat_copies b c) then blit (fat_byte_of c) (le16 v) (content 0 ds a) else content 0 ds a)"
    using write_entry_ok [OF s] by blast
  have copies: "copy_lba b k c' \<in> set (fat_copies b c) \<longleftrightarrow> unat c' div 256 = unat c div 256"
  proof
    assume "copy_lba b k c' \<in> set (fat_copies b c)"
    then obtain j where "j < unat (fat_count b)" "copy_lba b k c' = copy_lba b j c"
      by (auto simp: fat_copies_def copy_lba_def)
    then show "unat c' div 256 = unat c div 256" using copy_lba_inj [OF g c' c k] by blast
  next
    assume "unat c' div 256 = unat c div 256"
    then show "copy_lba b k c' \<in> set (fat_copies b c)" using k by (auto simp: fat_copies_def copy_lba_def fat_sector_of_nat)
  qed
  have len: "length (content 0 ds a) = 512" for a using sound_len [OF s] .
  show ?thesis
  proof (cases "unat c' div 256 = unat c div 256")
    case False
    then show ?thesis using copies ds' by (auto simp: fat_entry_def)
  next
    case same: True
    show ?thesis
    proof (cases "fat_byte_of c' = fat_byte_of c")
      case True
      then have "c' = c" using same cluster_eq_iff by blast
      then show ?thesis using copies same ds' fat_byte_fits [of c] len by (simp add: fat_entry_def rd16_blit)
    next
      case False
      then have "c' \<noteq> c" by auto
      then show ?thesis
        using copies same ds' fat_byte_fits [of c] fat_byte_fits [of c'] fat_byte_apart [OF False] len
        by (auto simp: fat_entry_def rd16_blit_other)
    qed
  qed
qed

section \<open>Allocation\<close>

lemma alloc_cluster_no_nat:
  assumes "s < 256" "i < 256"
  shows "unat (alloc_cluster_no s i) = s * 256 + i"
proof -
  have "s * 256 + i < 65536" using assms by simp
  moreover have "alloc_cluster_no s i = ucast (of_nat (s * 256 + i) :: u32)"
    by (simp add: alloc_cluster_no_def)
  ultimately show ?thesis
    by (simp add: unsigned_of_nat take_bit_nat_eq_self unat_of_nat_small del: of_nat_add of_nat_mult)
qed

lemma rd16_zero: "rd16 buf off = 0 \<longleftrightarrow> buf ! off = 0 \<and> buf ! (off + 1) = 0"
proof
  assume z: "rd16 buf off = 0"
  have a: "\<not> bit (buf ! off) n" if "n < 8" for n
  proof -
    have "bit (rd16 buf off) n = bit (buf ! off) n"
      using that by (simp add: rd16_def from_le16_def bit_or_iff bit_push_bit_iff bit_ucast_iff)
    then show ?thesis using z by simp
  qed
  have c: "\<not> bit (buf ! (off + 1)) n" if "n < 8" for n
  proof -
    have "\<not> bit (buf ! off) (n + 8)" using bit_imp_le_length [of "buf ! off" "n + 8"] by auto
    then have "bit (rd16 buf off) (n + 8) = bit (buf ! (off + 1)) n"
      using that by (simp add: rd16_def from_le16_def bit_or_iff bit_push_bit_iff bit_ucast_iff)
    then show ?thesis using z by simp
  qed
  show "buf ! off = 0 \<and> buf ! (off + 1) = 0" using a c by (auto intro!: bit_word_eqI)
qed (simp add: rd16_def from_le16_def)

definition cluster_free :: "Bpb \<Rightarrow> u16 \<Rightarrow> disks \<Rightarrow> bool" where
  "cluster_free b c ds \<longleftrightarrow> 2 \<le> unat c \<and> fat_entry b 0 c ds = 0"

lemma alloc_test:
  assumes "s < 256" "i < 256"
  shows "\<not> alloc_cluster_no s i < 2 \<and> content 0 ds (fat_start_lba b + of_nat s) ! (2 * i) = 0
      \<and> content 0 ds (fat_start_lba b + of_nat s) ! (2 * i + 1) = 0
    \<longleftrightarrow> cluster_free b (alloc_cluster_no s i) ds"
proof -
  note u = alloc_cluster_no_nat [OF assms]
  have "unat (alloc_cluster_no s i) div 256 = s" "fat_byte_of (alloc_cluster_no s i) = 2 * i"
    using assms unfolding fat_byte_of_nat u by simp_all
  then have "fat_entry b 0 (alloc_cluster_no s i) ds = rd16 (content 0 ds (fat_start_lba b + of_nat s)) (2 * i)"
    by (simp add: fat_entry_def copy_lba_def fat_sector_of_nat)
  moreover have "alloc_cluster_no s i < 2 \<longleftrightarrow> unat (alloc_cluster_no s i) < 2" by (simp add: word_less_nat_alt)
  ultimately show ?thesis by (auto simp: cluster_free_def rd16_zero)
qed

text \<open>The clusters of the sectors already scanned, and those before position \<open>i\<close> in sector \<open>s\<close>.\<close>

lemma fat_alloc_scan_ok:
  assumes s: "sound 0 ds" and n: "n \<le> 256"
  shows "m \<le> n \<Longrightarrow> case fat_alloc_scan b [m..<n] ds of
      (c, ds') \<Rightarrow>
        (if c = 0 then ds' = ds \<and> (\<forall>x. m * 256 \<le> unat x \<and> unat x < n * 256 \<longrightarrow> \<not> cluster_free b x ds)
         else ds' = snd (fat_write_entry b c 0xFFFF ds) \<and> cluster_free b c ds \<and> unat c < n * 256
              \<and> (\<forall>x. m * 256 \<le> unat x \<and> unat x < unat c \<longrightarrow> \<not> cluster_free b x ds))"
proof (induction m rule: inc_induct)
  case base
  show ?case by auto
next
  case (step m)
  have m: "m < 256" using step.hyps n by simp
  let ?P = "\<lambda>i. \<not> alloc_cluster_no m i < 2 \<and> content 0 ds (fat_start_lba b + of_nat m) ! (2 * i) = 0
      \<and> content 0 ds (fat_start_lba b + of_nat m) ! (2 * i + 1) = 0"
  have up: "[m..<n] = m # [Suc m..<n]" using step.hyps by (simp add: upt_conv_Cons)
  have here: "\<exists>i < 256. x = alloc_cluster_no m i \<and> unat x = m * 256 + i" if "m * 256 \<le> unat x" "unat x < Suc m * 256" for x
  proof -
    have "unat x - m * 256 < 256" "unat x = m * 256 + (unat x - m * 256)" using that by simp_all
    then show ?thesis using alloc_cluster_no_nat [OF m] by (metis word_unat_eq_iff)
  qed
  show ?case
  proof (cases "find ?P [0..<256]")
    case None
    have none: "\<not> cluster_free b x ds" if "m * 256 \<le> unat x" "unat x < Suc m * 256" for x
      using here [OF that] find_upt_None [OF None] alloc_test [OF m, of _ ds b] by blast
    have "fat_alloc_scan b [m..<n] ds = fat_alloc_scan b [Suc m..<n] ds"
      using None sound_read [OF s] by (simp add: up read_sector_buf_def)
    then show ?thesis using step.IH none by (fastforce split: prod.splits if_splits simp: not_less)
  next
    case (Some i)
    have i: "i < 256" "?P i" "\<forall>j < i. \<not> ?P j" using find_upt_Some [OF Some] by auto
    let ?c = "alloc_cluster_no m i"
    note u = alloc_cluster_no_nat [OF m i(1)]
    have free: "cluster_free b ?c ds" using i(2) alloc_test [OF m i(1)] by blast
    have least: "\<not> cluster_free b x ds" if x: "m * 256 \<le> unat x" "unat x < unat ?c" for x
    proof -
      have "unat x < Suc m * 256" using x(2) u i(1) by simp
      then obtain j where j: "j < 256" "x = alloc_cluster_no m j" "unat x = m * 256 + j" using here x(1) by blast
      then have "j < i" using x(2) u by simp
      then show ?thesis using i(3) alloc_test [OF m j(1), of ds b] j(2) by blast
    qed
    obtain ds' where w: "fat_write_entry b ?c 0xFFFF ds = (True, ds')" using write_entry_ok [OF s] by blast
    have "fat_alloc_scan b [m..<n] ds = (?c, ds')"
      using Some w sound_read [OF s] by (simp add: up read_sector_buf_def)
    moreover have "?c \<noteq> 0" using free by (auto simp: cluster_free_def)
    moreover have "unat ?c < n * 256" using u i(1) step.hyps by simp
    ultimately show ?thesis using free least w by simp
  qed
qed

text \<open>C25. Allocating a cluster returns the lowest free cluster of the allocation table and
  marks it end-of-chain in every copy; no other entry of any copy changes.  It returns 0
  only when no cluster is free, and then writes nothing.\<close>
theorem fat_alloc_cluster_correct:
  assumes "sound 0 ds" "fat_geometry b" "fat_alloc_cluster b ds = (c, ds')"
  shows "if c = 0 then ds' = ds \<and> (\<forall>x. in_fat b x \<longrightarrow> \<not> cluster_free b x ds)
    else cluster_free b c ds \<and> in_fat b c \<and> (\<forall>x. unat x < unat c \<longrightarrow> \<not> cluster_free b x ds) \<and> sound 0 ds'
      \<and> (\<forall>k < unat (fat_count b). \<forall>x. in_fat b x \<longrightarrow>
            fat_entry b k x ds' = (if x = c then 0xFFFF else fat_entry b k x ds))"
proof -
  have n: "unat (fat_size_16 b) \<le> 256" using assms(2) by (simp add: fat_geometry_def)
  have in_fat: "in_fat b x \<longleftrightarrow> unat x < unat (fat_size_16 b) * 256" for x
    by (simp add: in_fat_def div_less_iff_less_mult)
  note scan = fat_alloc_scan_ok [OF assms(1) n, of 0 b]
  show ?thesis
  proof (cases "c = 0")
    case True
    then show ?thesis using scan assms(3) in_fat by (simp add: fat_alloc_cluster_def)
  next
    case False
    then have c: "ds' = snd (fat_write_entry b c 0xFFFF ds)" "cluster_free b c ds" "in_fat b c"
      "\<forall>x. unat x < unat c \<longrightarrow> \<not> cluster_free b x ds"
      using scan assms(3) in_fat by (simp_all add: fat_alloc_cluster_def)
    have "sound 0 ds'" using write_entry_ok [OF assms(1), of b c "0xFFFF"] c(1) by auto
    moreover have "fat_entry b k x ds' = (if x = c then 0xFFFF else fat_entry b k x ds)"
      if "k < unat (fat_count b)" "in_fat b x" for k x
      unfolding c(1) by (rule write_entry_fat [OF assms(1,2) c(3) that(2,1)])
    ultimately show ?thesis using False c by simp
  qed
qed

section \<open>Freeing a chain\<close>

definition valid_cl :: "u16 \<Rightarrow> bool" where
  "valid_cl c \<longleftrightarrow> c \<ge> 2 \<and> c < 0xFFF8"

text \<open>The clusters a chain visits, following the table as it is.\<close>

inductive reaches :: "Bpb \<Rightarrow> disks \<Rightarrow> u16 \<Rightarrow> u16 \<Rightarrow> bool" for b ds c where
  start: "reaches b ds c c"
| follow: "reaches b ds c x \<Longrightarrow> valid_cl x \<Longrightarrow> reaches b ds c (fat_next b x ds)"

lemma fat_next_entry:
  "sound 0 ds \<Longrightarrow> fat_next b c ds = (let v = fat_entry b 0 c ds in if v \<ge> 0xFFF8 then 0xFFFF else v)"
  by (simp add: fat_next_def fat_entry_def copy_lba_def read_sector_buf_def sound_read)

lemma fat_next_zero:
  "sound 0 ds \<Longrightarrow> fat_next b c ds = 0 \<longleftrightarrow> fat_entry b 0 c ds = 0"
  by (auto simp: fat_next_entry Let_def)

text \<open>Clearing an entry clears the cluster's successor and never creates one.\<close>

lemma clear_entry:
  assumes s: "sound 0 ds"
  shows "sound 0 (snd (fat_write_entry b c 0 ds))"
    "0 < unat (fat_count b) \<Longrightarrow> fat_next b c (snd (fat_write_entry b c 0 ds)) = 0"
    "fat_next b x (snd (fat_write_entry b c 0 ds)) = fat_next b x ds
      \<or> fat_next b x (snd (fat_write_entry b c 0 ds)) = 0"
proof -
  obtain ds' where ds': "fat_write_entry b c 0 ds = (True, ds')" "sound 0 ds'"
    "content 0 ds' = (\<lambda>a. if a \<in> set (fat_copies b c) then blit (fat_byte_of c) (le16 0) (content 0 ds a) else content 0 ds a)"
    using write_entry_ok [OF s, of b c 0] by blast
  have len: "length (content 0 ds a) = 512" for a using sound_len [OF s] .
  show "sound 0 (snd (fat_write_entry b c 0 ds))" using ds' by simp
  have entry: "fat_entry b 0 x ds' = (if fat_sector_of b x \<in> set (fat_copies b c) \<and> fat_byte_of x = fat_byte_of c
      then 0 else fat_entry b 0 x ds)" for x
    using ds'(3) len fat_byte_fits [of c] fat_byte_fits [of x] fat_byte_apart [of c x]
    by (auto simp: fat_entry_def copy_lba_def rd16_blit rd16_blit_other)
  show "fat_next b x (snd (fat_write_entry b c 0 ds)) = fat_next b x ds
      \<or> fat_next b x (snd (fat_write_entry b c 0 ds)) = 0"
    using entry [of x] ds' s by (simp add: fat_next_entry)
  assume "0 < unat (fat_count b)"
  then have "fat_sector_of b c \<in> set (fat_copies b c)" by (force simp: fat_copies_def)
  then show "fat_next b c (snd (fat_write_entry b c 0 ds)) = 0" using entry [of c] ds' by (simp add: fat_next_entry)
qed

definition linked :: "Bpb \<Rightarrow> disks \<Rightarrow> u16 set" where
  "linked b ds = {c. fat_next b c ds \<noteq> 0}"

lemma clear_linked:
  assumes "sound 0 ds" "0 < unat (fat_count b)" "fat_next b c ds \<noteq> 0"
  shows "card (linked b (snd (fat_write_entry b c 0 ds))) < card (linked b ds)"
proof (rule psubset_card_mono)
  show "finite (linked b ds)" by simp
  have "linked b (snd (fat_write_entry b c 0 ds)) \<subseteq> linked b ds"
    using clear_entry(3) [OF assms(1)] unfolding linked_def by (metis (mono_tags, lifting) mem_Collect_eq subsetI)
  moreover have "c \<in> linked b ds" "c \<notin> linked b (snd (fat_write_entry b c 0 ds))"
    using assms clear_entry(2) [OF assms(1,2)] by (simp_all add: linked_def)
  ultimately show "linked b (snd (fat_write_entry b c 0 ds)) \<subset> linked b ds" by blast
qed

text \<open>How clearing the first cluster changes what a chain visits.\<close>

lemma reaches_cleared:
  assumes s: "sound 0 ds" and fc: "0 < unat (fat_count b)" and c: "valid_cl c"
    and same: "\<And>x. reaches b ds c x \<Longrightarrow> valid_cl x \<Longrightarrow> x \<noteq> c \<Longrightarrow> fat_next b x (snd (fat_write_entry b c 0 ds)) = fat_next b x ds"
  defines "ds1 \<equiv> snd (fat_write_entry b c 0 ds)" and "n \<equiv> fat_next b c ds"
  shows "reaches b ds c x \<Longrightarrow> x = c \<or> reaches b ds1 n x" "reaches b ds1 n x \<Longrightarrow> x = 0 \<or> reaches b ds c x"
proof -
  show "reaches b ds c x \<Longrightarrow> x = c \<or> reaches b ds1 n x"
  proof (induction rule: reaches.induct)
    case (follow x)
    show ?case
    proof (cases "x = c")
      case True
      then show ?thesis by (simp add: n_def reaches.start)
    next
      case False
      then have "reaches b ds1 n (fat_next b x ds1)" using follow by (auto intro: reaches.follow)
      then show ?thesis using same [OF follow.hyps(1,2) False] by (simp add: ds1_def)
    qed
  qed simp
  show "reaches b ds1 n x \<Longrightarrow> x = 0 \<or> reaches b ds c x"
  proof (induction rule: reaches.induct)
    case start
    show ?case using reaches.follow [OF reaches.start c, of b ds] by (simp add: n_def)
  next
    case (follow x)
    have "x \<noteq> 0" using follow.hyps(2) by (auto simp: valid_cl_def)
    then have r: "reaches b ds c x" using follow.IH by simp
    show ?case
    proof (cases "x = c")
      case True
      then show ?thesis using clear_entry(2) [OF s fc, of c] by (simp add: ds1_def)
    next
      case False
      have "reaches b ds c (fat_next b x ds)" by (rule reaches.follow [OF r follow.hyps(2)])
      then show ?thesis using same [OF r follow.hyps(2) False] by (simp add: ds1_def)
    qed
  qed
qed

lemma write_entry_next:
  assumes "sound 0 ds" "fat_geometry b" "in_fat b c" "in_fat b x" "x \<noteq> c"
  shows "fat_next b x (snd (fat_write_entry b c v ds)) = fat_next b x ds"
proof -
  have "0 < unat (fat_count b)" using assms(2) by (simp add: fat_geometry_def)
  moreover have "sound 0 (snd (fat_write_entry b c v ds))" using write_entry_ok [OF assms(1), of b c v] by auto
  ultimately show ?thesis using write_entry_fat [OF assms(1-4)] assms(1,5) by (simp add: fat_next_entry)
qed

lemma free_chain_ok:
  assumes g: "fat_geometry b"
  shows "\<lbrakk>sound 0 ds; \<And>x. reaches b ds c x \<Longrightarrow> valid_cl x \<Longrightarrow> in_fat b x\<rbrakk>
    \<Longrightarrow> \<exists>ds'. free_cluster_chain b c ds = Some ds' \<and> sound 0 ds'
      \<and> (\<forall>k < unat (fat_count b). \<forall>x. in_fat b x \<longrightarrow>
            fat_entry b k x ds' = (if valid_cl x \<and> reaches b ds c x then 0 else fat_entry b k x ds))"
proof (induction "card (linked b ds)" arbitrary: ds c rule: less_induct)
  case less
  have fc: "0 < unat (fat_count b)" using g by (simp add: fat_geometry_def)
  show ?case
  proof (cases "valid_cl c")
    case False
    have "x = c" if "reaches b ds c x" for x
      using that by (induction rule: reaches.induct) (use False in auto)
    moreover have "free_cluster_chain b c ds = Some ds"
      using False by (subst free_cluster_chain.simps) (auto simp: valid_cl_def)
    ultimately show ?thesis using False less.prems(1) by auto
  next
    case True
    let ?n = "fat_next b c ds" and ?d1 = "snd (fat_write_entry b c 0 ds)"
    have c: "in_fat b c" using less.prems(2) [OF reaches.start True] .
    have s1: "sound 0 ?d1" by (rule clear_entry(1) [OF less.prems(1)])
    have same: "fat_next b x ?d1 = fat_next b x ds" if "reaches b ds c x" "valid_cl x" "x \<noteq> c" for x
      using write_entry_next [OF less.prems(1) g c less.prems(2) [OF that(1,2)] that(3)] .
    have rc: "reaches b ds c x \<Longrightarrow> x = c \<or> reaches b ?d1 ?n x" "reaches b ?d1 ?n x \<Longrightarrow> x = 0 \<or> reaches b ds c x" for x
      using reaches_cleared [OF less.prems(1) fc True] same by blast+
    have step: "fat_entry b k x ?d1 = (if x = c then 0 else fat_entry b k x ds)"
      if "k < unat (fat_count b)" "in_fat b x" for k x
      using write_entry_fat [OF less.prems(1) g c that(2,1)] .
    have zero: "\<not> valid_cl 0" "\<not> valid_cl 0xFFFF" by (simp_all add: valid_cl_def)
    show ?thesis
    proof (cases "?n = 0 \<or> ?n = 0xFFFF")
      case stop: True
      then have "free_cluster_chain b c ds = Some ?d1"
        using True by (subst free_cluster_chain.simps) (auto simp: valid_cl_def Let_def)
      moreover have "valid_cl x \<and> reaches b ds c x \<longleftrightarrow> x = c" for x
      proof -
        have "x = ?n" if "reaches b ?d1 ?n x" for x
          using that stop zero by (induction rule: reaches.induct) auto
        then show ?thesis using rc(1) [of x] reaches.start True stop zero by metis
      qed
      ultimately show ?thesis using s1 step by auto
    next
      case False
      have cyc: "free_cluster_chain b c ds = free_cluster_chain b ?n ?d1"
        using True False by (subst free_cluster_chain.simps) (auto simp: valid_cl_def Let_def)
      have "card (linked b ?d1) < card (linked b ds)" using clear_linked [OF less.prems(1) fc] False by blast
      moreover have "in_fat b x" if "reaches b ?d1 ?n x" "valid_cl x" for x
        using rc(2) [OF that(1)] less.prems(2) that(2) zero(1) by blast
      ultimately obtain ds' where ds': "free_cluster_chain b ?n ?d1 = Some ds'" "sound 0 ds'"
        "\<forall>k < unat (fat_count b). \<forall>x. in_fat b x \<longrightarrow>
            fat_entry b k x ds' = (if valid_cl x \<and> reaches b ?d1 ?n x then 0 else fat_entry b k x ?d1)"
        using less.hyps [OF _ s1] by blast
      have "valid_cl x \<and> reaches b ds c x \<longleftrightarrow> x = c \<or> valid_cl x \<and> reaches b ?d1 ?n x" for x
        using rc [of x] reaches.start True zero(1) by metis
      then show ?thesis using ds' step cyc by auto
    qed
  qed
qed

text \<open>The two bytes of a cluster's entry, in every copy of the table.\<close>

definition entry_byte :: "Bpb \<Rightarrow> u16 \<Rightarrow> u32 \<Rightarrow> nat \<Rightarrow> bool" where
  "entry_byte b x a p \<longleftrightarrow> a \<in> set (fat_copies b x) \<and> (p = fat_byte_of x \<or> p = fat_byte_of x + 1)"

lemma clear_entry_bytes:
  assumes "sound 0 ds" "p < 512"
  shows "content 0 (snd (fat_write_entry b c 0 ds)) a ! p = (if entry_byte b c a p then 0 else content 0 ds a ! p)"
proof -
  obtain ds' where ds': "fat_write_entry b c 0 ds = (True, ds')"
    "content 0 ds' = (\<lambda>a. if a \<in> set (fat_copies b c) then blit (fat_byte_of c) (le16 0) (content 0 ds a) else content 0 ds a)"
    using write_entry_ok [OF assms(1), of b c 0] by blast
  have "blit (fat_byte_of c) (le16 0) (content 0 ds a) ! p
      = (if p = fat_byte_of c \<or> p = fat_byte_of c + 1 then 0 else content 0 ds a ! p)"
    using fat_byte_fits [of c] sound_len [OF assms(1), of a] assms(2)
    by (auto simp: nth_blit nth_blit_outside le16_def nth_Cons split: nat.splits)
  then show ?thesis using ds' by (simp add: entry_byte_def)
qed

text \<open>Clearing entries can cut the chain short, never lead it elsewhere.\<close>

lemma reaches_after_clear:
  assumes "sound 0 ds" "valid_cl c"
  shows "reaches b (snd (fat_write_entry b c 0 ds)) (fat_next b c ds) x \<Longrightarrow> x = 0 \<or> reaches b ds c x"
proof (induction rule: reaches.induct)
  case start
  show ?case using reaches.follow [OF reaches.start assms(2), of b ds] by simp
next
  case (follow x)
  have "x \<noteq> 0" using follow.hyps(2) by (auto simp: valid_cl_def)
  then have "reaches b ds c (fat_next b x ds)" using follow by (auto intro: reaches.follow)
  then show ?case using clear_entry(3) [OF assms(1), of b x c] by auto
qed

lemma free_chain_frame:
  assumes fc: "0 < unat (fat_count b)"
  shows "sound 0 ds \<Longrightarrow> \<exists>ds'. free_cluster_chain b c ds = Some ds' \<and> sound 0 ds'
    \<and> (\<forall>a p. p < 512 \<longrightarrow> content 0 ds' a ! p = content 0 ds a ! p
         \<or> content 0 ds' a ! p = 0 \<and> (\<exists>x. valid_cl x \<and> reaches b ds c x \<and> entry_byte b x a p))"
proof (induction "card (linked b ds)" arbitrary: ds c rule: less_induct)
  case less
  show ?case
  proof (cases "valid_cl c")
    case False
    then have "free_cluster_chain b c ds = Some ds"
      by (subst free_cluster_chain.simps) (auto simp: valid_cl_def)
    then show ?thesis using less.prems by blast
  next
    case True
    let ?n = "fat_next b c ds" and ?d1 = "snd (fat_write_entry b c 0 ds)"
    have s1: "sound 0 ?d1" by (rule clear_entry(1) [OF less.prems])
    have d1: "content 0 ?d1 a ! p = content 0 ds a ! p \<or> content 0 ?d1 a ! p = 0 \<and> entry_byte b c a p"
      if "p < 512" for a p
      using clear_entry_bytes [OF less.prems that] by simp
    show ?thesis
    proof (cases "?n = 0 \<or> ?n = 0xFFFF")
      case stop: True
      then have "free_cluster_chain b c ds = Some ?d1"
        using True by (subst free_cluster_chain.simps) (auto simp: valid_cl_def Let_def)
      then show ?thesis using s1 d1 True reaches.start by blast
    next
      case False
      have cyc: "free_cluster_chain b c ds = free_cluster_chain b ?n ?d1"
        using True False by (subst free_cluster_chain.simps) (auto simp: valid_cl_def Let_def)
      have "card (linked b ?d1) < card (linked b ds)" using clear_linked [OF less.prems fc] False by blast
      from less.hyps [OF this s1, of ?n] obtain ds' where ds': "free_cluster_chain b ?n ?d1 = Some ds'" "sound 0 ds'"
        "\<And>a p. p < 512 \<Longrightarrow> content 0 ds' a ! p = content 0 ?d1 a ! p
          \<or> content 0 ds' a ! p = 0 \<and> (\<exists>x. valid_cl x \<and> reaches b ?d1 ?n x \<and> entry_byte b x a p)" by blast
      have "reaches b ds c x" if "reaches b ?d1 ?n x" "valid_cl x" for x
        using reaches_after_clear [OF less.prems True that(1)] that(2) by (auto simp: valid_cl_def)
      then have "content 0 ds' a ! p = content 0 ds a ! p
          \<or> content 0 ds' a ! p = 0 \<and> (\<exists>x. valid_cl x \<and> reaches b ds c x \<and> entry_byte b x a p)" if "p < 512" for a p
        using ds'(3) [OF that, of a] d1 [OF that, of a] True reaches.start by metis
      then show ?thesis using ds'(1,2) cyc by auto
    qed
  qed
qed

text \<open>A cleared entry has both bytes zero in every copy.\<close>

lemma entry_byte_zero:
  assumes "\<forall>k < unat (fat_count b). fat_entry b k x ds = 0" "entry_byte b x a p"
  shows "content 0 ds a ! p = 0"
  using assms by (auto simp: entry_byte_def fat_copies_def fat_entry_def copy_lba_def rd16_zero)

text \<open>
  C26. Freeing a cluster chain returns on every table, cyclic or damaged ones
  included.  It only ever clears bytes, and only bytes of the entries of clusters
  the chain leads to.  When these clusters all lie inside the table, which the
  code does not check, the bytes it clears are exactly those of their entries in
  every copy of the table, and no other byte of the disk changes.
\<close>
theorem free_cluster_chain_exact:
  assumes "sound 0 ds" "0 < unat (fat_count b)"
  shows "\<exists>ds'. free_cluster_chain b c ds = Some ds' \<and> sound 0 ds'
    \<and> (\<forall>a p. p < 512 \<longrightarrow> content 0 ds' a ! p = content 0 ds a ! p
         \<or> content 0 ds' a ! p = 0 \<and> (\<exists>x. valid_cl x \<and> reaches b ds c x \<and> entry_byte b x a p))
    \<and> (fat_geometry b \<and> (\<forall>x. valid_cl x \<and> reaches b ds c x \<longrightarrow> in_fat b x) \<longrightarrow>
        (\<forall>a p. p < 512 \<longrightarrow> content 0 ds' a ! p =
           (if \<exists>x. valid_cl x \<and> reaches b ds c x \<and> entry_byte b x a p then 0 else content 0 ds a ! p))
        \<and> (\<forall>k < unat (fat_count b). \<forall>x. in_fat b x \<longrightarrow>
             fat_entry b k x ds' = (if valid_cl x \<and> reaches b ds c x then 0 else fat_entry b k x ds)))"
proof -
  obtain ds' where ds': "free_cluster_chain b c ds = Some ds'" "sound 0 ds'"
    and frame: "\<And>a p. p < 512 \<Longrightarrow> content 0 ds' a ! p = content 0 ds a ! p
         \<or> content 0 ds' a ! p = 0 \<and> (\<exists>x. valid_cl x \<and> reaches b ds c x \<and> entry_byte b x a p)"
    using free_chain_frame [OF assms(2,1)] by blast
  have exact: "(\<forall>a p. p < 512 \<longrightarrow> content 0 ds' a ! p =
           (if \<exists>x. valid_cl x \<and> reaches b ds c x \<and> entry_byte b x a p then 0 else content 0 ds a ! p))
        \<and> (\<forall>k < unat (fat_count b). \<forall>x. in_fat b x \<longrightarrow>
             fat_entry b k x ds' = (if valid_cl x \<and> reaches b ds c x then 0 else fat_entry b k x ds))"
    if g: "fat_geometry b" and inside: "\<forall>x. valid_cl x \<and> reaches b ds c x \<longrightarrow> in_fat b x"
  proof -
    have e: "fat_entry b k x ds' = (if valid_cl x \<and> reaches b ds c x then 0 else fat_entry b k x ds)"
      if "k < unat (fat_count b)" "in_fat b x" for k x
      using free_chain_ok [OF g assms(1), of c] inside ds'(1) that by auto
    then have "content 0 ds' a ! p = 0" if "valid_cl x" "reaches b ds c x" "entry_byte b x a p" for x a p
      using entry_byte_zero [of b x ds' a p] inside that by simp
    then have "content 0 ds' a ! p = (if \<exists>x. valid_cl x \<and> reaches b ds c x \<and> entry_byte b x a p
        then 0 else content 0 ds a ! p)" if "p < 512" for a p
      using frame [OF that, of a] by auto
    then show ?thesis using e by blast
  qed
  show ?thesis using ds' frame exact by blast
qed

section \<open>Reading a file\<close>

definition spc :: "Bpb \<Rightarrow> nat" where
  "spc b = unat (sectors_per_cluster b)"

text \<open>The clusters of a file, and its bytes: the sectors of its clusters in order.\<close>

definition file_chain :: "Bpb \<Rightarrow> disks \<Rightarrow> u16 list \<Rightarrow> bool" where
  "file_chain b ds cs \<longleftrightarrow> cs \<noteq> [] \<and>
    (\<forall>i < length cs. Suc i < length cs \<longrightarrow> fat_next b (cs ! i) ds = cs ! Suc i \<and> valid_cl (cs ! Suc i))"

definition file_sectors :: "Bpb \<Rightarrow> u16 list \<Rightarrow> u32 list" where
  "file_sectors b cs = concat (map (cluster_sectors b) cs)"

definition file_bytes :: "Bpb \<Rightarrow> disks \<Rightarrow> u16 list \<Rightarrow> bytes" where
  "file_bytes b ds cs = concat (map (content 0 ds) (file_sectors b cs))"

text \<open>A descriptor stands at offset \<open>p\<close> of the chain.\<close>

definition stands_at :: "Bpb \<Rightarrow> u16 list \<Rightarrow> nat \<Rightarrow> FatFd \<Rightarrow> bool" where
  "stands_at b cs p slot \<longleftrightarrow> unat (ff_offset slot) = p \<and> p < 512 * (spc b * length cs)
    \<and> cur_cluster slot = cs ! (p div 512 div spc b) \<and> unat (cur_sector slot) = p div 512 mod spc b"

lemma length_cluster_sectors [simp]: "length (cluster_sectors b c) = spc b"
  by (simp add: cluster_sectors_def spc_def)

lemma length_file_sectors [simp]: "length (file_sectors b cs) = spc b * length cs"
  unfolding file_sectors_def using length_concat_uniform [of "map (cluster_sectors b) cs" "spc b"] by simp

lemma length_file_bytes: "sound 0 ds \<Longrightarrow> length (file_bytes b ds cs) = 512 * (spc b * length cs)"
  unfolding file_bytes_def
  using length_concat_uniform [of "map (content 0 ds) (file_sectors b cs)" 512] sound_len [of 0 ds] by simp

lemma stands_at_lba:
  assumes "stands_at b cs p slot" "0 < spc b"
  shows "slot_lba b slot = file_sectors b cs ! (p div 512)"
proof -
  let ?q = "p div 512"
  have q: "?q < length cs * spc b" using assms(1) by (simp add: stands_at_def less_mult_imp_div_less mult.commute)
  have i: "?q div spc b < length cs" using q by (rule less_mult_imp_div_less)
  have k: "?q mod spc b < spc b" using assms(2) by simp
  have "file_sectors b cs ! (?q div spc b * spc b + ?q mod spc b) = cluster_sectors b (cs ! (?q div spc b)) ! (?q mod spc b)"
    unfolding file_sectors_def
    using nth_concat_uniform [of "map (cluster_sectors b) cs" "spc b", OF _ _ k, of "?q div spc b"] i
    by (simp del: div_mult_mod_eq)
  moreover have "cluster_sectors b c ! (?q mod spc b) = cluster_to_lba b c + of_nat (?q mod spc b)" for c
    using k by (simp add: cluster_sectors_def spc_def)
  moreover have "ucast (cur_sector slot) = (of_nat (?q mod spc b) :: u32)"
    using assms(1) by (metis stands_at_def of_nat_unat)
  ultimately show ?thesis using assms(1) by (simp add: slot_lba_def stands_at_def)
qed

lemma sector_slice:
  assumes "sound 0 ds" "p < 512 * (spc b * length cs)" "p mod 512 + n \<le> 512"
  shows "take n (drop (p mod 512) (content 0 ds (file_sectors b cs ! (p div 512)))) = take n (drop p (file_bytes b ds cs))"
proof -
  have "p div 512 < length (file_sectors b cs)" using assms(2) by (simp add: less_mult_imp_div_less mult.commute)
  then show ?thesis
    unfolding file_bytes_def
    using slice_concat_uniform [of "map (content 0 ds) (file_sectors b cs)" 512 p n] assms sound_len [OF assms(1)]
    by simp
qed

lemma unat_add_small: "unat (w :: u32) + n < 2 ^ 32 \<Longrightarrow> unat (w + of_nat n) = unat w + n"
  by (simp add: unat_word_ariths unat_of_nat_small)

text \<open>Advancing within the chain.\<close>

lemma read_advance_ok:
  assumes at: "stands_at b cs p slot" and ch: "file_chain b ds cs" and s: "0 < spc b" and n: "0 < n"
    and fits: "p mod 512 + n \<le> 512" and small: "p + n < 2 ^ 32" and sz: "p + n < 512 * (spc b * length cs)"
  shows "\<exists>slot'. read_advance b ds n slot = (True, slot') \<and> stands_at b cs (p + n) slot'"
proof -
  let ?q = "p div 512" and ?S = "spc b"
  have off: "unat (ff_offset slot + of_nat n) = p + n" using at small by (simp add: unat_add_small stands_at_def)
  have mod0: "(ff_offset slot + of_nat n) mod 512 = 0 \<longleftrightarrow> (p + n) mod 512 = 0"
    using off by (simp add: word_unat_eq_iff [of "_ mod 512"] unat_mod)
  show ?thesis
  proof (cases "(p + n) mod 512 = 0")
    case False
    have "(p + n) div 512 = ?q"
    proof -
      have "p mod 512 + n \<noteq> 512" using False mod_add_left_eq [of p 512 n] by auto
      then have "(512 * ?q + (p mod 512 + n)) div 512 = ?q" using fits by (subst div_mult_self4) simp_all
      then show ?thesis by (simp add: add.assoc [symmetric])
    qed
    then show ?thesis using at False mod0 off sz by (auto simp: read_advance_def Let_def stands_at_def)
  next
    case True
    have "p mod 512 + n = 512"
    proof (rule ccontr)
      assume "p mod 512 + n \<noteq> 512"
      then have "(p mod 512 + n) mod 512 = p mod 512 + n" using fits by simp
      then show False using True n mod_add_left_eq [of p 512 n] by simp
    qed
    then have pn: "p + n = 512 * Suc ?q" using mult_div_mod_eq [of 512 p] unfolding mult_Suc_right by linarith
    then have q': "(p + n) div 512 = Suc ?q" by simp
    have cur: "cur_cluster slot = cs ! (?q div ?S)" "unat (cur_sector slot) = ?q mod ?S" using at by (auto simp: stands_at_def)
    have sl: "?q mod ?S < ?S" "?S \<le> 255"
      using s unsigned_less [of "sectors_per_cluster b", where ?'a = nat] by (simp_all add: spc_def)
    then have inc: "unat (cur_sector slot + 1) = Suc (?q mod ?S)"
      using cur(2) by (simp add: unat_word_ariths)
    have ge: "cur_sector slot + 1 \<ge> sectors_per_cluster b \<longleftrightarrow> Suc (?q mod ?S) = ?S"
      using inc sl by (auto simp: word_le_nat_alt spc_def)
    show ?thesis
    proof (cases "Suc (?q mod ?S) = ?S")
      case last: True
      have quot: "Suc ?q div ?S = Suc (?q div ?S)" "Suc ?q mod ?S = 0"
        using last s by (simp_all add: div_Suc mod_Suc)
      have "Suc ?q < ?S * length cs" using sz pn by simp
      then have i: "Suc (?q div ?S) < length cs"
        using quot(1) less_mult_imp_div_less [of "Suc ?q" "length cs" ?S] by (simp add: mult.commute)
      then have nx: "fat_next b (cur_cluster slot) ds = cs ! Suc (?q div ?S)" "valid_cl (cs ! Suc (?q div ?S))"
        using ch cur(1) by (auto simp: file_chain_def)
      then have "fat_next b (cur_cluster slot) ds \<noteq> 0xFFFF" "fat_next b (cur_cluster slot) ds \<noteq> 0"
        by (auto simp: valid_cl_def)
      then show ?thesis
        using True mod0 off last ge nx(1) q' quot sz by (simp add: read_advance_def Let_def stands_at_def)
    next
      case more': False
      have "Suc ?q div ?S = ?q div ?S" "Suc ?q mod ?S = Suc (?q mod ?S)"
        using more' by (simp_all add: div_Suc mod_Suc)
      then show ?thesis
        using True mod0 off more' ge q' sz cur inc by (simp add: read_advance_def Let_def stands_at_def)
    qed
  qed
qed

lemma read_advance_fields:
  "read_advance b ds n slot = (go, slot') \<Longrightarrow> ff_offset slot' = ff_offset slot + of_nat n \<and> ff_size slot' = ff_size slot
    \<and> ff_active slot' = ff_active slot \<and> ff_writable slot' = ff_writable slot"
  by (auto simp: read_advance_def Let_def split: if_splits)

lemma read_loop_ok:
  assumes s: "sound 0 ds" and ch: "file_chain b ds cs" and sp: "0 < spc b" and len: "to_read \<le> length buf"
  shows "\<lbrakk>stands_at b cs p slot; done \<le> to_read; p + (to_read - done) \<le> 512 * (spc b * length cs);
      p + (to_read - done) < 2 ^ 32; length buf' = length buf\<rbrakk>
    \<Longrightarrow> \<exists>slot'. fat_read_loop b ds to_read done slot buf'
        = (to_read, slot', blit done (take (to_read - done) (drop p (file_bytes b ds cs))) buf')
      \<and> unat (ff_offset slot') = p + (to_read - done) \<and> ff_size slot' = ff_size slot
      \<and> (p + (to_read - done) < 512 * (spc b * length cs) \<longrightarrow> stands_at b cs (p + (to_read - done)) slot')"
proof (induction "to_read - done" arbitrary: p slot "done" buf' rule: less_induct)
  case less
  show ?case
  proof (cases "done < to_read")
    case False
    then show ?thesis using less.prems
      by (subst fat_read_loop.simps) (auto simp: stands_at_def blit_def)
  next
    case True
    let ?left = "to_read - done" and ?F = "file_bytes b ds cs"
    let ?n = "chunk slot ?left"
    have p: "unat (ff_offset slot) = p" "p < 512 * (spc b * length cs)" using less.prems(1) by (auto simp: stands_at_def)
    have n: "0 < ?n" "?n \<le> ?left" "p mod 512 + ?n \<le> 512" using True p(1) by (auto simp: chunk_def min_def)
    have sec: "read_sector_buf (slot_lba b slot) ds = Some (content 0 ds (file_sectors b cs ! (p div 512)))"
      using stands_at_lba [OF less.prems(1) sp] sound_read [OF s] by (simp add: read_sector_buf_def)
    let ?buf1 = "blit done (take ?n (drop p ?F)) buf'"
    obtain go slot1 where adv: "read_advance b ds ?n slot = (go, slot1)" by (rule prod.exhaust)
    have step: "fat_read_loop b ds to_read done slot buf' =
        (if go then fat_read_loop b ds to_read (done + ?n) slot1 ?buf1 else (done + ?n, slot1, ?buf1))"
      using True sec adv sector_slice [OF s p(2) n(3)] p(1)
      by (subst fat_read_loop.simps) (simp add: Let_def)
    have off1: "unat (ff_offset slot1) = p + ?n" "ff_size slot1 = ff_size slot"
      using read_advance_fields [OF adv] p(1) n(2) less.prems(4) by (simp_all add: unat_add_small)
    have lenF: "length (take ?n (drop p ?F)) = ?n"
      using length_file_bytes [OF s, of b cs] less.prems(3) n(2) by simp
    have join: "blit (done + ?n) (take (?left - ?n) (drop (p + ?n) ?F)) ?buf1 = blit done (take ?left (drop p ?F)) buf'"
    proof -
      have "take ?left (drop p ?F) = take ?n (drop p ?F) @ take (?left - ?n) (drop (p + ?n) ?F)"
        using n(2) by (metis add.commute drop_drop le_add_diff_inverse take_add)
      moreover have "done + ?left \<le> length buf'" using True len less.prems(5) by simp
      ultimately show ?thesis using lenF n(2) by (simp add: blit_def ac_simps)
    qed
    show ?thesis
    proof (cases "p + ?n < 512 * (spc b * length cs)")
      case inside: True
      obtain slot2 where "read_advance b ds ?n slot = (True, slot2)" "stands_at b cs (p + ?n) slot2"
        using read_advance_ok [OF less.prems(1) ch sp n(1,3) _ inside] less.prems(4) n(2) by auto
      then have at1: "go" "stands_at b cs (p + ?n) slot1" using adv by auto
      have left1: "to_read - (done + ?n) = ?left - ?n" "p + ?n + (to_read - (done + ?n)) = p + ?left" using n(2) by simp_all
      have "to_read - (done + ?n) < to_read - done" "done + ?n \<le> to_read" "length ?buf1 = length buf"
        subgoal using n(1,2) True by linarith
        subgoal using n(2) True by linarith
        subgoal using less.prems(5) n(2) len lenF True by (subst length_blit) linarith+
        done
      note IH = less.hyps [OF this(1) at1(2) this(2) _ _ this(3)]
      have bounds: "p + ?n + (to_read - (done + ?n)) \<le> 512 * (spc b * length cs)" "p + ?n + (to_read - (done + ?n)) < 2 ^ 32"
        unfolding left1(2) by (fact less.prems(3,4))+
      show ?thesis using IH [OF bounds] unfolding left1(2) step using at1(1) unfolding left1(1) join off1(2) by simp
    next
      case False
      then have "?n = ?left" using less.prems(3) n(2) by simp
      moreover have "fat_read_loop b ds to_read (done + ?left) slot1 ?buf1 = (done + ?left, slot1, ?buf1)"
        using True by (subst fat_read_loop.simps) simp
      ultimately show ?thesis using step off1 False True by (cases go) simp_all
    qed
  qed
qed

text \<open>C24. Reading an open file whose descriptor stands at offset p of its cluster chain
  returns min(buffer, size - p) bytes, and they are the bytes p, p+1, ... of the chain's
  sectors in order; the descriptor then stands at the next offset (unless that is the end
  of the last cluster), so consecutive reads deliver consecutive pieces of the file.\<close>
theorem fat_read_fd_correct:
  assumes "sound 0 ds" "fat_ready fs" "is_fat_fd fd" "fat_fds fs ! fat_slot fd = slot" "ff_active slot"
    "fat_slot fd < length (fat_fds fs)" "0 < spc (bpb fs)" "file_chain (bpb fs) ds cs" "stands_at (bpb fs) cs p slot"
    "unat (ff_size slot) \<le> 512 * (spc (bpb fs) * length cs)"
  shows "let n = min (length buf) (unat (ff_size slot) - p) in
    \<exists>slot'. fat_read_fd fd buf fs ds = (int n, blit 0 (take n (drop p (file_bytes (bpb fs) ds cs))) buf, set_slot (fat_slot fd) slot' fs)
      \<and> unat (ff_offset slot') = p + n
      \<and> (p + n < 512 * (spc (bpb fs) * length cs) \<longrightarrow> stands_at (bpb fs) cs (p + n) slot')"
proof -
  let ?sz = "unat (ff_size slot)"
  have p: "unat (ff_offset slot) = p" using assms(9) by (simp add: stands_at_def)
  have rem: "unat (sat_sub32 (ff_size slot) (ff_offset slot)) = ?sz - p"
    using p by (auto simp: sat_sub32_def word_le_nat_alt unat_sub_if_size)
  show ?thesis
  proof (cases "?sz - p = 0")
    case True
    have "set_slot (fat_slot fd) slot fs = fs" using assms(4) by (auto simp: set_slot_def)
    then have "fat_read_fd fd buf fs ds = (0, buf, set_slot (fat_slot fd) slot fs)"
      using assms(2-5) True rem by (simp add: fat_read_fd_def)
    then show ?thesis using True p assms(9) by (auto simp: blit_def)
  next
    case False
    let ?n = "min (length buf) (?sz - p)"
    have "?sz < 2 ^ 32" using unsigned_less [of "ff_size slot", where ?'a = nat] by simp
    then have "p + (?n - 0) < 2 ^ 32" "p + (?n - 0) \<le> 512 * (spc (bpb fs) * length cs)" "?n \<le> length buf"
      using False assms(10) by simp_all
    from read_loop_ok [OF assms(1,8,7) this(3) assms(9) _ this(2,1) refl]
    obtain slot' where "fat_read_loop (bpb fs) ds ?n 0 slot buf = (?n, slot', blit 0 (take ?n (drop p (file_bytes (bpb fs) ds cs))) buf)"
      "unat (ff_offset slot') = p + ?n" "p + ?n < 512 * (spc (bpb fs) * length cs) \<longrightarrow> stands_at (bpb fs) cs (p + ?n) slot'"
      by auto
    then show ?thesis using assms(2-5) False rem
      unfolding Let_def by (intro exI [of _ slot'] conjI) (simp_all add: fat_read_fd_def Let_def)
  qed
qed

section \<open>Writing at the end of the last cluster\<close>

lemma flush_ok:
  assumes "sound 0 ds" "unat (dir_entry_offset slot) + 32 \<le> 512"
  shows "sound 0 (flush_dir_size slot ds)"
    "a \<noteq> dir_entry_sector slot \<Longrightarrow> content 0 (flush_dir_size slot ds) a = content 0 ds a"
proof -
  let ?a = "dir_entry_sector slot"
  let ?buf = "blit (unat (dir_entry_offset slot) + 26) (le16 (first_cluster slot) @ le32 (ff_size slot)) (content 0 ds ?a)"
  have "length ?buf = 512" using assms sound_len [OF assms(1)] by (simp add: le16_def le32_def)
  from sound_write [OF assms(1) this, of ?a] obtain ds' where
    "write_sector 0 ?a ?buf ds = (True, ds')" "sound 0 ds'" "content 0 ds' = (content 0 ds)(?a := ?buf)" by blast
  then have "sound 0 (flush_dir_size slot ds)
      \<and> (a \<noteq> ?a \<longrightarrow> content 0 (flush_dir_size slot ds) a = content 0 ds a)"
    using assms(1) by (simp add: flush_dir_size_def read_sector_buf_def write_sector_buf_def sound_read)
  then show "sound 0 (flush_dir_size slot ds)"
    "a \<noteq> ?a \<Longrightarrow> content 0 (flush_dir_size slot ds) a = content 0 ds a" by simp_all
qed

lemma fat_next_cong:
  assumes "sound 0 ds" "sound 0 ds'" "content 0 ds' (fat_sector_of b c) = content 0 ds (fat_sector_of b c)"
  shows "fat_next b c ds' = fat_next b c ds"
  using assms by (simp add: fat_next_def read_sector_buf_def sound_read)

text \<open>One full sector written at the last sector of the last cluster.\<close>

lemma write_last_sector:
  assumes s: "sound 0 ds" and spc: "sectors_per_cluster b = 1" and len: "length buf = 512"
    and slot: "2 \<le> cur_cluster slot" "cur_sector slot = 0" "unat (ff_offset slot) mod 512 = 0" "unat (ff_offset slot) + 512 < 2 ^ 32"
    and last: "fat_next b (cur_cluster slot) ds = 0xFFFF" "fat_sector_of b (cur_cluster slot) \<noteq> cluster_to_lba b (cur_cluster slot)"
  shows "\<exists>ds' slot'. fat_write_loop b buf 0 slot ds = (512, slot', ds') \<and> sound 0 ds'
    \<and> slot' = slot\<lparr>ff_offset := ff_offset slot + 512, ff_size := max (ff_offset slot + 512) (ff_size slot)\<rparr>
    \<and> content 0 ds' = (content 0 ds)(cluster_to_lba b (cur_cluster slot) := buf)"
proof -
  let ?a = "cluster_to_lba b (cur_cluster slot)"
  obtain ds1 where w: "write_sector 0 ?a buf ds = (True, ds1)" "sound 0 ds1" "content 0 ds1 = (content 0 ds)(?a := buf)"
    using sound_write [OF s len] by blast
  have nx: "fat_next b (cur_cluster slot) ds1 = 0xFFFF"
    using fat_next_cong [OF s w(2)] w(3) last by simp
  have c: "chunk slot 512 = 512" using slot(3) by (simp add: chunk_def)
  have "unat (ff_offset slot + 512) mod 512 = 0" using slot(3) unat_add_small [of "ff_offset slot" 512] slot(4) by simp
  then have m: "(ff_offset slot + 512) mod 512 = 0" by (simp add: word_unat_eq_iff [of "_ mod 512"] unat_mod)
  have b: "blit 0 buf (replicate 512 0) = buf" using len by (simp add: blit_def)
  let ?slot' = "slot\<lparr>ff_offset := ff_offset slot + 512, ff_size := max (ff_offset slot + 512) (ff_size slot)\<rparr>"
  have adv: "write_advance b 512 False slot ds1 = (True, ?slot', ds1)"
    using m slot(2) spc nx by (simp add: write_advance_def Let_def max_def not_less)
  have stop: "fat_write_loop b buf 512 x y = (512, x, y)" for x y
    using len by (subst fat_write_loop.simps) simp
  have "fat_write_loop b buf 0 slot ds = (512, ?slot', ds1)"
    using slot(1-3) len c w(1) b adv stop
    by (subst fat_write_loop.simps)
      (simp add: ensure_cluster_def slot_lba_def write_sector_buf_def Let_def not_less [symmetric])
  then show ?thesis using w by blast
qed

definition at_last_cluster :: "Bpb \<Rightarrow> disks \<Rightarrow> FatFd \<Rightarrow> bool" where
  "at_last_cluster b ds slot \<longleftrightarrow> ff_active slot \<and> ff_writable slot \<and> 2 \<le> cur_cluster slot \<and> cur_sector slot = 0
    \<and> unat (ff_offset slot) mod 512 = 0 \<and> unat (dir_entry_offset slot) + 32 \<le> 512
    \<and> fat_next b (cur_cluster slot) ds = 0xFFFF
    \<and> distinct [fat_sector_of b (cur_cluster slot), cluster_to_lba b (cur_cluster slot), dir_entry_sector slot]"

lemma write_fd_last_sector:
  assumes s: "sound 0 ds" and fs: "fat_ready fs" "is_fat_fd fd" "length (fat_fds fs) = FAT_FD_COUNT" "sectors_per_cluster (bpb fs) = 1"
    and slot: "fat_fds fs ! fat_slot fd = slot" "at_last_cluster (bpb fs) ds slot" "unat (ff_offset slot) + 512 < 2 ^ 32"
    and len: "length buf = 512"
  shows "\<exists>fs' ds' slot'. fat_write_fd fd buf fs ds = (512, fs', ds') \<and> sound 0 ds' \<and> fs' = set_slot (fat_slot fd) slot' fs
    \<and> slot' = slot\<lparr>ff_offset := ff_offset slot + 512, ff_size := max (ff_offset slot + 512) (ff_size slot)\<rparr>
    \<and> at_last_cluster (bpb fs) ds' slot' \<and> content 0 ds' (cluster_to_lba (bpb fs) (cur_cluster slot)) = buf"
proof -
  let ?b = "bpb fs" and ?a = "cluster_to_lba (bpb fs) (cur_cluster slot)"
  let ?slot' = "slot\<lparr>ff_offset := ff_offset slot + 512, ff_size := max (ff_offset slot + 512) (ff_size slot)\<rparr>"
  note at = slot(2) [unfolded at_last_cluster_def]
  obtain ds1 where w: "fat_write_loop ?b buf 0 slot ds = (512, ?slot', ds1)" "sound 0 ds1" "content 0 ds1 = (content 0 ds)(?a := buf)"
    using write_last_sector [OF s fs(4) len _ _ _ slot(3)] at by auto
  let ?ds = "flush_dir_size ?slot' ds1"
  have off: "unat (dir_entry_offset ?slot') + 32 \<le> 512" using at by simp
  note f = flush_ok [OF w(2) off]
  have "content 0 ?ds ?a = buf" using f(2) [of ?a] at w(3) by simp
  moreover have "fat_next ?b (cur_cluster slot) ?ds = 0xFFFF"
    using fat_next_cong [OF s f(1), of ?b "cur_cluster slot"] f(2) [of "fat_sector_of ?b (cur_cluster slot)"] at w(3) by simp
  moreover have "unat (ff_offset slot + 512) mod 512 = 0"
    using at unat_add_small [of "ff_offset slot" 512] slot(3) by simp
  ultimately show ?thesis
    using fs slot(1) at w(1) f(1) by (simp add: fat_write_fd_def at_last_cluster_def)
qed

text \<open>C36. When a write ends exactly at the end of the last cluster of the file, no cluster
  is linked but the sector index has gone back to 0: the next write of a sector is stored
  over the first sector of that same cluster. Both calls report 512 bytes written and the
  size grows by 1024, but the first 512 bytes are lost (clusters of one sector).\<close>
theorem fat_write_boundary_overwrites:
  assumes "sound 0 ds" "fat_ready fs" "is_fat_fd fd" "length (fat_fds fs) = FAT_FD_COUNT" "sectors_per_cluster (bpb fs) = 1"
    "fat_fds fs ! fat_slot fd = slot" "at_last_cluster (bpb fs) ds slot" "unat (ff_offset slot) + 1024 < 2 ^ 32"
    "length xs = 512" "length ys = 512"
  shows "case fat_write_fd fd xs fs ds of (r1, fs1, ds1) \<Rightarrow>
    case fat_write_fd fd ys fs1 ds1 of (r2, fs2, ds2) \<Rightarrow>
      r1 = 512 \<and> r2 = 512
      \<and> content 0 ds1 (cluster_to_lba (bpb fs) (cur_cluster slot)) = xs
      \<and> content 0 ds2 (cluster_to_lba (bpb fs) (cur_cluster slot)) = ys
      \<and> unat (ff_offset (fat_fds fs2 ! fat_slot fd)) = unat (ff_offset slot) + 1024
      \<and> unat (fat_file_size fd fs2) \<ge> unat (ff_offset slot) + 1024
      \<and> fat_next (bpb fs) (cur_cluster slot) ds2 = 0xFFFF"
proof -
  let ?o = "ff_offset slot"
  have o1: "unat (?o + 512) = unat ?o + 512" and o2: "unat (?o + 1024) = unat ?o + 1024"
    using assms(8) unat_add_small [of ?o 512] unat_add_small [of ?o 1024] by simp_all
  obtain fs1 ds1 slot1 where w1: "fat_write_fd fd xs fs ds = (512, fs1, ds1)" "sound 0 ds1" "fs1 = set_slot (fat_slot fd) slot1 fs"
      "slot1 = slot\<lparr>ff_offset := ?o + 512, ff_size := max (?o + 512) (ff_size slot)\<rparr>"
      "at_last_cluster (bpb fs) ds1 slot1" "content 0 ds1 (cluster_to_lba (bpb fs) (cur_cluster slot)) = xs"
    using write_fd_last_sector [OF assms(1-7) _ assms(9)] assms(8) by auto
  have i: "fat_slot fd < FAT_FD_COUNT" using assms(3) by (auto simp: is_fat_fd_def fat_slot_def)
  have fs1: "fat_ready fs1" "length (fat_fds fs1) = FAT_FD_COUNT" "bpb fs1 = bpb fs" "fat_fds fs1 ! fat_slot fd = slot1"
    using w1(3) assms(2,4) i by (simp_all add: set_slot_def)
  have "unat (ff_offset slot1) + 512 < 2 ^ 32" using w1(4) o1 assms(8) by simp
  from write_fd_last_sector [of ds1 fs1, OF w1(2) fs1(1) assms(3) fs1(2) _ fs1(4) _ this assms(10)]
  obtain fs2 ds2 slot2 where w2: "fat_write_fd fd ys fs1 ds1 = (512, fs2, ds2)" "fs2 = set_slot (fat_slot fd) slot2 fs1"
      "slot2 = slot1\<lparr>ff_offset := ff_offset slot1 + 512, ff_size := max (ff_offset slot1 + 512) (ff_size slot1)\<rparr>"
      "at_last_cluster (bpb fs) ds2 slot2" "content 0 ds2 (cluster_to_lba (bpb fs) (cur_cluster slot)) = ys"
    using fs1(3) assms(5) w1(4,5) by auto
  have slot2: "fat_fds fs2 ! fat_slot fd = slot2" "fat_ready fs2" using w2(2) fs1 i by (simp_all add: set_slot_def)
  have "ff_offset slot2 = ?o + 1024" using w2(3) w1(4) by (simp add: add.assoc)
  moreover have "ff_offset slot2 \<le> ff_size slot2" using w2(3) by simp
  moreover have "fat_file_size fd fs2 = ff_size slot2"
    using slot2 assms(3) w2(4) by (simp add: fat_file_size_def at_last_cluster_def)
  moreover have "fat_next (bpb fs) (cur_cluster slot) ds2 = 0xFFFF"
    using w2(3,4) w1(4) by (simp add: at_last_cluster_def)
  ultimately show ?thesis unfolding w1(1) prod.case w2(1) slot2(1) using w1(6) w2(5) o2 by (simp add: word_le_nat_alt)
qed

section \<open>Names\<close>

lemma to_ascii_case: "to_ascii_lowercase (to_ascii_uppercase c) = to_ascii_lowercase c"
  "to_ascii_uppercase c = 32 \<longleftrightarrow> c = 32"
proof -
  have "c < 97 \<or> 122 < c \<or> (65 \<le> c - 32 \<and> c - 32 \<le> 90)"
    by (auto simp: word_le_nat_alt word_less_nat_alt unat_sub_if_size)
  moreover have "c < 97 \<or> 122 < c \<or> \<not> (65 \<le> c \<and> c \<le> 90)" by (auto simp: word_le_nat_alt word_less_nat_alt)
  ultimately show "to_ascii_lowercase (to_ascii_uppercase c) = to_ascii_lowercase c"
    by (auto simp: to_ascii_lowercase_def to_ascii_uppercase_def not_less)
  show "to_ascii_uppercase c = 32 \<longleftrightarrow> c = 32"
    by (auto simp: to_ascii_uppercase_def word_le_nat_alt word_unat_eq_iff unat_sub_if_size)
qed

lemma takeWhile_pad: "32 \<notin> set xs \<Longrightarrow> takeWhile (\<lambda>c. c \<noteq> (32 :: u8)) (xs @ replicate n 32) = xs"
  by (induction xs) (cases n, auto)

lemma trim_end_pad: "32 \<notin> set xs \<Longrightarrow> trim_end (32 :: u8) (xs @ replicate n 32) = xs"
proof -
  assume a: "32 \<notin> set xs"
  have "dropWhile (\<lambda>c. c = (32 :: u8)) (replicate n 32 @ rev xs) = rev xs"
  proof (induction n)
    case 0
    have "x \<noteq> 32" if "x \<in> set (rev xs)" for x using a that by auto
    then show ?case by (cases "rev xs") simp_all
  qed simp
  then show ?thesis by (simp add: trim_end_def)
qed

lemma component_83:
  assumes "n \<noteq> []" "46 \<notin> set n" "length n \<le> 8" "length e \<le> 3"
  shows "component_to_83 (n @ (if e = [] then [] else 46 # e))
    = Some (map to_ascii_uppercase n @ replicate (8 - length n) 32 @ map to_ascii_uppercase e @ replicate (3 - length e) 32)"
proof -
  let ?p = "n @ (if e = [] then [] else 46 # e)"
  have n: "first_index (\<lambda>c. c = 46) n = None" using assms(2) by (auto simp: first_index_None)
  have "blit 8 (map to_ascii_uppercase e) (blit 0 (map to_ascii_uppercase n) (replicate 11 32))
      = map to_ascii_uppercase n @ replicate (8 - length n) 32 @ map to_ascii_uppercase e @ replicate (3 - length e) 32"
    using assms(3,4) by (simp add: blit_def)
  moreover have "component_to_83 ?p = Some (blit 8 (map to_ascii_uppercase e) (blit 0 (map to_ascii_uppercase n) (replicate 11 32)))"
    using assms n by (simp add: component_to_83_def first_index_append)
  ultimately show ?thesis by simp
qed

text \<open>C33. A file name of at most eight characters and an extension of at most three, without
  spaces, survives the translation to the eleven bytes of a directory entry and back, up to
  lower case: so the name that a listing prints is the name that open looks up.\<close>
theorem fat_name_round_trip:
  assumes "n \<noteq> []" "46 \<notin> set n" "32 \<notin> set (n @ e)" "length n \<le> 8" "length e \<le> 3" "part = n @ (if e = [] then [] else 46 # e)"
  shows "\<exists>r. component_to_83 part = Some r \<and> length r = 11
    \<and> fat83_to_string (take 8 r) (take 3 (drop 8 r)) = map to_ascii_lowercase part
    \<and> component_to_83 (map to_ascii_lowercase part) = Some r"
proof -
  let ?up = "map to_ascii_uppercase" and ?low = "map to_ascii_lowercase"
  let ?r = "?up n @ replicate (8 - length n) 32 @ ?up e @ replicate (3 - length e) 32"
  have c: "component_to_83 part = Some ?r" using component_83 [of n e] assms by simp
  have parts: "take 8 ?r = ?up n @ replicate (8 - length n) 32" "take 3 (drop 8 ?r) = ?up e @ replicate (3 - length e) 32"
    using assms(4,5) by simp_all
  have up: "32 \<notin> set (?up n)" "32 \<notin> set (?up e)" using assms(3) to_ascii_case(2) by (auto simp: eq_commute [of 32])
  have low: "?low (?up xs) = ?low xs" for xs by (simp add: to_ascii_case(1))
  have dot: "to_ascii_lowercase 46 = 46" by (simp add: to_ascii_lowercase_def)
  have "fat83_to_string (take 8 ?r) (take 3 (drop 8 ?r)) = ?low part"
    unfolding parts fat83_to_string_def takeWhile_pad [OF up(1)] trim_end_pad [OF up(2)]
    using assms(6) low dot by (simp add: Let_def)
  moreover have "component_to_83 (?low part) = Some ?r"
  proof -
    have upper: "to_ascii_uppercase (to_ascii_lowercase x) = to_ascii_uppercase x" for x
    proof -
      have "65 \<le> x \<and> x \<le> 90 \<Longrightarrow> 97 \<le> x + 32 \<and> x + 32 \<le> 122 \<and> \<not> (97 \<le> x \<and> x \<le> 122)"
        by (auto simp: word_le_nat_alt unat_word_ariths)
      then show ?thesis by (auto simp: to_ascii_lowercase_def to_ascii_uppercase_def)
    qed
    have "46 \<notin> set (?low n)"
    proof
      assume "46 \<in> set (?low n)"
      then obtain x where "x \<in> set n" "to_ascii_lowercase x = 46" by auto
      moreover have "65 \<le> x \<and> x \<le> 90 \<Longrightarrow> x + 32 \<noteq> 46"
        by (auto simp: word_le_nat_alt word_unat_eq_iff unat_word_ariths)
      ultimately show False using assms(2) by (auto simp: to_ascii_lowercase_def split: if_splits)
    qed
    then show ?thesis using component_83 [of "?low n" "?low e"] assms dot upper by (cases "e = []") (simp_all add: o_def)
  qed
  ultimately show ?thesis using c assms(4,5) by simp
qed

section \<open>A small volume\<close>

text \<open>Two copies of a one-sector table, one root directory sector, clusters of one sector.
  Clusters 2 and 3 form a cycle, 4 is free and 5 is a file of one cluster.\<close>

definition fat_demo_bpb :: Bpb where
  "fat_demo_bpb = \<lparr>bytes_per_sector = 512, sectors_per_cluster = 1, reserved_sectors = 1, fat_count = 2,
    root_entry_count = 16, fat_size_16 = 1, fat_start_lba = 1, root_dir_lba = 3, data_start_lba = 4\<rparr>"

definition fat_demo_table :: bytes where
  "fat_demo_table = [0xF8, 0xFF, 0xFF, 0xFF, 3, 0, 2, 0, 0, 0, 0xFF, 0xFF] @ replicate 500 0"

definition fat_demo_volume :: disks where
  "fat_demo_volume = [0 \<mapsto> \<lparr>sect = (\<lambda>a. if a = 1 \<or> a = 2 then fat_demo_table else replicate 512 (ucast a)),
    rd_err = (\<lambda>_. False), wr_err = (\<lambda>_. False),
    wr_lost = (\<lambda>_. False), wr_late = (\<lambda>_. False), lba48 = True\<rparr>]"

definition fat_demo_fs :: "u16 \<Rightarrow> u32 \<Rightarrow> FatFs" where
  "fat_demo_fs c n = fatfs_new\<lparr>fat_ready := True, bpb := fat_demo_bpb,
    fat_fds := (fat_fds fatfs_new)[0 := \<lparr>ff_active = True, ff_writable = True, ff_size = n, first_cluster = c,
      cur_cluster = c, cur_sector = 0, ff_offset = 0, dir_entry_sector = 3, dir_entry_offset = 0\<rparr>]\<rparr>"

lemma fat_demo_bpb_fields:
  "sectors_per_cluster fat_demo_bpb = 1" "fat_count fat_demo_bpb = 2" "fat_start_lba fat_demo_bpb = 1" "data_start_lba fat_demo_bpb = 4"
  "spc fat_demo_bpb = 1"
  by (simp_all add: fat_demo_bpb_def spc_def)

lemma fat_demo_sound: "sound 0 fat_demo_volume"
  by (simp add: sound_def sound_drive_def fat_demo_volume_def fat_demo_table_def)

lemma fat_demo_geometry: "fat_geometry fat_demo_bpb" "in_fat fat_demo_bpb c \<longleftrightarrow> unat c < 256"
  by (auto simp: fat_geometry_def in_fat_def fat_demo_bpb_def div_less_iff_less_mult)

lemma fat_demo_content: "content 0 fat_demo_volume a = (if a = 1 \<or> a = 2 then fat_demo_table else replicate 512 (ucast a))"
  by (simp add: content_def fat_demo_volume_def)

lemma fat_demo_entry:
  "fat_entry fat_demo_bpb 0 2 fat_demo_volume = 3" "fat_entry fat_demo_bpb 0 3 fat_demo_volume = 2"
  "fat_entry fat_demo_bpb 0 4 fat_demo_volume = 0" "fat_entry fat_demo_bpb 0 5 fat_demo_volume = 0xFFFF"
  by (simp_all add: fat_entry_def copy_lba_def fat_sector_of_nat fat_byte_of_nat fat_demo_content fat_demo_bpb_def fat_demo_table_def
      rd16_def from_le16_def)

lemma fat_demo_next:
  "fat_next fat_demo_bpb 2 fat_demo_volume = 3" "fat_next fat_demo_bpb 3 fat_demo_volume = 2" "fat_next fat_demo_bpb 5 fat_demo_volume = 0xFFFF"
  by (simp_all add: fat_next_entry [OF fat_demo_sound] fat_demo_entry)

lemma fat_demo_reaches: "reaches fat_demo_bpb fat_demo_volume 2 x \<Longrightarrow> x = 2 \<or> x = 3"
  by (induction rule: reaches.induct) (auto simp: fat_demo_next)

lemma fat_demo_fs_fields:
  "fat_ready (fat_demo_fs c n)" "bpb (fat_demo_fs c n) = fat_demo_bpb" "length (fat_fds (fat_demo_fs c n)) = FAT_FD_COUNT"
  "fat_fds (fat_demo_fs c n) ! fat_slot 64 = \<lparr>ff_active = True, ff_writable = True, ff_size = n, first_cluster = c,
      cur_cluster = c, cur_sector = 0, ff_offset = 0, dir_entry_sector = 3, dir_entry_offset = 0\<rparr>"
  "is_fat_fd 64"
  by (simp_all add: fat_demo_fs_def fatfs_new_def fat_slot_def FAT_FD_BASE_def FAT_FD_COUNT_def is_fat_fd_def)

theorem fat_alloc_cluster_correct_witness: "fst (fat_alloc_cluster fat_demo_bpb fat_demo_volume) = 4"
proof -
  obtain c ds' where a: "fat_alloc_cluster fat_demo_bpb fat_demo_volume = (c, ds')" by (rule prod.exhaust)
  note ok = fat_alloc_cluster_correct [OF fat_demo_sound fat_demo_geometry(1) a]
  have free: "cluster_free fat_demo_bpb 4 fat_demo_volume" "\<not> cluster_free fat_demo_bpb 2 fat_demo_volume" "\<not> cluster_free fat_demo_bpb 3 fat_demo_volume"
    by (simp_all add: cluster_free_def fat_demo_entry)
  have "in_fat fat_demo_bpb 4" by (simp add: fat_demo_geometry(2))
  have "c \<noteq> 0"
  proof
    assume "c = 0"
    then have "\<forall>x. in_fat fat_demo_bpb x \<longrightarrow> \<not> cluster_free fat_demo_bpb x fat_demo_volume"
      using ok unfolding if_P [of "c = 0", OF \<open>c = 0\<close>] by blast
    then show False using \<open>in_fat fat_demo_bpb 4\<close> free(1) by blast
  qed
  then have c: "cluster_free fat_demo_bpb c fat_demo_volume" "\<forall>x. unat x < unat c \<longrightarrow> \<not> cluster_free fat_demo_bpb x fat_demo_volume"
    using ok unfolding if_not_P [of "c = 0", OF \<open>c \<noteq> 0\<close>] by blast+
  have "unat (4 :: u16) < unat c \<Longrightarrow> \<not> cluster_free fat_demo_bpb 4 fat_demo_volume" using c(2) by blast
  then have "unat c \<le> 4" using free(1) by (cases "4 < unat c") simp_all
  moreover have ge: "2 \<le> unat c" and ne: "c \<noteq> 2" "c \<noteq> 3" using c(1) free by (auto simp: cluster_free_def)
  moreover have "unat c \<noteq> 2" "unat c \<noteq> 3" using ne by (simp_all add: word_unat_eq_iff)
  ultimately have "unat c = 4" by linarith
  then have "c = 4" by (simp add: word_unat_eq_iff)
  with a show ?thesis by (simp only: fst_conv)
qed

theorem free_cluster_chain_exact_witness:
  "\<exists>ds'. free_cluster_chain fat_demo_bpb 2 fat_demo_volume = Some ds'
    \<and> fat_entry fat_demo_bpb 0 2 ds' = 0 \<and> fat_entry fat_demo_bpb 0 3 ds' = 0 \<and> fat_entry fat_demo_bpb 0 5 ds' = 0xFFFF
    \<and> (\<forall>p < 512. content 0 ds' 40 ! p = content 0 fat_demo_volume 40 ! p)"
proof -
  have inside: "\<forall>x. valid_cl x \<and> reaches fat_demo_bpb fat_demo_volume 2 x \<longrightarrow> in_fat fat_demo_bpb x"
    by (auto simp: fat_demo_geometry dest!: fat_demo_reaches)
  from free_cluster_chain_exact [OF fat_demo_sound, of fat_demo_bpb 2] obtain ds' where
    ds': "free_cluster_chain fat_demo_bpb 2 fat_demo_volume = Some ds'"
      "\<forall>k < unat (fat_count fat_demo_bpb). \<forall>x. in_fat fat_demo_bpb x \<longrightarrow> fat_entry fat_demo_bpb k x ds'
        = (if valid_cl x \<and> reaches fat_demo_bpb fat_demo_volume 2 x then 0 else fat_entry fat_demo_bpb k x fat_demo_volume)"
      "\<forall>a p. p < 512 \<longrightarrow> content 0 ds' a ! p = (if \<exists>x. valid_cl x \<and> reaches fat_demo_bpb fat_demo_volume 2 x
          \<and> entry_byte fat_demo_bpb x a p then 0 else content 0 fat_demo_volume a ! p)"
    using inside fat_demo_geometry(1) by (auto simp: fat_geometry_def)
  have e: "fat_entry fat_demo_bpb 0 x ds' = (if valid_cl x \<and> reaches fat_demo_bpb fat_demo_volume 2 x then 0 else fat_entry fat_demo_bpb 0 x fat_demo_volume)"
    if "unat x < 256" for x
    using ds'(2) [rule_format, of 0 x] that by (simp add: fat_demo_bpb_fields fat_demo_geometry)
  have "reaches fat_demo_bpb fat_demo_volume 2 3"
    using reaches.intros(2) [OF reaches.start [of fat_demo_bpb fat_demo_volume 2]] by (simp add: fat_demo_next valid_cl_def)
  then have "fat_entry fat_demo_bpb 0 3 ds' = 0" using e [of 3] by (simp add: valid_cl_def)
  moreover have "fat_entry fat_demo_bpb 0 2 ds' = 0"
    using e [of 2] reaches.start [of fat_demo_bpb fat_demo_volume 2] by (simp add: valid_cl_def)
  moreover have "\<not> reaches fat_demo_bpb fat_demo_volume 2 5" using fat_demo_reaches [of 5] by fastforce
  then have "fat_entry fat_demo_bpb 0 5 ds' = 0xFFFF" using e [of 5] by (simp add: fat_demo_entry)
  moreover have "\<not> entry_byte fat_demo_bpb x 40 p" if "reaches fat_demo_bpb fat_demo_volume 2 x" for x p
    using fat_demo_reaches [OF that] by (auto simp: entry_byte_def fat_copies_def fat_sector_of_nat fat_demo_bpb_fields fat_demo_bpb_def less_2_cases_iff)
  then have "\<forall>p < 512. content 0 ds' 40 ! p = content 0 fat_demo_volume 40 ! p" using ds'(3) by auto
  ultimately show ?thesis using ds'(1) by blast
qed

theorem fat_read_fd_correct_witness:
  "\<exists>fs'. fat_read_fd 64 (replicate 520 0) (fat_demo_fs 2 1000) fat_demo_volume = (520, replicate 512 4 @ replicate 8 5, fs')"
proof -
  have "file_chain fat_demo_bpb fat_demo_volume [2, 3]" "stands_at fat_demo_bpb [2, 3] 0 (fat_fds (fat_demo_fs 2 1000) ! fat_slot 64)"
    by (auto simp: file_chain_def fat_demo_next valid_cl_def stands_at_def fat_demo_fs_fields fat_demo_bpb_fields less_Suc_eq)
  moreover have slot: "fat_slot 64 < FAT_FD_COUNT" by (simp add: fat_slot_def FAT_FD_BASE_def FAT_FD_COUNT_def)
  moreover have "length (file_bytes fat_demo_bpb fat_demo_volume [2, 3]) = 1024"
    by (simp add: length_file_bytes [OF fat_demo_sound] fat_demo_bpb_fields)
  moreover have "take 520 (file_bytes fat_demo_bpb fat_demo_volume [2, 3]) = replicate 512 4 @ replicate 8 5"
    by (simp add: file_bytes_def file_sectors_def cluster_sectors_def cluster_to_lba_def fat_demo_bpb_fields fat_demo_content)
  ultimately show ?thesis
    using fat_read_fd_correct [OF fat_demo_sound, of "fat_demo_fs 2 1000" 64 _ "[2, 3]" 0 "replicate 520 0"]
    by (auto simp: fat_demo_fs_fields fat_demo_bpb_fields slot blit_def Let_def)
qed

theorem fat_write_boundary_overwrites_witness:
  "case fat_write_fd 64 (replicate 512 1) (fat_demo_fs 5 0) fat_demo_volume of (r1, fs1, ds1) \<Rightarrow>
    case fat_write_fd 64 (replicate 512 2) fs1 ds1 of (r2, fs2, ds2) \<Rightarrow>
      r1 = 512 \<and> r2 = 512 \<and> content 0 ds1 7 = replicate 512 1 \<and> content 0 ds2 7 = replicate 512 2"
proof -
  have "at_last_cluster fat_demo_bpb fat_demo_volume (fat_fds (fat_demo_fs 5 0) ! fat_slot 64)"
    by (simp add: at_last_cluster_def fat_demo_fs_fields fat_demo_next fat_sector_of_nat cluster_to_lba_def fat_demo_bpb_fields)
  moreover have "cluster_to_lba fat_demo_bpb 5 = 7" by (simp add: cluster_to_lba_def fat_demo_bpb_def)
  ultimately show ?thesis
    using fat_write_boundary_overwrites [OF fat_demo_sound, of "fat_demo_fs 5 0" 64 _ "replicate 512 1" "replicate 512 2"]
    by (auto simp: fat_demo_fs_fields fat_demo_bpb_fields split: prod.splits)
qed

theorem fat_name_round_trip_witness:
  "\<exists>r. component_to_83 (bstr ''Main.rs'') = Some r \<and> fat83_to_string (take 8 r) (take 3 (drop 8 r)) = bstr ''main.rs''"
proof -
  have "bstr ''Main.rs'' = bstr ''Main'' @ (if bstr ''rs'' = [] then [] else 46 # bstr ''rs'')" by code_simp
  moreover have "map to_ascii_lowercase (bstr ''Main.rs'') = bstr ''main.rs''" by code_simp
  moreover have "bstr ''Main'' \<noteq> []" "46 \<notin> set (bstr ''Main'')" "32 \<notin> set (bstr ''Main'' @ bstr ''rs'')"
    "length (bstr ''Main'') \<le> 8" "length (bstr ''rs'') \<le> 3" by code_simp+
  ultimately show ?thesis using fat_name_round_trip [of "bstr ''Main''" "bstr ''rs''"] by auto
qed

end
