(* ===== verification/Ext2_Blocks.thy ===== *)
theory Ext2_Blocks
  imports Ext2
begin

text \<open>
  The ext2 driver's block layer and bitmap allocator: reading, writing and
  patching blocks of a fault-free disk, and what allocating and freeing a block
  does to the bitmaps and to every other block.
\<close>

section \<open>The volume as blocks\<close>

definition spb :: "Ext2State \<Rightarrow> nat" where
  "spb e = unat (sects_per_block e)"

definition bsz :: "Ext2State \<Rightarrow> nat" where
  "bsz e = unat (block_size e)"

definition geometry :: "Ext2State \<Rightarrow> bool" where
  "geometry e \<longleftrightarrow> spb e \<in> {2, 4, 8} \<and> bsz e = 512 * spb e"

definition mounted :: "Ext2 \<Rightarrow> bool" where
  "mounted w \<longleftrightarrow> sound 3 (drives w) \<and> length (scratch w) = MAX_BLOCK \<and> geometry (st w)"

text \<open>Block numbers whose sectors have 32-bit addresses.\<close>

definition in_vol :: "Ext2State \<Rightarrow> u32 \<Rightarrow> bool" where
  "in_vol e b \<longleftrightarrow> unat (lba_offset e) + (unat b + 1) * spb e \<le> 2 ^ 32"

definition blk :: "Ext2 \<Rightarrow> u32 \<Rightarrow> bytes" where
  "blk w b = concat (map (\<lambda>s. content 3 (drives w) (block_lba (st w) b + of_nat s)) [0..<spb (st w)])"

lemma geometry_bounds:
  assumes "geometry e"
  shows "spb e \<le> 8" "0 < spb e" "bsz e = 512 * spb e" "bsz e \<le> MAX_BLOCK" "0 < bsz e" "block_size e \<noteq> 0"
  using assms by (auto simp: geometry_def bsz_def spb_def MAX_BLOCK_def)

lemma length_blk: "sound 3 (drives w) \<Longrightarrow> geometry (st w) \<Longrightarrow> length (blk w b) = bsz (st w)"
  unfolding blk_def
  using length_concat_uniform [of "map (\<lambda>s. content 3 (drives w) (block_lba (st w) b + of_nat s)) [0..<spb (st w)]" 512]
  by (simp add: sound_len geometry_bounds)

lemma blk_sector:
  assumes "sound 3 (drives w)" "s < spb (st w)"
  shows "take 512 (drop (512 * s) (blk w b)) = content 3 (drives w) (block_lba (st w) b + of_nat s)"
proof -
  let ?xs = "map (\<lambda>s. content 3 (drives w) (block_lba (st w) b + of_nat s)) [0..<spb (st w)]"
  have "take 512 (drop (512 * s) (concat ?xs)) = take 512 (drop (512 * s mod 512) (?xs ! (512 * s div 512)))"
    using slice_concat_uniform [of ?xs 512 "512 * s" 512] assms sound_len [OF assms(1)] by simp
  then show ?thesis using assms sound_len [OF assms(1)] by (simp add: blk_def)
qed

lemma blk_eqI:
  assumes "st w' = st w" "\<And>s. s < spb (st w) \<Longrightarrow> content 3 (drives w') (block_lba (st w) b + of_nat s) = content 3 (drives w) (block_lba (st w) b + of_nat s)"
  shows "blk w' b = blk w b"
  unfolding blk_def using assms by (intro arg_cong [of _ _ concat] map_cong) auto

text \<open>Sectors of different blocks are different.\<close>

lemma sector_nat:
  assumes "in_vol e b" "s < spb e"
  shows "unat (block_lba e b + of_nat s) = unat (lba_offset e) + unat b * spb e + s"
proof -
  have small: "unat (lba_offset e) + unat b * spb e + s < 2 ^ 32" using assms by (simp add: in_vol_def)
  have "block_lba e b + of_nat s = of_nat (unat (lba_offset e) + unat b * spb e + s)"
    by (simp add: block_lba_def spb_def of_nat_unat ucast_id)
  then show ?thesis using small by (simp add: unat_of_nat_small del: of_nat_add of_nat_mult)
qed

lemma sector_inj:
  assumes "in_vol e b" "in_vol e b'" "s < spb e" "s' < spb e"
  shows "block_lba e b + of_nat s = block_lba e b' + of_nat s' \<longleftrightarrow> b = b' \<and> s = s'"
proof
  assume "block_lba e b + of_nat s = block_lba e b' + of_nat s'"
  then have eq: "unat b * spb e + s = unat b' * spb e + s'"
    using sector_nat [OF assms(1,3)] sector_nat [OF assms(2,4)] by simp
  have "unat b = unat b'" using arg_cong [OF eq, of "\<lambda>n. n div spb e"] assms(3,4) by simp
  then show "b = b' \<and> s = s'" using eq by (simp add: word_unat_eq_iff)
qed simp

section \<open>Reading and writing a block\<close>

lemma load_sectors_ok:
  assumes "sound 3 (drives w)" "length (scratch w) = MAX_BLOCK" "m \<le> n" "n \<le> 8"
  shows "load_sectors lba [m..<n] w = (True, w\<lparr>scratch := take (512 * m) (scratch w)
      @ concat (map (\<lambda>s. content 3 (drives w) (lba + of_nat s)) [m..<n]) @ drop (512 * n) (scratch w)\<rparr>)"
  using assms(1,2,3)
proof (induction "n - m" arbitrary: m w)
  case (Suc k)
  then have m: "m < n" "k = n - Suc m" "Suc m \<le> n" by simp_all
  let ?c = "\<lambda>s. content 3 (drives w) (lba + of_nat s)"
  let ?w = "w\<lparr>scratch := blit (512 * m) (?c m) (scratch w)\<rparr>"
  have len: "length (?c m) = 512" "512 * m + 512 \<le> length (scratch w)"
    using sound_len [OF Suc.prems(1)] Suc.prems(2) m assms(4) by (simp_all add: MAX_BLOCK_def)
  have IH: "load_sectors lba [Suc m..<n] ?w = (True, ?w\<lparr>scratch := take (512 * Suc m) (scratch ?w)
      @ concat (map ?c [Suc m..<n]) @ drop (512 * n) (scratch ?w)\<rparr>)"
    using Suc.hyps(1) [OF m(2), of ?w] Suc.prems m(3) len by simp
  have "512 * Suc m \<le> 512 * n" using m by simp
  then have scr: "take (512 * Suc m) (scratch ?w) = take (512 * m) (scratch w) @ ?c m" "drop (512 * n) (scratch ?w) = drop (512 * n) (scratch w)"
    using len by (simp_all add: blit_def)
  have "read_sector_sec (lba + of_nat m) (drives w) = Some (?c m)"
    using Suc.prems(1) by (simp add: read_sector_sec_def sound_read)
  then show ?case using IH scr m(1) by (simp add: upt_conv_Cons)
qed simp

lemma read_block_ok:
  assumes "mounted w"
  shows "read_block_into_scratch b w = (True, w\<lparr>scratch := blit 0 (blk w b) (scratch w)\<rparr>)"
proof -
  have g: "sound 3 (drives w)" "length (scratch w) = MAX_BLOCK" "geometry (st w)" using assms by (simp_all add: mounted_def)
  then show ?thesis
    using load_sectors_ok [OF g(1,2), of 0 "spb (st w)" "block_lba (st w) b"] geometry_bounds [OF g(3)] length_blk [OF g(1,3), of b]
    by (simp add: read_block_into_scratch_def blk_def spb_def blit_def)
qed

lemma store_sectors_ok:
  assumes "length (scratch w) = MAX_BLOCK" "m \<le> n" "n \<le> 8" "sound 3 (drives w)"
  shows "\<exists>ds. store_sectors lba [m..<n] w = (True, w\<lparr>drives := ds\<rparr>) \<and> sound 3 ds
    \<and> (\<forall>a. content 3 ds a = (case find (\<lambda>s. a = lba + of_nat s) [m..<n] of
          Some s \<Rightarrow> take 512 (drop (512 * s) (scratch w)) | None \<Rightarrow> content 3 (drives w) a))"
  using assms(1,2,4)
proof (induction "n - m" arbitrary: m w)
  case 0
  then show ?case by (intro exI [of _ "drives w"]) simp
next
  case (Suc k)
  then have m: "m < n" "k = n - Suc m" "Suc m \<le> n" by simp_all
  let ?d = "take 512 (drop (512 * m) (scratch w))"
  have "length ?d = 512" using Suc.prems(1) m assms(3) by (simp add: MAX_BLOCK_def)
  from sound_write [OF Suc.prems(3) this, of "lba + of_nat m"] obtain ds1 where
    ds1: "write_sector 3 (lba + of_nat m) ?d (drives w) = (True, ds1)" "sound 3 ds1"
      "content 3 ds1 = (content 3 (drives w))(lba + of_nat m := ?d)" by blast
  have "length (scratch (w\<lparr>drives := ds1\<rparr>)) = MAX_BLOCK" "sound 3 (drives (w\<lparr>drives := ds1\<rparr>))" using Suc.prems(1) ds1(2) by simp_all
  from Suc.hyps(1) [OF m(2) this(1) m(3) this(2)] obtain ds where
    ds: "store_sectors lba [Suc m..<n] (w\<lparr>drives := ds1\<rparr>) = (True, w\<lparr>drives := ds1\<rparr>\<lparr>drives := ds\<rparr>)" "sound 3 ds"
      "\<forall>a. content 3 ds a = (case find (\<lambda>s. a = lba + of_nat s) [Suc m..<n] of
          Some s \<Rightarrow> take 512 (drop (512 * s) (scratch (w\<lparr>drives := ds1\<rparr>)))
        | None \<Rightarrow> content 3 (drives (w\<lparr>drives := ds1\<rparr>)) a)" by blast
  have other: "find (\<lambda>s. lba + of_nat m = lba + (of_nat s :: u32)) [Suc m..<n] = None"
  proof -
    have "of_nat m \<noteq> (of_nat s :: u32)" if "s \<in> {Suc m..<n}" for s
    proof
      assume eq: "of_nat m = (of_nat s :: u32)"
      have "m < 2 ^ LENGTH(32)" "s < 2 ^ LENGTH(32)" using that assms(3) by auto
      then have "m = s" using eq by (metis unat_of_nat_small)
      then show False using that by simp
    qed
    then show ?thesis by (auto simp: find_None_iff)
  qed
  have "content 3 ds a = (case find (\<lambda>s. a = lba + of_nat s) [m..<n] of
          Some s \<Rightarrow> take 512 (drop (512 * s) (scratch w)) | None \<Rightarrow> content 3 (drives w) a)" for a
    using ds(3) [rule_format, of a] ds1(3) other m(1) by (cases "a = lba + of_nat m") (simp_all add: upt_conv_Cons split: option.split)
  moreover have "store_sectors lba [m..<n] w = (True, w\<lparr>drives := ds\<rparr>)"
    using ds(1) ds1(1) m(1) by (simp add: upt_conv_Cons write_sector_sec_def)
  ultimately show ?case using ds(2) by blast
qed

text \<open>Writing a block replaces exactly that block.\<close>

lemma write_block_ok:
  assumes "mounted w" "in_vol (st w) b"
  shows "\<exists>w'. write_block_from_scratch b w = (True, w') \<and> mounted w' \<and> st w' = st w \<and> scratch w' = scratch w
    \<and> (\<forall>b'. in_vol (st w) b' \<longrightarrow> blk w' b' = (if b' = b then take (bsz (st w)) (scratch w) else blk w b'))"
proof -
  let ?e = "st w" and ?sec = "\<lambda>b s. block_lba (st w) b + of_nat s"
  have g: "sound 3 (drives w)" "length (scratch w) = MAX_BLOCK" "geometry ?e" using assms(1) by (simp_all add: mounted_def)
  note gb = geometry_bounds [OF g(3)]
  obtain ds where ds: "store_sectors (block_lba ?e b) [0..<spb ?e] w = (True, w\<lparr>drives := ds\<rparr>)" "sound 3 ds"
      "\<And>a. content 3 ds a = (case find (\<lambda>s. a = ?sec b s) [0..<spb ?e] of
          Some s \<Rightarrow> take 512 (drop (512 * s) (scratch w)) | None \<Rightarrow> content 3 (drives w) a)"
    using store_sectors_ok [OF g(2) _ gb(1) g(1), of 0 "block_lba ?e b"] by auto
  let ?w = "w\<lparr>drives := ds\<rparr>"
  have sector: "content 3 ds (?sec b' s) = (if b' = b then take 512 (drop (512 * s) (scratch w)) else content 3 (drives w) (?sec b' s))"
    if b': "in_vol ?e b'" and s: "s < spb ?e" for b' s
  proof -
    have inj: "?sec b' s = ?sec b s' \<longleftrightarrow> b' = b \<and> s = s'" if "s' < spb ?e" for s'
      using sector_inj [OF b' assms(2) s that] .
    show ?thesis
    proof (cases "find (\<lambda>s'. ?sec b' s = ?sec b s') [0..<spb ?e]")
      case None
      then have "b' \<noteq> b" using find_upt_None [OF None] s inj [OF s] by blast
      then show ?thesis using ds(3) [of "?sec b' s"] None by simp
    next
      case (Some s')
      then have "b' = b \<and> s = s'" using find_upt_Some [OF Some] inj by blast
      then show ?thesis using ds(3) [of "?sec b' s"] Some by simp
    qed
  qed
  have same: "blk ?w b' = blk w b'" if "in_vol ?e b'" "b' \<noteq> b" for b'
    by (rule blk_eqI) (use sector [OF that(1)] that(2) in auto)
  have new: "blk ?w b = take (bsz ?e) (scratch w)"
  proof -
    have "blk ?w b = concat (map (\<lambda>s. take 512 (drop (512 * s) (scratch w))) [0..<spb ?e])"
      unfolding blk_def using sector [OF assms(2)] by (intro arg_cong [of _ _ concat] map_cong) auto
    moreover have "concat (map (\<lambda>s. take 512 (drop (512 * s) xs)) [0..<n]) = take (512 * n) xs" for n and xs :: bytes
    proof (induction n)
      case (Suc n)
      have "512 * Suc n = 512 * n + 512" by simp
      then show ?case using Suc by (simp only: take_add) simp
    qed simp
    ultimately show ?thesis using gb(3) by simp
  qed
  have "write_block_from_scratch b w = (True, ?w)" using ds(1) by (simp add: write_block_from_scratch_def spb_def)
  moreover have "mounted ?w" using g ds(2) by (simp add: mounted_def)
  ultimately show ?thesis using same new by (intro exI [of _ ?w]) auto
qed

text \<open>Patching a block, when the patches lie inside it.\<close>

definition fits :: "nat \<Rightarrow> (nat \<times> bytes) list \<Rightarrow> bool" where
  "fits n ps \<longleftrightarrow> (\<forall>(off, src) \<in> set ps. off + length src \<le> n)"

definition patched :: "(nat \<times> bytes) list \<Rightarrow> bytes \<Rightarrow> bytes" where
  "patched ps s = fold (\<lambda>(off, src). blit off src) ps s"

lemma patched_simps [simp]: "patched [] s = s" "patched ((off, src) # ps) s = patched ps (blit off src s)"
  by (simp_all add: patched_def)

lemma length_patched: "fits n ps \<Longrightarrow> n \<le> length s \<Longrightarrow> length (patched ps s) = length s"
  by (induction ps arbitrary: s) (auto simp: fits_def)

lemma put_all_ok: "fits n ps \<Longrightarrow> n \<le> length s \<Longrightarrow> put_all ps s = Some (patched ps s)"
  by (induction ps arbitrary: s) (auto simp: fits_def put_def)

lemma take_blit_prefix: "off + length src \<le> n \<Longrightarrow> n \<le> length s \<Longrightarrow> take n (blit off src s) = blit off src (take n s)"
  by (cases "n = off") (auto simp: blit_def drop_take min_def)

lemma take_patched: "fits n ps \<Longrightarrow> n \<le> length s \<Longrightarrow> take n (patched ps s) = patched ps (take n s)"
  by (induction ps arbitrary: s) (auto simp: fits_def take_blit_prefix)

lemma patch_block_ok:
  assumes "mounted w" "in_vol (st w) b" "fits (bsz (st w)) ps"
  shows "\<exists>w'. patch_block b ps w = Some (True, w') \<and> mounted w' \<and> st w' = st w
    \<and> (\<forall>b'. in_vol (st w) b' \<longrightarrow> blk w' b' = (if b' = b then patched ps (blk w b) else blk w b'))"
proof -
  have g: "sound 3 (drives w)" "length (scratch w) = MAX_BLOCK" "geometry (st w)" using assms(1) by (simp_all add: mounted_def)
  let ?s = "blit 0 (blk w b) (scratch w)"
  have len: "length ?s = MAX_BLOCK" "length (blk w b) = bsz (st w)" "bsz (st w) \<le> length ?s"
    using g length_blk [OF g(1,3), of b] geometry_bounds [OF g(3)] by simp_all
  let ?w = "w\<lparr>scratch := patched ps ?s\<rparr>"
  have "mounted ?w" using g length_patched [OF assms(3) len(3)] len(1) by (simp add: mounted_def)
  from write_block_ok [OF this, of b] assms(2) obtain w' where w': "write_block_from_scratch b ?w = (True, w')" "mounted w'"
    "st w' = st w" "\<And>b'. in_vol (st w) b' \<Longrightarrow> blk w' b' = (if b' = b then take (bsz (st w)) (patched ps ?s) else blk ?w b')"
    by auto
  have "take (bsz (st w)) ?s = blk w b" using len by (simp add: blit_def)
  then have "take (bsz (st w)) (patched ps ?s) = patched ps (blk w b)" using take_patched [OF assms(3) len(3)] by simp
  moreover have "blk ?w b' = blk w b'" for b' by (rule blk_eqI) simp_all
  ultimately have blocks: "\<forall>b'. in_vol (st w) b' \<longrightarrow> blk w' b' = (if b' = b then patched ps (blk w b) else blk w b')"
    using w'(4) by simp
  have "patch_block b ps w = Some (True, w')"
    using read_block_ok [OF assms(1), of b] put_all_ok [OF assms(3) len(3)] w'(1) by (simp add: patch_block_def)
  then show ?thesis using w'(2,3) blocks by blast
qed

section \<open>The layout of the metadata\<close>

text \<open>The state without the counters and the open files: what no operation after mounting changes.\<close>

definition core :: "Ext2State \<Rightarrow> Ext2State" where
  "core e = e\<lparr>sb_free_blocks := 0, sb_free_inodes := 0, e_fds := [],
    bgdt := map (\<lambda>d. d\<lparr>free_blocks_count := 0, free_inodes_count := 0, used_dirs_count := 0\<rparr>) (bgdt e)\<rparr>"

lemma core_fields:
  assumes "core e' = core e"
  shows "lba_offset e' = lba_offset e" "block_size e' = block_size e" "sects_per_block e' = sects_per_block e"
    "inodes_per_group e' = inodes_per_group e" "blocks_per_group e' = blocks_per_group e" "inode_size e' = inode_size e"
    "first_data_block e' = first_data_block e" "groups_count e' = groups_count e" "bgdt_block e' = bgdt_block e"
    "e_ready e' = e_ready e" "length (bgdt e') = length (bgdt e)"
    "spb e' = spb e" "bsz e' = bsz e" "block_lba e' = block_lba e" "in_vol e' = in_vol e"
    "g < length (bgdt e) \<Longrightarrow> block_bitmap (bgdt e' ! g) = block_bitmap (bgdt e ! g)"
    "g < length (bgdt e) \<Longrightarrow> inode_bitmap (bgdt e' ! g) = inode_bitmap (bgdt e ! g)"
    "g < length (bgdt e) \<Longrightarrow> inode_table (bgdt e' ! g) = inode_table (bgdt e ! g)"
proof -
  note a = arg_cong [OF assms]
  show f: "lba_offset e' = lba_offset e" "block_size e' = block_size e" "sects_per_block e' = sects_per_block e"
    "inodes_per_group e' = inodes_per_group e" "blocks_per_group e' = blocks_per_group e" "inode_size e' = inode_size e"
    "first_data_block e' = first_data_block e" "groups_count e' = groups_count e" "bgdt_block e' = bgdt_block e"
    "e_ready e' = e_ready e"
    using a [of lba_offset] a [of block_size] a [of sects_per_block] a [of inodes_per_group] a [of blocks_per_group]
      a [of inode_size] a [of first_data_block] a [of groups_count] a [of bgdt_block] a [of e_ready]
    by (simp_all add: core_def)
  show len: "length (bgdt e') = length (bgdt e)" using a [of "\<lambda>x. length (bgdt x)"] by (simp add: core_def)
  show "spb e' = spb e" "bsz e' = bsz e" "block_lba e' = block_lba e" "in_vol e' = in_vol e"
    using f by (simp_all add: spb_def bsz_def block_lba_def in_vol_def fun_eq_iff)
  show "block_bitmap (bgdt e' ! g) = block_bitmap (bgdt e ! g)" "inode_bitmap (bgdt e' ! g) = inode_bitmap (bgdt e ! g)"
    "inode_table (bgdt e' ! g) = inode_table (bgdt e ! g)" if "g < length (bgdt e)"
    using a [of "\<lambda>x. block_bitmap (bgdt x ! g)"] a [of "\<lambda>x. inode_bitmap (bgdt x ! g)"] a [of "\<lambda>x. inode_table (bgdt x ! g)"] that len
    by (simp_all add: core_def)
qed

lemma blk_core: "core (st w') = core (st w) \<Longrightarrow> drives w' = drives w \<Longrightarrow> blk w' b = blk w b"
  using core_fields(12,14) [of "st w'" "st w"] by (simp add: blk_def)

lemma geometry_core: "core e' = core e \<Longrightarrow> geometry e' = geometry e"
  using core_fields(12,13) [of e' e] by (simp add: geometry_def)

lemma core_take_block [simp]: "core (take_block g e) = core e"
  by (cases "g < length (bgdt e)") (simp_all add: core_def take_block_def map_update list_update_same_conv list_update_beyond not_less)

lemma core_give_block [simp]: "core (give_block g e) = core e"
  by (cases "g < length (bgdt e)") (simp_all add: core_def give_block_def map_update list_update_same_conv list_update_beyond not_less)

text \<open>The block with the superblock's sector, and the allocator's own blocks.\<close>

definition sb_blk :: "Ext2State \<Rightarrow> u32" where
  "sb_blk e = of_nat (2 div spb e)"

definition ngroups :: "Ext2State \<Rightarrow> nat" where
  "ngroups e = unat (groups_count e)"

definition bpg :: "Ext2State \<Rightarrow> nat" where
  "bpg e = unat (blocks_per_group e)"

definition bitmap :: "Ext2State \<Rightarrow> nat \<Rightarrow> u32" where
  "bitmap e g = block_bitmap (bgdt e ! g)"

definition meta :: "Ext2State \<Rightarrow> u32 set" where
  "meta e = {bgdt_block e, sb_blk e} \<union> bitmap e ` {..<ngroups e}"

definition layout :: "Ext2State \<Rightarrow> bool" where
  "layout e \<longleftrightarrow> geometry e \<and> ngroups e \<le> MAX_GROUPS \<and> length (bgdt e) = MAX_GROUPS \<and> 0 < bpg e \<and> bpg e \<le> 8 * bsz e
    \<and> unat (lba_offset e) + (unat (first_data_block e) + ngroups e * bpg e) * spb e \<le> 2 ^ 32
    \<and> (\<forall>b \<in> meta e. in_vol e b) \<and> inj_on (bitmap e) {..<ngroups e}
    \<and> (\<forall>g < ngroups e. bitmap e g \<noteq> bgdt_block e \<and> bitmap e g \<noteq> sb_blk e)"

definition data_block :: "Ext2State \<Rightarrow> nat \<Rightarrow> nat \<Rightarrow> u32" where
  "data_block e g k = group_bit_to_block e g (of_nat k)"

definition bit_on :: "bytes \<Rightarrow> nat \<Rightarrow> bool" where
  "bit_on s k \<longleftrightarrow> s ! (k div 8) AND push_bit (k mod 8) 1 \<noteq> 0"

definition used :: "Ext2 \<Rightarrow> nat \<Rightarrow> nat \<Rightarrow> bool" where
  "used w g k \<longleftrightarrow> bit_on (blk w (bitmap (st w) g)) k"

text \<open>The allocator's own blocks are marked as used, and so is block 0.\<close>

definition reserved :: "Ext2 \<Rightarrow> bool" where
  "reserved w \<longleftrightarrow> (\<forall>g < ngroups (st w). \<forall>k < bpg (st w). data_block (st w) g k \<in> insert 0 (meta (st w)) \<longrightarrow> used w g k)"

definition alloc_inv :: "Ext2 \<Rightarrow> bool" where
  "alloc_inv w \<longleftrightarrow> mounted w \<and> layout (st w) \<and> reserved w"

lemma layout_core:
  assumes "core e' = core e" "layout e"
  shows "layout e'" "meta e' = meta e" "ngroups e' = ngroups e" "bpg e' = bpg e" "data_block e' = data_block e"
    "g < ngroups e \<Longrightarrow> bitmap e' g = bitmap e g" "sb_blk e' = sb_blk e"
proof -
  note c = core_fields [OF assms(1)]
  have len: "g < length (bgdt e)" if "g < ngroups e" for g using assms(2) that by (simp add: layout_def)
  show n: "ngroups e' = ngroups e" and b: "bpg e' = bpg e" and sb: "sb_blk e' = sb_blk e"
    using c by (simp_all add: ngroups_def bpg_def sb_blk_def)
  show bm: "bitmap e' g = bitmap e g" if "g < ngroups e" for g using c(16) [OF len [OF that]] by (simp add: bitmap_def)
  show m: "meta e' = meta e" using n bm c sb by (simp add: meta_def)
  show "data_block e' = data_block e" using c by (simp add: data_block_def group_bit_to_block_def fun_eq_iff)
  have "inj_on (bitmap e') {..<ngroups e} = inj_on (bitmap e) {..<ngroups e}" using bm by (intro inj_on_cong) simp
  then show "layout e'"
    using assms(2) geometry_core [OF assms(1)] c n b m sb bm unfolding layout_def by simp
qed

lemma data_block_nat:
  assumes "layout e" "g < ngroups e" "k < bpg e"
  shows "unat (data_block e g k) = unat (first_data_block e) + g * bpg e + k" "in_vol e (data_block e g k)"
proof -
  let ?n = "unat (first_data_block e) + g * bpg e + k"
  have "Suc g * bpg e \<le> ngroups e * bpg e" using assms(2) by (intro mult_le_mono1) simp
  then have lt: "Suc ?n \<le> unat (first_data_block e) + ngroups e * bpg e" using assms(3) by simp
  have sp: "0 < spb e" using assms(1) geometry_bounds(2) by (simp add: layout_def)
  have "Suc ?n * spb e \<le> (unat (first_data_block e) + ngroups e * bpg e) * spb e" using lt by (rule mult_le_mono1)
  then have vol: "unat (lba_offset e) + Suc ?n * spb e \<le> 2 ^ 32" using assms(1) by (simp add: layout_def)
  have "Suc ?n \<le> Suc ?n * spb e" using sp by (cases "spb e") simp_all
  then have small: "?n < 2 ^ 32" using vol by linarith
  have "data_block e g k = of_nat ?n"
    by (simp add: data_block_def group_bit_to_block_def bpg_def of_nat_unat ucast_id)
  then show nat: "unat (data_block e g k) = ?n" using small by (simp add: unat_of_nat_small del: of_nat_add of_nat_mult)
  show "in_vol e (data_block e g k)" using vol nat by (simp add: in_vol_def)
qed

lemma data_block_inj:
  assumes "layout e" "g < ngroups e" "k < bpg e" "g' < ngroups e" "k' < bpg e"
  shows "data_block e g k = data_block e g' k' \<longleftrightarrow> g = g' \<and> k = k'"
proof
  assume "data_block e g k = data_block e g' k'"
  then have eq: "g * bpg e + k = g' * bpg e + k'"
    using data_block_nat(1) [OF assms(1,2,3)] data_block_nat(1) [OF assms(1,4,5)] by simp
  have "g = g'" using arg_cong [OF eq, of "\<lambda>n. n div bpg e"] assms(3,5) by simp
  then show "g = g' \<and> k = k'" using eq by simp
qed simp

section \<open>Bits\<close>

lemma bit_on_iff: "bit_on s k \<longleftrightarrow> bit (s ! (k div 8)) (k mod 8)"
  by (simp add: bit_on_def bit_iff_and_push_bit_not_eq_0)

lemma bit_on_set: "k div 8 < length s \<Longrightarrow> bit_on (set_bit_at k s) j \<longleftrightarrow> j = k \<or> bit_on s j"
proof -
  assume k: "k div 8 < length s"
  have "j = k \<longleftrightarrow> j div 8 = k div 8 \<and> j mod 8 = k mod 8" by (metis mod_div_mult_eq)
  moreover have "bit (push_bit (k mod 8) (1 :: u8)) (j mod 8) \<longleftrightarrow> j mod 8 = k mod 8"
    by (auto simp: bit_exp_iff)
  ultimately show ?thesis using k
    by (auto simp: bit_on_iff set_bit_at_def nth_list_update_if bit_or_iff)
qed

lemma bit_on_clear: "k div 8 < length s \<Longrightarrow> bit_on (clear_bit_at k s) j \<longleftrightarrow> j \<noteq> k \<and> bit_on s j"
proof -
  assume k: "k div 8 < length s"
  have "j = k \<longleftrightarrow> j div 8 = k div 8 \<and> j mod 8 = k mod 8" by (metis mod_div_mult_eq)
  moreover have "bit (NOT (push_bit (k mod 8) (1 :: u8))) (j mod 8) \<longleftrightarrow> j mod 8 \<noteq> k mod 8"
    by (auto simp: bit_not_iff bit_exp_iff)
  ultimately show ?thesis using k
    by (auto simp: bit_on_iff clear_bit_at_def nth_list_update_if bit_and_iff)
qed

lemma bit_on_take: "k div 8 < n \<Longrightarrow> bit_on (take n s) k = bit_on s k"
  by (simp add: bit_on_def)

lemma take_set_bit: "take n (set_bit_at k s) = set_bit_at k (take n s)" if "k div 8 < n"
  using that by (simp add: set_bit_at_def take_update_swap)

lemma take_clear_bit: "take n (clear_bit_at k s) = clear_bit_at k (take n s)" if "k div 8 < n"
  using that by (simp add: clear_bit_at_def take_update_swap)

lemma length_bits [simp]: "length (set_bit_at k s) = length s" "length (clear_bit_at k s) = length s"
  by (simp_all add: set_bit_at_def clear_bit_at_def)

lemma find_clear_take: "find_clear n m (take m s) = find_clear n m s"
  unfolding find_clear_def
proof (rule find_cong)
  fix x assume "x \<in> set [0..<min n (8 * m)]"
  then have "x div 8 < m" by (simp add: less_mult_imp_div_less mult.commute)
  then show "(take m s ! (x div 8) AND push_bit (x mod 8) 1 = 0) = (s ! (x div 8) AND push_bit (x mod 8) 1 = 0)" by simp
qed

lemma find_clear_cases:
  assumes "n \<le> 8 * m"
  shows "find_clear n m s = Some k \<Longrightarrow> k < n \<and> \<not> bit_on s k" "find_clear n m s = None \<Longrightarrow> j < n \<Longrightarrow> bit_on s j"
  using assms by (auto simp: find_clear_def find_Some_iff find_None_iff bit_on_def min_def split: if_splits)

section \<open>The superblock\<close>

lemma superblock_ok:
  assumes "mounted w" "in_vol (st w) (sb_blk (st w))"
  shows "\<exists>w'. write_superblock_free_counts w = (True, w') \<and> mounted w' \<and> st w' = st w \<and> scratch w' = scratch w
    \<and> (\<forall>b'. in_vol (st w) b' \<longrightarrow> b' \<noteq> sb_blk (st w) \<longrightarrow> blk w' b' = blk w b')"
proof -
  let ?e = "st w" and ?a = "lba_offset (st w) + 2"
  have g: "sound 3 (drives w)" "geometry ?e" using assms(1) by (simp_all add: mounted_def)
  let ?sb = "blit 16 (le32 (sb_free_inodes ?e)) (blit 12 (le32 (sb_free_blocks ?e)) (content 3 (drives w) ?a))"
  have "length ?sb = 512" using sound_len [OF g(1)] by simp
  from sound_write [OF g(1) this, of ?a] obtain ds where
    ds: "write_sector 3 ?a ?sb (drives w) = (True, ds)" "sound 3 ds" "content 3 ds = (content 3 (drives w))(?a := ?sb)" by blast
  have s: "2 mod spb ?e < spb ?e" using geometry_bounds(2) [OF g(2)] by simp
  have a: "?a = block_lba ?e (sb_blk ?e) + of_nat (2 mod spb ?e)"
  proof -
    have "(of_nat (2 div spb ?e) * of_nat (spb ?e) + of_nat (2 mod spb ?e) :: u32) = of_nat (2 div spb ?e * spb ?e + 2 mod spb ?e)"
      by (simp only: of_nat_add of_nat_mult)
    moreover have "of_nat (spb ?e) = sects_per_block ?e" by (simp add: spb_def of_nat_unat ucast_id)
    ultimately show ?thesis by (simp add: block_lba_def sb_blk_def)
  qed
  let ?w = "w\<lparr>drives := ds\<rparr>"
  have "blk ?w b' = blk w b'" if "in_vol ?e b'" "b' \<noteq> sb_blk ?e" for b'
  proof (rule blk_eqI)
    fix x assume "x < spb ?e"
    then show "content 3 (drives ?w) (block_lba ?e b' + of_nat x) = content 3 (drives w) (block_lba ?e b' + of_nat x)"
      using sector_inj [OF that(1) assms(2) _ s] that(2) a ds(3) by simp
  qed simp
  moreover have "write_superblock_free_counts w = (True, ?w)"
    using ds(1) sound_read [OF g(1)] by (simp add: write_superblock_free_counts_def read_sector_sec_def write_sector_sec_def)
  moreover have "mounted ?w" using assms(1) ds(2) by (simp add: mounted_def)
  ultimately show ?thesis by (intro exI [of _ ?w]) simp
qed

section \<open>Allocating and freeing a block\<close>

lemma mounted_st: "mounted w \<Longrightarrow> core e = core (st w) \<Longrightarrow> mounted (w\<lparr>st := e\<rparr>)"
  using geometry_core [of e "st w"] by (simp add: mounted_def)

lemma mounted_scratch: "mounted w \<Longrightarrow> length s = MAX_BLOCK \<Longrightarrow> mounted (w\<lparr>scratch := s\<rparr>)"
  by (simp add: mounted_def)

lemma blk_scratch [simp]: "blk (w\<lparr>scratch := s\<rparr>) b = blk w b"
  by (rule blk_eqI) simp_all

lemma blk_st: "core e = core (st w) \<Longrightarrow> blk (w\<lparr>st := e\<rparr>) b = blk w b"
  by (rule blk_core) simp_all

lemma bgdt_entry_ok:
  assumes "mounted w" "layout (st w)" "g < ngroups (st w)"
  shows "\<exists>w'. write_bgdt_entry g w = Some (True, w') \<and> mounted w' \<and> st w' = st w
    \<and> (\<forall>b'. in_vol (st w) b' \<longrightarrow> b' \<noteq> bgdt_block (st w) \<longrightarrow> blk w' b' = blk w b')"
proof -
  let ?d = "bgdt (st w) ! g"
  let ?ps = "[(g * 32 + 12, le16 (free_blocks_count ?d)), (g * 32 + 14, le16 (free_inodes_count ?d)), (g * 32 + 16, le16 (used_dirs_count ?d))]"
  have "g < 8" "geometry (st w)" using assms(2,3) by (simp_all add: layout_def MAX_GROUPS_def)
  then have "fits (bsz (st w)) ?ps" using geometry_bounds(3) [of "st w"] by (auto simp: fits_def geometry_def)
  moreover have "in_vol (st w) (bgdt_block (st w))" using assms(2) by (simp add: layout_def meta_def)
  ultimately show ?thesis using patch_block_ok [OF assms(1)] unfolding write_bgdt_entry_def Let_def by (metis (no_types, lifting))
qed

text \<open>Writing back a bitmap and the counters: only the bitmap, descriptor and superblock blocks change.\<close>

lemma write_back_ok:
  assumes m: "mounted w" and l: "layout (st w)" and g: "g < ngroups (st w)"
    and bb: "in_vol (st w) bb" "bb \<noteq> bgdt_block (st w)" "bb \<noteq> sb_blk (st w)"
    and f: "\<And>e. core (f e) = core e"
  shows "\<exists>w2 w3 w4. write_block_from_scratch bb w = (True, w2) \<and> write_bgdt_entry g (w2\<lparr>st := f (st w2)\<rparr>) = Some (True, w3)
    \<and> write_superblock_free_counts w3 = (True, w4) \<and> mounted w4 \<and> st w4 = f (st w)
    \<and> blk w4 bb = take (bsz (st w)) (scratch w)
    \<and> (\<forall>b'. in_vol (st w) b' \<longrightarrow> b' \<notin> {bb, bgdt_block (st w), sb_blk (st w)} \<longrightarrow> blk w4 b' = blk w b')"
proof -
  obtain w2 where w2: "write_block_from_scratch bb w = (True, w2)" "mounted w2" "st w2 = st w"
      "\<And>b'. in_vol (st w) b' \<Longrightarrow> blk w2 b' = (if b' = bb then take (bsz (st w)) (scratch w) else blk w b')"
    using write_block_ok [OF m bb(1)] by blast
  let ?e = "f (st w)" and ?w2 = "w2\<lparr>st := f (st w2)\<rparr>"
  have c: "core ?e = core (st w)" by (rule f)
  have m2: "mounted ?w2" using mounted_st [OF w2(2), of "f (st w2)"] f by simp
  have e2: "st ?w2 = ?e" using w2(3) by simp
  note lc = layout_core [OF c l] and cf = core_fields [OF c]
  have b2: "blk ?w2 b' = blk w2 b'" for b' using blk_st [of "f (st w2)" w2] f by simp
  obtain w3 where w3: "write_bgdt_entry g ?w2 = Some (True, w3)" "mounted w3" "st w3 = ?e"
      "\<And>b'. in_vol (st w) b' \<Longrightarrow> b' \<noteq> bgdt_block (st w) \<Longrightarrow> blk w3 b' = blk ?w2 b'"
    using bgdt_entry_ok [OF m2, of g] lc g cf e2 by auto
  have "in_vol (st w3) (sb_blk (st w3))" using l w3(3) lc cf by (simp add: layout_def meta_def)
  from superblock_ok [OF w3(2) this] obtain w4 where w4: "write_superblock_free_counts w3 = (True, w4)" "mounted w4" "st w4 = ?e"
      "\<And>b'. in_vol (st w) b' \<Longrightarrow> b' \<noteq> sb_blk (st w) \<Longrightarrow> blk w4 b' = blk w3 b'"
    using w3(3) lc cf by auto
  have "blk w4 bb = take (bsz (st w)) (scratch w)" using w4(4) w3(4) b2 w2(4) bb by simp
  moreover have "blk w4 b' = blk w b'" if "in_vol (st w) b'" "b' \<notin> {bb, bgdt_block (st w), sb_blk (st w)}" for b'
    using w4(4) w3(4) b2 w2(4) that by simp
  ultimately show ?thesis using w2(1) w3(1) w4(1-3) by blast
qed

definition allocated :: "Ext2 \<Rightarrow> nat \<Rightarrow> nat \<Rightarrow> Ext2 \<Rightarrow> bool" where
  "allocated w g k w' \<longleftrightarrow> (let e = st w; b = data_block e g k in
    mounted w' \<and> core (st w') = core e \<and> e_fds (st w') = e_fds e
    \<and> (\<forall>g' < ngroups e. \<forall>k' < bpg e. used w' g' k' \<longleftrightarrow> used w g' k' \<or> (g' = g \<and> k' = k))
    \<and> blk w' b = replicate (bsz e) 0
    \<and> (\<forall>b'. in_vol e b' \<longrightarrow> b' \<notin> insert b (meta e) \<longrightarrow> blk w' b' = blk w b'))"

lemma alloc_one_ok:
  assumes inv: "alloc_inv w" and g: "g < ngroups (st w)" and k: "k < bpg (st w)" "\<not> used w g k"
    and s: "scratch w = blit 0 (blk w (bitmap (st w) g)) sc" "length sc = MAX_BLOCK"
  shows "\<exists>w2 w3 w4 w5. write_block_from_scratch (bitmap (st w) g) (w\<lparr>scratch := set_bit_at k (scratch w)\<rparr>) = (True, w2)
    \<and> write_bgdt_entry g (w2\<lparr>st := take_block g (st w2)\<rparr>) = Some (True, w3)
    \<and> write_superblock_free_counts w3 = (True, w4) \<and> group_bit_to_block (st w4) g (of_nat k) = data_block (st w) g k
    \<and> write_block_from_scratch (data_block (st w) g k) (w4\<lparr>scratch := replicate MAX_BLOCK 0\<rparr>) = (True, w5)
    \<and> allocated w g k w5"
proof -
  let ?e = "st w" and ?b = "data_block (st w) g k" and ?bm = "bitmap (st w) g"
  have m: "mounted w" and l: "layout ?e" and r: "reserved w" using inv by (simp_all add: alloc_inv_def)
  have geo: "geometry ?e" "sound 3 (drives w)" using m by (simp_all add: mounted_def)
  note gb = geometry_bounds [OF geo(1)]
  have k8: "k div 8 < bsz ?e" using k(1) l by (simp add: layout_def less_mult_imp_div_less mult.commute)
  have lenb: "length (blk w b') = bsz ?e" for b' using length_blk [OF geo(2,1)] .
  let ?w1 = "w\<lparr>scratch := set_bit_at k (scratch w)\<rparr>"
  have m1: "mounted ?w1" using m by (simp add: mounted_def)
  have bm: "in_vol ?e ?bm" "?bm \<noteq> bgdt_block ?e" "?bm \<noteq> sb_blk ?e" using l g by (auto simp: layout_def meta_def)
  have nb: "take (bsz ?e) (set_bit_at k (scratch w)) = set_bit_at k (blk w ?bm)"
    using take_set_bit [OF k8, of "scratch w"] s lenb gb by (simp add: blit_def)
  obtain w2 w3 w4 where w: "write_block_from_scratch ?bm ?w1 = (True, w2)" "write_bgdt_entry g (w2\<lparr>st := take_block g (st w2)\<rparr>) = Some (True, w3)"
      "write_superblock_free_counts w3 = (True, w4)" and w4: "mounted w4" "st w4 = take_block g ?e" "blk w4 ?bm = set_bit_at k (blk w ?bm)"
      "\<And>b'. in_vol ?e b' \<Longrightarrow> b' \<notin> {?bm, bgdt_block ?e, sb_blk ?e} \<Longrightarrow> blk w4 b' = blk w b'"
    using write_back_ok [OF m1, of g ?bm "take_block g"] l g bm nb by auto
  have c: "core (st w4) = core ?e" using w4(2) by simp
  note lc = layout_core [OF c l] and cf = core_fields [OF c]
  have b: "in_vol ?e ?b" "?b \<notin> meta ?e" using data_block_nat(2) [OF l g k(1)] r g k by (auto simp: reserved_def)
  let ?w4 = "w4\<lparr>scratch := replicate MAX_BLOCK 0\<rparr>"
  have "mounted ?w4" using w4(1) by (simp add: mounted_def)
  from write_block_ok [OF this, of ?b] b(1) cf obtain w5 where w5: "write_block_from_scratch ?b ?w4 = (True, w5)"
      "mounted w5" "st w5 = st w4" "\<And>b'. in_vol ?e b' \<Longrightarrow> blk w5 b' = (if b' = ?b then take (bsz ?e) (replicate MAX_BLOCK 0) else blk w4 b')"
    by auto
  have "used w5 g' k' \<longleftrightarrow> used w g' k' \<or> (g' = g \<and> k' = k)" if "g' < ngroups ?e" "k' < bpg ?e" for g' k'
  proof -
    have "bitmap ?e g' \<in> meta ?e" using that(1) by (simp add: meta_def)
    then have bm': "bitmap (st w5) g' = bitmap ?e g'" "in_vol ?e (bitmap ?e g')" "bitmap ?e g' \<noteq> ?b"
      using lc(6) [OF that(1)] w5(3) l b(2) by (auto simp: layout_def)
    have same: "bitmap ?e g' = ?bm \<longleftrightarrow> g' = g" using l that(1) g by (auto simp: layout_def inj_on_def)
    have "blk w5 (bitmap ?e g') = (if g' = g then set_bit_at k (blk w ?bm) else blk w (bitmap ?e g'))"
      using w5(4) [OF bm'(2)] bm'(3) w4(3) w4(4) [OF bm'(2)] same l that(1) by (auto simp: layout_def)
    then show ?thesis using bm'(1) bit_on_set [of k "blk w ?bm" k'] k8 lenb by (auto simp: used_def)
  qed
  moreover have "blk w5 b' = blk w b'" if "in_vol ?e b'" "b' \<notin> insert ?b (meta ?e)" for b'
    using w5(4) [OF that(1)] w4(4) [OF that(1)] that(2) g by (auto simp: meta_def)
  moreover have "blk w5 ?b = replicate (bsz ?e) 0" using w5(4) [OF b(1)] gb by (simp add: min_def)
  moreover have "e_fds (st w5) = e_fds ?e" using w5(3) w4(2) by (simp add: take_block_def)
  ultimately have "allocated w g k w5" using w5(2,3) c by (simp add: allocated_def Let_def)
  moreover have "group_bit_to_block (st w4) g (of_nat k) = ?b" using lc(5) by (simp add: data_block_def fun_eq_iff)
  ultimately show ?thesis using w w5(1) by blast
qed

lemma alloc_inv_allocated:
  assumes "alloc_inv w" "allocated w g k w'"
  shows "alloc_inv w'"
proof -
  have l: "layout (st w)" and c: "core (st w') = core (st w)" using assms by (simp_all add: alloc_inv_def allocated_def Let_def)
  note lc = layout_core [OF c l]
  have "reserved w'" using assms lc unfolding reserved_def alloc_inv_def allocated_def Let_def by auto
  then show ?thesis using assms(2) lc(1) by (simp add: alloc_inv_def allocated_def Let_def)
qed

definition alloc_result :: "Ext2 \<Rightarrow> nat list \<Rightarrow> u32 \<Rightarrow> Ext2 \<Rightarrow> bool" where
  "alloc_result w gs b w' \<longleftrightarrow>
    (if b = 0 then st w' = st w \<and> drives w' = drives w \<and> length (scratch w') = length (scratch w) \<and>
       (\<forall>g \<in> set gs. g < ngroups (st w) \<longrightarrow> free_blocks_count (bgdt (st w) ! g) \<noteq> 0 \<longrightarrow> (\<forall>k < bpg (st w). used w g k))
     else \<exists>g k. g < ngroups (st w) \<and> k < bpg (st w) \<and> \<not> used w g k \<and> b = data_block (st w) g k \<and> allocated w g k w')"

lemma alloc_result_skip:
  assumes "alloc_result w gs b w'" "g < ngroups (st w) \<Longrightarrow> free_blocks_count (bgdt (st w) ! g) \<noteq> 0 \<Longrightarrow> \<forall>k < bpg (st w). used w g k"
  shows "alloc_result w (g # gs) b w'"
  using assms by (simp add: alloc_result_def split: if_splits)

lemma used_scratch [simp]: "used (w\<lparr>scratch := s\<rparr>) g k = used w g k"
  by (simp add: used_def)

lemma alloc_result_scratch:
  assumes "length s = length (scratch w)"
  shows "alloc_result (w\<lparr>scratch := s\<rparr>) gs b w' = alloc_result w gs b w'"
  using assms by (simp add: alloc_result_def allocated_def)

lemma alloc_in_ok:
  "alloc_inv w \<Longrightarrow> \<exists>b w'. alloc_block_in gs w = Some (b, w') \<and> alloc_result w gs b w'"
proof (induction gs arbitrary: w)
  case Nil
  then show ?case by (simp add: alloc_result_def)
next
  case (Cons g gs)
  let ?e = "st w"
  show ?case
  proof (cases "g < ngroups ?e \<and> free_blocks_count (bgdt ?e ! g) \<noteq> 0")
    case False
    then have "alloc_block_in (g # gs) w = alloc_block_in gs w" by (auto simp: ngroups_def)
    then show ?thesis using Cons.IH [OF Cons.prems] alloc_result_skip False by metis
  next
    case True
    have m: "mounted w" and l: "layout ?e" using Cons.prems by (simp_all add: alloc_inv_def)
    let ?sc = "scratch w" and ?bm = "bitmap ?e g"
    let ?w1 = "w\<lparr>scratch := blit 0 (blk w ?bm) ?sc\<rparr>"
    have rd: "read_block_into_scratch (block_bitmap (bgdt ?e ! g)) w = (True, ?w1)"
      using read_block_ok [OF m, of ?bm] by (simp add: bitmap_def)
    have geo: "geometry ?e" "sound 3 (drives w)" "length ?sc = MAX_BLOCK" using m by (simp_all add: mounted_def)
    have len: "length (blk w ?bm) = bsz ?e" "length (scratch ?w1) = MAX_BLOCK" "bsz ?e \<le> MAX_BLOCK"
      using length_blk [OF geo(2,1)] geo geometry_bounds [OF geo(1)] by simp_all
    have m1: "mounted ?w1" using m len by (simp add: mounted_def)
    have inv1: "alloc_inv ?w1" using Cons.prems m1 by (simp add: alloc_inv_def reserved_def)
    have pre: "take (bsz ?e) (scratch ?w1) = blk w ?bm" using len by (simp add: blit_def)
    have n8: "bpg ?e \<le> 8 * bsz ?e" using l by (simp add: layout_def)
    have bits: "bit_on (scratch ?w1) k \<longleftrightarrow> used w g k" if "k < bpg ?e" for k
    proof -
      have "k div 8 < bsz ?e" using that n8 by (simp add: less_mult_imp_div_less mult.commute)
      then show ?thesis using bit_on_take [of k "bsz ?e" "scratch ?w1"] pre by (simp add: used_def)
    qed
    show ?thesis
    proof (cases "find_clear (bpg ?e) (bsz ?e) (scratch ?w1)")
      case None
      then have all: "\<forall>k < bpg ?e. used w g k" using find_clear_cases(2) [OF n8 None] bits by blast
      have "alloc_block_in (g # gs) w = alloc_block_in gs ?w1"
        using True rd None by (simp add: ngroups_def bpg_def bsz_def)
      moreover obtain b w' where "alloc_block_in gs ?w1 = Some (b, w')" "alloc_result ?w1 gs b w'" using Cons.IH [OF inv1] by blast
      moreover have "length (scratch ?w1) = length ?sc" using len geo(3) by simp
      ultimately show ?thesis using alloc_result_skip [of w gs b w' g] all alloc_result_scratch [of "scratch ?w1" w] by auto
    next
      case (Some k)
      then have k: "k < bpg ?e" "\<not> used w g k" using find_clear_cases(1) [OF n8 Some] bits by blast+
      obtain w2 w3 w4 w5 where c: "write_block_from_scratch ?bm (?w1\<lparr>scratch := set_bit_at k (scratch ?w1)\<rparr>) = (True, w2)"
          "write_bgdt_entry g (w2\<lparr>st := take_block g (st w2)\<rparr>) = Some (True, w3)" "write_superblock_free_counts w3 = (True, w4)"
          "group_bit_to_block (st w4) g (of_nat k) = data_block ?e g k"
          "write_block_from_scratch (data_block ?e g k) (w4\<lparr>scratch := replicate MAX_BLOCK 0\<rparr>) = (True, w5)" "allocated ?w1 g k w5"
        using alloc_one_ok [OF inv1, of g k ?sc] True k geo(3) by auto
      have "alloc_block_in (g # gs) w = Some (data_block ?e g k, w5)"
        using True rd Some c(1-5) by (simp add: ngroups_def bpg_def bsz_def bitmap_def)
      moreover have "data_block ?e g k \<noteq> 0" using Cons.prems k True by (auto simp: alloc_inv_def reserved_def)
      moreover have "allocated w g k w5" using c(6) by (simp add: allocated_def)
      ultimately show ?thesis using True k by (intro exI [of _ "data_block ?e g k"] exI [of _ w5]) (auto simp: alloc_result_def)
    qed
  qed
qed

text \<open>C23. On a disk without faults whose metadata blocks are marked as used, allocating a
  block never panics. It returns either a block whose bitmap bit was clear: then exactly
  this bit is set, the block is zeroed, and every other block outside the allocator's own
  (bitmaps, descriptors, superblock) is unchanged; or 0 without changing the disk, and only
  if every group that counts a free block has no clear bit.\<close>
theorem ext2_alloc_block_correct:
  assumes "alloc_inv w"
  shows "\<exists>b w'. ext2_alloc_block pref_group w = Some (b, w') \<and> alloc_inv w' \<and>
    (if b = 0 then drives w' = drives w \<and>
       (\<forall>g < ngroups (st w). free_blocks_count (bgdt (st w) ! g) \<noteq> 0 \<longrightarrow> (\<forall>k < bpg (st w). used w g k))
     else \<exists>g k. g < ngroups (st w) \<and> k < bpg (st w) \<and> \<not> used w g k \<and> b = data_block (st w) g k
       \<and> (\<forall>g' < ngroups (st w). \<forall>k' < bpg (st w). used w' g' k' \<longleftrightarrow> used w g' k' \<or> (g' = g \<and> k' = k))
       \<and> blk w' b = replicate (bsz (st w)) 0
       \<and> (\<forall>b'. in_vol (st w) b' \<longrightarrow> b' \<notin> insert b (meta (st w)) \<longrightarrow> blk w' b' = blk w b'))"
proof -
  obtain b w' where a: "alloc_block_in (pref_group # [0..<unat (groups_count (st w))]) w = Some (b, w')"
    and r: "alloc_result w (pref_group # [0..<unat (groups_count (st w))]) b w'"
    using alloc_in_ok [OF assms] by blast
  show ?thesis
  proof (cases "b = 0")
    case True
    with r have z: "st w' = st w" "drives w' = drives w" "length (scratch w') = length (scratch w)"
      "\<forall>g < ngroups (st w). free_blocks_count (bgdt (st w) ! g) \<noteq> 0 \<longrightarrow> (\<forall>k < bpg (st w). used w g k)"
      by (auto simp: ngroups_def alloc_result_def)
    have "blk w' = blk w" using blk_core [of w' w] z(1,2) by (simp add: fun_eq_iff)
    then have "alloc_inv w'" using assms z(1-3) by (simp add: alloc_inv_def mounted_def reserved_def used_def)
    then show ?thesis using a z True by (auto simp: ext2_alloc_block_def)
  next
    case False
    with r obtain g k where "g < ngroups (st w)" "k < bpg (st w)" "\<not> used w g k" "b = data_block (st w) g k" "allocated w g k w'"
      by (auto simp: alloc_result_def)
    then show ?thesis using a False alloc_inv_allocated [OF assms]
      by (intro exI [of _ b] exI [of _ w']) (auto simp: ext2_alloc_block_def allocated_def Let_def)
  qed
qed

section \<open>A small volume\<close>

text \<open>One group of sixteen blocks of 1024 bytes: superblock 1, descriptors 2, bitmaps 3 and 4,
  inode table 5; inode 3 is a file of four bytes in block 6.\<close>

definition demo_sector :: "u32 \<Rightarrow> bytes" where
  "demo_sector a =
    (if a = 6 then [0x3F] @ replicate 511 0
     else if a = 10 then replicate 260 0 @ [4, 0, 0, 0] @ replicate 32 0 @ [6, 0, 0, 0] @ replicate 212 0
     else if a = 12 then replicate 512 7
     else replicate 512 0)"

definition demo_file :: Ext2Fd where
  "demo_file = \<lparr>ef_active = True, inode_no = 3, ef_size = 4, ef_offset = 0, direct_blocks = 6 # replicate 11 0,
    ef_writable = True, ef_append = False\<rparr>"

definition demo_state :: Ext2State where
  "demo_state = ext2_new\<lparr>e_ready := True, inodes_per_group := 8, blocks_per_group := 16, groups_count := 1,
    bgdt := \<lparr>block_bitmap = 3, inode_bitmap = 4, inode_table = 5, free_blocks_count = 10, free_inodes_count = 4,
      used_dirs_count = 1\<rparr> # replicate 7 bgd_zero,
    bgdt_block := 2, sb_free_blocks := 10, sb_free_inodes := 4, e_fds := demo_file # replicate 15 ext2fd_empty\<rparr>"

definition demo_ext2 :: Ext2 where
  "demo_ext2 = \<lparr>st = demo_state, scratch = replicate 4096 0,
    drives = [3 \<mapsto> \<lparr>sect = demo_sector, rd_err = (\<lambda>_. False), wr_err = (\<lambda>_. False),
    wr_lost = (\<lambda>_. False), wr_late = (\<lambda>_. False), lba48 = True\<rparr>]\<rparr>"

lemma demo_fields:
  "st demo_ext2 = demo_state" "spb demo_state = 2" "bsz demo_state = 1024" "ngroups demo_state = 1" "bpg demo_state = 16"
  "lba_offset demo_state = 0" "first_data_block demo_state = 1" "bgdt_block demo_state = 2" "sb_blk demo_state = 1"
  "bitmap demo_state 0 = 3" "length (bgdt demo_state) = 8" "e_ready demo_state" "e_fds demo_state = demo_file # replicate 15 ext2fd_empty"
  "block_lba demo_state b = b * 2"
  by (simp_all add: demo_ext2_def demo_state_def ext2_new_def spb_def bsz_def ngroups_def bpg_def sb_blk_def bitmap_def block_lba_def)

lemma demo_meta: "meta demo_state = {1, 2, 3}"
  by (auto simp: meta_def demo_fields lessThan_Suc)

lemma demo_vol: "in_vol demo_state b \<longleftrightarrow> (unat b + 1) * 2 \<le> 2 ^ 32"
  by (simp add: in_vol_def demo_fields)

lemma demo_geometry: "geometry demo_state" "sound 3 (drives demo_ext2)" "mounted demo_ext2"
  by (auto simp: geometry_def demo_fields sound_def sound_drive_def demo_ext2_def demo_sector_def mounted_def MAX_BLOCK_def)

lemma demo_blk: "blk demo_ext2 b = demo_sector (b * 2) @ demo_sector (b * 2 + 1)"
  by (simp add: blk_def demo_fields content_def demo_ext2_def upt_rec)

lemma demo_used: "k < 8 \<Longrightarrow> used demo_ext2 0 k \<longleftrightarrow> k < 6"
proof -
  assume k: "k < 8"
  have m: "(0x3F :: u8) = mask 6" by (simp add: mask_eq_exp_minus_1)
  have "bit (0x3F :: u8) k \<longleftrightarrow> k < 6" unfolding m bit_mask_iff using k by simp
  then show ?thesis using k by (simp add: used_def demo_fields bit_on_iff demo_blk demo_sector_def)
qed

lemma demo_layout: "layout demo_state"
  by (simp add: layout_def demo_geometry demo_fields demo_meta demo_vol MAX_GROUPS_def lessThan_Suc)

lemma demo_data_block: "k < 16 \<Longrightarrow> unat (data_block demo_state 0 k) = k + 1"
  using data_block_nat(1) [OF demo_layout, of 0 k] by (simp add: demo_fields)

lemma demo_alloc_inv: "alloc_inv demo_ext2"
proof -
  have "used demo_ext2 0 k" if "k < 16" "data_block demo_state 0 k \<in> insert 0 {1, 2, 3}" for k
  proof -
    have "unat (data_block demo_state 0 k) \<le> 3" using that(2) by auto
    then show ?thesis using demo_data_block [OF that(1)] demo_used [of k] by simp
  qed
  then show ?thesis by (simp add: alloc_inv_def demo_geometry demo_layout reserved_def demo_fields demo_meta)
qed

theorem ext2_alloc_block_correct_witness:
  "\<exists>b w'. ext2_alloc_block 0 demo_ext2 = Some (b, w') \<and> b \<noteq> 0 \<and> blk w' b = replicate 1024 0"
proof -
  obtain b w' where w: "ext2_alloc_block 0 demo_ext2 = Some (b, w')"
    "if b = 0 then drives w' = drives demo_ext2 \<and>
       (\<forall>g < ngroups (st demo_ext2). free_blocks_count (bgdt (st demo_ext2) ! g) \<noteq> 0 \<longrightarrow> (\<forall>k < bpg (st demo_ext2). used demo_ext2 g k))
     else \<exists>g k. g < ngroups (st demo_ext2) \<and> k < bpg (st demo_ext2) \<and> \<not> used demo_ext2 g k \<and> b = data_block (st demo_ext2) g k
       \<and> (\<forall>g' < ngroups (st demo_ext2). \<forall>k' < bpg (st demo_ext2). used w' g' k' \<longleftrightarrow> used demo_ext2 g' k' \<or> (g' = g \<and> k' = k))
       \<and> blk w' b = replicate (bsz (st demo_ext2)) 0
       \<and> (\<forall>b'. in_vol (st demo_ext2) b' \<longrightarrow> b' \<notin> insert b (meta (st demo_ext2)) \<longrightarrow> blk w' b' = blk demo_ext2 b')"
    using ext2_alloc_block_correct [OF demo_alloc_inv, of 0] by blast
  have "free_blocks_count (bgdt demo_state ! 0) \<noteq> 0" by (simp add: demo_state_def)
  then have "b \<noteq> 0" using w(2) demo_used [of 6] by (auto simp: demo_fields split: if_splits)
  then show ?thesis using w by (auto simp: demo_fields)
qed

end
