(* ===== verification/Ext2_Files.thy ===== *)
theory Ext2_Files
  imports Ext2_Blocks
begin

text \<open>
  Open files of the ext2 driver: the bytes of a file through its twelve direct
  blocks, reading them, and writing them with blocks allocated on demand.
\<close>

section \<open>Freeing a block\<close>

lemma group_bit_of_data_block:
  assumes "layout e" "g < ngroups e" "k < bpg e"
  shows "block_to_group_bit e (data_block e g k) = Some (g, of_nat k)"
proof -
  have le: "first_data_block e \<le> data_block e g k" using data_block_nat(1) [OF assms] by (simp add: word_le_nat_alt)
  have n: "unat (data_block e g k - first_data_block e) = g * bpg e + k"
    using data_block_nat(1) [OF assms] le by (simp add: unat_sub)
  have "unat ((data_block e g k - first_data_block e) div blocks_per_group e) = g"
    "unat ((data_block e g k - first_data_block e) mod blocks_per_group e) = k"
    using n assms(3) by (simp_all add: unat_div unat_mod bpg_def [symmetric])
  moreover have "blocks_per_group e \<noteq> 0" using assms(1) by (auto simp: layout_def bpg_def)
  ultimately show ?thesis by (metis block_to_group_bit_def of_nat_unat ucast_id)
qed

definition freed :: "Ext2 \<Rightarrow> nat \<Rightarrow> nat \<Rightarrow> Ext2 \<Rightarrow> bool" where
  "freed w g k w' \<longleftrightarrow> mounted w' \<and> st w' = give_block g (st w)
    \<and> (\<forall>g' < ngroups (st w). \<forall>k' < bpg (st w). used w' g' k' \<longleftrightarrow> used w g' k' \<and> \<not> (g' = g \<and> k' = k))
    \<and> (\<forall>b'. in_vol (st w) b' \<longrightarrow> b' \<notin> meta (st w) \<longrightarrow> blk w' b' = blk w b')"

lemma free_block_ok:
  assumes m: "mounted w" and l: "layout (st w)" and g: "g < ngroups (st w)" and k: "k < bpg (st w)"
    and nz: "data_block (st w) g k \<noteq> 0"
  shows "\<exists>w'. ext2_free_block (data_block (st w) g k) w = Some (True, w') \<and> freed w g k w'"
proof -
  let ?e = "st w" and ?bm = "bitmap (st w) g"
  have geo: "geometry ?e" "sound 3 (drives w)" "length (scratch w) = MAX_BLOCK" using m by (simp_all add: mounted_def)
  note gb = geometry_bounds [OF geo(1)]
  have lenb: "length (blk w b') = bsz ?e" for b' using length_blk [OF geo(2,1)] .
  have k8: "k div 8 < bsz ?e" using k l by (simp add: layout_def less_mult_imp_div_less mult.commute)
  have bm: "in_vol ?e ?bm" "?bm \<noteq> bgdt_block ?e" "?bm \<noteq> sb_blk ?e" using l g by (auto simp: layout_def meta_def)
  let ?s = "blit 0 (blk w ?bm) (scratch w)"
  let ?w1 = "w\<lparr>scratch := clear_bit_at k ?s\<rparr>"
  have lens: "length ?s = MAX_BLOCK" using lenb geo gb by simp
  have rd: "read_block_into_scratch (block_bitmap (bgdt ?e ! g)) w = (True, w\<lparr>scratch := ?s\<rparr>)"
    using read_block_ok [OF m, of ?bm] by (simp add: bitmap_def)
  have m1: "mounted ?w1" using mounted_scratch [OF m] lens by simp
  have nb: "take (bsz ?e) (clear_bit_at k ?s) = clear_bit_at k (blk w ?bm)"
    using take_clear_bit [OF k8, of ?s] lenb by (simp add: blit_def)
  obtain w2 w3 w4 where w: "write_block_from_scratch ?bm ?w1 = (True, w2)" "write_bgdt_entry g (w2\<lparr>st := give_block g (st w2)\<rparr>) = Some (True, w3)"
      "write_superblock_free_counts w3 = (True, w4)" and w4: "mounted w4" "st w4 = give_block g ?e" "blk w4 ?bm = clear_bit_at k (blk w ?bm)"
      "\<And>b'. in_vol ?e b' \<Longrightarrow> b' \<notin> {?bm, bgdt_block ?e, sb_blk ?e} \<Longrightarrow> blk w4 b' = blk w b'"
    using write_back_ok [OF m1, of g ?bm "give_block g"] l g bm nb by auto
  have k32: "unat (of_nat k :: u32) = k"
    using k unsigned_less [of "blocks_per_group ?e", where ?'a = nat] by (simp add: bpg_def unat_of_nat_small)
  have kl: "\<not> MAX_BLOCK \<le> k div 8" using k8 gb by simp
  have "ext2_free_block (data_block ?e g k) w = Some (True, w4)"
    using nz group_bit_of_data_block [OF l g k] g rd k32 kl lens w
    by (simp add: ext2_free_block_def flush_counts_def ngroups_def bitmap_def)
  moreover have "used w4 g' k' \<longleftrightarrow> used w g' k' \<and> \<not> (g' = g \<and> k' = k)" if "g' < ngroups ?e" "k' < bpg ?e" for g' k'
  proof -
    have c: "core (st w4) = core ?e" using w4(2) by simp
    have bm': "bitmap (st w4) g' = bitmap ?e g'" "in_vol ?e (bitmap ?e g')"
      using layout_core(6) [OF c l that(1)] l that(1) by (auto simp: layout_def meta_def)
    have same: "bitmap ?e g' = ?bm \<longleftrightarrow> g' = g" using l that(1) g by (auto simp: layout_def inj_on_def)
    have "blk w4 (bitmap ?e g') = (if g' = g then clear_bit_at k (blk w ?bm) else blk w (bitmap ?e g'))"
      using w4(3) w4(4) [OF bm'(2)] same l that(1) by (auto simp: layout_def)
    then show ?thesis using bm'(1) bit_on_clear [of k "blk w ?bm" k'] k8 lenb by (auto simp: used_def)
  qed
  moreover have "blk w4 b' = blk w b'" if "in_vol ?e b'" "b' \<notin> meta ?e" for b'
    using w4(4) [OF that(1)] that(2) g by (auto simp: meta_def)
  ultimately show ?thesis using w4(1,2) by (auto simp: freed_def)
qed

section \<open>Reading\<close>

text \<open>The bytes of a file through its direct blocks; a hole reads as zeros.\<close>

definition file_block :: "Ext2 \<Rightarrow> u32 \<Rightarrow> bytes" where
  "file_block w b = (if b = 0 then replicate (bsz (st w)) 0 else blk w b)"

definition file_view :: "Ext2 \<Rightarrow> Ext2Fd \<Rightarrow> bytes" where
  "file_view w f = concat (map (file_block w) (direct_blocks f))"

lemma length_file_block: "mounted w \<Longrightarrow> length (file_block w b) = bsz (st w)"
  by (simp add: file_block_def mounted_def length_blk)

lemma length_file_view: "mounted w \<Longrightarrow> length (file_view w f) = bsz (st w) * length (direct_blocks f)"
  unfolding file_view_def
  using length_concat_uniform [of "map (file_block w) (direct_blocks f)" "bsz (st w)"] length_file_block [of w] by simp

lemma file_view_slice:
  assumes "mounted w" "p < bsz (st w) * length (direct_blocks f)" "p mod bsz (st w) + n \<le> bsz (st w)"
  shows "take n (drop (p mod bsz (st w)) (file_block w (direct_blocks f ! (p div bsz (st w))))) = take n (drop p (file_view w f))"
proof -
  have b: "0 < bsz (st w)" using assms(1) geometry_bounds(5) by (simp add: mounted_def)
  then have "p div bsz (st w) < length (direct_blocks f)" using assms(2) by (simp add: less_mult_imp_div_less mult.commute)
  then show ?thesis
    unfolding file_view_def
    using slice_concat_uniform [of "map (file_block w) (direct_blocks f)" "bsz (st w)" p n] assms b length_file_block [OF assms(1)]
    by simp
qed

lemma join_chunks:
  assumes "n \<le> left" "p + left \<le> length F" "k + left \<le> length buf"
  shows "blit (k + n) (take (left - n) (drop (p + n) F)) (blit k (take n (drop p F)) buf) = blit k (take left (drop p F)) buf"
proof -
  have "take left (drop p F) = take n (drop p F) @ take (left - n) (drop (p + n) F)"
    using assms(1) by (metis add.commute drop_drop le_add_diff_inverse take_add)
  then show ?thesis using assms by (simp add: blit_def ac_simps)
qed

lemma file_view_scratch [simp]: "file_view (w\<lparr>scratch := s\<rparr>) f = file_view w f"
  unfolding file_view_def by (intro arg_cong [of _ _ concat] map_cong) (simp_all add: file_block_def)

lemma ext2_read_loop_ok:
  assumes len: "length (direct_blocks f) = 12"
  shows "\<lbrakk>mounted w; k \<le> n; n \<le> length buf; unat (ef_offset f) + n \<le> 12 * bsz (st w)\<rbrakk> \<Longrightarrow>
    \<exists>s. length s = MAX_BLOCK \<and> ext2_read_loop f n k buf w
      = Some (n, blit k (take (n - k) (drop (unat (ef_offset f) + k) (file_view w f))) buf, w\<lparr>scratch := s\<rparr>)"
proof (induction "n - k" arbitrary: k buf w rule: less_induct)
  case less
  let ?e = "st w" and ?o = "unat (ef_offset f)"
  have geo: "geometry ?e" "sound 3 (drives w)" "length (scratch w) = MAX_BLOCK" using less.prems(1) by (simp_all add: mounted_def)
  note gb = geometry_bounds [OF geo(1)]
  show ?case
  proof (cases "k < n")
    case False
    then have "k = n" using less.prems(2) by simp
    then have "ext2_read_loop f n k buf w = Some (n, blit k [] buf, w\<lparr>scratch := scratch w\<rparr>)"
      by (subst ext2_read_loop.simps) (simp add: blit_def)
    then show ?thesis using False geo(3) by (intro exI [of _ "scratch w"]) simp
  next
    case True
    let ?p = "?o + k" and ?F = "file_view w f"
    let ?i = "?p div bsz ?e" and ?r = "?p mod bsz ?e"
    let ?a = "min (bsz ?e - ?r) (n - k)"
    let ?b = "direct_blocks f ! ?i"
    have p: "?p < bsz ?e * length (direct_blocks f)" using True less.prems(4) len by (simp add: mult.commute)
    then have i: "?i < 12" using gb(5) len by (simp add: less_mult_imp_div_less mult.commute)
    have r: "?r < bsz ?e" using gb(5) by simp
    have a: "0 < ?a" "?a \<le> n - k" "?r + ?a \<le> bsz ?e" using True r by linarith+
    let ?buf = "blit k (take ?a (drop ?p ?F)) buf"
    have F: "length ?F = 12 * bsz ?e" using length_file_view [OF less.prems(1)] len by (simp add: mult.commute)
    have la: "length (take ?a (drop ?p ?F)) = ?a" using F less.prems(4) a(2) True by simp
    have join: "blit (k + ?a) (take (n - (k + ?a)) (drop (?p + ?a) ?F)) ?buf = blit k (take (n - k) (drop ?p ?F)) buf"
      using join_chunks [OF a(2), of ?p ?F k buf] F less.prems(3,4) True by (simp add: diff_diff_eq)
    have chunk: "take ?a (drop ?r (file_block w ?b)) = take ?a (drop ?p ?F)"
      by (rule file_view_slice [OF less.prems(1) p a(3)])
    obtain s1 where s1: "length s1 = MAX_BLOCK" "ext2_read_loop f n k buf w = ext2_read_loop f n (k + ?a) ?buf (w\<lparr>scratch := s1\<rparr>)"
    proof (cases "?b = 0")
      case hole: True
      have "take ?a (drop ?r (file_block w ?b)) = replicate ?a 0" using hole a(3) by (simp add: file_block_def min_def)
      then have "ext2_read_loop f n k buf w = ext2_read_loop f n (k + ?a) ?buf w"
        using True hole i gb(6) chunk by (subst ext2_read_loop.simps) (simp add: Let_def bsz_def [symmetric])
      then show thesis using that [of "scratch w"] geo(3) by simp
    next
      case False
      let ?s = "blit 0 (blk w ?b) (scratch w)"
      have lens: "length (blk w ?b) = bsz ?e" "length ?s = MAX_BLOCK" using length_blk [OF geo(2,1)] geo gb by simp_all
      have "drop ?r ?s = drop ?r (blk w ?b) @ drop (bsz ?e) (scratch w)" using lens r by (simp add: blit_def)
      then have "take ?a (drop ?r ?s) = take ?a (drop ?r (blk w ?b))" using lens a(3) by simp
      then have "slice ?r ?a ?s = Some (take ?a (drop ?p ?F))"
        using chunk False lens gb(4) a(3) by (simp add: slice_def file_block_def)
      then have "ext2_read_loop f n k buf w = ext2_read_loop f n (k + ?a) ?buf (w\<lparr>scratch := ?s\<rparr>)"
        using True False i gb(6) read_block_ok [OF less.prems(1), of ?b]
        by (subst ext2_read_loop.simps) (simp add: Let_def bsz_def [symmetric])
      then show thesis using that lens(2) by blast
    qed
    have m1: "mounted (w\<lparr>scratch := s1\<rparr>)" using mounted_scratch [OF less.prems(1) s1(1)] .
    have lt: "n - (k + ?a) < n - k" "k + ?a \<le> n" using a True by simp_all
    have "length ?buf = length buf" by (rule length_blit) (use la less.prems(3) a(2) True in linarith)
    then have "n \<le> length ?buf" "?o + n \<le> 12 * bsz (st (w\<lparr>scratch := s1\<rparr>))" using less.prems(3,4) by simp_all
    from less.hyps [OF lt(1) m1 lt(2) this] obtain s where "length s = MAX_BLOCK"
      "ext2_read_loop f n (k + ?a) ?buf (w\<lparr>scratch := s1\<rparr>)
        = Some (n, blit (k + ?a) (take (n - (k + ?a)) (drop (?o + (k + ?a)) ?F)) ?buf, w\<lparr>scratch := s\<rparr>)"
      by auto
    then show ?thesis using s1(2) join by (intro exI [of _ s]) (simp add: add.assoc)
  qed
qed

text \<open>C22. Reading an open ext2 file returns min(buffer, size - offset) bytes: the bytes of
  its direct blocks from the current offset on, holes reading as zeros; the offset advances
  by that number and the disk is unchanged.\<close>
theorem ext2_read_fd_correct:
  assumes "mounted w" "e_ready (st w)" "is_ext2_fd fd" "f = e_fds (st w) ! ext2_slot fd" "ef_active f"
    "length (direct_blocks f) = 12" "unat (ef_size f) \<le> 12 * bsz (st w)" "unat (ef_offset f) \<le> unat (ef_size f)"
  shows "let n = min (length buf) (unat (ef_size f) - unat (ef_offset f)) in
    \<exists>w'. ext2_read_fd fd buf w = Some (int n, blit 0 (take n (drop (unat (ef_offset f)) (file_view w f))) buf, w')
      \<and> drives w' = drives w \<and> (n \<noteq> 0 \<longrightarrow> st w' = (st w)\<lparr>e_fds := (e_fds (st w))[ext2_slot fd := f\<lparr>ef_offset := ef_offset f + of_nat n\<rparr>]\<rparr>)"
proof -
  let ?n = "min (length buf) (unat (ef_size f) - unat (ef_offset f))"
  show ?thesis
  proof (cases "unat (ef_size f) - unat (ef_offset f) = 0")
    case True
    then have "ext2_read_fd fd buf w = Some (0, buf, w)" using assms by (simp add: ext2_read_fd_def)
    then show ?thesis using True by (simp add: blit_def)
  next
    case False
    have "unat (ef_offset f) + ?n \<le> 12 * bsz (st w)" using assms(7,8) by linarith
    then obtain s where "ext2_read_loop f ?n 0 buf w = Some (?n, blit 0 (take ?n (drop (unat (ef_offset f)) (file_view w f))) buf, w\<lparr>scratch := s\<rparr>)"
      using ext2_read_loop_ok [OF assms(6) assms(1), of 0 ?n buf] by auto
    then have "ext2_read_fd fd buf w = Some (int ?n, blit 0 (take ?n (drop (unat (ef_offset f)) (file_view w f))) buf,
        set_fd (ext2_slot fd) (f\<lparr>ef_offset := ef_offset f + of_nat ?n\<rparr>) (w\<lparr>scratch := s\<rparr>))"
      using assms(2-5) False by (simp add: ext2_read_fd_def Let_def)
    then show ?thesis by (simp add: Let_def set_fd_def)
  qed
qed

section \<open>Files and their inode records\<close>

definition nz :: "Ext2Fd \<Rightarrow> u32 set" where
  "nz f = set (direct_blocks f) - {0}"

text \<open>Blocks that the bitmaps mark as used.\<close>

definition held :: "Ext2 \<Rightarrow> u32 set \<Rightarrow> bool" where
  "held w B \<longleftrightarrow> (\<forall>g < ngroups (st w). \<forall>k < bpg (st w). data_block (st w) g k \<in> B \<longrightarrow> used w g k)"

text \<open>The inode record on disk has the size and the block pointers of the open file.\<close>

definition disk_inode :: "Ext2 \<Rightarrow> u32 \<Rightarrow> nat \<Rightarrow> Ext2Fd \<Rightarrow> bool" where
  "disk_inode w ib base f \<longleftrightarrow> rd32 (blk w ib) (base + 4) = ef_size f
    \<and> (\<forall>j < 12. rd32 (blk w ib) (base + 40 + j * 4) = direct_blocks f ! j)"

definition placed :: "Ext2State \<Rightarrow> u32 \<Rightarrow> nat \<Rightarrow> Ext2Fd \<Rightarrow> bool" where
  "placed e ib base f \<longleftrightarrow> length (direct_blocks f) = 12 \<and> inode_location e (inode_no f) = Some (Some (ib, base))
    \<and> base + 128 \<le> bsz e \<and> in_vol e ib \<and> ib \<notin> meta e
    \<and> (\<forall>j < 12. \<forall>j' < 12. direct_blocks f ! j = direct_blocks f ! j' \<longrightarrow> direct_blocks f ! j \<noteq> 0 \<longrightarrow> j = j')
    \<and> (\<forall>b \<in> nz f. b \<notin> meta e \<and> b \<noteq> ib \<and> in_vol e b)"

definition file_ok :: "Ext2 \<Rightarrow> u32 \<Rightarrow> nat \<Rightarrow> Ext2Fd \<Rightarrow> bool" where
  "file_ok w ib base f \<longleftrightarrow> alloc_inv w \<and> placed (st w) ib base f \<and> held w (insert ib (nz f)) \<and> disk_inode w ib base f"

lemma inode_location_core:
  assumes "core e' = core e" "layout e"
  shows "inode_location e' ino = inode_location e ino"
proof -
  have "g < unat (groups_count e) \<Longrightarrow> inode_table (bgdt e' ! g) = inode_table (bgdt e ! g)" for g
    using core_fields(18) [OF assms(1)] assms(2) by (simp add: layout_def ngroups_def)
  then show ?thesis using core_fields(2,4,6,8) [OF assms(1)] by (simp add: inode_location_def Let_def)
qed

lemma placed_core:
  assumes "core e' = core e" "layout e" "placed e ib base f"
  shows "placed e' ib base f"
  using assms(3) inode_location_core [OF assms(1,2)] layout_core(2) [OF assms(1,2)] core_fields(13,15) [OF assms(1)]
  by (simp add: placed_def)

text \<open>Changes outside the allocator's own blocks keep the allocator's invariant.\<close>

lemma used_frame:
  assumes "core (st w') = core (st w)" "layout (st w)" "\<And>b. b \<in> meta (st w) \<Longrightarrow> blk w' b = blk w b" "g < ngroups (st w)"
  shows "used w' g k = used w g k"
  using layout_core(6) [OF assms(1,2,4)] assms(3) [of "bitmap (st w) g"] assms(4) by (simp add: used_def meta_def)

lemma held_frame:
  assumes "core (st w') = core (st w)" "layout (st w)" "\<And>b. b \<in> meta (st w) \<Longrightarrow> blk w' b = blk w b"
  shows "held w' B = held w B"
  using used_frame [OF assms] layout_core(3,4,5) [OF assms(1,2)] by (auto simp: held_def)

lemma alloc_inv_frame:
  assumes "alloc_inv w" "mounted w'" "core (st w') = core (st w)" "\<And>b. b \<in> meta (st w) \<Longrightarrow> blk w' b = blk w b"
  shows "alloc_inv w'"
proof -
  have l: "layout (st w)" using assms(1) by (simp add: alloc_inv_def)
  have "reserved w = held w (insert 0 (meta (st w)))" "reserved w' = held w' (insert 0 (meta (st w')))"
    by (simp_all add: reserved_def held_def)
  then show ?thesis
    using assms(1,2) held_frame [OF assms(3) l assms(4), of "insert 0 (meta (st w))"] layout_core(1,2) [OF assms(3) l]
    by (simp add: alloc_inv_def)
qed

text \<open>Patching the inode record.\<close>

lemma patch_inode_ok:
  assumes "mounted w" "inode_location (st w) ino = Some (Some (ib, base))" "in_vol (st w) ib" "fits (bsz (st w) - base) ps" "base \<le> bsz (st w)"
  shows "\<exists>w'. patch_inode ino ps w = Some (True, w') \<and> mounted w' \<and> st w' = st w
    \<and> (\<forall>b'. in_vol (st w) b' \<longrightarrow> blk w' b' = (if b' = ib then patched (map (\<lambda>(off, src). (base + off, src)) ps) (blk w ib) else blk w b'))"
proof -
  have "fits (bsz (st w)) (map (\<lambda>(off, src). (base + off, src)) ps)" using assms(4,5) by (fastforce simp: fits_def)
  from patch_block_ok [OF assms(1,3) this] show ?thesis using assms(2) by (simp add: patch_inode_def)
qed

text \<open>After such a patch the file is as before, up to the fields of the record.\<close>

lemma file_ok_patch:
  assumes ok: "file_ok w ib base f" and m: "mounted w'" and c: "core (st w') = core (st w)"
    and blks: "\<And>b'. in_vol (st w) b' \<Longrightarrow> b' \<noteq> ib \<Longrightarrow> blk w' b' = blk w b'"
    and f': "direct_blocks f' = direct_blocks f" "inode_no f' = inode_no f" and d: "disk_inode w' ib base f'"
  shows "file_ok w' ib base f'" "file_view w' f' = file_view w f"
proof -
  have l: "layout (st w)" and p: "placed (st w) ib base f" and a: "alloc_inv w" using ok by (simp_all add: file_ok_def alloc_inv_def)
  have meta: "blk w' b = blk w b" if "b \<in> meta (st w)" for b
    using that l p blks by (metis layout_def placed_def)
  have "placed (st w') ib base f" by (rule placed_core [OF c l p])
  then have "placed (st w') ib base f'" using f' by (simp add: placed_def nz_def)
  moreover have "held w' (insert ib (nz f'))" using held_frame [OF c l meta] ok f' by (simp add: file_ok_def nz_def)
  ultimately show "file_ok w' ib base f'" using alloc_inv_frame [OF a m c meta] d by (simp add: file_ok_def)
  have "file_block w' b = file_block w b" if "b \<in> set (direct_blocks f)" for b
    using p that blks core_fields(13) [OF c] by (cases "b = 0") (auto simp: file_block_def placed_def nz_def)
  then show "file_view w' f' = file_view w f"
    using f'(1) unfolding file_view_def by (intro arg_cong [of _ _ concat] map_cong) simp_all
qed

section \<open>Writing\<close>

text \<open>The common part of the steps of a write through descriptor \<open>i\<close>: only blocks of the
  file, its inode record and the allocator's own blocks change.  Blocks the file has stay
  where they are, the bitmaps gain the blocks the file gains and no others, and of the block
  with the inode record only the twelve block pointers change.\<close>

definition only_adds :: "nat \<Rightarrow> u32 \<Rightarrow> nat \<Rightarrow> Ext2 \<Rightarrow> Ext2 \<Rightarrow> bool" where
  "only_adds i ib base w w' \<longleftrightarrow> (let f = e_fds (st w) ! i; f' = e_fds (st w') ! i in
    (\<forall>j < 12. direct_blocks f ! j \<noteq> 0 \<longrightarrow> direct_blocks f' ! j = direct_blocks f ! j)
    \<and> (\<forall>p < bsz (st w). p \<notin> {base + 40..<base + 88} \<longrightarrow> blk w' ib ! p = blk w ib ! p)
    \<and> (\<forall>g < ngroups (st w). \<forall>k < bpg (st w). used w' g k \<longleftrightarrow> used w g k \<or> data_block (st w) g k \<in> nz f'))"

definition progress :: "nat \<Rightarrow> u32 \<Rightarrow> nat \<Rightarrow> Ext2 \<Rightarrow> Ext2 \<Rightarrow> bool" where
  "progress i ib base w w' \<longleftrightarrow> (let f = e_fds (st w) ! i; f' = e_fds (st w') ! i in
    i < length (e_fds (st w)) \<and> core (st w') = core (st w) \<and> e_fds (st w') = (e_fds (st w))[i := f']
    \<and> file_ok w' ib base f' \<and> f' = f\<lparr>direct_blocks := direct_blocks f'\<rparr> \<and> nz f \<subseteq> nz f'
    \<and> only_adds i ib base w w'
    \<and> (\<forall>b'. in_vol (st w) b' \<longrightarrow> b' \<notin> insert ib (meta (st w)) \<union> nz f' \<longrightarrow> blk w' b' = blk w b'))"

lemma only_adds_same:
  assumes ok: "file_ok w ib base (e_fds (st w) ! i)" and c: "core (st w') = core (st w)" "e_fds (st w') ! i = e_fds (st w) ! i"
    and b: "blk w' ib = blk w ib" "\<And>b. b \<in> meta (st w) \<Longrightarrow> blk w' b = blk w b"
  shows "only_adds i ib base w w'"
proof -
  have l: "layout (st w)" and h: "held w (insert ib (nz (e_fds (st w) ! i)))" using ok by (simp_all add: file_ok_def alloc_inv_def)
  have "used w' g k = used w g k" if "g < ngroups (st w)" for g k by (rule used_frame [OF c(1) l b(2) that])
  then show ?thesis using c(2) b(1) h by (auto simp: only_adds_def held_def Let_def)
qed

lemma only_adds_trans:
  assumes a: "only_adds i ib base w w1" "only_adds i ib base w1 w2" and l: "layout (st w)" "core (st w1) = core (st w)"
    and n: "nz (e_fds (st w1) ! i) \<subseteq> nz (e_fds (st w2) ! i)"
  shows "only_adds i ib base w w2"
proof -
  note e = layout_core(3-5) [OF l(2,1)] core_fields(13) [OF l(2)]
  note a1 = a(1) [unfolded only_adds_def Let_def] and a2 = a(2) [unfolded only_adds_def Let_def e]
  show ?thesis
    unfolding only_adds_def Let_def
  proof (intro conjI allI impI)
    fix j :: nat assume "j < 12" "direct_blocks (e_fds (st w) ! i) ! j \<noteq> 0"
    then show "direct_blocks (e_fds (st w2) ! i) ! j = direct_blocks (e_fds (st w) ! i) ! j" using a1 a2 by metis
  next
    fix p assume "p < bsz (st w)" "p \<notin> {base + 40..<base + 88}"
    then show "blk w2 ib ! p = blk w ib ! p" using a1 a2 by metis
  next
    fix g k assume g: "g < ngroups (st w)" "k < bpg (st w)"
    then have "used w2 g k \<longleftrightarrow> used w1 g k \<or> data_block (st w) g k \<in> nz (e_fds (st w2) ! i)"
      "used w1 g k \<longleftrightarrow> used w g k \<or> data_block (st w) g k \<in> nz (e_fds (st w1) ! i)" using a1 a2 by blast+
    then show "used w2 g k \<longleftrightarrow> used w g k \<or> data_block (st w) g k \<in> nz (e_fds (st w2) ! i)" using n by blast
  qed
qed

lemma progress_refl: "file_ok w ib base (e_fds (st w) ! i) \<Longrightarrow> i < length (e_fds (st w)) \<Longrightarrow> progress i ib base w w"
  using only_adds_same [of w ib base i w] by (simp add: progress_def)

lemma progress_layout:
  assumes "progress i ib base w w'" "layout (st w)"
  shows "in_vol (st w') = in_vol (st w)" "meta (st w') = meta (st w)" "bsz (st w') = bsz (st w)" "layout (st w')"
  using assms core_fields(13,15) [of "st w'" "st w"] layout_core(1,2) [of "st w'" "st w"] by (simp_all add: progress_def Let_def)

lemma progress_trans:
  assumes "progress i ib base w w1" "progress i ib base w1 w2" "layout (st w)"
  shows "progress i ib base w w2"
proof -
  let ?f = "e_fds (st w) ! i" and ?f1 = "e_fds (st w1) ! i" and ?f2 = "e_fds (st w2) ! i"
  note a = assms(1) [unfolded progress_def Let_def] and b = assms(2) [unfolded progress_def Let_def]
  note pl = progress_layout [OF assms(1,3)]
  have fds: "e_fds (st w1) = (e_fds (st w))[i := ?f1]" "e_fds (st w2) = (e_fds (st w1))[i := ?f2]"
    and fs: "?f1 = ?f\<lparr>direct_blocks := direct_blocks ?f1\<rparr>" "?f2 = ?f1\<lparr>direct_blocks := direct_blocks ?f2\<rparr>"
    using a b by blast+
  have "e_fds (st w2) = (e_fds (st w))[i := ?f2]" by (subst fds(2), subst fds(1)) simp
  moreover have "?f\<lparr>direct_blocks := direct_blocks ?f1\<rparr>\<lparr>direct_blocks := d\<rparr> = ?f\<lparr>direct_blocks := d\<rparr>" for d by simp
  then have "?f2 = ?f\<lparr>direct_blocks := direct_blocks ?f2\<rparr>" using fs by (metis (no_types))
  moreover have "nz ?f \<subseteq> nz ?f2" using a b by blast
  moreover have "blk w2 b' = blk w b'" if "in_vol (st w) b'" "b' \<notin> insert ib (meta (st w)) \<union> nz ?f2" for b'
  proof -
    have "b' \<notin> insert ib (meta (st w)) \<union> nz ?f1" using that(2) b by blast
    then have "blk w1 b' = blk w b'" using that(1) a by blast
    moreover have "in_vol (st w1) b'" "b' \<notin> insert ib (meta (st w1)) \<union> nz ?f2" using that pl by simp_all
    then have "blk w2 b' = blk w1 b'" using b by blast
    ultimately show ?thesis by simp
  qed
  moreover have "core (st w2) = core (st w)" "file_ok w2 ib base ?f2" "i < length (e_fds (st w))" using a b by (metis, blast, blast)
  moreover have "only_adds i ib base w w2" by (rule only_adds_trans [OF _ _ assms(3)]) (use a b in blast)+
  ultimately show ?thesis unfolding progress_def Let_def by blast
qed

text \<open>The allocator has nothing left to give.\<close>

definition disk_full :: "Ext2 \<Rightarrow> bool" where
  "disk_full w \<longleftrightarrow> (\<forall>g < ngroups (st w). free_blocks_count (bgdt (st w) ! g) \<noteq> 0 \<longrightarrow> (\<forall>k < bpg (st w). used w g k))"

lemma file_ok_same:
  assumes "file_ok w ib base f" "st w' = st w" "drives w' = drives w" "length (scratch w') = length (scratch w)"
  shows "file_ok w' ib base f" "file_view w' f = file_view w f"
proof -
  have b: "blk w' b = blk w b" for b using blk_core [of w' w] assms(2,3) by simp
  have m: "mounted w'" using assms by (simp add: file_ok_def alloc_inv_def mounted_def)
  have "disk_inode w' ib base f" using assms(1) b by (simp add: file_ok_def disk_inode_def)
  then show "file_ok w' ib base f" "file_view w' f = file_view w f"
    using file_ok_patch [OF assms(1) m _ _ refl refl] assms(2) b by simp_all
qed

lemma rd32_ptr_patch:
  assumes "base + 128 \<le> length s" "j < 12" "bi < 12"
  shows "rd32 (blit (base + (40 + bi * 4)) (le32 v) s) (base + 40 + j * 4) = (if j = bi then v else rd32 s (base + 40 + j * 4))"
proof (cases "j = bi")
  case True
  then show ?thesis using rd32_blit [of "base + (40 + bi * 4)" s v] assms by (simp add: add.assoc)
next
  case False
  then show ?thesis using assms by (cases "j < bi") (auto intro!: rd32_blit_other)
qed

lemma only_adds_block:
  assumes ok: "file_ok w ib base (e_fds (st w) ! i)" and i: "i < length (e_fds (st w))"
    and fds: "e_fds (st w') = (e_fds (st w))[i := (e_fds (st w) ! i)\<lparr>direct_blocks := (direct_blocks (e_fds (st w) ! i))[bi := b]\<rparr>]"
    and hole: "direct_blocks (e_fds (st w) ! i) ! bi = 0" and bi: "bi < 12"
    and ib: "blk w' ib = blit (base + (40 + bi * 4)) (le32 b) (blk w ib)"
    and used: "\<And>g' k'. g' < ngroups (st w) \<Longrightarrow> k' < bpg (st w) \<Longrightarrow> used w' g' k' \<longleftrightarrow> used w g' k' \<or> (g' = g \<and> k' = k)"
    and g: "g < ngroups (st w)" "k < bpg (st w)" "b = data_block (st w) g k" "b \<noteq> 0"
  shows "only_adds i ib base w w'"
proof -
  let ?f = "e_fds (st w) ! i" and ?f' = "e_fds (st w') ! i"
  have l: "layout (st w)" "placed (st w) ib base ?f" "held w (insert ib (nz ?f))" "mounted w"
    using ok by (simp_all add: file_ok_def alloc_inv_def)
  have len: "length (direct_blocks ?f) = 12" "base + 128 \<le> bsz (st w)" using l(2) by (simp_all add: placed_def)
  have "length (blk w ib) = bsz (st w)" using length_blk l(4) by (simp add: mounted_def)
  then have "blk w' ib ! p = blk w ib ! p" if "p < bsz (st w)" "p \<notin> {base + 40..<base + 88}" for p
    using that ib bi len(2) by (auto simp: nth_blit_outside)
  moreover have f': "?f' = ?f\<lparr>direct_blocks := (direct_blocks ?f)[bi := b]\<rparr>" using fds i by simp
  then have "direct_blocks ?f ! j \<noteq> 0 \<longrightarrow> direct_blocks ?f' ! j = direct_blocks ?f ! j" for j
    using hole by (cases "j = bi") simp_all
  moreover have nz': "nz ?f' = insert b (nz ?f)"
    using f' hole bi len(1) g(4) by (auto simp: nz_def in_set_conv_nth nth_list_update_if split: if_splits)
  have "used w' g' k' \<longleftrightarrow> used w g' k' \<or> data_block (st w) g' k' \<in> nz ?f'"
    if k': "g' < ngroups (st w)" "k' < bpg (st w)" for g' k'
  proof -
    have "data_block (st w) g' k' = b \<longleftrightarrow> g' = g \<and> k' = k" using data_block_inj [OF l(1) k' g(1,2)] g(3) by simp
    moreover have "data_block (st w) g' k' \<in> nz ?f \<Longrightarrow> used w g' k'" using l(3) k' by (simp add: held_def)
    ultimately show ?thesis using used [OF k'] nz' by auto
  qed
  ultimately show ?thesis by (simp add: only_adds_def Let_def)
qed

lemma block_for_ok:
  assumes ok: "file_ok w ib base (e_fds (st w) ! i)" and i: "i < length (e_fds (st w))" and bi: "bi < 12"
  shows "\<exists>b w'. write_block_for i pg bi w = Some (b, w') \<and> progress i ib base w w'
    \<and> file_view w' (e_fds (st w') ! i) = file_view w (e_fds (st w) ! i)
    \<and> (\<forall>j. j \<noteq> bi \<longrightarrow> direct_blocks (e_fds (st w') ! i) ! j = direct_blocks (e_fds (st w) ! i) ! j)
    \<and> (if b = 0 then disk_full w' \<and> direct_blocks (e_fds (st w') ! i) ! bi = 0 \<and> direct_blocks (e_fds (st w) ! i) ! bi = 0
       else direct_blocks (e_fds (st w') ! i) ! bi = b)"
proof -
  let ?f = "e_fds (st w) ! i" and ?e = "st w"
  have inv: "alloc_inv w" and p: "placed ?e ib base ?f" and h: "held w (insert ib (nz ?f))" and d: "disk_inode w ib base ?f"
    using ok by (simp_all add: file_ok_def)
  have m: "mounted w" and l: "layout ?e" and r: "reserved w" using inv by (simp_all add: alloc_inv_def)
  show ?thesis
  proof (cases "direct_blocks ?f ! bi = 0")
    case False
    then show ?thesis using progress_refl [OF ok i] by (simp add: write_block_for_def)
  next
    case hole: True
    obtain b w1 where a: "ext2_alloc_block pg w = Some (b, w1)"
      and res: "alloc_result w (pg # [0..<unat (groups_count ?e)]) b w1"
      using alloc_in_ok [OF inv] unfolding ext2_alloc_block_def by blast
    show ?thesis
    proof (cases "b = 0")
      case True
      then have same: "st w1 = ?e" "drives w1 = drives w" "length (scratch w1) = length (scratch w)" "disk_full w"
        using res by (auto simp: alloc_result_def disk_full_def ngroups_def)
      have blks: "blk w1 b' = blk w b'" for b' using blk_core [of w1 w] same by simp
      have "progress i ib base w w1"
        using file_ok_same(1) [OF ok same(1-3)] same(1) i blks only_adds_same [OF ok, of w1] by (simp add: progress_def)
      moreover have "disk_full w1" using same(1,4) blks by (simp add: disk_full_def used_def)
      ultimately show ?thesis
        using a hole True file_ok_same(2) [OF ok same(1-3)] same(1) by (intro exI [of _ 0] exI [of _ w1]) (simp add: write_block_for_def)
    next
      case False
      then obtain g k where g: "g < ngroups ?e" "k < bpg ?e" "\<not> used w g k" "b = data_block ?e g k" "allocated w g k w1"
        using res by (auto simp: alloc_result_def)
      have fresh: "b \<notin> insert ib (nz ?f)" "b \<notin> insert 0 (meta ?e)" using h r g by (auto simp: held_def reserved_def)
      have bvol: "in_vol ?e b" using data_block_nat(2) [OF l g(1,2)] g(4) by simp
      have w1: "mounted w1" "core (st w1) = core ?e" "e_fds (st w1) = e_fds ?e" "blk w1 b = replicate (bsz ?e) 0"
        "\<And>b'. in_vol ?e b' \<Longrightarrow> b' \<notin> insert b (meta ?e) \<Longrightarrow> blk w1 b' = blk w b'"
        "\<And>g' k'. g' < ngroups ?e \<Longrightarrow> k' < bpg ?e \<Longrightarrow> used w1 g' k' \<longleftrightarrow> used w g' k' \<or> (g' = g \<and> k' = k)"
        using g(4,5) by (simp_all add: allocated_def Let_def)
      note lc = layout_core [OF w1(2) l] and cf = core_fields [OF w1(2)]
      have inv1: "alloc_inv w1" using alloc_inv_allocated [OF inv g(5)] .
      have p1: "placed (st w1) ib base ?f" by (rule placed_core [OF w1(2) l p])
      have geo: "sound 3 (drives w1)" "geometry (st w1)" using w1(1) by (simp_all add: mounted_def)
      have "fits (bsz (st w1) - base) [(40 + bi * 4, le32 b)]" "base \<le> bsz (st w1)"
        using p1 bi by (auto simp: fits_def placed_def)
      from patch_inode_ok [OF w1(1) _ _ this, of "inode_no ?f" ib] p1 obtain w2 where
        w2: "update_inode_block_ptr (inode_no ?f) bi b w1 = Some (True, w2)" "mounted w2" "st w2 = st w1"
          "\<And>b'. in_vol ?e b' \<Longrightarrow> blk w2 b' = (if b' = ib then blit (base + (40 + bi * 4)) (le32 b) (blk w1 ib) else blk w1 b')"
        using cf(15) by (auto simp: placed_def update_inode_block_ptr_def)
      let ?f' = "?f\<lparr>direct_blocks := (direct_blocks ?f)[bi := b]\<rparr>" and ?w' = "set_fd i (?f\<lparr>direct_blocks := (direct_blocks ?f)[bi := b]\<rparr>) w2"
      have len12: "length (direct_blocks ?f) = 12" using p by (simp add: placed_def)
      have blks: "blk ?w' b' = blk w2 b'" for b' by (rule blk_core) (simp_all add: set_fd_def core_def)
      have st': "core (st ?w') = core ?e" "e_fds (st ?w') = (e_fds ?e)[i := ?f']"
        using w1(2,3) w2(3) by (simp_all add: set_fd_def core_def)
      have nz': "nz ?f' = insert b (nz ?f)"
        using hole bi len12 False by (auto simp: nz_def in_set_conv_nth nth_list_update_if split: if_splits)
      have ibv: "in_vol ?e ib" "ib \<notin> insert b (meta ?e)" using p fresh by (auto simp: placed_def)
      have lenib: "length (blk w1 ib) = bsz ?e" using length_blk [OF geo] cf(13) by simp
      have "disk_inode ?w' ib base ?f'"
      proof -
        have ibb: "blk ?w' ib = blit (base + (40 + bi * 4)) (le32 b) (blk w ib)" using blks w2(4) [OF ibv(1)] w1(5) [OF ibv] by simp
        have fit: "base + 128 \<le> length (blk w ib)" using p lenib w1(5) [OF ibv] by (simp add: placed_def)
        have "rd32 (blk ?w' ib) (base + 4) = rd32 (blk w ib) (base + 4)" unfolding ibb using fit bi by (intro rd32_blit_other) auto
        then show ?thesis using d ibb rd32_ptr_patch [OF fit _ bi] bi len12 by (simp add: disk_inode_def nth_list_update_if)
      qed
      moreover have "placed (st ?w') ib base ?f'"
      proof -
        have "placed (st ?w') ib base ?f" by (rule placed_core [OF st'(1) l p])
        moreover have "in_vol (st ?w') = in_vol ?e" "meta (st ?w') = meta ?e"
          using core_fields(15) [OF st'(1)] layout_core(2) [OF st'(1) l] by simp_all
        moreover have "\<forall>j < 12. \<forall>j' < 12. direct_blocks ?f' ! j = direct_blocks ?f' ! j' \<longrightarrow> direct_blocks ?f' ! j \<noteq> 0 \<longrightarrow> j = j'"
        proof (intro allI impI)
          fix j j' assume j: "j < 12" "j' < 12" "direct_blocks ?f' ! j = direct_blocks ?f' ! j'" "direct_blocks ?f' ! j \<noteq> 0"
          have "x < 12 \<Longrightarrow> direct_blocks ?f ! x \<noteq> b" for x using fresh False len12 by (auto simp: nz_def)
          then show "j = j'" using j bi len12 p by (auto simp: nth_list_update_if placed_def split: if_splits)
        qed
        ultimately show ?thesis using fresh bvol len12 nz' by (simp add: placed_def)
      qed
      moreover have frame_meta: "blk ?w' b' = blk w1 b'" if "b' \<in> meta ?e" for b'
        using that blks w2(4) [of b'] l ibv(2) by (auto simp: layout_def)
      moreover have inv': "alloc_inv ?w'"
      proof (rule alloc_inv_frame [OF inv1])
        show "mounted ?w'" using w2(2) by (simp add: mounted_def set_fd_def geometry_def spb_def bsz_def)
        show "core (st ?w') = core (st w1)" using st'(1) w1(2) by simp
      qed (use frame_meta lc(2) in simp)
      moreover have "held ?w' (insert ib (nz ?f'))"
      proof -
        have "held w1 (insert ib (nz ?f'))" using h w1(6) lc(3-5) nz' g data_block_inj [OF l] by (auto simp: held_def)
        then show ?thesis using held_frame [of ?w' w1] frame_meta st'(1) w1(2) lc(1,2) by simp
      qed
      ultimately have ok': "file_ok ?w' ib base ?f'" by (simp add: file_ok_def)
      have view: "file_view ?w' ?f' = file_view w ?f"
      proof -
        have "bsz (st ?w') = bsz ?e" using core_fields(13) [OF st'(1)] .
        moreover have "blk ?w' b = replicate (bsz ?e) 0" using blks w2(4) [OF bvol] w1(4) fresh by simp
        moreover have "blk ?w' x = blk w x" if "x \<in> nz ?f" for x
          using that blks w2(4) [of x] w1(5) [of x] p fresh by (auto simp: placed_def)
        ultimately have "map (file_block ?w') (direct_blocks ?f') = map (file_block w) (direct_blocks ?f)"
          using hole bi len12 False by (intro nth_equalityI) (auto simp: nth_list_update_if file_block_def nz_def)
        then show ?thesis by (simp only: file_view_def)
      qed
      have "blk ?w' b' = blk w b'" if "in_vol ?e b'" "b' \<notin> insert ib (meta ?e) \<union> nz ?f'" for b'
        using that blks w2(4) [OF that(1)] w1(5) [OF that(1)] nz' by auto
      moreover have "only_adds i ib base w ?w'"
      proof (rule only_adds_block [OF ok i st'(2) hole bi _ _ g(1,2,4) False])
        show "blk ?w' ib = blit (base + (40 + bi * 4)) (le32 b) (blk w ib)" using blks w2(4) [OF ibv(1)] w1(5) [OF ibv] by simp
        show "used ?w' g' k' \<longleftrightarrow> used w g' k' \<or> (g' = g \<and> k' = k)" if "g' < ngroups ?e" "k' < bpg ?e" for g' k'
          using used_frame [of ?w' w1 g' k'] frame_meta st'(1) w1(2) lc(1-3) w1(6) [OF that] that by simp
      qed
      ultimately have "progress i ib base w ?w'" using i st' ok' nz' by (auto simp: progress_def Let_def)
      moreover have "write_block_for i pg bi w = Some (b, ?w')"
        using a hole False w2(1,3) w1(3) by (simp add: write_block_for_def Let_def)
      ultimately show ?thesis using view st'(2) i False bi len12 by (intro exI [of _ b] exI [of _ ?w']) simp
    qed
  qed
qed

lemma set_fd_same [simp]:
  "blk (set_fd i f w) b = blk w b" "mounted (set_fd i f w) = mounted w" "core (st (set_fd i f w)) = core (st w)"
  "inode_location (st (set_fd i f w)) = inode_location (st w)" "in_vol (st (set_fd i f w)) = in_vol (st w)"
  "bsz (st (set_fd i f w)) = bsz (st w)"
proof -
  show "blk (set_fd i f w) b = blk w b" by (rule blk_core) (simp_all add: set_fd_def core_def)
  show "mounted (set_fd i f w) = mounted w" by (simp add: mounted_def set_fd_def geometry_def spb_def bsz_def)
  show "core (st (set_fd i f w)) = core (st w)" by (simp add: set_fd_def core_def)
  show "inode_location (st (set_fd i f w)) = inode_location (st w)" "in_vol (st (set_fd i f w)) = in_vol (st w)"
    "bsz (st (set_fd i f w)) = bsz (st w)"
    by (simp_all add: set_fd_def inode_location_def in_vol_def bsz_def spb_def fun_eq_iff Let_def)
qed

lemma set_fd_fds [simp]: "e_fds (st (set_fd i f w)) = (e_fds (st w))[i := f]"
  by (simp add: set_fd_def)

text \<open>One chunk, written into an allocated block.\<close>

lemma write_chunk_ok:
  assumes ok: "file_ok w ib base (e_fds (st w) ! i)" and i: "i < length (e_fds (st w))" and bi: "bi < 12"
    and b: "direct_blocks (e_fds (st w) ! i) ! bi = b" "b \<noteq> 0" and fit: "r + length src \<le> bsz (st w)"
  shows "\<exists>s s' w'. read_block_into_scratch b w = (True, w\<lparr>scratch := s\<rparr>) \<and> put r src s = Some s'
    \<and> write_block_from_scratch b (w\<lparr>scratch := s'\<rparr>) = (True, w') \<and> progress i ib base w w'
    \<and> direct_blocks (e_fds (st w') ! i) = direct_blocks (e_fds (st w) ! i)
    \<and> file_view w' (e_fds (st w') ! i) = blit (bi * bsz (st w) + r) src (file_view w (e_fds (st w) ! i))"
proof -
  let ?f = "e_fds (st w) ! i" and ?e = "st w"
  have inv: "alloc_inv w" and p: "placed ?e ib base ?f" and h: "held w (insert ib (nz ?f))" and d: "disk_inode w ib base ?f"
    using ok by (simp_all add: file_ok_def)
  have m: "mounted w" and l: "layout ?e" using inv by (simp_all add: alloc_inv_def)
  have geo: "sound 3 (drives w)" "geometry ?e" "length (scratch w) = MAX_BLOCK" using m by (simp_all add: mounted_def)
  have len12: "length (direct_blocks ?f) = 12" using p by (simp add: placed_def)
  have bnz: "b \<in> nz ?f" using b bi len12 by (auto simp: nz_def)
  then have bv: "in_vol ?e b" "b \<notin> meta ?e" "b \<noteq> ib" using p by (auto simp: placed_def)
  have lenb: "length (blk w x) = bsz ?e" for x using length_blk [OF geo(1,2)] .
  let ?s = "blit 0 (blk w b) (scratch w)"
  have lens: "length ?s = MAX_BLOCK" "bsz ?e \<le> MAX_BLOCK" using lenb geo geometry_bounds [OF geo(2)] by simp_all
  have put: "put r src ?s = Some (blit r src ?s)" using fit lens by (simp add: put_def)
  let ?w1 = "w\<lparr>scratch := blit r src ?s\<rparr>"
  have "mounted ?w1" using mounted_scratch [OF m] lens fit by simp
  from write_block_ok [OF this, of b] bv(1) obtain w' where w': "write_block_from_scratch b ?w1 = (True, w')" "mounted w'" "st w' = ?e"
    "\<And>b'. in_vol ?e b' \<Longrightarrow> blk w' b' = (if b' = b then take (bsz ?e) (blit r src ?s) else blk w b')" by auto
  have new: "take (bsz ?e) (blit r src ?s) = blit r src (blk w b)"
    using take_blit_prefix [OF fit, of ?s] lens lenb by (simp add: blit_def)
  have meta: "blk w' x = blk w x" if "x \<in> meta ?e" for x using w'(4) [of x] that l bv(2) by (auto simp: layout_def)
  have c: "core (st w') = core ?e" using w'(3) by simp
  have ibs: "blk w' ib = blk w ib" using w'(4) [of ib] p bv(3) by (simp add: placed_def)
  then have ok': "file_ok w' ib base ?f"
    using alloc_inv_frame [OF inv w'(2) c meta] held_frame [OF c l meta] p h d w'(3) by (simp add: file_ok_def disk_inode_def)
  have blocks: "map (file_block w') (direct_blocks ?f) = (map (file_block w) (direct_blocks ?f))[bi := blit r src (map (file_block w) (direct_blocks ?f) ! bi)]"
  proof (rule nth_equalityI)
    fix j assume "j < length (map (file_block w') (direct_blocks ?f))"
    then have j: "j < 12" using len12 by simp
    let ?x = "direct_blocks ?f ! j"
    have "?x \<noteq> 0 \<Longrightarrow> in_vol ?e ?x" using p j len12 by (auto simp: placed_def nz_def)
    moreover have "?x = b \<longleftrightarrow> j = bi" using p j bi b by (auto simp: placed_def)
    ultimately have "file_block w' ?x = (if j = bi then blit r src (file_block w ?x) else file_block w ?x)"
      using w'(3) w'(4) [of ?x] new b by (auto simp: file_block_def)
    then show "map (file_block w') (direct_blocks ?f) ! j = ((map (file_block w) (direct_blocks ?f))[bi := blit r src (map (file_block w) (direct_blocks ?f) ! bi)]) ! j"
      using j bi len12 by (simp add: nth_list_update_if)
  qed simp
  have "file_view w' ?f = blit (bi * bsz ?e + r) src (file_view w ?f)"
    unfolding file_view_def blocks
    using concat_update_blit [of "map (file_block w) (direct_blocks ?f)" "bsz ?e" bi r src] bi len12 fit length_file_block [OF m]
    by simp
  moreover have "progress i ib base w w'"
    using i ok' w'(3) w'(4) bnz only_adds_same [OF ok c _ ibs meta] by (auto simp: progress_def)
  ultimately show ?thesis using read_block_ok [OF m, of b] put w'(1,3) by auto
qed

lemma join_blits:
  assumes "n \<le> length xs" "p + length xs \<le> length F"
  shows "blit (p + n) (drop n xs) (blit p (take n xs) F) = blit p xs F"
  using assms by (simp add: blit_def ac_simps)

text \<open>The result of the write loop that has reached \<open>k\<close>.\<close>

definition written :: "nat \<Rightarrow> u32 \<Rightarrow> nat \<Rightarrow> bytes \<Rightarrow> nat \<Rightarrow> Ext2 \<Rightarrow> nat \<Rightarrow> bool \<Rightarrow> Ext2 \<Rightarrow> bool" where
  "written i ib base buf k w n big w' \<longleftrightarrow> (let f = e_fds (st w) ! i; off = unat (ef_offset f) in
    k \<le> n \<and> n \<le> length buf \<and> (k < n \<longrightarrow> off + n \<le> 12 * bsz (st w)) \<and> progress i ib base w w'
    \<and> file_view w' (e_fds (st w') ! i) = blit (off + k) (take (n - k) (drop k buf)) (file_view w f)
    \<and> (\<forall>j < 12. direct_blocks (e_fds (st w') ! i) ! j \<noteq> direct_blocks f ! j \<longrightarrow>
         off + k < (j + 1) * bsz (st w) \<and> j * bsz (st w) < off + n)
    \<and> (n < length buf \<longrightarrow> (big \<longleftrightarrow> 12 * bsz (st w) \<le> off + n)
         \<and> (\<not> big \<longrightarrow> disk_full w' \<and> direct_blocks (e_fds (st w') ! i) ! ((off + n) div bsz (st w)) = 0)))"

lemma blit_nothing [simp]: "blit p [] F = F"
  by (simp add: blit_def)

lemma write_loop_ok:
  "\<lbrakk>file_ok w ib base (e_fds (st w) ! i); i < length (e_fds (st w)); k \<le> length buf; offset = ef_offset (e_fds (st w) ! i)\<rbrakk>
    \<Longrightarrow> \<exists>n big w'. ext2_write_loop i pg (bsz (st w)) offset buf k w = Some (n, big, w') \<and> written i ib base buf k w n big w'"
proof (induction "length buf - k" arbitrary: k w rule: less_induct)
  case less
  let ?f = "e_fds (st w) ! i" and ?e = "st w"
  let ?o = "unat offset" and ?B = "bsz (st w)"
  have m: "mounted w" and l: "layout ?e" and p: "placed ?e ib base ?f"
    using less.prems(1) by (simp_all add: file_ok_def alloc_inv_def)
  have B: "0 < ?B" using m geometry_bounds(5) by (simp add: mounted_def)
  note refl = progress_refl [OF less.prems(1,2)]
  show ?case
  proof (cases "k < length buf")
    case False
    then have "ext2_write_loop i pg ?B offset buf k w = Some (k, False, w)" by (subst ext2_write_loop.simps) simp
    then show ?thesis using False less.prems(3) refl by (auto simp: written_def)
  next
    case k: True
    let ?p = "?o + k"
    let ?i = "?p div ?B" and ?r = "?p mod ?B"
    let ?a = "min (?B - ?r) (length buf - k)"
    show ?thesis
    proof (cases "?i < 12")
      case False
      then have big: "12 * ?B \<le> ?p" using B by (simp add: div_less_iff_less_mult not_less)
      have "ext2_write_loop i pg ?B offset buf k w = Some (k, True, w)"
        using k B False by (subst ext2_write_loop.simps) (simp add: Let_def)
      moreover have "written i ib base buf k w k True w"
        using k refl big less.prems(4) by (simp add: written_def Let_def)
      ultimately show ?thesis by blast
    next
      case i12: True
      then have small: "?p < 12 * ?B" using B by (simp add: div_less_iff_less_mult)
      obtain b w1 where wb: "write_block_for i pg ?i w = Some (b, w1)" and p1: "progress i ib base w w1"
        and v1: "file_view w1 (e_fds (st w1) ! i) = file_view w ?f"
        and b: "if b = 0 then disk_full w1 \<and> direct_blocks (e_fds (st w1) ! i) ! ?i = 0 \<and> direct_blocks ?f ! ?i = 0
          else direct_blocks (e_fds (st w1) ! i) ! ?i = b"
        and d1: "\<And>j. j \<noteq> ?i \<Longrightarrow> direct_blocks (e_fds (st w1) ! i) ! j = direct_blocks ?f ! j"
        using block_for_ok [OF less.prems(1,2) i12] by blast
      let ?f1 = "e_fds (st w1) ! i"
      have f1: "file_ok w1 ib base ?f1" "i < length (e_fds (st w1))" "ef_offset ?f1 = offset"
      proof -
        have "?f1 = ?f\<lparr>direct_blocks := direct_blocks ?f1\<rparr>" using p1 unfolding progress_def Let_def by blast
        then have "ef_offset ?f1 = ef_offset (?f\<lparr>direct_blocks := direct_blocks ?f1\<rparr>)" by (rule arg_cong)
        then show "ef_offset ?f1 = offset" using less.prems(4) by simp
        have "e_fds (st w1) = (e_fds ?e)[i := ?f1]" using p1 unfolding progress_def Let_def by blast
        then show "i < length (e_fds (st w1))" using less.prems(2) by (metis length_list_update)
        show "file_ok w1 ib base ?f1" using p1 unfolding progress_def Let_def by blast
      qed
      note pl = progress_layout [OF p1 l]
      show ?thesis
      proof (cases "b = 0")
        case True
        have "ext2_write_loop i pg ?B offset buf k w = Some (k, False, w1)"
          using k B i12 wb True by (subst ext2_write_loop.simps) (simp add: Let_def)
        moreover have "direct_blocks ?f1 ! j = direct_blocks ?f ! j" for j using b True d1 [of j] by (cases "j = ?i") simp_all
        then have "written i ib base buf k w k False w1"
          using k p1 v1 b True small less.prems(4) by (simp add: written_def)
        ultimately show ?thesis by blast
      next
        case False
        let ?src = "take ?a (drop k buf)"
        have r: "?r < ?B" using B by simp
        have a: "0 < ?a" "?a \<le> length buf - k" "?r + ?a \<le> ?B" using k r by linarith+
        have la: "length ?src = ?a" using a(2) by simp
        have fit: "?r + length ?src \<le> bsz (st w1)" using a(3) la pl(3) by simp
        have bb: "direct_blocks ?f1 ! ?i = b" using b False by simp
        obtain s s' w2 where c: "read_block_into_scratch b w1 = (True, w1\<lparr>scratch := s\<rparr>)" "put ?r ?src s = Some s'"
            "write_block_from_scratch b (w1\<lparr>scratch := s'\<rparr>) = (True, w2)" and p2: "progress i ib base w1 w2"
          and d2: "direct_blocks (e_fds (st w2) ! i) = direct_blocks ?f1"
          and v2: "file_view w2 (e_fds (st w2) ! i) = blit (?i * bsz (st w1) + ?r) ?src (file_view w1 ?f1)"
          using write_chunk_ok [OF f1(1,2) i12 bb False fit] by blast
        let ?f2 = "e_fds (st w2) ! i"
        have p02: "progress i ib base w w2" by (rule progress_trans [OF p1 p2 l])
        have f2: "file_ok w2 ib base ?f2" "i < length (e_fds (st w2))" "ef_offset ?f2 = offset"
        proof -
          have "?f2 = ?f1\<lparr>direct_blocks := direct_blocks ?f2\<rparr>" using p2 unfolding progress_def Let_def by blast
          then have "ef_offset ?f2 = ef_offset (?f1\<lparr>direct_blocks := direct_blocks ?f2\<rparr>)" by (rule arg_cong)
          then show "ef_offset ?f2 = offset" using f1(3) by simp
          have "e_fds (st w2) = (e_fds (st w1))[i := ?f2]" using p2 unfolding progress_def Let_def by blast
          then show "i < length (e_fds (st w2))" using f1(2) by (metis length_list_update)
          show "file_ok w2 ib base ?f2" using p2 unfolding progress_def Let_def by blast
        qed
        have B2: "bsz (st w2) = ?B" using progress_layout(3) [OF p02 l] .
        have view: "file_view w2 ?f2 = blit ?p ?src (file_view w ?f)" using v2 v1 pl(3) by simp
        have step: "ext2_write_loop i pg ?B offset buf k w = ext2_write_loop i pg ?B offset buf (k + ?a) w2"
          using k B i12 wb False c by (subst ext2_write_loop.simps) (simp add: Let_def)
        have "length buf - (k + ?a) < length buf - k" "k + ?a \<le> length buf" using a k by simp_all
        from less.hyps [OF this(1) f2(1,2) this(2) f2(3) [symmetric]] B2 obtain n big w' where
          L: "ext2_write_loop i pg ?B offset buf (k + ?a) w2 = Some (n, big, w')" and W: "written i ib base buf (k + ?a) w2 n big w'" by auto
        have n: "k + ?a \<le> n" "n \<le> length buf" "k + ?a < n \<longrightarrow> ?o + n \<le> 12 * ?B" "progress i ib base w2 w'"
          "n < length buf \<longrightarrow> (big \<longleftrightarrow> 12 * ?B \<le> ?o + n)
            \<and> (\<not> big \<longrightarrow> disk_full w' \<and> direct_blocks (e_fds (st w') ! i) ! ((?o + n) div ?B) = 0)"
          "\<And>j. j < 12 \<Longrightarrow> direct_blocks (e_fds (st w') ! i) ! j \<noteq> direct_blocks ?f2 ! j \<Longrightarrow> ?o + (k + ?a) < (j + 1) * ?B \<and> j * ?B < ?o + n"
          and v': "file_view w' (e_fds (st w') ! i) = blit (?o + (k + ?a)) (take (n - (k + ?a)) (drop (k + ?a) buf)) (file_view w2 ?f2)"
          using W f2(3) B2 by (simp_all add: written_def Let_def)
        have end': "?o + n \<le> 12 * ?B"
        proof (cases "k + ?a < n")
          case False
          then have "?o + n = ?p + ?a" using n(1) by simp
          also have "\<dots> \<le> ?i * ?B + ?B" using a(3) div_mult_mod_eq [of ?p ?B] by linarith
          also have "\<dots> \<le> 12 * ?B" using i12 mult_le_mono1 [of "Suc ?i" 12 ?B] by simp
          finally show ?thesis .
        qed (use n(3) in simp)
        have "file_view w' (e_fds (st w') ! i) = blit ?p (take (n - k) (drop k buf)) (file_view w ?f)"
        proof -
          let ?xs = "take (n - k) (drop k buf)"
          have lx: "?a \<le> length ?xs" "?p + length ?xs \<le> length (file_view w ?f)"
            using n(1,2) end' length_file_view [OF m, of ?f] p k by (simp_all add: placed_def mult.commute)
          have pieces: "take a (take (n - k) (drop k buf)) = take a (drop k buf)"
            "drop a (take (n - k) (drop k buf)) = take (n - (k + a)) (drop (k + a) buf)" if "k + a \<le> n" for a
            using that by (simp_all add: drop_take add.commute)
          have "take ?a ?xs = ?src" "drop ?a ?xs = take (n - (k + ?a)) (drop (k + ?a) buf)"
            using pieces [OF n(1)] by blast+
          then show ?thesis using v' view join_blits [OF lx] by (simp add: add.assoc)
        qed
        moreover have "?p < (j + 1) * ?B \<and> j * ?B < ?o + n"
          if "j < 12" "direct_blocks (e_fds (st w') ! i) ! j \<noteq> direct_blocks ?f ! j" for j
        proof (cases "j = ?i")
          case True
          have "?i * ?B \<le> ?p" "?p < (?i + 1) * ?B" using B dividend_less_div_times [of ?B ?p] by (simp_all add: add.commute)
          then show ?thesis unfolding True using n(1) a(1) by linarith
        next
          case False
          then have "direct_blocks (e_fds (st w') ! i) ! j \<noteq> direct_blocks ?f2 ! j" using that(2) d1 d2 by simp
          then show ?thesis using n(6) [OF that(1)] by linarith
        qed
        ultimately have "written i ib base buf k w n big w'"
          using n(1-5) end' a progress_trans [OF p02 n(4) l] less.prems(4) by (simp add: written_def Let_def)
        then show ?thesis using step L by auto
      qed
    qed
  qed
qed

text \<open>Fields of the inode record away from its size and its block pointers.\<close>

lemma disk_inode_blit:
  assumes "disk_inode w ib base f" "blk w' ib = blit off src (blk w ib)" "off + length src \<le> length (blk w ib)" "base + 128 \<le> length (blk w ib)"
    "base + 8 \<le> off \<and> off + length src \<le> base + 40" "ef_size f' = ef_size f" "direct_blocks f' = direct_blocks f"
  shows "disk_inode w' ib base f'"
  unfolding disk_inode_def assms(2,6,7)
proof (intro conjI allI impI)
  show "rd32 (blit off src (blk w ib)) (base + 4) = ef_size f"
    using assms rd32_blit_other [of off src "blk w ib" "base + 4"] by (simp add: disk_inode_def)
  fix j :: nat assume "j < 12"
  then show "rd32 (blit off src (blk w ib)) (base + 40 + j * 4) = direct_blocks f ! j"
    using assms rd32_blit_other [of off src "blk w ib" "base + 40 + j * 4"] by (simp add: disk_inode_def)
qed

lemma disk_inode_size:
  assumes "disk_inode w ib base f" "blk w' ib = blit (base + 4) (le32 v) (blk w ib)" "base + 128 \<le> length (blk w ib)"
    "ef_size f' = v" "direct_blocks f' = direct_blocks f"
  shows "disk_inode w' ib base f'"
  unfolding disk_inode_def assms(2,4,5)
proof (intro conjI allI impI)
  show "rd32 (blit (base + 4) (le32 v) (blk w ib)) (base + 4) = v" using assms(3) by (simp add: rd32_blit)
  fix j :: nat assume "j < 12"
  then show "rd32 (blit (base + 4) (le32 v) (blk w ib)) (base + 40 + j * 4) = direct_blocks f ! j"
    using assms rd32_blit_other [of "base + 4" "le32 v" "blk w ib" "base + 40 + j * 4"] by (simp add: disk_inode_def)
qed

text \<open>Recording a new offset and size after the loop.\<close>

lemma finish_write_ok:
  assumes ok: "file_ok w ib base f" and i: "i < length (e_fds (st w))"
    and f': "f' = f\<lparr>ef_offset := off, ef_size := (if ef_size f < off then off else ef_size f)\<rparr>"
  shows "\<exists>w2 w3. (if ef_size f < off then map_option snd (update_inode_size (inode_no f) off (set_fd i f' w)) else Some (set_fd i f' w)) = Some w2
    \<and> update_inode_times (inode_no f) w2 = Some (True, w3) \<and> file_ok w3 ib base f' \<and> file_view w3 f' = file_view w f
    \<and> st w3 = st (set_fd i f' w)
    \<and> (\<forall>b'. in_vol (st w) b' \<longrightarrow> b' \<noteq> ib \<longrightarrow> blk w3 b' = blk w b')
    \<and> (\<forall>p < bsz (st w). p \<notin> {base + 4..<base + 20} \<longrightarrow> blk w3 ib ! p = blk w ib ! p)
    \<and> (\<forall>p \<in> {base + 8..<base + 20}. blk w3 ib ! p = 0)"
proof -
  let ?e = "st w" and ?w1 = "set_fd i f' w"
  have m: "mounted w" and l: "layout ?e" and p: "placed ?e ib base f" and d: "disk_inode w ib base f"
    using ok by (simp_all add: file_ok_def alloc_inv_def)
  have geo: "sound 3 (drives w)" "geometry ?e" using m by (simp_all add: mounted_def)
  have loc: "inode_location ?e (inode_no f) = Some (Some (ib, base))" "in_vol ?e ib" "base + 128 \<le> bsz ?e" using p by (simp_all add: placed_def)
  have len: "length (blk w ib) = bsz ?e" using length_blk [OF geo] .
  have same: "direct_blocks f' = direct_blocks f" "inode_no f' = inode_no f" using f' by simp_all
  obtain w2 where w2: "(if ef_size f < off then map_option snd (update_inode_size (inode_no f) off ?w1) else Some ?w1) = Some w2"
      "mounted w2" "st w2 = st ?w1" "\<And>b'. in_vol ?e b' \<Longrightarrow> b' \<noteq> ib \<Longrightarrow> blk w2 b' = blk w b'" "disk_inode w2 ib base f'"
      "length (blk w2 ib) = bsz ?e" "\<And>p. p < bsz ?e \<Longrightarrow> p \<notin> {base + 4..<base + 8} \<Longrightarrow> blk w2 ib ! p = blk w ib ! p"
  proof (cases "ef_size f < off")
    case False
    have "disk_inode ?w1 ib base f'" using d f' False by (simp add: disk_inode_def)
    then show thesis using that [of ?w1] False m len by simp
  next
    case True
    have "fits (bsz (st ?w1) - base) [(4, le32 off)]" "base \<le> bsz (st ?w1)" using loc(3) by (auto simp: fits_def)
    from patch_inode_ok [of ?w1 "inode_no f" ib base, OF _ _ _ this] m loc obtain w2 where
      w2: "update_inode_size (inode_no f) off ?w1 = Some (True, w2)" "mounted w2" "st w2 = st ?w1"
        "\<And>b'. in_vol ?e b' \<Longrightarrow> blk w2 b' = (if b' = ib then blit (base + 4) (le32 off) (blk w ib) else blk w b')"
      by (auto simp: update_inode_size_def)
    have "disk_inode w2 ib base f'"
      by (rule disk_inode_size [OF d]) (use w2(4) [OF loc(2)] f' True loc(3) len in simp_all)
    moreover have "blk w2 ib ! p = blk w ib ! p" if "p < bsz ?e" "p \<notin> {base + 4..<base + 8}" for p
      using that w2(4) [OF loc(2)] loc(3) len by (auto simp: nth_blit_outside)
    ultimately show thesis using that [of w2] w2 True loc(2,3) len by simp
  qed
  have "st w2 = st (set_fd i f' w)" by (rule w2(3))
  then have e2: "inode_location (st w2) = inode_location ?e" "in_vol (st w2) = in_vol ?e" "bsz (st w2) = bsz ?e" by simp_all
  have "fits (bsz (st w2) - base) [(8, replicate 12 0)]" "base \<le> bsz (st w2)" using loc(3) e2 by (auto simp: fits_def)
  from patch_inode_ok [OF w2(2) _ _ this, of "inode_no f" ib] loc e2 obtain w3 where
    w3: "update_inode_times (inode_no f) w2 = Some (True, w3)" "mounted w3" "st w3 = st w2"
      "\<And>b'. in_vol ?e b' \<Longrightarrow> blk w3 b' = (if b' = ib then blit (base + 8) (replicate 12 0) (blk w2 ib) else blk w2 b')"
    by (auto simp: update_inode_times_def)
  have c: "core (st w3) = core ?e" using w3(3) w2(3) by simp
  have "disk_inode w3 ib base f'"
    by (rule disk_inode_blit [OF w2(5), where off = "base + 8" and src = "replicate 12 0"]) (use w3(4) [OF loc(2)] loc(3) w2(6) in simp_all)
  moreover have blks: "blk w3 b' = blk w b'" if "in_vol ?e b'" "b' \<noteq> ib" for b' using w3(4) [OF that(1)] w2(4) that by simp
  ultimately have "file_ok w3 ib base f'" "file_view w3 f' = file_view w f"
    using file_ok_patch [OF ok w3(2) c _ same] by blast+
  moreover have "blk w3 ib ! p = (if p \<in> {base + 8..<base + 20} then 0 else blk w2 ib ! p)" if "p < bsz ?e" for p
    using that w3(4) [OF loc(2)] loc(3) w2(6) by (auto simp: nth_blit)
  then have "p < bsz ?e \<Longrightarrow> p \<notin> {base + 4..<base + 20} \<Longrightarrow> blk w3 ib ! p = blk w ib ! p"
    "p \<in> {base + 8..<base + 20} \<Longrightarrow> blk w3 ib ! p = 0" for p
    using w2(7) [of p] loc(3) by auto
  ultimately show ?thesis using w2(1) w3(1) blks w3(3) w2(3) by (intro exI [of _ w2] exI [of _ w3]) simp
qed

text \<open>The call around the loop.\<close>

lemma write_fd_call:
  assumes ok: "file_ok w ib base f" and f: "f = e_fds (st w) ! i" and i: "i = ext2_slot fd" "i < length (e_fds (st w))"
    and fd: "e_ready (st w)" "is_ext2_fd fd" "ef_active f" "ef_writable f"
  shows "\<exists>n big w1. written i ib base buf 0 w n big w1 \<and>
    ext2_write_fd fd buf w = (if n = 0 then Some (if buf = [] then 0 else if big then EFBIG else ENOSPC, w1)
      else (let f1 = e_fds (st w1) ! i; off = ef_offset f1 + of_nat n; f2 = f1\<lparr>ef_offset := off\<rparr> in
        do { w2 \<leftarrow> (if off > ef_size f2 then map_option snd (update_inode_size (inode_no f2) off (set_fd i (f2\<lparr>ef_size := off\<rparr>) w1))
                    else Some (set_fd i f2 w1));
             (_, w3) \<leftarrow> update_inode_times (inode_no f2) w2; Some (int n, w3) }))"
proof -
  have "placed (st w) ib base f" using ok by (simp add: file_ok_def)
  then obtain g where g: "group_of (st w) (inode_no f) = Some g"
    by (auto simp: placed_def inode_location_def group_of_def inode_to_group_bit_def split: if_splits)
  obtain n big w1 where "ext2_write_loop i g (bsz (st w)) (ef_offset f) buf 0 w = Some (n, big, w1)" "written i ib base buf 0 w n big w1"
    using write_loop_ok [of w ib base i 0 buf "ef_offset f" g] ok f i(2) by auto
  then show ?thesis using fd f i(1) g
    by (intro exI [of _ n] exI [of _ big] exI [of _ w1]) (simp add: ext2_write_fd_def Let_def bsz_def)
qed

lemma used_set_fd:
  assumes "file_ok w ib base f" "st w' = st (set_fd i f' w)" "\<And>b'. in_vol (st w) b' \<Longrightarrow> b' \<noteq> ib \<Longrightarrow> blk w' b' = blk w b'"
    and "g < ngroups (st w)"
  shows "used w' g k = used w g k"
proof -
  have l: "layout (st w)" "ib \<notin> meta (st w)" using assms(1) by (simp_all add: file_ok_def alloc_inv_def placed_def)
  have c: "core (st w') = core (st w)" using assms(2) by simp
  show ?thesis by (rule used_frame [OF c l(1) _ assms(4)]) (use assms(3) l in \<open>auto simp: layout_def\<close>)
qed

lemma disk_full_set_fd:
  assumes "file_ok w ib base f" "st w' = st (set_fd i f' w)" "\<And>b'. in_vol (st w) b' \<Longrightarrow> b' \<noteq> ib \<Longrightarrow> blk w' b' = blk w b'"
  shows "disk_full w' = disk_full w"
proof -
  have l: "layout (st w)" using assms(1) by (simp add: file_ok_def alloc_inv_def)
  have c: "core (st w') = core (st w)" using assms(2) by simp
  show ?thesis using used_set_fd [OF assms] layout_core(3,4) [OF c l] assms(2) by (simp add: disk_full_def set_fd_def)
qed

definition write_outcome :: "u32 \<Rightarrow> nat \<Rightarrow> nat \<Rightarrow> Ext2 \<Rightarrow> Ext2Fd \<Rightarrow> bytes \<Rightarrow> nat \<Rightarrow> Ext2 \<Rightarrow> Ext2Fd \<Rightarrow> bool" where
  "write_outcome ib base i w f buf n w' f' \<longleftrightarrow> f' = e_fds (st w') ! i \<and> n \<le> length buf
    \<and> file_ok w' ib base f' \<and> file_view w' f' = blit (unat (ef_offset f)) (take n buf) (file_view w f)
    \<and> unat (ef_offset f') = unat (ef_offset f) + n
    \<and> unat (ef_size f') = (if n = 0 then unat (ef_size f) else max (unat (ef_size f)) (unat (ef_offset f) + n))
    \<and> (n < length buf \<longrightarrow> 12 * bsz (st w) \<le> unat (ef_offset f) + n
         \<or> disk_full w' \<and> direct_blocks f' ! ((unat (ef_offset f) + n) div bsz (st w)) = 0)
    \<and> (\<forall>j < 12. direct_blocks f' ! j \<noteq> direct_blocks f ! j \<longrightarrow> direct_blocks f ! j = 0
         \<and> unat (ef_offset f) < (j + 1) * bsz (st w) \<and> j * bsz (st w) < unat (ef_offset f) + n)
    \<and> (\<forall>g < ngroups (st w). \<forall>k < bpg (st w). used w' g k \<longleftrightarrow> used w g k \<or> data_block (st w) g k \<in> nz f')
    \<and> core (st w') = core (st w) \<and> e_fds (st w') = (e_fds (st w))[i := f']
    \<and> f' = f\<lparr>ef_offset := ef_offset f', ef_size := ef_size f', direct_blocks := direct_blocks f'\<rparr>
    \<and> (\<forall>p < bsz (st w). p \<notin> {base + 40..<base + 88} \<union> (if n = 0 then {} else {base + 4..<base + 20}) \<longrightarrow>
         blk w' ib ! p = blk w ib ! p)
    \<and> (n \<noteq> 0 \<longrightarrow> (\<forall>p \<in> {base + 8..<base + 20}. blk w' ib ! p = 0))
    \<and> (\<forall>b'. in_vol (st w) b' \<longrightarrow> b' \<notin> insert ib (meta (st w)) \<union> nz f' \<longrightarrow> blk w' b' = blk w b')"

lemma written_facts:
  assumes "written i ib base buf 0 w n big w1" "f = e_fds (st w) ! i" "f1 = e_fds (st w1) ! i"
  shows "n \<le> length buf" "0 < n \<Longrightarrow> unat (ef_offset f) + n \<le> 12 * bsz (st w)" "file_ok w1 ib base f1"
    "file_view w1 f1 = blit (unat (ef_offset f)) (take n buf) (file_view w f)" "core (st w1) = core (st w)"
    "n < length buf \<Longrightarrow> (big \<longleftrightarrow> 12 * bsz (st w) \<le> unat (ef_offset f) + n)
      \<and> (\<not> big \<longrightarrow> disk_full w1 \<and> direct_blocks f1 ! ((unat (ef_offset f) + n) div bsz (st w)) = 0)"
    "ef_offset f1 = ef_offset f" "ef_size f1 = ef_size f" "inode_no f1 = inode_no f" "i < length (e_fds (st w1))"
    "\<And>b'. in_vol (st w) b' \<Longrightarrow> b' \<notin> insert ib (meta (st w)) \<union> nz f1 \<Longrightarrow> blk w1 b' = blk w b'"
    "f1 = f\<lparr>direct_blocks := direct_blocks f1\<rparr>" "e_fds (st w1) = (e_fds (st w))[i := f1]"
    "\<And>j. j < 12 \<Longrightarrow> direct_blocks f1 ! j \<noteq> direct_blocks f ! j \<Longrightarrow> direct_blocks f ! j = 0
       \<and> unat (ef_offset f) < (j + 1) * bsz (st w) \<and> j * bsz (st w) < unat (ef_offset f) + n"
    "\<And>p. p < bsz (st w) \<Longrightarrow> p \<notin> {base + 40..<base + 88} \<Longrightarrow> blk w1 ib ! p = blk w ib ! p"
    "\<And>g k. g < ngroups (st w) \<Longrightarrow> k < bpg (st w) \<Longrightarrow> used w1 g k \<longleftrightarrow> used w g k \<or> data_block (st w) g k \<in> nz f1"
proof -
  have pr: "progress i ib base w w1" using assms(1) by (simp add: written_def Let_def)
  then have f1: "f1 = f\<lparr>direct_blocks := direct_blocks f1\<rparr>" and fds: "e_fds (st w1) = (e_fds (st w))[i := f1]" and i: "i < length (e_fds (st w))"
    and add: "only_adds i ib base w w1" and rest: "file_ok w1 ib base f1" "core (st w1) = core (st w)"
      "\<And>b'. in_vol (st w) b' \<Longrightarrow> b' \<notin> insert ib (meta (st w)) \<union> nz f1 \<Longrightarrow> blk w1 b' = blk w b'"
    unfolding progress_def Let_def assms(2,3) by blast+
  show "file_ok w1 ib base f1" "core (st w1) = core (st w)"
    "\<And>b'. in_vol (st w) b' \<Longrightarrow> b' \<notin> insert ib (meta (st w)) \<union> nz f1 \<Longrightarrow> blk w1 b' = blk w b'" by (fact rest)+
  show "ef_offset f1 = ef_offset f" "ef_size f1 = ef_size f" "inode_no f1 = inode_no f"
    using arg_cong [OF f1, of ef_offset] arg_cong [OF f1, of ef_size] arg_cong [OF f1, of inode_no] by simp_all
  show "i < length (e_fds (st w1))" using i fds by (metis length_list_update)
  show "f1 = f\<lparr>direct_blocks := direct_blocks f1\<rparr>" "e_fds (st w1) = (e_fds (st w))[i := f1]" by (fact f1 fds)+
  note add = add [unfolded only_adds_def Let_def, folded assms(2,3)]
  show "p < bsz (st w) \<Longrightarrow> p \<notin> {base + 40..<base + 88} \<Longrightarrow> blk w1 ib ! p = blk w ib ! p"
    "g < ngroups (st w) \<Longrightarrow> k < bpg (st w) \<Longrightarrow> used w1 g k \<longleftrightarrow> used w g k \<or> data_block (st w) g k \<in> nz f1" for p g k
    using add by blast+
  have "\<forall>j < 12. direct_blocks f1 ! j \<noteq> direct_blocks f ! j \<longrightarrow>
      unat (ef_offset f) < (j + 1) * bsz (st w) \<and> j * bsz (st w) < unat (ef_offset f) + n"
    using assms by (simp add: written_def Let_def)
  then show "direct_blocks f ! j = 0 \<and> unat (ef_offset f) < (j + 1) * bsz (st w) \<and> j * bsz (st w) < unat (ef_offset f) + n"
    if "j < 12" "direct_blocks f1 ! j \<noteq> direct_blocks f ! j" for j
    using add that by blast
qed (use assms in \<open>simp_all add: written_def Let_def\<close>)

lemma write_fd_stored:
  assumes W: "written i ib base buf 0 w n big w1" and f: "f = e_fds (st w) ! i" and n: "n \<noteq> 0" and geo: "geometry (st w)" and lay: "layout (st w)"
  defines "f1 \<equiv> e_fds (st w1) ! i"
  defines "off \<equiv> ef_offset f1 + of_nat n"
  defines "f' \<equiv> f1\<lparr>ef_offset := off, ef_size := (if ef_size f1 < off then off else ef_size f1)\<rparr>"
  shows "\<exists>w2 w3. (if ef_size f1 < off then map_option snd (update_inode_size (inode_no f1) off (set_fd i f' w1)) else Some (set_fd i f' w1)) = Some w2
    \<and> update_inode_times (inode_no f1) w2 = Some (True, w3) \<and> write_outcome ib base i w f buf n w3 f'"
proof -
  note W = written_facts [OF W f f1_def [THEN meta_eq_to_obj_eq]]
  have "unat (ef_offset f) + n \<le> 49152" using W(2) n geometry_bounds(1,3) [OF geo] by linarith
  then have o: "unat off = unat (ef_offset f) + n" using W(7) by (simp add: off_def unat_word_ariths unat_of_nat_small)
  have "f' = f1\<lparr>ef_offset := off, ef_size := (if ef_size f1 < off then off else ef_size f1)\<rparr>" by (simp add: f'_def)
  from finish_write_ok [OF W(3,10) this] obtain w2 w3 where
    F: "(if ef_size f1 < off then map_option snd (update_inode_size (inode_no f1) off (set_fd i f' w1)) else Some (set_fd i f' w1)) = Some w2"
      "update_inode_times (inode_no f1) w2 = Some (True, w3)" "file_ok w3 ib base f'" "file_view w3 f' = file_view w1 f1"
      "st w3 = st (set_fd i f' w1)" "\<And>b'. in_vol (st w1) b' \<Longrightarrow> b' \<noteq> ib \<Longrightarrow> blk w3 b' = blk w1 b'"
      "\<And>p. p < bsz (st w1) \<Longrightarrow> p \<notin> {base + 4..<base + 20} \<Longrightarrow> blk w3 ib ! p = blk w1 ib ! p"
      "\<And>p. p \<in> {base + 8..<base + 20} \<Longrightarrow> blk w3 ib ! p = 0" by blast
  have "e_fds (st w3) ! i = f'" using F(5) W(10) by simp
  moreover have "unat (ef_size f') = max (unat (ef_size f)) (unat (ef_offset f) + n)" using o W(8) by (auto simp: f'_def word_less_nat_alt)
  moreover have "blk w3 b' = blk w b'" if "in_vol (st w) b'" "b' \<notin> insert ib (meta (st w)) \<union> nz f'" for b'
    using F(6) [of b'] W(11) [of b'] that core_fields(15) [OF W(5)] by (simp add: f'_def nz_def)
  moreover have "n < length buf \<longrightarrow> 12 * bsz (st w) \<le> unat (ef_offset f) + n
      \<or> disk_full w3 \<and> direct_blocks f' ! ((unat (ef_offset f) + n) div bsz (st w)) = 0"
    using W(6) disk_full_set_fd [OF W(3) F(5,6)] by (auto simp: f'_def)
  moreover have "used w3 g k \<longleftrightarrow> used w g k \<or> data_block (st w) g k \<in> nz f'" if "g < ngroups (st w)" "k < bpg (st w)" for g k
    using W(16) [OF that] used_set_fd [OF W(3) F(5,6), of g k] that layout_core(3) [OF W(5) lay] by (simp add: f'_def nz_def)
  moreover have "f' = f\<lparr>ef_offset := ef_offset f', ef_size := ef_size f', direct_blocks := direct_blocks f'\<rparr>"
  proof -
    have "f' = (f\<lparr>direct_blocks := direct_blocks f1\<rparr>)\<lparr>ef_offset := ef_offset f', ef_size := ef_size f'\<rparr>"
      using W(12) by (simp add: f'_def)
    then show ?thesis by (simp add: f'_def)
  qed
  moreover have "core (st w3) = core (st w)" "e_fds (st w3) = (e_fds (st w))[i := f']"
    using F(5) W(5,13) by simp_all
  moreover have "blk w3 ib ! p = blk w ib ! p" if "p < bsz (st w)" "p \<notin> {base + 40..<base + 88} \<union> {base + 4..<base + 20}" for p
    using F(7) [of p] W(15) [of p] that core_fields(13) [OF W(5)] by simp
  moreover have "direct_blocks f' = direct_blocks f1" by (simp add: f'_def)
  ultimately have "write_outcome ib base i w f buf n w3 f'"
    unfolding write_outcome_def using W(1,4,14) F(3,4,8) n o by (simp add: f'_def)
  then show ?thesis using F(1,2) by blast
qed

text \<open>C21. Writing to an open ext2 file never panics. It stores the longest prefix of the
  buffer that the twelve direct blocks and the free space allow, and returns its length, or
  EFBIG or ENOSPC if it is empty; it stops early only at the end of the twelfth block or
  at a hole when the allocator has no block left. The file's bytes change exactly from the
  offset on. Blocks are allocated only for holes in the range written: the blocks the file
  has stay, and the bitmaps gain exactly the new ones. The offset advances and the size
  grows if needed; every other descriptor and every other field of this one is unchanged.
  Of the block with the inode record only the pointers, the size and the three times
  change, the times to zero, and the record then has the new size and pointers. Apart from
  it only blocks of the file and the allocator's own blocks change.\<close>
theorem ext2_write_fd_correct:
  assumes "file_ok w ib base f" "f = e_fds (st w) ! ext2_slot fd" "e_ready (st w)" "is_ext2_fd fd"
    "length (e_fds (st w)) = EXT2_FD_COUNT" "ef_active f" "ef_writable f"
  shows "\<exists>r n w' f'. ext2_write_fd fd buf w = Some (r, w')
    \<and> r = (if n \<noteq> 0 \<or> buf = [] then int n else if 12 * bsz (st w) \<le> unat (ef_offset f) then EFBIG else ENOSPC)
    \<and> f' = e_fds (st w') ! ext2_slot fd \<and> n \<le> length buf
    \<and> file_ok w' ib base f' \<and> file_view w' f' = blit (unat (ef_offset f)) (take n buf) (file_view w f)
    \<and> unat (ef_offset f') = unat (ef_offset f) + n
    \<and> unat (ef_size f') = (if n = 0 then unat (ef_size f) else max (unat (ef_size f)) (unat (ef_offset f) + n))
    \<and> (n < length buf \<longrightarrow> 12 * bsz (st w) \<le> unat (ef_offset f) + n
         \<or> disk_full w' \<and> direct_blocks f' ! ((unat (ef_offset f) + n) div bsz (st w)) = 0)
    \<and> (\<forall>j < 12. direct_blocks f' ! j \<noteq> direct_blocks f ! j \<longrightarrow> direct_blocks f ! j = 0
         \<and> unat (ef_offset f) < (j + 1) * bsz (st w) \<and> j * bsz (st w) < unat (ef_offset f) + n)
    \<and> (\<forall>g < ngroups (st w). \<forall>k < bpg (st w). used w' g k \<longleftrightarrow> used w g k \<or> data_block (st w) g k \<in> nz f')
    \<and> core (st w') = core (st w) \<and> e_fds (st w') = (e_fds (st w))[ext2_slot fd := f']
    \<and> f' = f\<lparr>ef_offset := ef_offset f', ef_size := ef_size f', direct_blocks := direct_blocks f'\<rparr>
    \<and> (\<forall>p < bsz (st w). p \<notin> {base + 40..<base + 88} \<union> (if n = 0 then {} else {base + 4..<base + 20}) \<longrightarrow>
         blk w' ib ! p = blk w ib ! p)
    \<and> (n \<noteq> 0 \<longrightarrow> (\<forall>p \<in> {base + 8..<base + 20}. blk w' ib ! p = 0))
    \<and> (\<forall>b'. in_vol (st w) b' \<longrightarrow> b' \<notin> insert ib (meta (st w)) \<union> nz f' \<longrightarrow> blk w' b' = blk w b')"
proof -
  let ?i = "ext2_slot fd" and ?o = "unat (ef_offset f)"
  have i: "?i < length (e_fds (st w))" using assms(4,5) by (auto simp: is_ext2_fd_def ext2_slot_def)
  have geo: "geometry (st w)" "layout (st w)" using assms(1) by (simp_all add: file_ok_def alloc_inv_def layout_def)
  obtain n big w1 where W: "written ?i ib base buf 0 w n big w1"
    and call: "ext2_write_fd fd buf w = (if n = 0 then Some (if buf = [] then 0 else if big then EFBIG else ENOSPC, w1)
      else (let f1 = e_fds (st w1) ! ?i; off = ef_offset f1 + of_nat n; f2 = f1\<lparr>ef_offset := off\<rparr> in
        do { w2 \<leftarrow> (if off > ef_size f2 then map_option snd (update_inode_size (inode_no f2) off (set_fd ?i (f2\<lparr>ef_size := off\<rparr>) w1))
                    else Some (set_fd ?i f2 w1));
             (_, w3) \<leftarrow> update_inode_times (inode_no f2) w2; Some (int n, w3) }))"
    using write_fd_call [OF assms(1,2) refl i assms(3,4,6,7)] by blast
  have "\<exists>r n w' f'. ext2_write_fd fd buf w = Some (r, w')
    \<and> r = (if n \<noteq> 0 \<or> buf = [] then int n else if 12 * bsz (st w) \<le> ?o then EFBIG else ENOSPC)
    \<and> write_outcome ib base ?i w f buf n w' f'"
  proof (cases "n = 0")
    case True
    note F = written_facts [OF W assms(2) refl]
    let ?r = "if n \<noteq> 0 \<or> buf = [] then int n else if 12 * bsz (st w) \<le> ?o then EFBIG else ENOSPC"
    let ?f1 = "e_fds (st w1) ! ?i"
    have "?f1 = f\<lparr>ef_offset := ef_offset ?f1, ef_size := ef_size ?f1, direct_blocks := direct_blocks ?f1\<rparr>"
      using F(7,8,12) by simp
    moreover have "n < length buf \<longrightarrow> 12 * bsz (st w) \<le> ?o + n
        \<or> disk_full w1 \<and> direct_blocks ?f1 ! ((?o + n) div bsz (st w)) = 0" using F(6) by blast
    ultimately have o: "write_outcome ib base ?i w f buf n w1 ?f1"
      unfolding write_outcome_def using F(1,3,4,5,7,8,11,13-16) True by simp
    have "ext2_write_fd fd buf w = Some (?r, w1)"
    proof (cases "buf = []")
      case False
      then have "big = (12 * bsz (st w) \<le> ?o)" using F(6) True by simp
      then show ?thesis using call True False by simp
    qed (use call True in simp)
    then show ?thesis using o by blast
  next
    case False
    let ?f1 = "e_fds (st w1) ! ?i"
    let ?off = "ef_offset ?f1 + of_nat n"
    let ?f' = "?f1\<lparr>ef_offset := ?off, ef_size := (if ef_size ?f1 < ?off then ?off else ef_size ?f1)\<rparr>"
    obtain w2 w3 where S: "(if ef_size ?f1 < ?off then map_option snd (update_inode_size (inode_no ?f1) ?off (set_fd ?i ?f' w1)) else Some (set_fd ?i ?f' w1)) = Some w2"
        "update_inode_times (inode_no ?f1) w2 = Some (True, w3)" "write_outcome ib base ?i w f buf n w3 ?f'"
      using write_fd_stored [OF W assms(2) False geo] by blast
    have "ext2_write_fd fd buf w = Some (int n, w3)" using call False S(1,2) by (cases "ef_size ?f1 < ?off") (auto simp: Let_def)
    moreover have "int n = (if n \<noteq> 0 \<or> buf = [] then int n else if 12 * bsz (st w) \<le> ?o then EFBIG else ENOSPC)" using False by simp
    ultimately show ?thesis using S(3) by blast
  qed
  then show ?thesis unfolding write_outcome_def .
qed

section \<open>The file of the small volume\<close>

lemma demo_file_blocks: "direct_blocks demo_file = 6 # replicate 11 0" "nz demo_file = {6}"
  by (auto simp: demo_file_def nz_def)

lemma demo_location: "inode_location demo_state 3 = Some (Some (5, 256))"
  by (simp add: inode_location_def demo_state_def ext2_new_def)

lemma demo_file_ok: "file_ok demo_ext2 5 256 demo_file"
proof -
  have "used demo_ext2 0 k" if "k < 16" "data_block demo_state 0 k \<in> {5, 6}" for k
  proof -
    have "unat (data_block demo_state 0 k) \<le> 6" using that(2) by auto
    then show ?thesis using demo_data_block [OF that(1)] demo_used [of k] by simp
  qed
  then have "held demo_ext2 {5, 6}" by (simp add: held_def demo_fields)
  moreover have "disk_inode demo_ext2 5 256 demo_file"
    unfolding disk_inode_def
  proof (intro conjI allI impI)
    show "rd32 (blk demo_ext2 5) (256 + 4) = ef_size demo_file"
      by (simp add: demo_blk demo_sector_def demo_file_def rd32_def from_le32_def nth_append)
    fix j :: nat assume "j < 12"
    then show "rd32 (blk demo_ext2 5) (256 + 40 + j * 4) = direct_blocks demo_file ! j"
      by (cases j) (simp_all add: demo_blk demo_sector_def demo_file_def rd32_def from_le32_def nth_append)
  qed
  moreover have "placed demo_state 5 256 demo_file"
    unfolding placed_def demo_file_blocks
    by (auto simp: demo_file_def demo_location demo_fields demo_vol demo_meta nth_Cons' split: if_splits)
  ultimately show ?thesis by (simp add: file_ok_def demo_alloc_inv demo_fields demo_file_blocks)
qed

lemma demo_slot: "is_ext2_fd 80" "ext2_slot 80 = 0" "e_fds (st demo_ext2) ! ext2_slot 80 = demo_file"
  by (simp_all add: is_ext2_fd_def ext2_slot_def EXT2_FD_BASE_def EXT2_FD_COUNT_def demo_fields)

theorem ext2_read_fd_correct_witness:
  "\<exists>w'. ext2_read_fd 80 (replicate 6 1) demo_ext2 = Some (4, replicate 4 7 @ replicate 2 1, w')"
proof -
  have len: "length (file_view demo_ext2 demo_file) = 12288"
    using length_file_view [OF demo_geometry(3), of demo_file] by (simp add: demo_fields demo_file_blocks)
  have "file_view demo_ext2 demo_file = (replicate 512 7 @ replicate 512 0) @ concat (map (file_block demo_ext2) (replicate 11 0))"
    by (simp add: file_view_def demo_file_blocks file_block_def demo_blk demo_sector_def)
  then have pre: "take 4 (file_view demo_ext2 demo_file) = replicate 4 7" by simp
  have f: "ef_size demo_file = 4" "ef_offset demo_file = 0" "ef_active demo_file" "length (direct_blocks demo_file) = 12"
    by (simp_all add: demo_file_def)
  have "e_ready (st demo_ext2)" by (simp add: demo_fields)
  from ext2_read_fd_correct [OF demo_geometry(3) this demo_slot(1) demo_slot(3) [symmetric] f(3,4), of "replicate 6 1"]
  obtain w' where "ext2_read_fd 80 (replicate 6 1) demo_ext2
      = Some (4, blit 0 (take 4 (file_view demo_ext2 demo_file)) (replicate 6 1), w')"
    by (auto simp: Let_def f(1,2) demo_fields)
  then show ?thesis by (simp add: pre blit_def)
qed

theorem ext2_write_fd_correct_witness:
  "\<exists>w'. ext2_write_fd 80 [1, 2, 3] demo_ext2 = Some (3, w')
    \<and> file_view w' (e_fds (st w') ! 0) = blit 0 [1, 2, 3] (file_view demo_ext2 demo_file)
    \<and> direct_blocks (e_fds (st w') ! 0) ! 0 = 6 \<and> (\<forall>p < 256. blk w' 5 ! p = blk demo_ext2 5 ! p)"
proof -
  have a: "e_ready (st demo_ext2)" "length (e_fds (st demo_ext2)) = EXT2_FD_COUNT" "ef_active demo_file" "ef_writable demo_file"
    "ef_offset demo_file = 0" "bsz (st demo_ext2) = 1024" "direct_blocks demo_file ! 0 = 6"
    by (simp_all add: demo_fields demo_file_def EXT2_FD_COUNT_def)
  obtain r n w' f' where w: "ext2_write_fd 80 [1, 2, 3] demo_ext2 = Some (r, w')" "f' = e_fds (st w') ! ext2_slot 80"
    "n \<le> length [1, 2, 3 :: u8]" "file_view w' f' = blit (unat (ef_offset demo_file)) (take n [1, 2, 3]) (file_view demo_ext2 demo_file)"
    "r = (if n \<noteq> 0 \<or> [1, 2, 3 :: u8] = [] then int n else if 12 * bsz (st demo_ext2) \<le> unat (ef_offset demo_file) then EFBIG else ENOSPC)"
    "n < length [1, 2, 3 :: u8] \<longrightarrow> 12 * bsz (st demo_ext2) \<le> unat (ef_offset demo_file) + n
         \<or> disk_full w' \<and> direct_blocks f' ! ((unat (ef_offset demo_file) + n) div bsz (st demo_ext2)) = 0"
    "\<forall>j < 12. direct_blocks f' ! j \<noteq> direct_blocks demo_file ! j \<longrightarrow> direct_blocks demo_file ! j = 0
         \<and> unat (ef_offset demo_file) < (j + 1) * bsz (st demo_ext2) \<and> j * bsz (st demo_ext2) < unat (ef_offset demo_file) + n"
    "\<forall>p < bsz (st demo_ext2). p \<notin> {256 + 40..<256 + 88} \<union> (if n = 0 then {} else {256 + 4..<256 + 20}) \<longrightarrow>
         blk w' 5 ! p = blk demo_ext2 5 ! p"
    using ext2_write_fd_correct [OF demo_file_ok demo_slot(3) [symmetric] a(1) demo_slot(1) a(2-4), of "[1, 2, 3]"]
    by (elim exE conjE) (rule that; assumption)
  have block: "direct_blocks f' ! 0 = 6" using w(7) [rule_format, of 0] a(7) by auto
  then have n: "n = 3" using w(3,6) a(5,6) by auto
  then have "blk w' 5 ! p = blk demo_ext2 5 ! p" if "p < 256" for p using w(8) a(6) that by simp
  then show ?thesis using w(1,2,4,5) n block a(5) demo_slot(2) by (intro exI [of _ w']) simp
qed

end
